(* ===== verification/Prelude.thy ===== *)
theory Prelude
  imports Main "HOL-Library.Word" "HOL-Library.Sublist"
begin

text \<open>
  What every component of the development shares: the types that stand for Go's
  (\<open>uuid.UUID\<close>, \<open>time.Time\<close>, \<open>error\<close> results), operations that read and
  change a store and may fail, the model of one SQL statement against a database that may be
  down, SQL's \<open>ORDER BY\<close>, and the list and option lemmas that the component
  proofs use. The collections \<open>op_simps\<close> and \<open>vis_simps\<close> are filled by
  the components.
\<close>

named_theorems op_simps "unfolding of store operations"
named_theorems vis_simps "visibility predicates of the queries"

section \<open>Base types\<close>

text \<open>
  \<open>uuid.UUID\<close> is \<open>[16]byte\<close>. A \<open>time.Time\<close> is an instant, in nanoseconds
  since the Unix epoch (every comparison of the code compares instants). A Go function that
  returns \<open>(x, error)\<close> returns a value of \<open>'e + 'a\<close>: \<open>Inl\<close> the error,
  \<open>Inr\<close> the result.
\<close>

type_synonym uuid = "128 word"
type_synonym time = int

definition microsecond :: time where "microsecond = 1000"
definition millisecond :: time where "millisecond = 1000 * microsecond"
definition second :: time where "second = 1000 * millisecond"
definition minute :: time where "minute = 60 * second"
definition hour :: time where "hour = 60 * minute"

lemmas duration_defs = microsecond_def millisecond_def second_def minute_def hour_def

abbreviation is_Inl :: "'e + 'a \<Rightarrow> bool" where "is_Inl \<equiv> isl"
abbreviation is_Inr :: "'e + 'a \<Rightarrow> bool" where "is_Inr r \<equiv> \<not> isl r"

section \<open>Operations on a store that may fail\<close>

type_synonym ('s, 'e, 'a) oper = "'s \<Rightarrow> ('e + 'a) \<times> 's"

definition op_ret :: "'a \<Rightarrow> ('s, 'e, 'a) oper" where
  "op_ret x = (\<lambda>s. (Inr x, s))"

definition op_fail :: "'e \<Rightarrow> ('s, 'e, 'a) oper" where
  "op_fail e = (\<lambda>s. (Inl e, s))"

definition op_bind :: "('s, 'e, 'a) oper \<Rightarrow> ('a \<Rightarrow> ('s, 'e, 'b) oper) \<Rightarrow> ('s, 'e, 'b) oper" where
  "op_bind m f = (\<lambda>s. case m s of (Inl e, s') \<Rightarrow> (Inl e, s') | (Inr x, s') \<Rightarrow> f x s')"

text \<open>\<open>op_try m h f\<close> is Go's \<open>x, err := m(); if err != nil {h(err)} else {f(x)}\<close>.\<close>

definition op_try ::
  "('s, 'e, 'a) oper \<Rightarrow> ('e \<Rightarrow> ('s, 'f, 'b) oper) \<Rightarrow> ('a \<Rightarrow> ('s, 'f, 'b) oper) \<Rightarrow> ('s, 'f, 'b) oper" where
  "op_try m h f = (\<lambda>s. case m s of (Inl e, s') \<Rightarrow> h e s' | (Inr x, s') \<Rightarrow> f x s')"

definition op_of :: "'e + 'a \<Rightarrow> ('s, 'e, 'a) oper" where
  "op_of r = (\<lambda>s. (r, s))"

lemma op_ret_apply [simp]: "op_ret x s = (Inr x, s)"
  by (simp add: op_ret_def)

lemma op_fail_apply [simp]: "op_fail e s = (Inl e, s)"
  by (simp add: op_fail_def)

lemma op_of_apply [simp]: "op_of r s = (r, s)"
  by (simp add: op_of_def)

lemma op_bind_ret [simp]: "op_bind (op_ret x) f = f x"
  by (simp add: op_bind_def)

lemma op_bind_fail [simp]: "op_bind (op_fail e) f = op_fail e"
  by (rule ext) (simp add: op_bind_def)

lemma op_bind_of_Inl [simp]: "op_bind (op_of (Inl e)) f = op_fail e"
  by (rule ext) (simp add: op_bind_def)

lemma op_bind_of_Inr [simp]: "op_bind (op_of (Inr x)) f = f x"
  by (rule ext) (simp add: op_bind_def)

lemma op_bind_Inr_iff:
  "op_bind m f s = (Inr y, s'') \<longleftrightarrow> (\<exists>x s'. m s = (Inr x, s') \<and> f x s' = (Inr y, s''))"
  by (auto simp: op_bind_def split: prod.splits sum.splits)

lemma op_bind_Inl_iff:
  "op_bind m f s = (Inl e, s'') \<longleftrightarrow>
     m s = (Inl e, s'') \<or> (\<exists>x s'. m s = (Inr x, s') \<and> f x s' = (Inl e, s''))"
  by (auto simp: op_bind_def split: prod.splits sum.splits)

lemma op_try_cases:
  "op_try m h f s = (r, s'') \<longleftrightarrow>
     (\<exists>e s'. m s = (Inl e, s') \<and> h e s' = (r, s'')) \<or>
     (\<exists>x s'. m s = (Inr x, s') \<and> f x s' = (r, s''))"
  by (auto simp: op_try_def split: prod.splits sum.splits)

lemma op_bindE:
  assumes "op_bind m f s = (r, s'')"
  obtains e where "m s = (Inl e, s'')" and "r = Inl e"
    | x s' where "m s = (Inr x, s')" and "f x s' = (r, s'')"
  using assms by (auto simp: op_bind_def split: prod.splits sum.splits)

lemma op_tryE:
  assumes "op_try m h f s = (r, s'')"
  obtains e s' where "m s = (Inl e, s')" and "h e s' = (r, s'')"
    | x s' where "m s = (Inr x, s')" and "f x s' = (r, s'')"
  using assms by (auto simp: op_try_def split: prod.splits sum.splits)

lemmas op_iffs = op_bind_Inr_iff op_bind_Inl_iff op_try_cases

section \<open>A database and its statements\<close>

text \<open>
  \<open>world\<close> is a database as the process sees it: the tables, and a schedule of outages.
  The schedule says, for the n-th statement that is sent, whether it fails (connection lost,
  statement timeout); every theorem holds for every schedule. A statement that fails changes
  no table.
\<close>

record 'd world =
  tables :: 'd
  outage :: "nat \<Rightarrow> bool"
  nstmts :: nat

definition stmt :: "'e \<Rightarrow> ('d \<Rightarrow> ('e + 'a) \<times> 'd) \<Rightarrow> ('d world, 'e, 'a) oper" where
  "stmt infra q w =
     (if outage w (nstmts w) then (Inl infra, w\<lparr>nstmts := Suc (nstmts w)\<rparr>)
      else (case q (tables w) of
              (Inl e, d) \<Rightarrow> (Inl e, w\<lparr>nstmts := Suc (nstmts w)\<rparr>)
            | (Inr x, d) \<Rightarrow> (Inr x, w\<lparr>tables := d, nstmts := Suc (nstmts w)\<rparr>)))"

definition query :: "'e \<Rightarrow> ('d \<Rightarrow> 'e + 'a) \<Rightarrow> ('d world, 'e, 'a) oper" where
  "query infra q = stmt infra (\<lambda>d. (q d, d))"

text \<open>
  \<open>BEGIN ... COMMIT\<close> with the deferred \<open>Rollback\<close>: the tables of a transaction
  that fails anywhere are those it started from.
\<close>

definition txn :: "('d world, 'e, 'a) oper \<Rightarrow> ('d world, 'e, 'a) oper" where
  "txn m w = (case m w of
     (Inl e, w') \<Rightarrow> (Inl e, w'\<lparr>tables := tables w\<rparr>)
   | (Inr x, w') \<Rightarrow> (Inr x, w'))"

lemma query_Inr:
  "query infra q w = (Inr x, w') \<longleftrightarrow>
     \<not> outage w (nstmts w) \<and> q (tables w) = Inr x \<and> w' = w\<lparr>nstmts := Suc (nstmts w)\<rparr>"
  by (auto simp: query_def stmt_def split: sum.splits)

lemma query_Inl:
  "query infra q w = (Inl e, w') \<longleftrightarrow>
     (outage w (nstmts w) \<and> e = infra \<or> \<not> outage w (nstmts w) \<and> q (tables w) = Inl e)
     \<and> w' = w\<lparr>nstmts := Suc (nstmts w)\<rparr>"
  by (auto simp: query_def stmt_def split: sum.splits)

lemma stmt_Inr:
  "stmt infra q w = (Inr x, w') \<longleftrightarrow>
     \<not> outage w (nstmts w) \<and> (\<exists>d. q (tables w) = (Inr x, d) \<and> w' = w\<lparr>tables := d, nstmts := Suc (nstmts w)\<rparr>)"
  by (auto simp: stmt_def split: sum.splits prod.splits)

lemma stmt_Inl:
  "stmt infra q w = (Inl e, w') \<longleftrightarrow>
     (outage w (nstmts w) \<and> e = infra \<or> \<not> outage w (nstmts w) \<and> (\<exists>d. q (tables w) = (Inl e, d)))
     \<and> w' = w\<lparr>nstmts := Suc (nstmts w)\<rparr>"
  by (auto simp: stmt_def split: sum.splits prod.splits)

lemmas stmt_iffs = query_Inr query_Inl stmt_Inr stmt_Inl

lemma query_tables [simp]: "tables (snd (query infra q w)) = tables w"
  by (simp add: query_def stmt_def split: sum.splits)

lemma query_outage [simp]: "outage (snd (query infra q w)) = outage w"
  by (simp add: query_def stmt_def split: sum.splits)

lemma query_dbD: "query infra q w = (r, w') \<Longrightarrow> tables w' = tables w"
  using query_tables by (metis snd_conv)

lemma txn_Inl_db: "txn m w = (Inl e, w') \<Longrightarrow> tables w' = tables w"
  by (auto simp: txn_def split: prod.splits sum.splits)

lemma txn_Inr: "txn m w = (Inr x, w') \<longleftrightarrow> m w = (Inr x, w')"
  by (auto simp: txn_def split: prod.splits sum.splits)

definition live :: "'d \<Rightarrow> 'd world" where
  "live d = \<lparr>tables = d, outage = (\<lambda>_. False), nstmts = 0\<rparr>"

lemma live_simps [simp]: "tables (live d) = d" "outage (live d) n = False" "nstmts (live d) = 0"
  by (simp_all add: live_def)

section \<open>Triples\<close>

text \<open>
  \<open>triple P m Q\<close>: started on tables that satisfy \<open>P\<close>, the operation ends with a result
  and tables that satisfy \<open>Q\<close>, whichever statements fail. The rules follow the program text;
  \<open>keeps I m\<close> is an invariant of the tables.
\<close>

definition triple ::
  "('d \<Rightarrow> bool) \<Rightarrow> ('d world, 'e, 'a) oper \<Rightarrow> ('e + 'a \<Rightarrow> 'd \<Rightarrow> bool) \<Rightarrow> bool" where
  "triple P m Q \<longleftrightarrow> (\<forall>w r w'. P (tables w) \<longrightarrow> m w = (r, w') \<longrightarrow> Q r (tables w'))"

definition keeps :: "('d \<Rightarrow> bool) \<Rightarrow> ('d world, 'e, 'a) oper \<Rightarrow> bool" where
  "keeps I m \<longleftrightarrow> triple I m (\<lambda>_. I)"

lemma tripleD: "triple P m Q \<Longrightarrow> m w = (r, w') \<Longrightarrow> P (tables w) \<Longrightarrow> Q r (tables w')"
  by (simp add: triple_def)

lemma keepsD: "keeps I m \<Longrightarrow> m w = (r, w') \<Longrightarrow> I (tables w) \<Longrightarrow> I (tables w')"
  by (simp add: keeps_def triple_def)

lemma keeps_snd: "keeps I m \<Longrightarrow> I (tables w) \<Longrightarrow> I (tables (snd (m w)))"
  by (metis keepsD prod.collapse)

lemma triple_conseq:
  assumes "triple P m Q" and "\<And>d. P' d \<Longrightarrow> P d" and "\<And>r d. Q r d \<Longrightarrow> Q' r d"
  shows "triple P' m Q'"
  using assms unfolding triple_def by blast

lemma triple_ret: "(\<And>d. P d \<Longrightarrow> Q (Inr x) d) \<Longrightarrow> triple P (op_ret x) Q"
  by (simp add: triple_def)

lemma triple_fail: "(\<And>d. P d \<Longrightarrow> Q (Inl e) d) \<Longrightarrow> triple P (op_fail e) Q"
  by (simp add: triple_def)

lemma triple_bind:
  assumes "triple P m (\<lambda>r d. case r of Inl e \<Rightarrow> Q (Inl e) d | Inr x \<Rightarrow> R x d)"
    and "\<And>x. triple (R x) (f x) Q"
  shows "triple P (op_bind m f) Q"
  using assms unfolding triple_def by (fastforce elim!: op_bindE)

lemma triple_stmt:
  assumes "\<And>d. P d \<Longrightarrow> Q (Inl infra) d"
    and "\<And>d x d'. P d \<Longrightarrow> q d = (Inr x, d') \<Longrightarrow> Q (Inr x) d'"
    and "\<And>d e d'. P d \<Longrightarrow> q d = (Inl e, d') \<Longrightarrow> Q (Inl e) d"
  shows "triple P (stmt infra q) Q"
  using assms unfolding triple_def by (auto simp: stmt_def split: if_splits sum.splits prod.splits)

lemma triple_query:
  assumes "\<And>d. P d \<Longrightarrow> Q (Inl infra) d"
    and "\<And>d. P d \<Longrightarrow> Q (q d) d"
  shows "triple P (query infra q) Q"
  unfolding query_def by (rule triple_stmt) (use assms in force)+

lemma keeps_ret [intro]: "keeps I (op_ret x)"
  by (simp add: keeps_def triple_ret)

lemma keeps_fail [intro]: "keeps I (op_fail e)"
  by (simp add: keeps_def triple_fail)

lemma keeps_of [intro]: "keeps I (op_of r)"
  by (simp add: keeps_def triple_def)

lemma keepsI: "(\<And>w r w'. m w = (r, w') \<Longrightarrow> I (tables w) \<Longrightarrow> I (tables w')) \<Longrightarrow> keeps I m"
  by (auto simp: keeps_def triple_def)

lemma keeps_bind [intro]:
  assumes "keeps I m" and "\<And>x. keeps I (f x)"
  shows "keeps I (op_bind m f)"
  by (rule keepsI, erule op_bindE) (simp_all add: keepsD [OF assms(1)] keepsD [OF assms(2)])

lemma keeps_try [intro]:
  assumes "keeps I m" and "\<And>e. keeps I (h e)" and "\<And>x. keeps I (f x)"
  shows "keeps I (op_try m h f)"
  by (rule keepsI, erule op_tryE)
    (simp_all add: keepsD [OF assms(1)] keepsD [OF assms(2)] keepsD [OF assms(3)])

lemma keeps_query [intro]: "keeps I (query infra q)"
  by (simp add: keeps_def triple_query)

lemma keeps_stmt: "(\<And>d x d'. I d \<Longrightarrow> q d = (Inr x, d') \<Longrightarrow> I d') \<Longrightarrow> keeps I (stmt infra q)"
  unfolding keeps_def by (rule triple_stmt) auto

lemma keeps_txn [intro]: "keeps I m \<Longrightarrow> keeps I (txn m)"
  unfolding keeps_def triple_def txn_def by (fastforce split: prod.splits sum.splits)

lemma keeps_if [intro]: "(b \<Longrightarrow> keeps I m) \<Longrightarrow> (\<not> b \<Longrightarrow> keeps I n) \<Longrightarrow> keeps I (if b then m else n)"
  by simp

lemma keeps_Let [intro]: "(\<And>x. keeps I (f x)) \<Longrightarrow> keeps I (let x = y in f x)"
  by (simp add: Let_def)

text \<open>A read-only operation keeps everything.\<close>

definition read_only :: "('d world, 'e, 'a) oper \<Rightarrow> bool" where
  "read_only m \<longleftrightarrow> (\<forall>w. tables (snd (m w)) = tables w)"

lemma read_only_query [intro, simp]: "read_only (query infra q)"
  by (simp add: read_only_def)

lemma read_only_ret [intro, simp]: "read_only (op_ret x)"
  by (simp add: read_only_def)

lemma read_only_fail [intro, simp]: "read_only (op_fail e)"
  by (simp add: read_only_def)

lemma read_only_of [intro, simp]: "read_only (op_of e)"
  by (simp add: read_only_def)

lemma read_onlyD: "read_only m \<Longrightarrow> m w = (r, w') \<Longrightarrow> tables w' = tables w"
  unfolding read_only_def by (metis snd_conv)

lemma read_onlyI: "(\<And>w r w'. m w = (r, w') \<Longrightarrow> tables w' = tables w) \<Longrightarrow> read_only m"
  unfolding read_only_def by (metis prod.collapse)

lemma read_only_bind [intro]:
  assumes "read_only m" and "\<And>x. read_only (f x)"
  shows "read_only (op_bind m f)"
  by (rule read_onlyI, erule op_bindE)
    (auto dest!: read_onlyD [OF assms(1)] read_onlyD [OF assms(2)])

lemma read_only_try [intro]:
  assumes "read_only m" and "\<And>e. read_only (h e)" and "\<And>x. read_only (f x)"
  shows "read_only (op_try m h f)"
  by (rule read_onlyI, erule op_tryE)
    (auto dest!: read_onlyD [OF assms(1)] read_onlyD [OF assms(2)] read_onlyD [OF assms(3)])

lemma read_only_if [intro]: "read_only m \<Longrightarrow> read_only n \<Longrightarrow> read_only (if b then m else n)"
  by simp

lemma read_only_keeps: "read_only m \<Longrightarrow> keeps I m"
  unfolding read_only_def keeps_def triple_def by (metis snd_conv)

section \<open>Lists\<close>

text \<open>\<open>ORDER BY k DESC\<close>: rows sorted by a key, equal keys in table order.\<close>

definition sort_desc :: "('a \<Rightarrow> int) \<Rightarrow> 'a list \<Rightarrow> 'a list" where
  "sort_desc k xs = sort_key (\<lambda>x. - k x) xs"

lemma set_sort_desc [simp]: "set (sort_desc k xs) = set xs"
  by (simp add: sort_desc_def)

lemma length_sort_desc [simp]: "length (sort_desc k xs) = length xs"
  by (simp add: sort_desc_def)

lemma sorted_sort_desc: "sorted (map (\<lambda>x. - k x) (sort_desc k xs))"
  by (simp add: sort_desc_def)

text \<open>\<open>LIMIT 1\<close> and \<open>pgx.ErrNoRows\<close>.\<close>

fun first_row :: "'e \<Rightarrow> 'a list \<Rightarrow> 'e + 'a" where
  "first_row e [] = Inl e"
| "first_row e (x # xs) = Inr x"

lemma first_row_Inr: "first_row e xs = Inr x \<longleftrightarrow> (\<exists>ys. xs = x # ys)"
  by (cases xs) auto

lemma first_row_Inl: "first_row e xs = Inl f \<longleftrightarrow> xs = [] \<and> f = e"
  by (cases xs) auto

lemma first_row_mem: "first_row e xs = Inr x \<Longrightarrow> x \<in> set xs"
  by (cases xs) auto

text \<open>\<open>UPDATE t SET f WHERE p\<close> with its affected rows.\<close>

definition update_where :: "('a \<Rightarrow> bool) \<Rightarrow> ('a \<Rightarrow> 'a) \<Rightarrow> 'a list \<Rightarrow> 'a list" where
  "update_where p f xs = map (\<lambda>x. if p x then f x else x) xs"

lemma update_where_Nil [simp]: "update_where p f [] = []"
  by (simp add: update_where_def)

lemma update_where_Cons [simp]:
  "update_where p f (x # xs) = (if p x then f x else x) # update_where p f xs"
  by (simp add: update_where_def)

lemma length_update_where [simp]: "length (update_where p f xs) = length xs"
  by (simp add: update_where_def)

lemma in_update_where:
  "y \<in> set (update_where p f xs) \<longleftrightarrow> (\<exists>x \<in> set xs. y = (if p x then f x else x))"
  by (auto simp: update_where_def)

lemma update_where_done:
  "(\<And>x. p x \<Longrightarrow> \<not> p (f x)) \<Longrightarrow> y \<in> set (update_where p f xs) \<Longrightarrow> \<not> p y"
  by (induction xs) (auto split: if_splits)

lemma filter_key_unique:
  "distinct (map k xs) \<Longrightarrow> x \<in> set xs \<Longrightarrow> P x \<Longrightarrow> filter (\<lambda>y. k y = k x \<and> P y) xs = [x]"
  by (induction xs) (auto simp: filter_empty_conv image_iff)

lemma update_where_none: "filter p xs = [] \<Longrightarrow> update_where p f xs = xs"
  by (induction xs) (auto split: if_splits)

lemma map_update_where_inv:
  "(\<And>x. g (f x) = g x) \<Longrightarrow> map g (update_where p f xs) = map g xs"
  by (induction xs) auto

lemma filter_update_where_other:
  assumes "\<And>x. p x \<Longrightarrow> \<not> q x" and "\<And>x. p x \<Longrightarrow> \<not> q (f x)"
  shows "filter q (update_where p f xs) = filter q xs"
  using assms by (induction xs) auto

lemma length_filter_le_imp:
  "(\<And>x. x \<in> set xs \<Longrightarrow> p x \<Longrightarrow> q x) \<Longrightarrow> length (filter p xs) \<le> length (filter q xs)"
  by (induction xs) auto

section \<open>Pointers to optional fields\<close>

text \<open>\<open>COALESCE\<close>, and the assignment of a field whose new value is a pointer.\<close>

fun coalesce :: "'a option list \<Rightarrow> 'a option" where
  "coalesce [] = None"
| "coalesce (Some x # _) = Some x"
| "coalesce (None # xs) = coalesce xs"

definition opt_or :: "'a option \<Rightarrow> 'a \<Rightarrow> 'a" where
  "opt_or v d = (case v of None \<Rightarrow> d | Some x \<Rightarrow> x)"

lemma opt_or_simps [simp]: "opt_or None d = d" "opt_or (Some x) d = x"
  by (simp_all add: opt_or_def)

end
