(* ===== verification/GoStd.thy ===== *)
theory GoStd
  imports Prelude
begin

text \<open>
  The parts of Go's standard library that the modelled code computes with. A Go string is a
  sequence of bytes, and so is a \<open>string\<close> of Isabelle: \<open>length\<close> is Go's \<open>len\<close>,
  equality is Go's \<open>==\<close>. \<open>trim_space\<close> is \<open>strings.TrimSpace\<close>,
  \<open>parse_int64\<close> is \<open>strconv.ParseInt(s, 10, 64)\<close>, \<open>cut_prefix\<close> and
  \<open>split_2\<close> are \<open>strings.CutPrefix\<close> and \<open>strings.SplitN(s, sep, 2)\<close>, and
  \<open>json\<close> is the value of a JSON text whose numbers keep their literal.
\<close>

section \<open>strings.TrimSpace\<close>

text \<open>The UTF-8 encodings of the runes for which \<open>unicode.IsSpace\<close> holds.\<close>

definition spaces :: "string list" where
  "spaces =
     [[CHR 0x09], [CHR 0x0A], [CHR 0x0B], [CHR 0x0C], [CHR 0x0D], [CHR 0x20],
      [CHR 0xC2, CHR 0x85], [CHR 0xC2, CHR 0xA0], [CHR 0xE1, CHR 0x9A, CHR 0x80],
      [CHR 0xE2, CHR 0x80, CHR 0x80], [CHR 0xE2, CHR 0x80, CHR 0x81], [CHR 0xE2, CHR 0x80, CHR 0x82],
      [CHR 0xE2, CHR 0x80, CHR 0x83], [CHR 0xE2, CHR 0x80, CHR 0x84], [CHR 0xE2, CHR 0x80, CHR 0x85],
      [CHR 0xE2, CHR 0x80, CHR 0x86], [CHR 0xE2, CHR 0x80, CHR 0x87], [CHR 0xE2, CHR 0x80, CHR 0x88],
      [CHR 0xE2, CHR 0x80, CHR 0x89], [CHR 0xE2, CHR 0x80, CHR 0x8A], [CHR 0xE2, CHR 0x80, CHR 0xA8],
      [CHR 0xE2, CHR 0x80, CHR 0xA9], [CHR 0xE2, CHR 0x80, CHR 0xAF], [CHR 0xE2, CHR 0x81, CHR 0x9F],
      [CHR 0xE3, CHR 0x80, CHR 0x80]]"

lemma Nil_not_space [simp]: "[] \<notin> set spaces"
  by (simp add: spaces_def)

fun strip_first :: "string list \<Rightarrow> string \<Rightarrow> string option" where
  "strip_first [] s = None"
| "strip_first (p # ps) s = (if prefix p s then Some (drop (length p) s) else strip_first ps s)"

lemma strip_first_Some:
  "strip_first ps s = Some r \<Longrightarrow> \<exists>p \<in> set ps. s = p @ r"
  by (induction ps) (auto simp: prefix_def split: if_splits)

lemma strip_first_None: "strip_first ps s = None \<longleftrightarrow> (\<forall>p \<in> set ps. \<not> prefix p s)"
  by (induction ps) auto

lemma strip_first_shorter:
  "strip_first ps s = Some r \<Longrightarrow> [] \<notin> set ps \<Longrightarrow> length r < length s"
  by (auto dest!: strip_first_Some)

function strip_all :: "string list \<Rightarrow> string \<Rightarrow> string" where
  "strip_all ps s =
     (if [] \<in> set ps then s
      else case strip_first ps s of None \<Rightarrow> s | Some r \<Rightarrow> strip_all ps r)"
  by pat_completeness auto
termination
  by (relation "measure (\<lambda>(ps, s). length s)") (auto dest: strip_first_shorter)

declare strip_all.simps [simp del]

lemma strip_all_None: "strip_first ps s = None \<Longrightarrow> strip_all ps s = s"
  by (subst strip_all.simps) simp

lemma strip_first_strip_all:
  "[] \<notin> set ps \<Longrightarrow> strip_first ps (strip_all ps s) = None"
proof (induction ps s rule: strip_all.induct)
  case (1 ps s)
  show ?case
  proof (cases "strip_first ps s")
    case None
    then show ?thesis by (simp add: strip_all_None)
  next
    case (Some r)
    with 1 show ?thesis by (subst strip_all.simps) simp
  qed
qed

lemma strip_all_suffix: "suffix (strip_all ps s) s"
proof (induction ps s rule: strip_all.induct)
  case (1 ps s)
  show ?case
  proof (cases "strip_first ps s")
    case None
    then show ?thesis by (simp add: strip_all_None)
  next
    case (Some r)
    then obtain p where "s = p @ r" by (auto dest: strip_first_Some)
    with 1 Some show ?thesis
      by (subst strip_all.simps) (auto intro: suffix_appendI)
  qed
qed

definition trim_left :: "string \<Rightarrow> string" where
  "trim_left s = strip_all spaces s"

definition trim_right :: "string \<Rightarrow> string" where
  "trim_right s = rev (strip_all (map rev spaces) (rev s))"

definition trim_space :: "string \<Rightarrow> string" where
  "trim_space s = trim_right (trim_left s)"

lemma Nil_not_rev_space [simp]: "[] \<notin> rev ` set spaces"
  by (simp add: spaces_def)

lemma trim_right_prefix: "prefix (trim_right s) s"
  using strip_all_suffix [of "map rev spaces" "rev s"]
  by (simp add: trim_right_def suffix_to_prefix)

text \<open>Trimming is idempotent: neither end of a trimmed string starts with a space.\<close>

lemma trim_right_idem: "trim_right (trim_right s) = trim_right s"
  by (simp add: trim_right_def strip_all_None strip_first_strip_all)

lemma trim_left_trim_right:
  "strip_first spaces s = None \<Longrightarrow> trim_left (trim_right s) = trim_right s"
  unfolding trim_left_def
  by (rule strip_all_None) (meson prefix_order.trans strip_first_None trim_right_prefix)

lemma trim_space_idem [simp]: "trim_space (trim_space s) = trim_space s"
proof -
  have "strip_first spaces (trim_left s) = None"
    by (simp add: trim_left_def strip_first_strip_all)
  then show ?thesis
    by (simp add: trim_space_def trim_left_trim_right trim_right_idem)
qed

lemma trim_space_id:
  "strip_first spaces s = None \<Longrightarrow> strip_first (map rev spaces) (rev s) = None \<Longrightarrow> trim_space s = s"
  by (simp add: trim_space_def trim_left_def trim_right_def strip_all_None)

section \<open>strconv.ParseInt\<close>

definition is_digit :: "char \<Rightarrow> bool" where
  "is_digit c \<longleftrightarrow> 48 \<le> (of_char c :: nat) \<and> (of_char c :: nat) \<le> 57"

fun dec_val :: "nat \<Rightarrow> string \<Rightarrow> nat option" where
  "dec_val n [] = Some n"
| "dec_val n (c # cs) = (if is_digit c then dec_val (10 * n + (of_char c - 48)) cs else None)"

definition parse_int64 :: "string \<Rightarrow> int option" where
  "parse_int64 s =
     (let neg = (prefix ''-'' s); ds = (if neg \<or> prefix ''+'' s then tl s else s)
      in if ds = [] then None
         else case dec_val 0 ds of
                None \<Rightarrow> None
              | Some n \<Rightarrow>
                  if neg then (if n \<le> 2 ^ 63 then Some (- int n) else None)
                  else (if n < 2 ^ 63 then Some (int n) else None))"

lemma parse_int64_bounds: "parse_int64 s = Some n \<Longrightarrow> - (2 ^ 63) \<le> n \<and> n < 2 ^ 63"
  by (auto simp: parse_int64_def Let_def split: if_splits option.splits)

section \<open>Other functions of package strings\<close>

definition cut_prefix :: "string \<Rightarrow> string \<Rightarrow> string option" where
  "cut_prefix s p = (if prefix p s then Some (drop (length p) s) else None)"

lemma cut_prefix_append [simp]: "cut_prefix (p @ s) p = Some s"
  by (simp add: cut_prefix_def)

lemma cut_prefix_Some: "cut_prefix s p = Some r \<longleftrightarrow> s = p @ r"
  by (auto simp: cut_prefix_def prefix_def)

text \<open>\<open>SplitN(s, [sep], 2)\<close>: None when there is one part only.\<close>

fun split_2 :: "string \<Rightarrow> char \<Rightarrow> (string \<times> string) option" where
  "split_2 [] sep = None"
| "split_2 (c # cs) sep =
     (if c = sep then Some ([], cs) else map_option (\<lambda>(a, b). (c # a, b)) (split_2 cs sep))"

lemma split_2_append: "sep \<notin> set a \<Longrightarrow> split_2 (a @ sep # b) sep = Some (a, b)"
  by (induction a) auto

lemma split_2_Some: "split_2 s sep = Some (a, b) \<Longrightarrow> s = a @ sep # b \<and> sep \<notin> set a"
  by (induction s arbitrary: a) (auto split: if_splits)

section \<open>encoding/hex\<close>

definition hex_char :: "nat \<Rightarrow> char" where
  "hex_char n = char_of (if n < 10 then 48 + n else 87 + n)"

fun hex_encode :: "string \<Rightarrow> string" where
  "hex_encode [] = []"
| "hex_encode (c # cs) = hex_char (of_char c div 16) # hex_char (of_char c mod 16) # hex_encode cs"

lemma length_hex_encode [simp]: "length (hex_encode bs) = 2 * length bs"
  by (induction bs) auto

section \<open>encoding/json\<close>

text \<open>
  The value of a JSON text. A number keeps its literal (the code decides itself how to read
  it), an object its members in the order of the text, repeated keys included.
\<close>

datatype json =
    JNull
  | JBool bool
  | JNum string
  | JStr string
  | JArr "json list"
  | JObj "(string \<times> json) list"

text \<open>
  The text of a \<open>json.RawMessage\<close>. For a number, a boolean and null it is the literal. For a
  string, an array and an object only the first byte is rendered: no caller reads past it.
\<close>

fun raw_text :: "json \<Rightarrow> string" where
  "raw_text JNull = ''null''"
| "raw_text (JBool b) = (if b then ''true'' else ''false'')"
| "raw_text (JNum lit) = lit"
| "raw_text (JStr _) = [CHR 0x22]"
| "raw_text (JArr _) = ''[''"
| "raw_text (JObj _) = ''{''"

text \<open>
  The key folding of \<open>encoding/json\<close>: an object key selects the field whose name it folds to.
  ASCII letters fold to upper case, and the long s (U+017F) and the Kelvin sign (U+212A) to
  S and K.
\<close>

definition upper_byte :: "char \<Rightarrow> char" where
  "upper_byte c = (if 97 \<le> (of_char c :: nat) \<and> (of_char c :: nat) \<le> 122
                   then char_of ((of_char c :: nat) - 32) else c)"

fun fold_name :: "string \<Rightarrow> string" where
  "fold_name [] = []"
| "fold_name (c # cs) =
     (if prefix [CHR 0xC5, CHR 0xBF] (c # cs) then CHR ''S'' # fold_name (tl cs)
      else if prefix [CHR 0xE2, CHR 0x84, CHR 0xAA] (c # cs)
        then CHR ''K'' # fold_name (tl (tl cs))
      else upper_byte c # fold_name cs)"

text \<open>
  A JSON number decoded into \<open>any\<close> becomes a float64, and the decode fails when its
  magnitude rounds to infinity: from \<open>2 ^ 1024 - 2 ^ 970\<close> on. \<open>num_parts\<close> reads
  the literal as digits times a power of ten.
\<close>

fun split_at_first :: "(char \<Rightarrow> bool) \<Rightarrow> string \<Rightarrow> string \<times> string option" where
  "split_at_first p [] = ([], None)"
| "split_at_first p (c # cs) =
     (if p c then ([], Some cs) else let (a, b) = split_at_first p cs in (c # a, b))"

definition num_parts :: "string \<Rightarrow> (nat \<times> int) option" where
  "num_parts lit =
     (let s = (if prefix ''-'' lit then tl lit else lit);
          (mant, ex) = split_at_first (\<lambda>c. c = CHR ''e'' \<or> c = CHR ''E'') s;
          (ip, fp) = split_at_first (\<lambda>c. c = CHR ''.'') mant;
          frac = opt_or fp [];
          exs = opt_or ex ''0'';
          eneg = prefix ''-'' exs;
          eds = (if eneg \<or> prefix ''+'' exs then tl exs else exs)
      in if ip = [] \<or> eds = [] then None
         else case (dec_val 0 (ip @ frac), dec_val 0 eds) of
                (Some m, Some e) \<Rightarrow>
                  Some (m, (if eneg then - int e else int e) - int (length frac))
              | _ \<Rightarrow> None)"

definition float64_limit :: nat where
  "float64_limit = 2 ^ 1024 - 2 ^ 970"

definition float64_fits :: "string \<Rightarrow> bool" where
  "float64_fits lit =
     (case num_parts lit of
        None \<Rightarrow> False
      | Some (m, e) \<Rightarrow>
          m = 0 \<or> (if 0 \<le> e then m * 10 ^ nat e < float64_limit
                    else m < float64_limit * 10 ^ nat (- e)))"

text \<open>Whether a value decodes into \<open>any\<close>.\<close>

fun any_decodes :: "json \<Rightarrow> bool" where
  "any_decodes (JNum lit) = float64_fits lit"
| "any_decodes (JArr xs) = list_all any_decodes xs"
| "any_decodes (JObj kvs) = list_all (\<lambda>(k, v). any_decodes v) kvs"
| "any_decodes _ = True"

section \<open>Characters\<close>

text \<open>Postgres counts the characters of a text, Go its bytes: the bytes of a UTF-8 text that are no
  continuation bytes.\<close>

definition char_length :: "string \<Rightarrow> nat" where
  "char_length s = length (filter (\<lambda>c. (of_char c :: nat) div 64 \<noteq> 2) s)"

end
