(* ===== verification/Ingest.thy ===== *)
theory Ingest
  imports GoStd "HOL-Library.AList" "HOL-Library.Multiset"
begin

text \<open>
  The ingestion of measurement batches: \<open>internal/domain/ingest\<close> (types and codes of the
  contract with the Edge) and \<open>internal/app/ingest\<close> (\<open>ValidateEvent\<close> and
  \<open>Service.IngestBatch\<close>). The repository is the parameter \<open>InsertMany\<close>, the
  recorder of device activity the parameter \<open>touch\<close> (None when it is nil) and
  \<open>time.Parse(time.RFC3339, _)\<close> the parameter \<open>parse_ts\<close>. Log lines and metrics
  are not modelled.
\<close>

section \<open>Domain types\<close>

datatype event_code = DUPLICATE | INVALID_SCHEMA | VALIDATION_FAILED | STORAGE_UNAVAILABLE

text \<open>A message is its format and the arguments it is formatted with.\<close>

datatype message = Msg string "string list"

datatype skew_reason = SkewReasonNone | SkewReasonUnknownKind | SkewReasonSchemaVersionAhead

definition MaxSchemaVersion :: int where "MaxSchemaVersion = 1"

definition Kinds :: "string list" where
  "Kinds = [''metric'', ''alarm'', ''heartbeat'']"

record device_context =
  dc_tenant_id :: string
  dc_device_id :: string
  dc_machine_id :: string

record measurement =
  ms_event_id :: string
  ms_tenant_id :: string
  ms_device_id :: string
  ms_machine_id :: string
  ms_ts :: time
  ms_seq :: "int option"
  ms_kind :: string
  ms_schema_version :: int
  ms_payload :: "(string \<times> json) list"
  ms_received_at :: time

record event_error =
  ee_index :: nat
  ee_code :: event_code
  ee_message :: message

record batch_result =
  Accepted :: int
  Rejected :: int
  Errors :: "event_error list"

record insert_report =
  Duplicated :: "nat list"
  Failed :: "(nat \<times> message) list"
  Invalid :: "(nat \<times> message) list"

definition empty_report :: insert_report where
  "empty_report = \<lparr>Duplicated = [], Failed = [], Invalid = []\<rparr>"

definition Inserted :: "insert_report \<Rightarrow> nat \<Rightarrow> int" where
  "Inserted r n =
     int n - int (length (Duplicated r)) - int (length (Failed r)) - int (length (Invalid r))"

text \<open>
  What the Edge does with a code, as the comments of \<open>measurement.go\<close> fix it: the two
  terminal codes send the event to DEAD for ever, DUPLICATE acknowledges it, the rest is retried.
\<close>

fun terminal :: "event_code \<Rightarrow> bool" where
  "terminal INVALID_SCHEMA = True"
| "terminal VALIDATION_FAILED = True"
| "terminal DUPLICATE = False"
| "terminal STORAGE_UNAVAILABLE = False"

section \<open>ValidateEvent\<close>

record raw_event =
  re_event_id :: "string option"
  re_machine_id :: "string option"
  re_ts :: "string option"
  re_seq :: "string option"
  re_kind :: "string option"
  re_schema_version :: "string option"
  re_payload :: "(string \<times> json) list option"

definition empty_raw_event :: raw_event where
  "empty_raw_event =
     \<lparr>re_event_id = None, re_machine_id = None, re_ts = None, re_seq = None, re_kind = None,
      re_schema_version = None, re_payload = None\<rparr>"

text \<open>
  Decoding of one member into its field. The second component says whether the value had a wrong
  type: \<open>encoding/json\<close> goes on with the other members and reports the error at the end.
  null sets a pointer to nil. A second payload object is decoded into the map the first one made.
\<close>

fun decode_string :: "json \<Rightarrow> string option \<times> bool" where
  "decode_string JNull = (None, True)"
| "decode_string (JStr s) = (Some s, True)"
| "decode_string _ = (None, False)"

fun decode_raw :: "json \<Rightarrow> string option" where
  "decode_raw JNull = None"
| "decode_raw v = Some (raw_text v)"

fun decode_map :: "(string \<times> json) list option \<Rightarrow> json \<Rightarrow> (string \<times> json) list option \<times> bool" where
  "decode_map m JNull = (None, True)"
| "decode_map m (JObj kvs) =
     (Some (foldl (\<lambda>a (k, v). AList.update k v a) (opt_or m []) kvs),
      list_all (\<lambda>(k, v). any_decodes v) kvs)"
| "decode_map m _ = (m, False)"

definition decode_member :: "string \<Rightarrow> json \<Rightarrow> raw_event \<Rightarrow> raw_event \<times> bool" where
  "decode_member key v e =
     (let n = fold_name key in
      if n = ''EVENTID'' then (let (s, ok) = decode_string v in (e\<lparr>re_event_id := s\<rparr>, ok))
      else if n = ''MACHINEID'' then (let (s, ok) = decode_string v in (e\<lparr>re_machine_id := s\<rparr>, ok))
      else if n = ''TS'' then (let (s, ok) = decode_string v in (e\<lparr>re_ts := s\<rparr>, ok))
      else if n = ''SEQ'' then (e\<lparr>re_seq := decode_raw v\<rparr>, True)
      else if n = ''KIND'' then (let (s, ok) = decode_string v in (e\<lparr>re_kind := s\<rparr>, ok))
      else if n = ''SCHEMAVERSION'' then (e\<lparr>re_schema_version := decode_raw v\<rparr>, True)
      else if n = ''PAYLOAD'' then (let (m, ok) = decode_map (re_payload e) v in (e\<lparr>re_payload := m\<rparr>, ok))
      else (e, True))"

fun decode_members :: "(string \<times> json) list \<Rightarrow> raw_event \<Rightarrow> raw_event \<times> bool" where
  "decode_members [] e = (e, True)"
| "decode_members ((k, v) # kvs) e =
     (let (e', ok) = decode_member k v e; (e'', oks) = decode_members kvs e' in (e'', ok \<and> oks))"

fun decode_raw_event :: "json \<Rightarrow> raw_event option" where
  "decode_raw_event (JObj kvs) =
     (let (e, ok) = decode_members kvs empty_raw_event in if ok then Some e else None)"
| "decode_raw_event JNull = Some empty_raw_event"
| "decode_raw_event _ = None"

definition jsonInt :: "string \<Rightarrow> int option" where
  "jsonInt raw =
     (let s = trim_space raw
      in if s = [] \<or> hd s = CHR 0x22 then None else parse_int64 s)"

definition invalid :: "string \<Rightarrow> string list \<Rightarrow> event_error" where
  "invalid f args = \<lparr>ee_index = 0, ee_code = INVALID_SCHEMA, ee_message = Msg f args\<rparr>"

definition failed :: "string \<Rightarrow> string list \<Rightarrow> event_error" where
  "failed f args = \<lparr>ee_index = 0, ee_code = VALIDATION_FAILED, ee_message = Msg f args\<rparr>"

definition required_fields :: "raw_event \<Rightarrow> event_error option" where
  "required_fields e =
     (if re_event_id e = None \<or> re_event_id e = Some [] then
        Some (invalid ''falta el campo requerido eventId'' [])
      else if re_machine_id e = None \<or> re_machine_id e = Some [] then
        Some (invalid ''falta el campo requerido machineId'' [])
      else if re_ts e = None then Some (invalid ''falta el campo requerido ts'' [])
      else if re_kind e = None then Some (invalid ''falta el campo requerido kind'' [])
      else if re_schema_version e = None then
        Some (invalid ''falta el campo requerido schemaVersion'' [])
      else if re_payload e = None then Some (invalid ''falta el campo requerido payload'' [])
      else None)"

text \<open>The block on \<open>seq\<close>: absent, a valid number, or an error.\<close>

definition parse_seq :: "string option \<Rightarrow> int option option" where
  "parse_seq seq =
     (case seq of
        None \<Rightarrow> Some None
      | Some r \<Rightarrow> (case jsonInt r of
                     None \<Rightarrow> None
                   | Some n \<Rightarrow> if n < 0 then None else Some (Some n)))"

definition ValidateEvent ::
  "(string \<Rightarrow> time option) \<Rightarrow> json \<Rightarrow> device_context \<Rightarrow> time \<Rightarrow> event_error + measurement \<times> skew_reason"
where
  "ValidateEvent parse_ts raw dev now =
     (case decode_raw_event raw of
        None \<Rightarrow> Inl (invalid ''evento no deserializable: %v'' [])
      | Some e \<Rightarrow>
     (case required_fields e of
        Some err \<Rightarrow> Inl err
      | None \<Rightarrow>
     (case parse_ts (the (re_ts e)) of
        None \<Rightarrow> Inl (invalid ''ts no es RFC3339: %q'' [the (re_ts e)])
      | Some ts \<Rightarrow>
     (let kind = the (re_kind e);
          skew = (if kind \<in> set Kinds then SkewReasonNone else SkewReasonUnknownKind)
      in case jsonInt (the (re_schema_version e)) of
        None \<Rightarrow> Inl (invalid ''schemaVersion debe ser un entero >= 1'' [])
      | Some sv \<Rightarrow>
     (if sv < 1 then Inl (invalid ''schemaVersion debe ser un entero >= 1'' [])
      else
     (case parse_seq (re_seq e) of
        None \<Rightarrow> Inl (invalid ''seq debe ser un entero >= 0'' [])
      | Some seq \<Rightarrow>
     (if the (re_machine_id e) \<noteq> dc_machine_id dev then
        Inl (failed ''machineId %q no corresponde al device de la API key'' [the (re_machine_id e)])
      else
        Inr (\<lparr>ms_event_id = the (re_event_id e), ms_tenant_id = dc_tenant_id dev,
              ms_device_id = dc_device_id dev, ms_machine_id = the (re_machine_id e), ms_ts = ts,
              ms_seq = seq, ms_kind = kind, ms_schema_version = sv,
              ms_payload = the (re_payload e), ms_received_at = now\<rparr>,
             if MaxSchemaVersion < sv \<and> skew = SkewReasonNone then SkewReasonSchemaVersionAhead
             else skew))))))))"

section \<open>IngestBatch\<close>

text \<open>
  The first loop: the accepted measurements, the position in \<open>raw\<close> of each
  (\<open>origIndex\<close>), and the errors of the rejected ones. \<open>i\<close> is the position of the head.
\<close>

fun validate_loop ::
  "(string \<Rightarrow> time option) \<Rightarrow> device_context \<Rightarrow> time \<Rightarrow> nat \<Rightarrow> json list \<Rightarrow>
     measurement list \<times> nat list \<times> event_error list"
where
  "validate_loop pt dev now i [] = ([], [], [])"
| "validate_loop pt dev now i (item # raw) =
     (let (valid, orig, errs) = validate_loop pt dev now (Suc i) raw
      in case ValidateEvent pt item dev now of
           Inl e \<Rightarrow> (valid, orig, e\<lparr>ee_index := i\<rparr> # errs)
         | Inr (m, _) \<Rightarrow> (m # valid, i # orig, errs))"

definition report_outcome :: "insert_report \<Rightarrow> nat \<Rightarrow> (event_code \<times> message) option" where
  "report_outcome rep j =
     (if j \<in> set (Duplicated rep) then Some (DUPLICATE, Msg ''el evento ya habia sido ingerido'' [])
      else if map_of (Invalid rep) j \<noteq> None then
        Some (INVALID_SCHEMA, Msg ''el evento no se puede serializar para almacenamiento'' [])
      else map_option (\<lambda>msg. (STORAGE_UNAVAILABLE, msg)) (map_of (Failed rep) j))"

text \<open>The second loop, over the positions \<open>j\<close> of the accepted measurements.\<close>

fun report_loop :: "insert_report \<Rightarrow> nat \<Rightarrow> nat list \<Rightarrow> event_error list" where
  "report_loop rep j [] = []"
| "report_loop rep j (i # orig) =
     (case report_outcome rep j of
        None \<Rightarrow> []
      | Some (c, m) \<Rightarrow> [\<lparr>ee_index = i, ee_code = c, ee_message = m\<rparr>])
     @ report_loop rep (Suc j) orig"

definition recordActivity ::
  "(string \<Rightarrow> string \<Rightarrow> ('s, 'e, unit) oper) option \<Rightarrow> device_context \<Rightarrow> 's \<Rightarrow> 's" where
  "recordActivity touch dev s =
     (case touch of
        None \<Rightarrow> s
      | Some TouchLastSeen \<Rightarrow> snd (TouchLastSeen (dc_tenant_id dev) (dc_device_id dev) s))"

definition finish :: "nat \<Rightarrow> event_error list \<Rightarrow> batch_result" where
  "finish n errs =
     (let sorted = sort_key ee_index errs
      in \<lparr>Accepted = int n - int (length sorted), Rejected = int (length sorted), Errors = sorted\<rparr>)"

definition IngestBatch ::
  "(string \<Rightarrow> time option) \<Rightarrow> (measurement list \<Rightarrow> ('s, 'e, insert_report) oper) \<Rightarrow>
   (string \<Rightarrow> string \<Rightarrow> ('s, 'e, unit) oper) option \<Rightarrow> time \<Rightarrow>
   device_context \<Rightarrow> json list \<Rightarrow> ('s, 'e, batch_result) oper"
where
  "IngestBatch pt InsertMany touch now dev raw s =
     (let (valid, orig, errs) = validate_loop pt dev now 0 raw
      in if valid = [] then (Inr (finish (length raw) errs), s)
         else case InsertMany valid s of
                (Inl err, s') \<Rightarrow> (Inl err, s')
              | (Inr report, s') \<Rightarrow>
                  (Inr (finish (length raw) (errs @ report_loop report 0 orig)),
                   recordActivity touch dev s'))"

section \<open>The batch as a list of verdicts\<close>

text \<open>
  What the contract promises: one pass over the events of the request, in which the event at
  position \<open>i\<close> is rejected by its own validation, or is the \<open>j\<close>-th document handed
  to the repository and has the outcome the repository reports for \<open>j\<close>.
\<close>

fun verdicts ::
  "(string \<Rightarrow> time option) \<Rightarrow> device_context \<Rightarrow> time \<Rightarrow> insert_report \<Rightarrow> nat \<Rightarrow> nat \<Rightarrow> json list \<Rightarrow>
     event_error list"
where
  "verdicts pt dev now rep i j [] = []"
| "verdicts pt dev now rep i j (item # raw) =
     (case ValidateEvent pt item dev now of
        Inl e \<Rightarrow> e\<lparr>ee_index := i\<rparr> # verdicts pt dev now rep (Suc i) j raw
      | Inr _ \<Rightarrow>
          (case report_outcome rep j of
             None \<Rightarrow> []
           | Some (c, m) \<Rightarrow> [\<lparr>ee_index = i, ee_code = c, ee_message = m\<rparr>])
          @ verdicts pt dev now rep (Suc i) (Suc j) raw)"

fun valid_events ::
  "(string \<Rightarrow> time option) \<Rightarrow> device_context \<Rightarrow> time \<Rightarrow> json list \<Rightarrow> measurement list"
where
  "valid_events pt dev now [] = []"
| "valid_events pt dev now (item # raw) =
     (case ValidateEvent pt item dev now of
        Inl _ \<Rightarrow> valid_events pt dev now raw
      | Inr (m, _) \<Rightarrow> m # valid_events pt dev now raw)"

lemma validate_loop_valid: "fst (validate_loop pt dev now i raw) = valid_events pt dev now raw"
  by (induction raw arbitrary: i) (auto simp: split_beta split: sum.splits)

lemma validate_loop_orig:
  "length (fst (snd (validate_loop pt dev now i raw))) = length (valid_events pt dev now raw)"
  by (induction raw arbitrary: i) (auto simp: split_beta split: sum.splits)

lemma verdicts_mset:
  "mset (snd (snd (validate_loop pt dev now i raw))
         @ report_loop rep j (fst (snd (validate_loop pt dev now i raw))))
   = mset (verdicts pt dev now rep i j raw)"
  by (induction raw arbitrary: i j) (auto simp: split_beta split: sum.splits)

lemma verdicts_index_ge: "e \<in> set (verdicts pt dev now rep i j raw) \<Longrightarrow> i \<le> ee_index e"
  by (induction raw arbitrary: i j) (fastforce split: sum.splits option.splits)+

lemma verdicts_index_less:
  "e \<in> set (verdicts pt dev now rep i j raw) \<Longrightarrow> ee_index e < i + length raw"
  by (induction raw arbitrary: i j) (fastforce split: sum.splits option.splits)+

lemma verdicts_strict: "sorted_wrt (<) (map ee_index (verdicts pt dev now rep i j raw))"
proof (induction raw arbitrary: i j)
  case Nil
  then show ?case by simp
next
  case (Cons item raw)
  have "\<And>j e. e \<in> set (verdicts pt dev now rep (Suc i) j raw) \<Longrightarrow> i < ee_index e"
    using verdicts_index_ge by fastforce
  with Cons show ?case by (auto split: sum.splits option.splits)
qed

lemma verdicts_length: "length (verdicts pt dev now rep i j raw) \<le> length raw"
  by (induction raw arbitrary: i j)
     (auto split: sum.splits option.splits intro: le_SucI)

lemma finish_verdicts:
  assumes "validate_loop pt dev now 0 raw = (valid, orig, errs)"
  shows "finish (length raw) (errs @ report_loop rep 0 orig) =
    \<lparr>Accepted = int (length raw) - int (length (verdicts pt dev now rep 0 0 raw)),
     Rejected = int (length (verdicts pt dev now rep 0 0 raw)),
     Errors = verdicts pt dev now rep 0 0 raw\<rparr>"
proof -
  let ?vs = "verdicts pt dev now rep 0 0 raw"
  have m: "mset (errs @ report_loop rep 0 orig) = mset ?vs"
    using verdicts_mset [of pt dev now 0 raw rep 0] assms by simp
  have "inj_on ee_index (set ?vs)"
    using verdicts_strict [of pt dev now rep 0 0 raw]
    by (metis distinct_map strict_sorted_iff)
  then have "inj_on ee_index (set (errs @ report_loop rep 0 orig))"
    using m mset_eq_setD by fastforce
  then have "sort_key ee_index (errs @ report_loop rep 0 orig) = ?vs"
    using m verdicts_strict [of pt dev now rep 0 0 raw]
    by (intro sort_key_inj_key_eq) (auto simp: strict_sorted_iff)
  then show ?thesis by (simp add: finish_def Let_def)
qed

text \<open>The operation in one equation, which every property of the batch rests on.\<close>

lemma IngestBatch_verdicts:
  "IngestBatch pt InsertMany touch now dev raw s =
     (let valid = valid_events pt dev now raw;
          answer = (\<lambda>rep. \<lparr>Accepted = int (length raw) - int (length (verdicts pt dev now rep 0 0 raw)),
                           Rejected = int (length (verdicts pt dev now rep 0 0 raw)),
                           Errors = verdicts pt dev now rep 0 0 raw\<rparr>)
      in if valid = [] then (Inr (answer empty_report), s)
         else case InsertMany valid s of
                (Inl err, s') \<Rightarrow> (Inl err, s')
              | (Inr rep, s') \<Rightarrow> (Inr (answer rep), recordActivity touch dev s'))"
proof -
  obtain valid orig errs where vl: "validate_loop pt dev now 0 raw = (valid, orig, errs)"
    by (metis prod_cases3)
  then have v: "valid = valid_events pt dev now raw"
    using validate_loop_valid [of pt dev now 0 raw] by simp
  have "valid = [] \<Longrightarrow> orig = []"
    using validate_loop_orig [of pt dev now 0 raw] vl v by simp
  then show ?thesis
    using finish_verdicts [OF vl] finish_verdicts [OF vl, of empty_report]
    by (auto simp: IngestBatch_def vl v Let_def split: prod.splits sum.splits)
qed

text \<open>Every accepted measurement carries the identity of the device, never that of the body.\<close>

lemma jsonInt_bounds: "jsonInt r = Some n \<Longrightarrow> - (2 ^ 63) \<le> n \<and> n < 2 ^ 63"
  unfolding jsonInt_def Let_def by (split if_split_asm) (auto dest: parse_int64_bounds)

lemma ValidateEvent_InrE:
  assumes "ValidateEvent pt raw dev now = Inr (m, sk)"
  obtains e ts sv seq where "decode_raw_event raw = Some e" and "required_fields e = None"
    and "pt (the (re_ts e)) = Some ts" and "jsonInt (the (re_schema_version e)) = Some sv" and "1 \<le> sv"
    and "parse_seq (re_seq e) = Some seq"
    and "the (re_machine_id e) = dc_machine_id dev"
    and "m = \<lparr>ms_event_id = the (re_event_id e), ms_tenant_id = dc_tenant_id dev,
              ms_device_id = dc_device_id dev, ms_machine_id = the (re_machine_id e), ms_ts = ts,
              ms_seq = seq, ms_kind = the (re_kind e), ms_schema_version = sv,
              ms_payload = the (re_payload e), ms_received_at = now\<rparr>"
  using assms unfolding ValidateEvent_def Let_def
  by (auto split: option.splits if_split_asm)

lemma parse_seq_bounds: "parse_seq s = Some (Some n) \<Longrightarrow> 0 \<le> n \<and> n < 2 ^ 63"
  unfolding parse_seq_def by (auto split: option.splits if_splits dest: jsonInt_bounds)

lemma ValidateEvent_identity:
  assumes "ValidateEvent pt raw dev now = Inr (m, sk)"
  shows "ms_tenant_id m = dc_tenant_id dev" and "ms_device_id m = dc_device_id dev"
    and "ms_machine_id m = dc_machine_id dev" and "ms_received_at m = now"
  using assms by (auto elim!: ValidateEvent_InrE)

lemma ValidateEvent_bounds:
  assumes "ValidateEvent pt raw dev now = Inr (m, sk)"
  shows "ms_event_id m \<noteq> []" and "1 \<le> ms_schema_version m" and "ms_schema_version m < 2 ^ 63"
  using assms
  by (auto elim!: ValidateEvent_InrE simp: required_fields_def dest: jsonInt_bounds split: if_splits)

lemma ValidateEvent_seq:
  assumes "ValidateEvent pt raw dev now = Inr (m, sk)" and "ms_seq m = Some n"
  shows "0 \<le> n \<and> n < 2 ^ 63"
  using assms by (elim ValidateEvent_InrE) (rule parse_seq_bounds, simp)

lemma valid_events_identity:
  "m \<in> set (valid_events pt dev now raw) \<Longrightarrow>
     ms_tenant_id m = dc_tenant_id dev \<and> ms_device_id m = dc_device_id dev \<and>
     ms_machine_id m = dc_machine_id dev"
  by (induction raw) (auto split: sum.splits dest: ValidateEvent_identity)

lemma ValidateEvent_code:
  "ValidateEvent pt raw dev now = Inl e \<Longrightarrow> terminal (ee_code e)"
  by (auto simp: ValidateEvent_def Let_def required_fields_def invalid_def failed_def
      split: option.splits if_splits)

end
