(* ===== verification/MeasurementStore.thy ===== *)
theory MeasurementStore
  imports Ingest
begin

text \<open>
  The repository behind the ingestion: the contract the service relies on
  (\<open>internal/domain/ingest/repository.go\<close>) as the locale \<open>measurement_store\<close>, and
  its two implementations in \<open>internal/repo/mongo/measurements\<close>: the MongoDB one and the
  degraded one (\<open>Unavailable\<close>). The BSON encoder is the parameter \<open>marshal\<close> and the
  driver's \<open>Collection.InsertMany\<close> with \<open>ordered:false\<close> the parameter \<open>coll\<close>.
\<close>

section \<open>MongoDB repository\<close>

record write_error =
  we_index :: int
  we_code :: int
  we_message :: message

text \<open>What the driver answers: nothing to report, a BulkWriteException, or another error.\<close>

datatype 'e bulk_outcome =
    BulkOk
  | BulkWriteException "write_error list" (write_concern_error: bool) 'e
  | CallFailed 'e

definition duplicateKeyCode :: int where "duplicateKeyCode = 11000"

text \<open>The encoding loop: \<open>raw\<close>, \<open>sent\<close> (positions in docs) and the invalid positions.\<close>

fun encode_loop ::
  "(measurement \<Rightarrow> message + 'd) \<Rightarrow> nat \<Rightarrow> measurement list \<Rightarrow> 'd list \<times> nat list \<times> (nat \<times> message) list"
where
  "encode_loop marshal i [] = ([], [], [])"
| "encode_loop marshal i (doc # docs) =
     (let (raw, sent, bad) = encode_loop marshal (Suc i) docs
      in case marshal doc of
           Inl msg \<Rightarrow> (raw, sent, (i, msg) # bad)
         | Inr d \<Rightarrow> (d # raw, i # sent, bad))"

definition note_error :: "nat list \<Rightarrow> write_error \<Rightarrow> insert_report \<Rightarrow> insert_report" where
  "note_error sent we rep =
     (if we_index we < 0 \<or> int (length sent) \<le> we_index we then rep
      else let i = sent ! nat (we_index we)
           in if we_code we = duplicateKeyCode
              then rep\<lparr>Duplicated := List.insert i (Duplicated rep)\<rparr>
              else rep\<lparr>Failed := AList.update i (we_message we) (Failed rep)\<rparr>)"

definition mongo_InsertMany ::
  "(measurement \<Rightarrow> message + 'd) \<Rightarrow> ('d list \<Rightarrow> 's \<Rightarrow> 'e bulk_outcome \<times> 's) \<Rightarrow>
     measurement list \<Rightarrow> ('s, 'e, insert_report) oper"
where
  "mongo_InsertMany marshal coll docs s =
     (if docs = [] then (Inr empty_report, s)
      else
        let (raw, sent, bad) = encode_loop marshal 0 docs;
            report = empty_report\<lparr>Invalid := bad\<rparr>
        in if raw = [] then (Inr report, s)
           else case coll raw s of
                  (BulkOk, s') \<Rightarrow> (Inr report, s')
                | (CallFailed e, s') \<Rightarrow> (Inl e, s')
                | (BulkWriteException wes wce e, s') \<Rightarrow>
                    (if wce then (Inl e, s')
                     else (Inr (foldl (\<lambda>r we. note_error sent we r) report wes), s')))"

definition unavailable_InsertMany :: "'e \<Rightarrow> measurement list \<Rightarrow> ('s, 'e, insert_report) oper" where
  "unavailable_InsertMany err docs = op_fail err"

section \<open>The encoding loop\<close>

lemma encode_loop_length:
  "encode_loop marshal i docs = (raw, sent, bad) \<Longrightarrow> length sent = length raw"
  by (induction docs arbitrary: i raw sent bad) (auto split: sum.splits prod.splits)

lemma encode_loop_ge:
  "encode_loop marshal i docs = (raw, sent, bad) \<Longrightarrow> x \<in> set sent \<Longrightarrow> i \<le> x \<and> x < i + length docs"
proof (induction docs arbitrary: i raw sent bad)
  case (Cons doc docs)
  obtain raw' sent' bad' where r: "encode_loop marshal (Suc i) docs = (raw', sent', bad')"
    by (metis prod_cases3)
  with Cons.prems Cons.IH [OF r] show ?case by (fastforce split: sum.splits)
qed simp

lemma encode_loop_nth:
  "encode_loop marshal i docs = (raw, sent, bad) \<Longrightarrow> k < length raw \<Longrightarrow>
     \<exists>j < length docs. sent ! k = i + j \<and> marshal (docs ! j) = Inr (raw ! k)"
proof (induction docs arbitrary: i raw sent bad k)
  case (Cons doc docs)
  obtain raw' sent' bad' where r: "encode_loop marshal (Suc i) docs = (raw', sent', bad')"
    by (metis prod_cases3)
  show ?case
  proof (cases "\<exists>d. marshal doc = Inr d \<and> k = 0")
    case True
    with Cons.prems r show ?thesis by (auto split: sum.splits)
  next
    case False
    then have "\<exists>k'. k' < length raw' \<and> sent ! k = sent' ! k' \<and> raw ! k = raw' ! k'"
      using Cons.prems r
      by (auto split: sum.splits simp: gr0_conv_Suc intro: exI [of _ "k - 1"] exI [of _ k])
    then obtain j where "j < length docs" "sent ! k = Suc i + j" "marshal (docs ! j) = Inr (raw ! k)"
      using Cons.IH [OF r] by metis
    then show ?thesis by (intro exI [of _ "Suc j"]) simp
  qed
qed simp

lemma encode_loop_covers:
  "encode_loop marshal i docs = (raw, sent, bad) \<Longrightarrow> j < length docs \<Longrightarrow>
     (\<exists>msg. marshal (docs ! j) = Inl msg \<and> (i + j, msg) \<in> set bad) \<or> i + j \<in> set sent"
proof (induction docs arbitrary: i raw sent bad j)
  case (Cons doc docs)
  obtain raw' sent' bad' where r: "encode_loop marshal (Suc i) docs = (raw', sent', bad')"
    by (metis prod_cases3)
  show ?case
  proof (cases j)
    case 0
    with Cons.prems r show ?thesis by (auto split: sum.splits)
  next
    case (Suc j')
    with Cons.prems Cons.IH [OF r, of j'] r show ?thesis by (auto split: sum.splits)
  qed
qed simp

lemma encode_loop_bad:
  "encode_loop marshal i docs = (raw, sent, bad) \<Longrightarrow> (x, msg) \<in> set bad \<Longrightarrow>
     \<exists>j < length docs. x = i + j \<and> marshal (docs ! j) = Inl msg"
proof (induction docs arbitrary: i raw sent bad)
  case (Cons doc docs)
  obtain raw' sent' bad' where r: "encode_loop marshal (Suc i) docs = (raw', sent', bad')"
    by (metis prod_cases3)
  from Cons.prems r have "(x, msg) = (i, projl (marshal doc)) \<and> isl (marshal doc) \<or> (x, msg) \<in> set bad'"
    by (auto split: sum.splits)
  then show ?case
  proof
    assume "(x, msg) \<in> set bad'"
    then obtain j where "j < length docs" "x = Suc i + j" "marshal (docs ! j) = Inl msg"
      using Cons.IH [OF r] by blast
    then show ?thesis by (intro exI [of _ "Suc j"]) simp
  qed (force intro: exI [of _ 0])
qed simp

lemma encode_loop_distinct:
  "encode_loop marshal i docs = (raw, sent, bad) \<Longrightarrow> distinct sent"
proof (induction docs arbitrary: i raw sent bad)
  case (Cons doc docs)
  obtain raw' sent' bad' where r: "encode_loop marshal (Suc i) docs = (raw', sent', bad')"
    by (metis prod_cases3)
  with Cons.prems Cons.IH [OF r] encode_loop_ge [OF r] show ?case
    by (fastforce split: sum.splits)
qed simp

section \<open>What a report says\<close>

lemma note_error_Invalid [simp]: "Invalid (note_error sent we rep) = Invalid rep"
  by (simp add: note_error_def Let_def)

lemma fold_note_error_Invalid [simp]:
  "Invalid (foldl (\<lambda>r we. note_error sent we r) rep wes) = Invalid rep"
  by (induction wes arbitrary: rep) auto

text \<open>An error the driver reports for a document that was sent is in the report.\<close>

lemma note_error_keeps:
  "i \<in> set (Duplicated rep) \<or> map_of (Failed rep) i \<noteq> None \<Longrightarrow>
     i \<in> set (Duplicated (note_error sent we rep)) \<or> map_of (Failed (note_error sent we rep)) i \<noteq> None"
  by (auto simp: note_error_def Let_def update_conv')

lemma fold_note_error_keeps:
  "i \<in> set (Duplicated rep) \<or> map_of (Failed rep) i \<noteq> None \<Longrightarrow>
     i \<in> set (Duplicated (foldl (\<lambda>r we. note_error sent we r) rep wes))
     \<or> map_of (Failed (foldl (\<lambda>r we. note_error sent we r) rep wes)) i \<noteq> None"
proof (induction wes arbitrary: rep)
  case (Cons we wes)
  then show ?case using note_error_keeps [of i rep sent we] by simp
qed simp

lemma fold_note_error_reports:
  "we \<in> set wes \<Longrightarrow> we_index we = int k \<Longrightarrow> k < length sent \<Longrightarrow>
     sent ! k \<in> set (Duplicated (foldl (\<lambda>r we. note_error sent we r) rep wes))
     \<or> map_of (Failed (foldl (\<lambda>r we. note_error sent we r) rep wes)) (sent ! k) \<noteq> None"
proof (induction wes arbitrary: rep)
  case (Cons w wes)
  show ?case
  proof (cases "w = we")
    case True
    with Cons.prems have "sent ! k \<in> set (Duplicated (note_error sent w rep))
        \<or> map_of (Failed (note_error sent w rep)) (sent ! k) \<noteq> None"
      by (auto simp: note_error_def Let_def update_conv')
    then show ?thesis using fold_note_error_keeps by simp
  next
    case False
    with Cons show ?thesis by simp
  qed
qed simp

lemma fold_note_error_dup:
  "i \<in> set (Duplicated (foldl (\<lambda>r we. note_error sent we r) rep wes)) \<Longrightarrow>
     i \<in> set (Duplicated rep) \<or>
     (\<exists>we \<in> set wes. \<exists>k < length sent. we_index we = int k \<and> we_code we = duplicateKeyCode \<and> i = sent ! k)"
proof (induction wes arbitrary: rep)
  case (Cons we wes)
  have "i \<in> set (Duplicated (note_error sent we rep)) \<Longrightarrow>
     i \<in> set (Duplicated rep) \<or> (\<exists>k < length sent. we_index we = int k \<and> we_code we = duplicateKeyCode \<and> i = sent ! k)"
    by (auto simp: note_error_def Let_def split: if_splits intro!: exI [of _ "nat (we_index we)"])
  with Cons show ?case by fastforce
qed simp

section \<open>Events and documents\<close>

lemma report_outcome_DUPLICATE:
  "report_outcome rep j = Some (DUPLICATE, m) \<Longrightarrow> j \<in> set (Duplicated rep)"
  by (auto simp: report_outcome_def split: if_split_asm)

text \<open>
  An event that is not in \<open>errors[]\<close>, or that is there as a DUPLICATE, is one of the documents
  handed to the repository, at the position the report speaks of.
\<close>

lemma verdict_accepted:
  assumes "k < length raw" and "i + k \<notin> ee_index ` set (verdicts pt dev now rep i j raw)"
  shows "\<exists>m sk n. ValidateEvent pt (raw ! k) dev now = Inr (m, sk) \<and>
    n < length (valid_events pt dev now raw) \<and> valid_events pt dev now raw ! n = m \<and>
    report_outcome rep (j + n) = None"
  using assms
proof (induction raw arbitrary: i j k)
  case Nil
  then show ?case by simp
next
  case (Cons item raw)
  show ?case
  proof (cases k)
    case 0
    with Cons.prems obtain m sk where v: "ValidateEvent pt item dev now = Inr (m, sk)"
      by (cases "ValidateEvent pt item dev now") auto
    with 0 Cons.prems have "report_outcome rep j = None"
      by (cases "report_outcome rep j") auto
    with 0 v show ?thesis by (intro exI [of _ m] exI [of _ sk] exI [of _ "0::nat"]) simp
  next
    case (Suc k')
    show ?thesis
    proof (cases "ValidateEvent pt item dev now")
      case (Inl e)
      with Suc Cons.prems have "Suc i + k' \<notin> ee_index ` set (verdicts pt dev now rep (Suc i) j raw)"
        by simp
      with Cons.IH [of k' "Suc i" j] Cons.prems(1) Suc Inl show ?thesis by simp
    next
      case (Inr p)
      with Suc Cons.prems
      have "Suc i + k' \<notin> ee_index ` set (verdicts pt dev now rep (Suc i) (Suc j) raw)"
        by (auto split: prod.splits)
      with Cons.IH [of k' "Suc i" "Suc j"] Cons.prems(1) Suc obtain m sk n
        where "ValidateEvent pt (raw ! k') dev now = Inr (m, sk)" "n < length (valid_events pt dev now raw)"
          "valid_events pt dev now raw ! n = m" "report_outcome rep (Suc j + n) = None" by auto
      with Inr Suc show ?thesis
        by (cases p) (auto intro!: exI [of _ "Suc n"])
    qed
  qed
qed

lemma verdict_duplicate:
  assumes "e \<in> set (verdicts pt dev now rep i j raw)" and "ee_code e = DUPLICATE"
  shows "\<exists>k m sk n. ee_index e = i + k \<and> k < length raw \<and> ValidateEvent pt (raw ! k) dev now = Inr (m, sk) \<and>
    n < length (valid_events pt dev now raw) \<and> valid_events pt dev now raw ! n = m \<and>
    j + n \<in> set (Duplicated rep)"
  using assms
proof (induction raw arbitrary: i j)
  case Nil
  then show ?case by simp
next
  case (Cons item raw)
  show ?case
  proof (cases "ValidateEvent pt item dev now")
    case (Inl err)
    then have "ee_code err \<noteq> DUPLICATE" using ValidateEvent_code by fastforce
    with Cons.prems Inl have "e \<in> set (verdicts pt dev now rep (Suc i) j raw)" by auto
    from Cons.IH [OF this Cons.prems(2)] obtain k m sk n where
      "ee_index e = Suc i + k" "k < length raw" "ValidateEvent pt (raw ! k) dev now = Inr (m, sk)"
      "n < length (valid_events pt dev now raw)" "valid_events pt dev now raw ! n = m"
      "j + n \<in> set (Duplicated rep)" by auto
    with Inl show ?thesis
      by (intro exI [of _ "Suc k"] exI [of _ m] exI [of _ sk] exI [of _ n]) auto
  next
    case (Inr p)
    obtain m sk where p: "p = (m, sk)" by (cases p)
    show ?thesis
    proof (cases "e \<in> set (verdicts pt dev now rep (Suc i) (Suc j) raw)")
      case True
      from Cons.IH [OF this Cons.prems(2)] obtain k m' sk' n where
        "ee_index e = Suc i + k" "k < length raw" "ValidateEvent pt (raw ! k) dev now = Inr (m', sk')"
        "n < length (valid_events pt dev now raw)" "valid_events pt dev now raw ! n = m'"
        "Suc j + n \<in> set (Duplicated rep)" by auto
      with Inr p show ?thesis
        by (intro exI [of _ "Suc k"] exI [of _ m'] exI [of _ sk'] exI [of _ "Suc n"]) auto
    next
      case False
      with Cons.prems Inr p obtain msg where "ee_index e = i" "report_outcome rep j = Some (DUPLICATE, msg)"
        by (cases "report_outcome rep j") auto
      then have "ee_index e = i" "j \<in> set (Duplicated rep)"
        by (auto dest: report_outcome_DUPLICATE)
      with Inr p show ?thesis
        by (intro exI [of _ "0::nat"] exI [of _ m] exI [of _ sk]) auto
    qed
  qed
qed

section \<open>The contract of the repository\<close>

text \<open>
  What the service relies on. \<open>stored s m\<close>: the measurement is in the store.
  \<open>known s t e\<close>: the store has a measurement of tenant \<open>t\<close> with event id \<open>e\<close>. A
  position the report says nothing about has been stored; a position reported as duplicated has an
  earlier measurement under its key; nothing that was stored is lost.
\<close>

locale measurement_store =
  fixes InsertMany :: "measurement list \<Rightarrow> ('s, 'e, insert_report) oper"
    and stored :: "'s \<Rightarrow> measurement \<Rightarrow> bool"
    and known :: "'s \<Rightarrow> string \<Rightarrow> string \<Rightarrow> bool"
  assumes unreported_stored:
    "InsertMany docs s = (Inr rep, s') \<Longrightarrow> j < length docs \<Longrightarrow> report_outcome rep j = None \<Longrightarrow>
       stored s' (docs ! j)"
    and duplicated_known:
    "InsertMany docs s = (Inr rep, s') \<Longrightarrow> j < length docs \<Longrightarrow> j \<in> set (Duplicated rep) \<Longrightarrow>
       known s' (ms_tenant_id (docs ! j)) (ms_event_id (docs ! j))"
    and stored_known: "stored s m \<Longrightarrow> known s (ms_tenant_id m) (ms_event_id m)"
    and nothing_lost: "stored s m \<Longrightarrow> stored (snd (InsertMany docs s)) m"
begin

text \<open>
  The events the Edge forgets as delivered, those that are not in \<open>errors[]\<close> and those
  reported as DUPLICATE, are in the store.
\<close>

lemma delivered_known:
  assumes run: "IngestBatch pt InsertMany None now dev raw s = (Inr res, s')"
    and k: "k < length raw"
    and ok: "k \<notin> ee_index ` set (Errors res) \<or> (\<exists>e \<in> set (Errors res). ee_index e = k \<and> ee_code e = DUPLICATE)"
  shows "\<exists>m sk. ValidateEvent pt (raw ! k) dev now = Inr (m, sk) \<and>
    known s' (dc_tenant_id dev) (ms_event_id m)"
proof (cases "valid_events pt dev now raw = []")
  case True
  with run have res: "Errors res = verdicts pt dev now empty_report 0 0 raw"
    by (auto simp: IngestBatch_verdicts)
  show ?thesis
    using ok k verdict_accepted [of k raw 0 pt dev now empty_report 0]
      verdict_duplicate [of _ pt dev now empty_report 0 0 raw] True
    unfolding res by (auto simp: empty_report_def)
next
  case False
  with run obtain rep where ins: "InsertMany (valid_events pt dev now raw) s = (Inr rep, s')"
    and res: "Errors res = verdicts pt dev now rep 0 0 raw"
    by (auto simp: IngestBatch_verdicts recordActivity_def Let_def split: prod.splits sum.splits)
  from ok show ?thesis
  proof
    assume "k \<notin> ee_index ` set (Errors res)"
    then obtain m sk n where v: "ValidateEvent pt (raw ! k) dev now = Inr (m, sk)"
      "n < length (valid_events pt dev now raw)" "valid_events pt dev now raw ! n = m"
      "report_outcome rep n = None"
      using verdict_accepted [of k raw 0 pt dev now rep 0] k unfolding res by auto
    with unreported_stored [OF ins v(2)] have "known s' (ms_tenant_id m) (ms_event_id m)"
      by (auto intro: stored_known)
    with v(1) show ?thesis by (auto dest: ValidateEvent_identity)
  next
    assume "\<exists>e \<in> set (Errors res). ee_index e = k \<and> ee_code e = DUPLICATE"
    then obtain m sk n where v: "ValidateEvent pt (raw ! k) dev now = Inr (m, sk)"
      "n < length (valid_events pt dev now raw)" "valid_events pt dev now raw ! n = m"
      "n \<in> set (Duplicated rep)"
      using verdict_duplicate [of _ pt dev now rep 0 0 raw] unfolding res by fastforce
    with duplicated_known [OF ins v(2)] show ?thesis
      by (auto dest: ValidateEvent_identity)
  qed
qed

end

section \<open>The two implementations\<close>

interpretation unavailable_store: measurement_store "unavailable_InsertMany err"
    "\<lambda>s m. (ms_tenant_id m, ms_event_id m) \<in> s" "\<lambda>s t e. (t, e) \<in> s"
  by unfold_locales (auto simp: unavailable_InsertMany_def)

text \<open>
  The documented behaviour of \<open>Collection.InsertMany\<close> with \<open>ordered:false\<close>, over the
  documents a collection holds: what it does not report as a write error is in the collection,
  what it reports with the duplicate key code has a document under its unique key, and it removes
  nothing. Nothing is said of what is stored when the call fails.
\<close>

definition unordered_insert ::
  "('d list \<Rightarrow> 's \<Rightarrow> 'e bulk_outcome \<times> 's) \<Rightarrow> ('s \<Rightarrow> 'd set) \<Rightarrow> ('d \<Rightarrow> string \<times> string) \<Rightarrow> bool"
where
  "unordered_insert coll docs_in key \<longleftrightarrow>
     (\<forall>raw s out s'. coll raw s = (out, s') \<longrightarrow>
        docs_in s \<subseteq> docs_in s' \<and>
        (out = BulkOk \<longrightarrow> set raw \<subseteq> docs_in s') \<and>
        (\<forall>wes wce e. out = BulkWriteException wes wce e \<longrightarrow>
           (\<forall>k < length raw. (\<forall>we \<in> set wes. we_index we \<noteq> int k) \<longrightarrow> raw ! k \<in> docs_in s') \<and>
           (\<forall>we \<in> set wes. \<forall>k < length raw. we_index we = int k \<longrightarrow> we_code we = duplicateKeyCode \<longrightarrow>
              key (raw ! k) \<in> key ` docs_in s')))"

lemma unordered_insertD:
  assumes "unordered_insert coll docs_in key" and "coll raw s = (out, s')"
  shows unordered_insert_mono: "docs_in s \<subseteq> docs_in s'"
    and unordered_insert_ok: "out = BulkOk \<Longrightarrow> k < length raw \<Longrightarrow> raw ! k \<in> docs_in s'"
    and unordered_insert_rest: "out = BulkWriteException wes wce e \<Longrightarrow> k < length raw \<Longrightarrow>
      \<forall>we \<in> set wes. we_index we \<noteq> int k \<Longrightarrow> raw ! k \<in> docs_in s'"
    and unordered_insert_dup: "out = BulkWriteException wes wce e \<Longrightarrow> k < length raw \<Longrightarrow> we \<in> set wes \<Longrightarrow>
      we_index we = int k \<Longrightarrow> we_code we = duplicateKeyCode \<Longrightarrow> key (raw ! k) \<in> key ` docs_in s'"
proof -
  note c = assms(1) [unfolded unordered_insert_def, rule_format, OF assms(2)]
  show "docs_in s \<subseteq> docs_in s'" using c by simp
  show "out = BulkOk \<Longrightarrow> k < length raw \<Longrightarrow> raw ! k \<in> docs_in s'"
    using c nth_mem [of k raw] by (simp add: subset_iff)
  show "out = BulkWriteException wes wce e \<Longrightarrow> k < length raw \<Longrightarrow>
      \<forall>we \<in> set wes. we_index we \<noteq> int k \<Longrightarrow> raw ! k \<in> docs_in s'"
    using c by simp
  show "out = BulkWriteException wes wce e \<Longrightarrow> k < length raw \<Longrightarrow> we \<in> set wes \<Longrightarrow>
      we_index we = int k \<Longrightarrow> we_code we = duplicateKeyCode \<Longrightarrow> key (raw ! k) \<in> key ` docs_in s'"
    using c by simp
qed

lemma mongo_InsertMany_cases:
  assumes "mongo_InsertMany marshal coll docs s = (Inr rep, s')"
    and "encode_loop marshal 0 docs = (raw, sent, bad)"
  obtains "raw = []" "rep = empty_report\<lparr>Invalid := bad\<rparr>" "s' = s"
  | "raw \<noteq> []" "coll raw s = (BulkOk, s')" "rep = empty_report\<lparr>Invalid := bad\<rparr>"
  | wes e where "raw \<noteq> []" "coll raw s = (BulkWriteException wes False e, s')"
      "rep = foldl (\<lambda>r we. note_error sent we r) (empty_report\<lparr>Invalid := bad\<rparr>) wes"
  using assms
  by (auto simp: mongo_InsertMany_def empty_report_def Let_def
      split: if_splits prod.splits bulk_outcome.splits)

lemma mongo_unreported:
  assumes drv: "unordered_insert coll docs_in key"
    and run: "mongo_InsertMany marshal coll docs s = (Inr rep, s')"
    and j: "j < length docs" and none: "report_outcome rep j = None"
  shows "\<exists>d. marshal (docs ! j) = Inr d \<and> d \<in> docs_in s'"
proof -
  obtain raw sent bad where enc: "encode_loop marshal 0 docs = (raw, sent, bad)"
    by (metis prod_cases3)
  from none have nd: "j \<notin> set (Duplicated rep)" and ni: "map_of (Invalid rep) j = None"
    and nf: "map_of (Failed rep) j = None"
    by (auto simp: report_outcome_def split: if_split_asm)
  have "Invalid rep = bad"
    using run enc by (cases rule: mongo_InsertMany_cases) auto
  with ni have "\<forall>msg. (j, msg) \<notin> set bad"
    by (metis weak_map_of_SomeI option.distinct(1))
  then obtain k where k: "k < length raw" "sent ! k = j"
    using encode_loop_covers [OF enc j] encode_loop_length [OF enc] by (auto simp: in_set_conv_nth)
  then have d: "marshal (docs ! j) = Inr (raw ! k)"
    using encode_loop_nth [OF enc k(1)] by auto
  from run enc have "raw ! k \<in> docs_in s'"
  proof (cases rule: mongo_InsertMany_cases)
    case 1
    with k show ?thesis by simp
  next
    case 2
    with unordered_insert_ok [OF drv] k show ?thesis by blast
  next
    case (3 wes e)
    have "\<forall>we \<in> set wes. we_index we \<noteq> int k"
      using fold_note_error_reports [of _ wes k sent "empty_report\<lparr>Invalid := bad\<rparr>"]
        3(3) nd nf k encode_loop_length [OF enc] by auto
    with unordered_insert_rest [OF drv 3(2)] k show ?thesis by blast
  qed
  with d show ?thesis by blast
qed

lemma mongo_duplicated:
  assumes drv: "unordered_insert coll docs_in key"
    and run: "mongo_InsertMany marshal coll docs s = (Inr rep, s')"
    and dup: "j \<in> set (Duplicated rep)"
  shows "\<exists>d. marshal (docs ! j) = Inr d \<and> key d \<in> key ` docs_in s'"
proof -
  obtain raw sent bad where enc: "encode_loop marshal 0 docs = (raw, sent, bad)"
    by (metis prod_cases3)
  from run enc show ?thesis
  proof (cases rule: mongo_InsertMany_cases)
    case (3 wes e)
    with fold_note_error_dup [of j sent "empty_report\<lparr>Invalid := bad\<rparr>" wes] dup
    obtain we k where w: "we \<in> set wes" "k < length sent" "we_index we = int k"
      "we_code we = duplicateKeyCode" "j = sent ! k"
      by (auto simp: empty_report_def)
    then have k: "k < length raw" using encode_loop_length [OF enc] by simp
    with encode_loop_nth [OF enc k] w(5) have "marshal (docs ! j) = Inr (raw ! k)" by auto
    with unordered_insert_dup [OF drv 3(2) refl k w(1,3,4)] show ?thesis by auto
  qed (use dup in \<open>auto simp: empty_report_def\<close>)
qed

lemma mongo_measurement_store:
  assumes drv: "unordered_insert coll docs_in key"
    and keyed: "\<And>m d. marshal m = Inr d \<Longrightarrow> key d = (ms_tenant_id m, ms_event_id m)"
  shows "measurement_store (mongo_InsertMany marshal coll)
           (\<lambda>s m. \<exists>d. marshal m = Inr d \<and> d \<in> docs_in s) (\<lambda>s t e. (t, e) \<in> key ` docs_in s)"
proof unfold_locales
  fix docs s rep s' j
  assume run: "mongo_InsertMany marshal coll docs s = (Inr rep, s')" and j: "j < length docs"
  show "report_outcome rep j = None \<Longrightarrow> \<exists>d. marshal (docs ! j) = Inr d \<and> d \<in> docs_in s'"
    by (rule mongo_unreported [OF drv run j])
  show "j \<in> set (Duplicated rep) \<Longrightarrow> (ms_tenant_id (docs ! j), ms_event_id (docs ! j)) \<in> key ` docs_in s'"
    using mongo_duplicated [OF drv run] keyed by metis
next
  fix s m
  show "\<exists>d. marshal m = Inr d \<and> d \<in> docs_in s \<Longrightarrow> (ms_tenant_id m, ms_event_id m) \<in> key ` docs_in s"
    using keyed by (metis image_eqI)
next
  fix s m docs
  have "docs_in s \<subseteq> docs_in (snd (mongo_InsertMany marshal coll docs s))"
    using unordered_insert_mono [OF drv]
    by (auto simp: mongo_InsertMany_def Let_def split: prod.splits bulk_outcome.splits if_splits)
  then show "\<exists>d. marshal m = Inr d \<and> d \<in> docs_in s \<Longrightarrow>
      \<exists>d. marshal m = Inr d \<and> d \<in> docs_in (snd (mongo_InsertMany marshal coll docs s))" by blast
qed


section \<open>Terminal codes\<close>

lemma verdict_terminal:
  assumes "e \<in> set (verdicts pt dev now rep i j raw)" and "terminal (ee_code e)"
  shows "\<exists>k < length raw. ee_index e = i + k \<and>
    ((\<exists>err. ValidateEvent pt (raw ! k) dev now = Inl err \<and> ee_code e = ee_code err) \<or>
     (\<exists>m sk n. ValidateEvent pt (raw ! k) dev now = Inr (m, sk) \<and>
        n < length (valid_events pt dev now raw) \<and> valid_events pt dev now raw ! n = m \<and>
        map_of (Invalid rep) (j + n) \<noteq> None))"
  using assms
proof (induction raw arbitrary: i j)
  case Nil
  then show ?case by simp
next
  case (Cons item raw)
  show ?case
  proof (cases "ValidateEvent pt item dev now")
    case (Inl err)
    show ?thesis
    proof (cases "e = err\<lparr>ee_index := i\<rparr>")
      case True
      with Inl show ?thesis by (intro exI [of _ 0]) simp
    next
      case False
      with Cons.prems Inl have "e \<in> set (verdicts pt dev now rep (Suc i) j raw)" by simp
      from Cons.IH [OF this Cons.prems(2)] Inl show ?thesis
        by (elim exE conjE, intro exI [of _ "Suc k" for k] conjI) auto
    qed
  next
    case (Inr p)
    obtain m sk where p: "p = (m, sk)" by (cases p)
    show ?thesis
    proof (cases "e \<in> set (verdicts pt dev now rep (Suc i) (Suc j) raw)")
      case True
      from Cons.IH [OF this Cons.prems(2)] obtain k where k: "k < length raw" "ee_index e = Suc i + k"
        and d: "(\<exists>err. ValidateEvent pt (raw ! k) dev now = Inl err \<and> ee_code e = ee_code err) \<or>
         (\<exists>m sk n. ValidateEvent pt (raw ! k) dev now = Inr (m, sk) \<and>
           n < length (valid_events pt dev now raw) \<and> valid_events pt dev now raw ! n = m \<and>
           map_of (Invalid rep) (Suc j + n) \<noteq> None)" by blast
      have "(\<exists>m sk n. ValidateEvent pt (raw ! k) dev now = Inr (m, sk) \<and>
           n < length (valid_events pt dev now raw) \<and> valid_events pt dev now raw ! n = m \<and>
           map_of (Invalid rep) (Suc j + n) \<noteq> None) \<Longrightarrow>
         (\<exists>m sk n. ValidateEvent pt (raw ! k) dev now = Inr (m, sk) \<and>
           n < length (valid_events pt dev now (item # raw)) \<and> valid_events pt dev now (item # raw) ! n = m \<and>
           map_of (Invalid rep) (j + n) \<noteq> None)"
        using Inr p by (elim exE, intro exI [of _ "Suc n" for n] exI) auto
      with k d show ?thesis by (intro exI [of _ "Suc k"]) auto
    next
      case False
      with Cons.prems(1) Inr p obtain c msg where c: "report_outcome rep j = Some (c, msg)"
        and e: "e = \<lparr>ee_index = i, ee_code = c, ee_message = msg\<rparr>"
        by (cases "report_outcome rep j") auto
      with Cons.prems(2) have "map_of (Invalid rep) j \<noteq> None"
        by (auto simp: report_outcome_def split: if_splits)
      with Inr p e show ?thesis
        by (intro exI [of _ 0]) (auto intro!: exI [of _ "0::nat"])
    qed
  qed
qed

lemma mongo_Invalid:
  assumes "mongo_InsertMany marshal coll docs s = (Inr rep, s')" and "map_of (Invalid rep) n \<noteq> None"
  shows "\<exists>msg. n < length docs \<and> marshal (docs ! n) = Inl msg"
proof -
  obtain raw sent bad where enc: "encode_loop marshal 0 docs = (raw, sent, bad)"
    by (metis prod_cases3)
  with assms(1) have "Invalid rep = bad"
    by (cases rule: mongo_InsertMany_cases) auto
  then obtain msg where "(n, msg) \<in> set bad" using assms(2) by (auto dest: map_of_SomeD)
  with encode_loop_bad [OF enc] show ?thesis by auto
qed

section \<open>Properties\<close>

text \<open>The answer to a batch, given what the repository reported.\<close>

definition batch_answer ::
  "(string \<Rightarrow> time option) \<Rightarrow> device_context \<Rightarrow> time \<Rightarrow> json list \<Rightarrow> insert_report \<Rightarrow> batch_result" where
  "batch_answer pt dev now raw rep =
     (let vs = verdicts pt dev now rep 0 0 raw
      in \<lparr>Accepted = int (length raw) - int (length vs), Rejected = int (length vs), Errors = vs\<rparr>)"

text \<open>C5. The batch is what the contract with the Edge promises: one verdict per event, in the order of
  the request, each from the event's own validation or from what the repository reported at its
  position; a failing repository fails the whole batch, and an empty or fully rejected batch never
  reaches it. The two loops of the code with their index bookkeeping and the final sort implement
  that specification.\<close>

theorem IngestBatch_refines:
  "IngestBatch pt InsertMany touch now dev raw s =
     (if valid_events pt dev now raw = [] then (Inr (batch_answer pt dev now raw empty_report), s)
      else case InsertMany (valid_events pt dev now raw) s of
             (Inl err, s') \<Rightarrow> (Inl err, s')
           | (Inr rep, s') \<Rightarrow> (Inr (batch_answer pt dev now raw rep), recordActivity touch dev s'))"
  unfolding IngestBatch_verdicts batch_answer_def Let_def by (rule refl)

text \<open>Accounting: every event of the request is accepted or rejected, the errors are exactly the
  rejected ones, and their indices are positions of the request in strictly increasing order, so that
  no event has two verdicts.\<close>

theorem IngestBatch_accounting:
  assumes "IngestBatch pt InsertMany touch now dev raw s = (Inr res, s')"
  shows "Accepted res + Rejected res = int (length raw) \<and> 0 \<le> Accepted res \<and>
    Rejected res = int (length (Errors res)) \<and>
    sorted_wrt (<) (map ee_index (Errors res)) \<and> (\<forall>e \<in> set (Errors res). ee_index e < length raw)"
proof -
  obtain rep where e: "Errors res = verdicts pt dev now rep 0 0 raw"
    and r: "Rejected res = int (length (Errors res))"
      "Accepted res = int (length raw) - int (length (Errors res))"
    using assms by (auto simp: IngestBatch_verdicts Let_def split: if_splits prod.splits sum.splits)
  show ?thesis
    using r verdicts_strict [of pt dev now rep 0 0 raw] verdicts_length [of pt dev now rep 0 0 raw]
      verdicts_index_less [of _ pt dev now rep 0 0 raw] unfolding e by auto
qed

text \<open>The tenant and the device of a stored document come from the API key, never from the body:
  whatever the request holds, the repository is only called with documents that carry the identity
  of the authenticated device, an event id, and a schema version and sequence number in range.\<close>

theorem IngestBatch_identity:
  assumes "\<And>docs s. (\<forall>m \<in> set docs. ms_tenant_id m = dc_tenant_id dev \<and> ms_device_id m = dc_device_id dev \<and>
      ms_machine_id m = dc_machine_id dev \<and> ms_received_at m = now \<and> ms_event_id m \<noteq> [] \<and>
      1 \<le> ms_schema_version m \<and> (\<forall>q. ms_seq m = Some q \<longrightarrow> 0 \<le> q \<and> q < 2 ^ 63)) \<Longrightarrow>
    InsertMany docs s = InsertMany' docs s"
  shows "IngestBatch pt InsertMany touch now dev raw s = IngestBatch pt InsertMany' touch now dev raw s"
proof -
  have "\<forall>m \<in> set (valid_events pt dev now raw). ms_tenant_id m = dc_tenant_id dev \<and>
      ms_device_id m = dc_device_id dev \<and> ms_machine_id m = dc_machine_id dev \<and> ms_received_at m = now \<and>
      ms_event_id m \<noteq> [] \<and> 1 \<le> ms_schema_version m \<and> (\<forall>q. ms_seq m = Some q \<longrightarrow> 0 \<le> q \<and> q < 2 ^ 63)"
    by (induction raw) (auto split: sum.splits dest: ValidateEvent_identity ValidateEvent_bounds ValidateEvent_seq)
  then have "InsertMany (valid_events pt dev now raw) s = InsertMany' (valid_events pt dev now raw) s"
    by (rule assms)
  then show ?thesis by (simp add: IngestBatch_verdicts Let_def)
qed

text \<open>C6. Nothing is forgotten before it is stored: an event that the Edge will not send again as
  delivered, because it is missing from errors or is there as DUPLICATE, passed its validation and the
  collection holds a document under its key. It rests on the documented behaviour of an unordered
  InsertMany of the driver.\<close>

theorem IngestBatch_delivered:
  assumes drv: "unordered_insert coll docs_in key"
    and keyed: "\<And>m d. marshal m = Inr d \<Longrightarrow> key d = (ms_tenant_id m, ms_event_id m)"
    and run: "IngestBatch pt (mongo_InsertMany marshal coll) None now dev raw s = (Inr res, s')"
    and k: "k < length raw"
    and ok: "k \<notin> ee_index ` set (Errors res) \<or> (\<exists>e \<in> set (Errors res). ee_index e = k \<and> ee_code e = DUPLICATE)"
  shows "\<exists>m sk. ValidateEvent pt (raw ! k) dev now = Inr (m, sk) \<and>
    (dc_tenant_id dev, ms_event_id m) \<in> key ` docs_in s'"
  by (rule measurement_store.delivered_known [OF mongo_measurement_store [OF drv keyed] run k ok])

text \<open>A storage problem never costs an event: the codes that make the Edge give an event up for
  good are only given for a fault of the event itself, one that its validation finds or that the BSON
  encoder finds, and never for what the database did.\<close>

theorem IngestBatch_terminal_own_fault:
  assumes "IngestBatch pt (mongo_InsertMany marshal coll) touch now dev raw s = (Inr res, s')"
    and "e \<in> set (Errors res)" and "terminal (ee_code e)"
  shows "ee_index e < length raw \<and>
    (case ValidateEvent pt (raw ! ee_index e) dev now of
       Inl err \<Rightarrow> ee_code e = ee_code err
     | Inr (m, _) \<Rightarrow> \<exists>msg. marshal m = Inl msg)"
proof (cases "valid_events pt dev now raw = []")
  case True
  with assms(1,2) have "e \<in> set (verdicts pt dev now empty_report 0 0 raw)"
    by (auto simp: IngestBatch_verdicts)
  with verdict_terminal [OF this assms(3)] True show ?thesis by auto
next
  case False
  with assms(1) obtain rep s1 where
      ins: "mongo_InsertMany marshal coll (valid_events pt dev now raw) s = (Inr rep, s1)"
    and res: "Errors res = verdicts pt dev now rep 0 0 raw"
    by (auto simp: IngestBatch_verdicts Let_def split: prod.splits sum.splits)
  have "e \<in> set (verdicts pt dev now rep 0 0 raw)" using assms(2) res by simp
  from verdict_terminal [OF this assms(3)] show ?thesis
    using mongo_Invalid [OF ins] by fastforce
qed


section \<open>Concrete instances\<close>

text \<open>A collection in memory whose documents are their own unique key.\<close>

fun keyed_insert ::
  "int \<Rightarrow> (string \<times> string) list \<Rightarrow> (string \<times> string) list \<Rightarrow> write_error list \<times> (string \<times> string) list"
where
  "keyed_insert i [] s = ([], s)"
| "keyed_insert i (d # ds) s =
     (if d \<in> set s
      then let (es, s') = keyed_insert (i + 1) ds s
           in (\<lparr>we_index = i, we_code = 11000, we_message = Msg ''dup'' []\<rparr> # es, s')
      else keyed_insert (i + 1) ds (d # s))"

definition keyed_coll ::
  "(string \<times> string) list \<Rightarrow> (string \<times> string) list \<Rightarrow> unit bulk_outcome \<times> (string \<times> string) list" where
  "keyed_coll raw s =
     (let (es, s') = keyed_insert 0 raw s
      in (if es = [] then BulkOk else BulkWriteException es False (), s'))"

lemma keyed_insert_set: "set (snd (keyed_insert i ds s)) = set s \<union> set ds"
  by (induction ds arbitrary: i s) (auto simp: Let_def split_beta)

lemma keyed_coll_set: "snd (keyed_coll raw s) = snd (keyed_insert 0 raw s)"
  by (simp add: keyed_coll_def split_beta)

lemma keyed_coll_unordered: "unordered_insert keyed_coll set id"
  unfolding unordered_insert_def
proof (intro allI impI)
  fix raw s out s'
  assume "keyed_coll raw s = (out, s')"
  then have "set s' = set s \<union> set raw"
    using keyed_coll_set [of raw s] keyed_insert_set [of 0 raw s] by simp
  then show "set s \<subseteq> set s' \<and> (out = BulkOk \<longrightarrow> set raw \<subseteq> set s') \<and>
      (\<forall>wes wce e. out = BulkWriteException wes wce e \<longrightarrow>
         (\<forall>k < length raw. (\<forall>we \<in> set wes. we_index we \<noteq> int k) \<longrightarrow> raw ! k \<in> set s') \<and>
         (\<forall>we \<in> set wes. \<forall>k < length raw. we_index we = int k \<longrightarrow> we_code we = duplicateKeyCode \<longrightarrow>
            id (raw ! k) \<in> id ` set s'))"
    by simp
qed

definition pi_context :: device_context where
  "pi_context = \<lparr>dc_tenant_id = ''t'', dc_device_id = ''d'', dc_machine_id = ''m''\<rparr>"

definition metric_event :: json where
  "metric_event = JObj [(''eventId'', JStr ''e1''), (''machineId'', JStr ''m''), (''ts'', JStr ''now''),
     (''kind'', JStr ''metric''), (''schemaVersion'', JNum ''1''), (''payload'', JObj [])]"

definition event_key :: "measurement \<Rightarrow> message + string \<times> string" where
  "event_key m = Inr (ms_tenant_id m, ms_event_id m)"

lemma metric_event_keys:
  "fold_name ''eventId'' = ''EVENTID''" "fold_name ''machineId'' = ''MACHINEID''" "fold_name ''ts'' = ''TS''"
  "fold_name ''kind'' = ''KIND''" "fold_name ''schemaVersion'' = ''SCHEMAVERSION''"
  "fold_name ''payload'' = ''PAYLOAD''"
  by code_simp+

lemma metric_event_decodes:
  "decode_raw_event metric_event = Some
     \<lparr>re_event_id = Some ''e1'', re_machine_id = Some ''m'', re_ts = Some ''now'', re_seq = None,
      re_kind = Some ''metric'', re_schema_version = Some ''1'', re_payload = Some []\<rparr>"
  by (simp add: metric_event_def empty_raw_event_def decode_member_def metric_event_keys Let_def
      del: fold_name.simps)

lemma one_not_space: "strip_first spaces ''1'' = None" "strip_first (map rev spaces) ''1'' = None"
  by (simp_all add: strip_first_None spaces_def)

lemma jsonInt_1: "jsonInt ''1'' = Some 1"
  by (simp add: jsonInt_def trim_space_def trim_left_def trim_right_def strip_all_None one_not_space
      parse_int64_def is_digit_def)

lemma metric_event_valid:
  "ValidateEvent (\<lambda>_. Some 0) metric_event pi_context 5 =
     Inr (\<lparr>ms_event_id = ''e1'', ms_tenant_id = ''t'', ms_device_id = ''d'', ms_machine_id = ''m'', ms_ts = 0,
       ms_seq = None, ms_kind = ''metric'', ms_schema_version = 1, ms_payload = [],
       ms_received_at = 5\<rparr>, SkewReasonNone)"
  by (simp add: ValidateEvent_def metric_event_decodes jsonInt_1 required_fields_def parse_seq_def
      Kinds_def pi_context_def MaxSchemaVersion_def)

lemma bool_event_invalid:
  "ValidateEvent pt (JBool b) dev now = Inl (invalid ''evento no deserializable: %v'' [])"
  by (simp add: ValidateEvent_def)

text \<open>A batch of an event, a value that is no event, and the event again.\<close>

definition three_events :: "json list" where
  "three_events = [metric_event, JBool True, metric_event]"

definition three_errors :: "event_error list" where
  "three_errors =
     [\<lparr>ee_index = 1, ee_code = INVALID_SCHEMA, ee_message = Msg ''evento no deserializable: %v'' []\<rparr>,
      \<lparr>ee_index = 2, ee_code = DUPLICATE, ee_message = Msg ''el evento ya habia sido ingerido'' []\<rparr>]"

lemma three_events_run:
  "IngestBatch (\<lambda>_. Some 0) (mongo_InsertMany event_key keyed_coll) None 5 pi_context three_events []
     = (Inr \<lparr>Accepted = 1, Rejected = 2, Errors = three_errors\<rparr>, [(''t'', ''e1'')])"
  by (simp add: IngestBatch_verdicts three_events_def three_errors_def metric_event_valid
      bool_event_invalid mongo_InsertMany_def event_key_def keyed_coll_def Let_def empty_report_def
      note_error_def duplicateKeyCode_def report_outcome_def recordActivity_def invalid_def)

theorem IngestBatch_accounting_instance:
  "sorted_wrt (<) (map ee_index three_errors) \<and> Accepted \<lparr>Accepted = 1, Rejected = 2, Errors = three_errors\<rparr> = 1"
  using IngestBatch_accounting [OF three_events_run] by simp

theorem IngestBatch_identity_instance:
  "IngestBatch (\<lambda>_. Some 0) (mongo_InsertMany event_key keyed_coll) None 5 pi_context three_events [] =
   IngestBatch (\<lambda>_. Some 0)
     (\<lambda>docs. if \<forall>m \<in> set docs. ms_tenant_id m = ''t'' then mongo_InsertMany event_key keyed_coll docs
             else op_fail ()) None 5 pi_context three_events []"
  by (rule IngestBatch_identity) (simp add: pi_context_def)

theorem IngestBatch_delivered_instance:
  "\<exists>m sk. ValidateEvent (\<lambda>_. Some 0) (three_events ! 2) pi_context 5 = Inr (m, sk) \<and>
     (''t'', ms_event_id m) \<in> set [(''t'', ''e1'')]"
  using IngestBatch_delivered [OF keyed_coll_unordered _ three_events_run, of 2]
  by (auto simp: event_key_def three_events_def three_errors_def pi_context_def)

theorem IngestBatch_terminal_own_fault_instance:
  "1 < length three_events \<and> isl (ValidateEvent (\<lambda>_. Some 0) (three_events ! 1) pi_context 5)"
  using IngestBatch_terminal_own_fault [OF three_events_run, of "three_errors ! 0"]
  by (simp add: three_errors_def three_events_def event_key_def bool_event_invalid)

end
