(* ===== verification/EdgeDevices.thy ===== *)
theory EdgeDevices
  imports GoStd
begin

text \<open>
  Edge devices: the domain types (\<open>internal/domain/edge_devices\<close>), the Postgres repository
  (\<open>internal/repo/pg/edge_devices\<close>) with the constraints and the trigger of its tables, and
  the service (\<open>internal/app/edge_devices\<close>). The HTTP client of the Pi is the parameter
  \<open>client\<close>; ids the code draws with \<open>uuid.New\<close> and the clock are arguments. The tables
  also hold the API keys, whose operations are in theory \<open>ApiKeys\<close>.
\<close>

section \<open>Domain and tables\<close>

datatype edge_err =
    ErrDeviceNotFound
  | ErrMachineIDConflict
  | ErrDeviceDisabled
  | ErrKeyNotFound
  | EdgeRandom
  | EdgeInternal

record edge_device =
  ed_id :: uuid
  ed_tenant_id :: uuid
  ed_name :: string
  ed_description :: "string option"
  ed_machine_id :: string
  ed_edge_type :: string
  ed_raspberry_base_url :: string
  ed_plc_address :: "string option"
  ed_status :: string
  ed_last_seen_at :: "time option"
  ed_last_health_check_at :: "time option"
  ed_last_health_status :: string
  ed_last_health_summary :: "string option"
  ed_created_at :: time
  ed_updated_at :: time

record device_event =
  de_id :: uuid
  de_device_id :: uuid
  de_tenant_id :: uuid
  de_check_type :: string
  de_checked_at :: time
  de_overall_status :: string
  de_summary :: "string option"
  de_details :: "(string \<times> json) list"
  de_user_id :: uuid
  de_user_email :: string

record check_result =
  cr_check_type :: string
  cr_checked_at :: time
  cr_overall_status :: string
  cr_summary :: "string option"
  cr_details :: "(string \<times> json) list"

record create_device_command =
  cd_name :: string
  cd_machine_id :: string
  cd_edge_type :: string
  cd_raspberry_base_url :: string
  cd_description :: "string option"
  cd_plc_address :: "string option"

record update_device_command =
  ud_name :: "string option"
  ud_description :: "string option"
  ud_raspberry_base_url :: "string option"
  ud_plc_address :: "string option"

record api_key =
  ak_id :: uuid
  ak_tenant_id :: uuid
  ak_device_id :: uuid
  ak_key_id :: string
  ak_key_hash :: string
  ak_name :: "string option"
  ak_created_at :: time
  ak_created_by :: "uuid option"
  ak_expires_at :: "time option"
  ak_revoked_at :: "time option"
  ak_last_used_at :: "time option"

record edge_db =
  devices :: "edge_device list"
  device_events :: "device_event list"
  api_keys :: "api_key list"

type_synonym 'a edge_op = "(edge_db world, edge_err, 'a) oper"

definition check_statuses :: "string list" where
  "check_statuses = [''OK'', ''DEGRADED'', ''ERROR'', ''UNKNOWN'']"

definition device_statuses :: "string list" where
  "device_statuses = [''ACTIVE'', ''DISABLED'']"

section \<open>Repository\<close>

definition same_device :: "uuid \<Rightarrow> uuid \<Rightarrow> edge_device \<Rightarrow> bool" where
  "same_device tenantID deviceID d \<longleftrightarrow> ed_tenant_id d = tenantID \<and> ed_id d = deviceID"

text \<open>The trigger \<open>trg_edge_devices_updated_at\<close>: every UPDATE of a row stamps it.\<close>

definition device_trigger :: "time \<Rightarrow> edge_device \<Rightarrow> edge_device" where
  "device_trigger now d = d\<lparr>ed_updated_at := now\<rparr>"

definition edge_List :: "uuid \<Rightarrow> edge_device list edge_op" where
  "edge_List tenantID = query EdgeInternal
     (\<lambda>d. Inr (sort_desc ed_created_at (filter (\<lambda>x. ed_tenant_id x = tenantID) (devices d))))"

definition edge_GetByID :: "uuid \<Rightarrow> uuid \<Rightarrow> edge_device edge_op" where
  "edge_GetByID tenantID deviceID = query EdgeInternal
     (\<lambda>d. first_row ErrDeviceNotFound (filter (same_device tenantID deviceID) (devices d)))"

definition edge_Create :: "time \<Rightarrow> edge_device \<Rightarrow> edge_device edge_op" where
  "edge_Create now device = stmt EdgeInternal
     (\<lambda>d. if ed_edge_type device \<noteq> ''RASPBERRY_PLC'' \<or> ed_status device \<notin> set device_statuses
          then (Inl EdgeInternal, d)
          else if \<exists>x \<in> set (devices d). ed_id x = ed_id device \<or>
                    ed_tenant_id x = ed_tenant_id device \<and> ed_machine_id x = ed_machine_id device
          then (Inl ErrMachineIDConflict, d)
          else let row = device\<lparr>ed_last_seen_at := None, ed_last_health_check_at := None,
                                ed_last_health_status := ''UNKNOWN'', ed_last_health_summary := None,
                                ed_created_at := now, ed_updated_at := now\<rparr>
               in (Inr (device\<lparr>ed_created_at := now, ed_updated_at := now\<rparr>),
                   d\<lparr>devices := devices d @ [row]\<rparr>))"

text \<open>\<open>UPDATE edge_devices SET f WHERE tenant_id, id\<close>: no row is ErrDeviceNotFound.\<close>

definition update_device ::
  "time \<Rightarrow> uuid \<Rightarrow> uuid \<Rightarrow> (edge_device \<Rightarrow> edge_device) \<Rightarrow> (edge_device \<Rightarrow> bool) \<Rightarrow> edge_db \<Rightarrow>
     (edge_err + edge_device) \<times> edge_db"
where
  "update_device now tenantID deviceID f ok d =
     (case filter (same_device tenantID deviceID) (devices d) of
        [] \<Rightarrow> (Inl ErrDeviceNotFound, d)
      | x # _ \<Rightarrow>
          (let row = device_trigger now (f x)
           in if ok row
              then (Inr row, d\<lparr>devices := update_where (same_device tenantID deviceID)
                                            (\<lambda>x. device_trigger now (f x)) (devices d)\<rparr>)
              else (Inl EdgeInternal, d)))"

definition device_checks :: "edge_device \<Rightarrow> bool" where
  "device_checks x \<longleftrightarrow> ed_status x \<in> set device_statuses \<and> ed_last_health_status x \<in> set check_statuses"

definition edge_Update :: "time \<Rightarrow> edge_device \<Rightarrow> edge_device edge_op" where
  "edge_Update now device =
     op_bind (stmt EdgeInternal
        (update_device now (ed_tenant_id device) (ed_id device)
           (\<lambda>x. x\<lparr>ed_name := ed_name device, ed_description := ed_description device,
                   ed_plc_address := ed_plc_address device,
                   ed_raspberry_base_url := ed_raspberry_base_url device,
                   ed_status := ed_status device\<rparr>) device_checks))
       (\<lambda>row. op_ret (device\<lparr>ed_updated_at := ed_updated_at row\<rparr>))"

definition edge_SetStatus :: "time \<Rightarrow> uuid \<Rightarrow> uuid \<Rightarrow> string \<Rightarrow> edge_device edge_op" where
  "edge_SetStatus now tenantID deviceID status = stmt EdgeInternal
     (update_device now tenantID deviceID (\<lambda>x. x\<lparr>ed_status := status\<rparr>) device_checks)"

definition edge_UpdateHealthState :: "time \<Rightarrow> uuid \<Rightarrow> uuid \<Rightarrow> string \<Rightarrow> string \<Rightarrow> unit edge_op" where
  "edge_UpdateHealthState now tenantID deviceID status summary =
     op_bind (stmt EdgeInternal
        (update_device now tenantID deviceID
           (\<lambda>x. x\<lparr>ed_last_health_check_at := Some now, ed_last_health_status := status,
                   ed_last_health_summary := Some summary\<rparr>) device_checks))
       (\<lambda>_. op_ret ())"

definition edge_TouchLastSeen :: "time \<Rightarrow> uuid \<Rightarrow> uuid \<Rightarrow> unit edge_op" where
  "edge_TouchLastSeen now tenantID deviceID =
     op_bind (stmt EdgeInternal
        (update_device now tenantID deviceID (\<lambda>x. x\<lparr>ed_last_seen_at := Some now\<rparr>) device_checks))
       (\<lambda>_. op_ret ())"

definition edge_SaveEvent :: "device_event \<Rightarrow> unit edge_op" where
  "edge_SaveEvent event = stmt EdgeInternal
     (\<lambda>d. if de_check_type event \<notin> {''STATUS'', ''HEALTH_CHECK''}
             \<or> de_overall_status event \<notin> set check_statuses
             \<or> (\<exists>x \<in> set (device_events d). de_id x = de_id event)
             \<or> \<not> (\<exists>x \<in> set (devices d). ed_id x = de_device_id event)
          then (Inl EdgeInternal, d)
          else (Inr (), d\<lparr>device_events := device_events d @ [event]\<rparr>))"

definition edge_ListEvents :: "uuid \<Rightarrow> uuid \<Rightarrow> device_event list edge_op" where
  "edge_ListEvents tenantID deviceID = query EdgeInternal
     (\<lambda>d. Inr (sort_desc de_checked_at
        (filter (\<lambda>x. de_device_id x = deviceID \<and> de_tenant_id x = tenantID) (device_events d))))"

section \<open>Service\<close>

definition ListDevices :: "uuid \<Rightarrow> edge_device list edge_op" where
  "ListDevices tenantID = edge_List tenantID"

definition GetDevice :: "uuid \<Rightarrow> uuid \<Rightarrow> edge_device edge_op" where
  "GetDevice tenantID deviceID = edge_GetByID tenantID deviceID"

definition CreateDevice :: "time \<Rightarrow> uuid \<Rightarrow> uuid \<Rightarrow> create_device_command \<Rightarrow> edge_device edge_op" where
  "CreateDevice now newID tenantID cmd =
     edge_Create now
       \<lparr>ed_id = newID, ed_tenant_id = tenantID, ed_name = cd_name cmd,
        ed_description = cd_description cmd, ed_machine_id = cd_machine_id cmd,
        ed_edge_type = cd_edge_type cmd, ed_raspberry_base_url = cd_raspberry_base_url cmd,
        ed_plc_address = cd_plc_address cmd, ed_status = ''ACTIVE'', ed_last_seen_at = None,
        ed_last_health_check_at = None, ed_last_health_status = ''UNKNOWN'',
        ed_last_health_summary = None, ed_created_at = 0, ed_updated_at = 0\<rparr>"

definition apply_device_update :: "update_device_command \<Rightarrow> edge_device \<Rightarrow> edge_device" where
  "apply_device_update cmd device =
     device\<lparr>ed_name := opt_or (ud_name cmd) (ed_name device),
            ed_description := (case ud_description cmd of None \<Rightarrow> ed_description device | Some s \<Rightarrow> Some s),
            ed_raspberry_base_url := opt_or (ud_raspberry_base_url cmd) (ed_raspberry_base_url device),
            ed_plc_address := (case ud_plc_address cmd of None \<Rightarrow> ed_plc_address device | Some s \<Rightarrow> Some s)\<rparr>"

definition UpdateDevice :: "time \<Rightarrow> uuid \<Rightarrow> uuid \<Rightarrow> update_device_command \<Rightarrow> edge_device edge_op" where
  "UpdateDevice now tenantID deviceID cmd =
     op_bind (edge_GetByID tenantID deviceID)
       (\<lambda>device. edge_Update now (apply_device_update cmd device))"

definition EnableDevice :: "time \<Rightarrow> uuid \<Rightarrow> uuid \<Rightarrow> edge_device edge_op" where
  "EnableDevice now tenantID deviceID = edge_SetStatus now tenantID deviceID ''ACTIVE''"

definition DisableDevice :: "time \<Rightarrow> uuid \<Rightarrow> uuid \<Rightarrow> edge_device edge_op" where
  "DisableDevice now tenantID deviceID = edge_SetStatus now tenantID deviceID ''DISABLED''"

text \<open>
  \<open>client\<close> is what the Pi answers at a base URL: an error text, or a result that may be nil.
  The two checks differ in the call they make and in the type they write.
\<close>

definition check_outcome ::
  "string \<Rightarrow> time \<Rightarrow> string + check_result option \<Rightarrow> check_result"
where
  "check_outcome ctype now answer =
     (case answer of
        Inr (Some r) \<Rightarrow> r\<lparr>cr_check_type := ctype\<rparr>
      | Inr None \<Rightarrow> \<lparr>cr_check_type = ctype, cr_checked_at = now, cr_overall_status = ''ERROR'',
                      cr_summary = Some ''unreachable'', cr_details = []\<rparr>
      | Inl err \<Rightarrow> \<lparr>cr_check_type = ctype, cr_checked_at = now, cr_overall_status = ''ERROR'',
                     cr_summary = Some err, cr_details = []\<rparr>)"

definition check_event ::
  "string \<Rightarrow> uuid \<Rightarrow> uuid \<Rightarrow> uuid \<Rightarrow> uuid \<Rightarrow> string \<Rightarrow> check_result \<Rightarrow> device_event"
where
  "check_event ctype eventID tenantID deviceID userID userEmail r =
     \<lparr>de_id = eventID, de_device_id = deviceID, de_tenant_id = tenantID,
      de_check_type = ctype, de_checked_at = cr_checked_at r,
      de_overall_status = cr_overall_status r, de_summary = cr_summary r,
      de_details = cr_details r, de_user_id = userID, de_user_email = userEmail\<rparr>"

definition device_check ::
  "string \<Rightarrow> time \<Rightarrow> (string \<Rightarrow> string + check_result option) \<Rightarrow> uuid \<Rightarrow> uuid \<Rightarrow> uuid \<Rightarrow> uuid \<Rightarrow> string \<Rightarrow>
     check_result edge_op"
where
  "device_check ctype now client eventID tenantID deviceID userID userEmail =
     op_bind (edge_GetByID tenantID deviceID) (\<lambda>device.
     if ed_status device = ''DISABLED'' then op_fail ErrDeviceDisabled
     else
       let r = check_outcome ctype now (client (ed_raspberry_base_url device))
       in op_bind (edge_SaveEvent
            (check_event ctype eventID tenantID deviceID userID userEmail r)) (\<lambda>_.
          op_try (edge_UpdateHealthState now tenantID deviceID (cr_overall_status r)
                    (opt_or (cr_summary r) []))
            (\<lambda>_. op_ret r) (\<lambda>_. op_ret r)))"

definition StatusCheck ::
  "time \<Rightarrow> (string \<Rightarrow> string + check_result option) \<Rightarrow> uuid \<Rightarrow> uuid \<Rightarrow> uuid \<Rightarrow> uuid \<Rightarrow> string \<Rightarrow>
     check_result edge_op" where
  "StatusCheck = device_check ''STATUS''"

definition HealthCheck ::
  "time \<Rightarrow> (string \<Rightarrow> string + check_result option) \<Rightarrow> uuid \<Rightarrow> uuid \<Rightarrow> uuid \<Rightarrow> uuid \<Rightarrow> string \<Rightarrow>
     check_result edge_op" where
  "HealthCheck = device_check ''HEALTH_CHECK''"

text \<open>
  \<open>GetTelemetry\<close> hands the client's snapshot through. A nil snapshot without an error is
  returned as it is: nil and no error.
\<close>

definition GetTelemetry ::
  "(string \<Rightarrow> edge_err + 't option) \<Rightarrow> uuid \<Rightarrow> uuid \<Rightarrow> 't option edge_op" where
  "GetTelemetry client tenantID deviceID =
     op_bind (edge_GetByID tenantID deviceID) (\<lambda>device.
     if ed_status device = ''DISABLED'' then op_fail ErrDeviceDisabled
     else op_of (client (ed_raspberry_base_url device)))"

definition ListEvents :: "uuid \<Rightarrow> uuid \<Rightarrow> device_event list edge_op" where
  "ListEvents tenantID deviceID =
     op_bind (edge_GetByID tenantID deviceID) (\<lambda>_. edge_ListEvents tenantID deviceID)"


section \<open>Well-formed tables\<close>

text \<open>
  What the constraints of the three tables and the code that writes them keep true. The
  last conjuncts say more than the foreign keys: an event and a key belong to a device of the
  same tenant.
\<close>

definition has_device :: "edge_db \<Rightarrow> uuid \<Rightarrow> uuid \<Rightarrow> bool" where
  "has_device d tenantID deviceID \<longleftrightarrow> (\<exists>x \<in> set (devices d). same_device tenantID deviceID x)"

definition devices_wf :: "edge_db \<Rightarrow> bool" where
  "devices_wf d \<longleftrightarrow>
     distinct (map ed_id (devices d)) \<and>
     distinct (map (\<lambda>x. (ed_tenant_id x, ed_machine_id x)) (devices d)) \<and>
     (\<forall>x \<in> set (devices d). ed_edge_type x = ''RASPBERRY_PLC'' \<and> device_checks x)"

definition events_wf :: "edge_db \<Rightarrow> bool" where
  "events_wf d \<longleftrightarrow>
     distinct (map de_id (device_events d)) \<and>
     (\<forall>e \<in> set (device_events d). de_check_type e \<in> {''STATUS'', ''HEALTH_CHECK''} \<and>
        de_overall_status e \<in> set check_statuses \<and>
        has_device d (de_tenant_id e) (de_device_id e))"

definition keys_wf :: "edge_db \<Rightarrow> bool" where
  "keys_wf d \<longleftrightarrow>
     distinct (map ak_id (api_keys d)) \<and> distinct (map ak_key_id (api_keys d)) \<and>
     (\<forall>k \<in> set (api_keys d). has_device d (ak_tenant_id k) (ak_device_id k))"

definition edge_wf :: "edge_db \<Rightarrow> bool" where
  "edge_wf d \<longleftrightarrow> devices_wf d \<and> events_wf d \<and> keys_wf d"

lemmas edge_wf_defs = edge_wf_def devices_wf_def events_wf_def keys_wf_def

text \<open>What a statement on the devices may not change.\<close>

definition same_identity :: "(edge_device \<Rightarrow> edge_device) \<Rightarrow> bool" where
  "same_identity f \<longleftrightarrow> (\<forall>x. ed_id (f x) = ed_id x \<and> ed_tenant_id (f x) = ed_tenant_id x \<and>
     ed_machine_id (f x) = ed_machine_id x \<and> ed_edge_type (f x) = ed_edge_type x)"

lemma update_device_Inr:
  assumes "update_device now tenantID deviceID f ok d = (Inr row, d')"
  obtains x where "x \<in> set (devices d)" and "same_device tenantID deviceID x"
    and "row = device_trigger now (f x)" and "ok row"
    and "d' = d\<lparr>devices := update_where (same_device tenantID deviceID)
                             (\<lambda>x. device_trigger now (f x)) (devices d)\<rparr>"
proof -
  obtain x xs where x: "filter (same_device tenantID deviceID) (devices d) = x # xs"
    using assms by (auto simp: update_device_def split: list.splits)
  then have "x \<in> set (devices d) \<and> same_device tenantID deviceID x"
    by (metis list.set_intros(1) mem_Collect_eq set_filter)
  with x assms that show thesis
    by (auto simp: update_device_def Let_def split: if_splits)
qed

lemma update_device_Inl:
  "update_device now tenantID deviceID f ok d = (Inl e, d') \<Longrightarrow>
     d' = d \<and> (e = ErrDeviceNotFound \<longleftrightarrow> \<not> has_device d tenantID deviceID)"
  by (auto simp: update_device_def has_device_def filter_empty_conv Let_def filter_eq_Cons_iff
      split: list.splits if_splits)

lemma same_device_trigger:
  "same_identity f \<Longrightarrow> same_device t i (device_trigger now (f x)) = same_device t i x"
  by (simp add: same_device_def device_trigger_def same_identity_def)

lemma has_device_map:
  "has_device d t i \<longleftrightarrow> (t, i) \<in> set (map (\<lambda>x. (ed_tenant_id x, ed_id x)) (devices d))"
  by (auto simp: has_device_def same_device_def)

lemma has_device_update:
  assumes "same_identity f"
  shows "has_device (d\<lparr>devices := update_where p (\<lambda>x. device_trigger now (f x)) (devices d)\<rparr>) t i
           = has_device d t i"
proof -
  have "map (\<lambda>x. (ed_tenant_id x, ed_id x)) (update_where p (\<lambda>x. device_trigger now (f x)) (devices d))
          = map (\<lambda>x. (ed_tenant_id x, ed_id x)) (devices d)"
    using assms by (auto intro!: map_update_where_inv simp: device_trigger_def same_identity_def)
  then show ?thesis by (simp add: has_device_map del: set_map)
qed

lemma map_update_trigger:
  assumes "same_identity f"
  shows "map ed_id (update_where p (\<lambda>x. device_trigger now (f x)) xs) = map ed_id xs"
    and "map (\<lambda>x. (ed_tenant_id x, ed_machine_id x)) (update_where p (\<lambda>x. device_trigger now (f x)) xs)
           = map (\<lambda>x. (ed_tenant_id x, ed_machine_id x)) xs"
  using assms by (auto intro!: map_update_where_inv simp: device_trigger_def same_identity_def)

lemma distinct_map_eq:
  "distinct (map f xs) \<Longrightarrow> x \<in> set xs \<Longrightarrow> y \<in> set xs \<Longrightarrow> f x = f y \<Longrightarrow> x = y"
  by (auto simp: distinct_map inj_on_def)

lemma device_unique:
  "devices_wf d \<Longrightarrow> x \<in> set (devices d) \<Longrightarrow> y \<in> set (devices d) \<Longrightarrow>
     same_device t i x \<Longrightarrow> same_device t' i y \<Longrightarrow> x = y"
  by (auto simp: devices_wf_def same_device_def intro: distinct_map_eq)

lemma update_device_wf:
  assumes wf: "edge_wf d" and f: "same_identity f"
    and u: "update_device now tenantID deviceID f device_checks d = (Inr row, d')"
  shows "edge_wf d'"
proof -
  from u obtain x where x: "x \<in> set (devices d)" "same_device tenantID deviceID x"
      "device_checks (device_trigger now (f x))"
    and d': "d' = d\<lparr>devices := update_where (same_device tenantID deviceID)
                             (\<lambda>x. device_trigger now (f x)) (devices d)\<rparr>"
    by (auto elim: update_device_Inr)
  have row: "ed_edge_type y = ''RASPBERRY_PLC'' \<and> device_checks y"
    if "y \<in> set (devices d')" for y
  proof -
    from that obtain z where z: "z \<in> set (devices d)"
      and y: "y = (if same_device tenantID deviceID z then device_trigger now (f z) else z)"
      by (auto simp: d' in_update_where)
    have "z = x" if "same_device tenantID deviceID z"
      using that wf x z by (auto simp: edge_wf_def dest: device_unique)
    with y z x f wf show ?thesis
      by (auto simp: edge_wf_defs same_identity_def device_trigger_def)
  qed
  then show ?thesis
    using wf by (auto simp: edge_wf_defs d' map_update_trigger [OF f] has_device_update [OF f])
qed

section \<open>Every operation keeps the tables well formed\<close>

lemma keeps_update_device:
  assumes "same_identity f"
  shows "keeps edge_wf (stmt EdgeInternal (update_device now tenantID deviceID f device_checks))"
  by (rule keeps_stmt) (rule update_device_wf [OF _ assms])

lemma same_identity_simps [simp]:
  "same_identity (\<lambda>x. x\<lparr>ed_name := a, ed_description := b, ed_plc_address := c,
                        ed_raspberry_base_url := u, ed_status := st\<rparr>)"
  "same_identity (\<lambda>x. x\<lparr>ed_status := st\<rparr>)"
  "same_identity (\<lambda>x. x\<lparr>ed_last_health_check_at := h, ed_last_health_status := st,
                        ed_last_health_summary := sm\<rparr>)"
  "same_identity (\<lambda>x. x\<lparr>ed_last_seen_at := h\<rparr>)"
  by (simp_all add: same_identity_def)

lemma keeps_edge_SetStatus [intro]: "keeps edge_wf (edge_SetStatus now t i st)"
  by (simp add: edge_SetStatus_def keeps_update_device)

lemma keeps_edge_Update [intro]: "keeps edge_wf (edge_Update now device)"
  by (simp add: edge_Update_def keeps_bind keeps_ret keeps_update_device)

lemma keeps_edge_UpdateHealthState [intro]: "keeps edge_wf (edge_UpdateHealthState now t i st sm)"
  by (simp add: edge_UpdateHealthState_def keeps_bind keeps_ret keeps_update_device)

lemma keeps_edge_TouchLastSeen [intro]: "keeps edge_wf (edge_TouchLastSeen now t i)"
  by (simp add: edge_TouchLastSeen_def keeps_bind keeps_ret keeps_update_device)

lemma has_device_append: "has_device d t i \<Longrightarrow> has_device (d\<lparr>devices := devices d @ xs\<rparr>) t i"
  by (auto simp: has_device_def)

lemma keeps_edge_Create [intro]: "keeps edge_wf (edge_Create now device)"
  unfolding edge_Create_def
  by (rule keeps_stmt)
    (auto simp: edge_wf_defs Let_def device_checks_def check_statuses_def
      has_device_append split: if_splits)

lemma read_only_edge_reads [intro, simp]:
  "read_only (edge_List t)" "read_only (edge_GetByID t i)" "read_only (edge_ListEvents t i)"
  by (simp_all add: edge_List_def edge_GetByID_def edge_ListEvents_def)

lemma edge_GetByID_Inr:
  "edge_GetByID t i w = (Inr x, w') \<Longrightarrow>
     tables w' = tables w \<and> x \<in> set (devices (tables w)) \<and> same_device t i x"
  by (auto simp: edge_GetByID_def stmt_iffs first_row_Inr filter_eq_Cons_iff)

lemma edge_SaveEvent_Inr:
  "edge_SaveEvent e w = (Inr y, w') \<Longrightarrow>
     tables w' = (tables w)\<lparr>device_events := device_events (tables w) @ [e]\<rparr> \<and>
     de_check_type e \<in> {''STATUS'', ''HEALTH_CHECK''} \<and> de_overall_status e \<in> set check_statuses \<and>
     de_id e \<notin> de_id ` set (device_events (tables w))"
  by (auto simp: edge_SaveEvent_def stmt_iffs split: if_splits)

lemma edge_SaveEvent_Inl: "edge_SaveEvent e w = (Inl x, w') \<Longrightarrow> tables w' = tables w \<and> x = EdgeInternal"
  by (auto simp: edge_SaveEvent_def stmt_iffs split: if_splits)


section \<open>The checks\<close>

lemma edge_UpdateHealthState_cases:
  "edge_UpdateHealthState now t i st sm w = (r, w') \<Longrightarrow>
     tables w' = tables w \<or>
     (\<exists>row. update_device now t i (\<lambda>x. x\<lparr>ed_last_health_check_at := Some now, ed_last_health_status := st,
               ed_last_health_summary := Some sm\<rparr>) device_checks (tables w) = (Inr row, tables w'))"
  unfolding edge_UpdateHealthState_def by (erule op_bindE) (auto simp: stmt_iffs)

lemma device_check_cases:
  assumes "device_check ctype now client eventID t i u em w = (r, w')"
  obtains e where "r = Inl e" and "tables w' = tables w"
  | d c d' where "d \<in> set (devices (tables w))" and "same_device t i d"
      and "ed_status d \<noteq> ''DISABLED''" and "r = Inr c"
      and "c = check_outcome ctype now (client (ed_raspberry_base_url d))"
      and "d' = (tables w)\<lparr>device_events := device_events (tables w) @ [check_event ctype eventID t i u em c]\<rparr>"
      and "ctype \<in> {''STATUS'', ''HEALTH_CHECK''}" and "cr_overall_status c \<in> set check_statuses"
      and "eventID \<notin> de_id ` set (device_events (tables w))"
      and "tables w' = d' \<or>
           (\<exists>row. update_device now t i (\<lambda>x. x\<lparr>ed_last_health_check_at := Some now,
                ed_last_health_status := cr_overall_status c,
                ed_last_health_summary := Some (opt_or (cr_summary c) [])\<rparr>) device_checks d'
              = (Inr row, tables w'))"
proof -
  have get: "tables w1 = tables w" if "edge_GetByID t i w = (x, w1)" for x w1
    using that read_onlyD read_only_edge_reads(2) by metis
  from assms show thesis
    unfolding device_check_def
  proof (rule op_bindE)
    fix e assume "edge_GetByID t i w = (Inl e, w')" and "r = Inl e"
    then show thesis using that(1) get by blast
  next
    fix d w1
    assume g: "edge_GetByID t i w = (Inr d, w1)"
      and k: "(if ed_status d = ''DISABLED'' then op_fail ErrDeviceDisabled
        else let c = check_outcome ctype now (client (ed_raspberry_base_url d))
          in op_bind (edge_SaveEvent (check_event ctype eventID t i u em c))
            (\<lambda>_. op_try (edge_UpdateHealthState now t i (cr_overall_status c) (opt_or (cr_summary c) []))
               (\<lambda>_. op_ret c) (\<lambda>_. op_ret c))) w1 = (r, w')"
    show thesis
    proof (cases "ed_status d = ''DISABLED''")
      case True
      with k have r: "r = Inl ErrDeviceDisabled" and w': "w' = w1" by simp_all
      show thesis by (rule that(1) [OF r]) (simp add: w' get [OF g])
    next
      case False
      define c where "c = check_outcome ctype now (client (ed_raspberry_base_url d))"
      from False k have "op_bind (edge_SaveEvent (check_event ctype eventID t i u em c))
            (\<lambda>_. op_try (edge_UpdateHealthState now t i (cr_overall_status c) (opt_or (cr_summary c) []))
               (\<lambda>_. op_ret c) (\<lambda>_. op_ret c)) w1 = (r, w')"
        by (simp add: c_def Let_def)
      then show thesis
      proof (rule op_bindE)
        fix e assume sv: "edge_SaveEvent (check_event ctype eventID t i u em c) w1 = (Inl e, w')"
          and r: "r = Inl e"
        show thesis
          by (rule that(1) [OF r]) (simp add: edge_SaveEvent_Inl [OF sv] get [OF g])
      next
        fix y w2
        assume sv: "edge_SaveEvent (check_event ctype eventID t i u em c) w1 = (Inr y, w2)"
          and up: "op_try (edge_UpdateHealthState now t i (cr_overall_status c) (opt_or (cr_summary c) []))
               (\<lambda>_. op_ret c) (\<lambda>_. op_ret c) w2 = (r, w')"
        from up obtain x where r: "r = Inr c"
          and h: "edge_UpdateHealthState now t i (cr_overall_status c) (opt_or (cr_summary c) []) w2 = (x, w')"
          by (auto elim!: op_tryE)
        have ev: "de_check_type (check_event ctype eventID t i u em c) = ctype"
            "de_overall_status (check_event ctype eventID t i u em c) = cr_overall_status c"
            "de_id (check_event ctype eventID t i u em c) = eventID"
          by (simp_all add: check_event_def)
        note s1 = edge_GetByID_Inr [OF g] and s2 = edge_SaveEvent_Inr [OF sv]
          and s3 = edge_UpdateHealthState_cases [OF h]
        show thesis
          by (rule that(2) [OF _ _ False r c_def refl]) (use s1 s2 s3 in \<open>simp_all add: ev\<close>)
      qed
    qed
  qed
qed


section \<open>Histories of operations\<close>

text \<open>
  \<open>edge_step t w w'\<close>: one operation of the service (or of the ingestion, which marks a device
  as seen) on behalf of tenant \<open>t\<close>, with arbitrary arguments and whatever statements fail.
\<close>

inductive edge_step :: "uuid \<Rightarrow> edge_db world \<Rightarrow> edge_db world \<Rightarrow> bool" where
  step_Create: "CreateDevice now newID t cmd w = (r, w') \<Longrightarrow> edge_step t w w'"
| step_Update: "UpdateDevice now t i ucmd w = (r, w') \<Longrightarrow> edge_step t w w'"
| step_Enable: "EnableDevice now t i w = (r, w') \<Longrightarrow> edge_step t w w'"
| step_Disable: "DisableDevice now t i w = (r, w') \<Longrightarrow> edge_step t w w'"
| step_Status: "StatusCheck now client eventID t i u em w = (rc, w') \<Longrightarrow> edge_step t w w'"
| step_Health: "HealthCheck now client eventID t i u em w = (rc, w') \<Longrightarrow> edge_step t w w'"
| step_Seen: "edge_TouchLastSeen now t i w = (ru, w') \<Longrightarrow> edge_step t w w'"

inductive edge_steps :: "edge_db world \<Rightarrow> (uuid list) \<Rightarrow> edge_db world \<Rightarrow> bool" where
  steps_refl: "edge_steps w [] w"
| steps_step: "edge_steps w ts w' \<Longrightarrow> edge_step t w' w'' \<Longrightarrow> edge_steps w (ts @ [t]) w''"

lemma UpdateDevice_wf [intro]: "keeps edge_wf (UpdateDevice now t i cmd)"
  unfolding UpdateDevice_def by (intro keeps_bind keeps_edge_Update read_only_keeps read_only_edge_reads)

lemma device_check_wf:
  assumes "edge_wf (tables w)" and "device_check ctype now client eventID t i u em w = (r, w')"
  shows "edge_wf (tables w')"
  using assms(2)
proof (cases rule: device_check_cases)
  case (1 e)
  with assms show ?thesis by simp
next
  case (2 d c d')
  have "has_device (tables w) t i"
    using 2 by (auto simp: has_device_def)
  with 2 assms(1) have wf: "edge_wf d'"
    by (auto simp: edge_wf_defs has_device_def check_event_def)
  show ?thesis
    using 2(10) wf by (elim disjE exE) (simp_all add: update_device_wf [OF wf same_identity_simps(3)])
qed

lemma edge_step_wf: "edge_step t w w' \<Longrightarrow> edge_wf (tables w) \<Longrightarrow> edge_wf (tables w')"
proof (induction rule: edge_step.induct)
  case (step_Create now newID t cmd w r w')
  then show ?case unfolding CreateDevice_def by (rule keepsD [OF keeps_edge_Create])
next
  case (step_Update now t i ucmd w r w')
  then show ?case by (rule keepsD [OF UpdateDevice_wf])
next
  case (step_Enable now t i w r w')
  then show ?case unfolding EnableDevice_def by (rule keepsD [OF keeps_edge_SetStatus])
next
  case (step_Disable now t i w r w')
  then show ?case unfolding DisableDevice_def by (rule keepsD [OF keeps_edge_SetStatus])
next
  case (step_Seen now t i w ru w')
  then show ?case by (rule keepsD [OF keeps_edge_TouchLastSeen])
qed (auto simp: StatusCheck_def HealthCheck_def intro: device_check_wf)

lemma edge_steps_wf: "edge_steps w ts w' \<Longrightarrow> edge_wf (tables w) \<Longrightarrow> edge_wf (tables w')"
  by (induction rule: edge_steps.induct) (auto intro: edge_step_wf)

subsection \<open>Tenants\<close>

text \<open>What the tables hold of one tenant.\<close>

definition tenant_view :: "uuid \<Rightarrow> edge_db \<Rightarrow> edge_device list \<times> device_event list \<times> api_key list" where
  "tenant_view t d =
     (filter (\<lambda>x. ed_tenant_id x = t) (devices d), filter (\<lambda>x. de_tenant_id x = t) (device_events d),
      filter (\<lambda>x. ak_tenant_id x = t) (api_keys d))"

lemma tenant_view_update_device:
  assumes "same_identity f" and "t \<noteq> t'" and "update_device now t i f ok d = (Inr row, d')"
  shows "tenant_view t' d' = tenant_view t' d"
  using assms
  by (auto elim!: update_device_Inr simp: tenant_view_def same_identity_def device_trigger_def
      same_device_def intro!: filter_update_where_other)

lemma view_update_stmt:
  assumes "same_identity f" and "t \<noteq> t'"
  shows "keeps (\<lambda>d. tenant_view t' d = v) (stmt EdgeInternal (update_device now t i f ok))"
  by (rule keeps_stmt) (use assms in \<open>simp add: tenant_view_update_device\<close>)

lemma view_device_check:
  assumes "t \<noteq> t'" and "device_check ctype now client eventID t i u em w = (r, w')"
  shows "tenant_view t' (tables w') = tenant_view t' (tables w)"
  using assms(2)
proof (cases rule: device_check_cases)
  case (2 d c d')
  have "tenant_view t' d' = tenant_view t' (tables w)"
    using 2 assms(1) by (simp add: tenant_view_def check_event_def)
  with 2(10) assms(1) show ?thesis
    by (elim disjE exE) (simp_all add: tenant_view_update_device [OF same_identity_simps(3)])
qed simp

lemma keeps_view_Create:
  "t \<noteq> t' \<Longrightarrow> ed_tenant_id device = t \<Longrightarrow>
     keeps (\<lambda>d. tenant_view t' d = v) (edge_Create now device)"
  unfolding edge_Create_def
  by (rule keeps_stmt) (auto simp: Let_def tenant_view_def split: if_splits)

lemma keeps_view_Update:
  "t \<noteq> t' \<Longrightarrow> ed_tenant_id device = t \<Longrightarrow>
     keeps (\<lambda>d. tenant_view t' d = v) (edge_Update now device)"
  by (simp add: edge_Update_def keeps_bind keeps_ret view_update_stmt)

lemma view_UpdateDevice:
  assumes "t \<noteq> t'" and "UpdateDevice now t i cmd w = (r, w')"
  shows "tenant_view t' (tables w') = tenant_view t' (tables w)"
  using assms(2) unfolding UpdateDevice_def
proof (rule op_bindE)
  fix e assume "edge_GetByID t i w = (Inl e, w')"
  then show ?thesis using read_onlyD [OF read_only_edge_reads(2)] by metis
next
  fix x w1 assume g: "edge_GetByID t i w = (Inr x, w1)"
    and u: "edge_Update now (apply_device_update cmd x) w1 = (r, w')"
  have "ed_tenant_id (apply_device_update cmd x) = t" "tables w1 = tables w"
    using edge_GetByID_Inr [OF g] by (simp_all add: apply_device_update_def same_device_def)
  with keepsD [OF keeps_view_Update [OF assms(1)] u] show ?thesis by simp
qed

lemma view_keepsD:
  assumes "\<And>v. keeps (\<lambda>d. tenant_view t' d = v) m" and "m w = (r, w')"
  shows "tenant_view t' (tables w') = tenant_view t' (tables w)"
  using keepsD [OF assms] by simp

lemma edge_step_view:
  "edge_step t w w' \<Longrightarrow> t \<noteq> t' \<Longrightarrow> tenant_view t' (tables w') = tenant_view t' (tables w)"
proof (induction rule: edge_step.induct)
  case (step_Create now newID t cmd w r w')
  show ?case
    by (rule view_keepsD [OF keeps_view_Create step_Create(1) [unfolded CreateDevice_def]])
      (use step_Create in simp_all)
next
  case (step_Update now t i ucmd w r w')
  then show ?case by (simp add: view_UpdateDevice)
next
  case (step_Enable now t i w r w')
  show ?case
    by (rule view_keepsD [OF view_update_stmt step_Enable(1) [unfolded EnableDevice_def edge_SetStatus_def]])
      (use step_Enable in simp_all)
next
  case (step_Disable now t i w r w')
  show ?case
    by (rule view_keepsD [OF view_update_stmt step_Disable(1) [unfolded DisableDevice_def edge_SetStatus_def]])
      (use step_Disable in simp_all)
next
  case (step_Seen now t i w ru w')
  show ?case
    by (rule view_keepsD [OF keeps_bind [OF view_update_stmt keeps_ret]
          step_Seen(1) [unfolded edge_TouchLastSeen_def]])
      (use step_Seen in simp_all)
qed (auto simp: StatusCheck_def HealthCheck_def intro: view_device_check)


lemma edge_steps_view:
  "edge_steps w ts w' \<Longrightarrow> t \<notin> set ts \<Longrightarrow> tenant_view t (tables w') = tenant_view t (tables w)"
proof (induction rule: edge_steps.induct)
  case (steps_step w ts w' t' w'')
  then show ?case using edge_step_view [of t' w' w'' t] by auto
qed simp

lemma filter_single:
  assumes "distinct xs" and "x \<in> set xs" and "\<And>y. y \<in> set xs \<Longrightarrow> p y \<longleftrightarrow> y = x"
  shows "filter p xs = [x]"
proof -
  have "filter p xs = filter (\<lambda>y. y = x) xs"
    using assms(3) by (rule filter_cong [OF refl])
  also have "\<dots> = [x]"
    using assms(1,2) by (induction xs) (auto simp: filter_empty_conv)
  finally show ?thesis .
qed

lemma filter_same_device:
  assumes "devices_wf d" and "x \<in> set (devices d)" and "same_device t i x"
  shows "filter (same_device t i) (devices d) = [x]"
proof (rule filter_single)
  show "distinct (devices d)" using assms(1) by (simp add: devices_wf_def distinct_map)
qed (use assms device_unique [OF assms(1)] in blast)+

lemma edge_GetByID_present:
  assumes "devices_wf (tables w)" and "x \<in> set (devices (tables w))" and "same_device t i x"
    and "\<not> outage w (nstmts w)"
  shows "edge_GetByID t i w = (Inr x, w\<lparr>nstmts := Suc (nstmts w)\<rparr>)"
  using assms by (simp add: edge_GetByID_def query_Inr filter_same_device)

lemma update_device_present:
  assumes "devices_wf d" and "x \<in> set (devices d)" and "same_device t i x"
    and "ok (device_trigger now (f x))"
  shows "update_device now t i f ok d =
    (Inr (device_trigger now (f x)),
     d\<lparr>devices := update_where (same_device t i) (\<lambda>x. device_trigger now (f x)) (devices d)\<rparr>)"
  using assms by (simp add: update_device_def filter_same_device)

lemma stmt_live:
  "\<not> outage w (nstmts w) \<Longrightarrow> stmt infra q w =
     (case q (tables w) of
        (Inl e, d) \<Rightarrow> (Inl e, w\<lparr>nstmts := Suc (nstmts w)\<rparr>)
      | (Inr x, d) \<Rightarrow> (Inr x, w\<lparr>tables := d, nstmts := Suc (nstmts w)\<rparr>))"
  by (simp add: stmt_def)

section \<open>Properties\<close>

text \<open>C9. The tables stay well formed through every history of device operations, of any
  tenants and with any statements failing: ids and (tenant, machine id) pairs stay unique,
  statuses stay in their enumerations, and every event and key belongs to a device of its own
  tenant.\<close>

theorem edge_histories_wf:
  assumes "edge_steps w ts w'" and "edge_wf (tables w)"
  shows "edge_wf (tables w')"
  by (rule edge_steps_wf [OF assms])

text \<open>Tenant isolation: a history of device operations in which no operation is made on behalf
  of tenant t leaves the devices, the events and the keys of t exactly as they were.\<close>

theorem edge_histories_isolated:
  assumes "edge_steps w ts w'" and "t \<notin> set ts"
  shows "tenant_view t (tables w') = tenant_view t (tables w)"
  by (rule edge_steps_view [OF assms])

text \<open>A check is audited: when StatusCheck or HealthCheck hands a result to the user, the device
  exists in the tenant and is not disabled, and exactly one event with that result was appended to
  the audit log; a check that fails for any reason left no trace in the tables.\<close>

theorem device_check_audited:
  "case device_check ctype now client eventID t i u em w of
     (Inl e, w') \<Rightarrow> tables w' = tables w
   | (Inr c, w') \<Rightarrow>
       device_events (tables w') = device_events (tables w) @ [check_event ctype eventID t i u em c] \<and>
       api_keys (tables w') = api_keys (tables w) \<and>
       (\<exists>x \<in> set (devices (tables w)). same_device t i x \<and> ed_status x \<noteq> ''DISABLED'' \<and>
          c = check_outcome ctype now (client (ed_raspberry_base_url x)))"
proof (cases "device_check ctype now client eventID t i u em w" rule: prod.exhaust)
  case (Pair r w')
  from Pair show ?thesis
  proof (cases rule: device_check_cases)
    case (1 e)
    with Pair show ?thesis by simp
  next
    case (2 d c d')
    then have "device_events (tables w') = device_events d' \<and> api_keys (tables w') = api_keys d'"
      by (auto elim!: update_device_Inr)
    with 2 Pair show ?thesis by auto
  qed
qed

text \<open>A status check of an active device whose Pi answers with a valid result, while the
  database is up, records the answer: the event is appended, and the health fields of that device,
  and of no other row, hold the answer.\<close>

theorem StatusCheck_records:
  assumes "edge_wf d" and "x \<in> set (devices d)" and "same_device t i x" and "ed_status x = ''ACTIVE''"
    and "client (ed_raspberry_base_url x) = Inr (Some c)"
    and "cr_overall_status c \<in> set check_statuses" and "eventID \<notin> de_id ` set (device_events d)"
  shows "\<exists>w'. StatusCheck now client eventID t i u em (live d) = (Inr (c\<lparr>cr_check_type := ''STATUS''\<rparr>), w') \<and>
     tables w' = d\<lparr>device_events := device_events d @ [check_event ''STATUS'' eventID t i u em c],
       devices := update_where (same_device t i)
         (\<lambda>x. x\<lparr>ed_last_health_check_at := Some now, ed_last_health_status := cr_overall_status c,
                 ed_last_health_summary := Some (opt_or (cr_summary c) []), ed_updated_at := now\<rparr>)
         (devices d)\<rparr>"
proof -
  let ?c = "c\<lparr>cr_check_type := ''STATUS''\<rparr>"
  let ?d = "d\<lparr>device_events := device_events d @ [check_event ''STATUS'' eventID t i u em c]\<rparr>"
  have wf: "devices_wf d" "devices_wf ?d" using assms(1) by (simp_all add: edge_wf_defs)
  have get: "edge_GetByID t i (live d) = (Inr x, (live d)\<lparr>nstmts := Suc 0\<rparr>)"
    using assms wf by (simp add: edge_GetByID_present)
  have ev: "check_event ''STATUS'' eventID t i u em ?c = check_event ''STATUS'' eventID t i u em c"
    by (simp add: check_event_def)
  have out: "check_outcome ''STATUS'' now (client (ed_raspberry_base_url x)) = ?c"
    using assms by (simp add: check_outcome_def)
  have save: "edge_SaveEvent (check_event ''STATUS'' eventID t i u em c) w =
      (Inr (), w\<lparr>tables := ?d, nstmts := Suc (nstmts w)\<rparr>)" if "tables w = d" "\<And>n. \<not> outage w n" for w
    using that assms by (auto simp: edge_SaveEvent_def stmt_live check_event_def same_device_def image_iff)
  have "device_checks (device_trigger now (x\<lparr>ed_last_health_check_at := Some now,
          ed_last_health_status := cr_overall_status c,
          ed_last_health_summary := Some (opt_or (cr_summary c) [])\<rparr>))"
    using assms by (simp add: device_checks_def device_trigger_def device_statuses_def)
  then have up: "update_device now t i (\<lambda>x. x\<lparr>ed_last_health_check_at := Some now,
          ed_last_health_status := cr_overall_status c,
          ed_last_health_summary := Some (opt_or (cr_summary c) [])\<rparr>) device_checks ?d =
      (Inr (device_trigger now (x\<lparr>ed_last_health_check_at := Some now,
          ed_last_health_status := cr_overall_status c,
          ed_last_health_summary := Some (opt_or (cr_summary c) [])\<rparr>)),
       ?d\<lparr>devices := update_where (same_device t i) (\<lambda>x. device_trigger now (x\<lparr>ed_last_health_check_at := Some now,
          ed_last_health_status := cr_overall_status c,
          ed_last_health_summary := Some (opt_or (cr_summary c) [])\<rparr>)) (devices d)\<rparr>)"
    using update_device_present [OF wf(2), of x t i] assms by simp
  show ?thesis
    using assms(4)
    by (simp add: StatusCheck_def device_check_def op_bind_def op_try_def get out ev save
        edge_UpdateHealthState_def stmt_live up device_trigger_def Let_def)
qed


text \<open>Round trip of creation: a device that CreateDevice returned is what GetDevice finds
  afterwards, in its tenant and in no other one.\<close>

theorem CreateDevice_GetDevice:
  assumes "edge_wf (tables w)" and "CreateDevice now newID t cmd w = (Inr x, w')"
    and "\<not> outage w' (nstmts w')"
  shows "fst (GetDevice t newID w') = Inr x \<and>
    (\<forall>t'. t' \<noteq> t \<longrightarrow> fst (GetDevice t' newID w') = Inl ErrDeviceNotFound)"
proof -
  have wf: "devices_wf (tables w')"
    using edge_step_wf [OF step_Create] assms by (auto simp: edge_wf_def)
  have x: "x \<in> set (devices (tables w'))" "same_device t newID x"
    using assms(2) by (auto simp: CreateDevice_def edge_Create_def stmt_iffs Let_def same_device_def
        split: if_splits)
  then have "filter (same_device t' newID) (devices (tables w')) = []" if "t' \<noteq> t" for t'
    using that wf device_unique [OF wf, of x _ t newID]
    by (auto simp: filter_empty_conv same_device_def)
  with x assms(3) show ?thesis
    using edge_GetByID_present [OF wf x assms(3)]
    by (auto simp: GetDevice_def) (simp add: edge_GetByID_def query_def stmt_def)
qed

text \<open>An update changes the fields the command names, and nothing else of the row but its
  updated_at; no other row changes, and the answer is the row as stored.\<close>

theorem UpdateDevice_functional:
  assumes "edge_wf (tables w)" and "UpdateDevice now t i cmd w = (Inr y, w')"
  shows "\<exists>x \<in> set (devices (tables w)). same_device t i x \<and>
     y = (apply_device_update cmd x)\<lparr>ed_updated_at := now\<rparr> \<and>
     tables w' = (tables w)\<lparr>devices := update_where (same_device t i) (\<lambda>_. y) (devices (tables w))\<rparr>"
proof -
  from assms(2) obtain x w1 where g: "edge_GetByID t i w = (Inr x, w1)"
    and u: "edge_Update now (apply_device_update cmd x) w1 = (Inr y, w')"
    by (auto simp: UpdateDevice_def op_iffs)
  have x: "tables w1 = tables w" "x \<in> set (devices (tables w))" "same_device t i x"
    using edge_GetByID_Inr [OF g] by simp_all
  let ?x = "apply_device_update cmd x"
  let ?f = "\<lambda>x. x\<lparr>ed_name := ed_name ?x, ed_description := ed_description ?x,
                   ed_plc_address := ed_plc_address ?x,
                   ed_raspberry_base_url := ed_raspberry_base_url ?x, ed_status := ed_status ?x\<rparr>"
  have id: "ed_tenant_id ?x = t" "ed_id ?x = i"
    using x by (simp_all add: apply_device_update_def same_device_def)
  have row: "device_trigger now (?f x) = ?x\<lparr>ed_updated_at := now\<rparr>"
    by (simp add: device_trigger_def apply_device_update_def)
  from u obtain row where s: "stmt EdgeInternal (update_device now t i ?f device_checks) w1 = (Inr row, w')"
    and y: "y = ?x\<lparr>ed_updated_at := ed_updated_at row\<rparr>"
    by (auto simp: edge_Update_def op_iffs id)
  have wf: "devices_wf (tables w)" using assms(1) by (simp add: edge_wf_def)
  from s have "update_device now t i ?f device_checks (tables w) = (Inr row, tables w')"
    by (auto simp: stmt_iffs x)
  then obtain z where z: "z \<in> set (devices (tables w))" "same_device t i z"
      "row = device_trigger now (?f z)"
    and w': "tables w' = (tables w)\<lparr>devices := update_where (same_device t i)
               (\<lambda>x. device_trigger now (?f x)) (devices (tables w))\<rparr>"
    by (rule update_device_Inr)
  have "z = x" using device_unique [OF wf] z x by metis
  with z y row have y': "y = ?x\<lparr>ed_updated_at := now\<rparr>" by simp
  have "update_where (same_device t i) (\<lambda>x. device_trigger now (?f x)) (devices (tables w))
      = update_where (same_device t i) (\<lambda>_. y) (devices (tables w))"
    unfolding update_where_def
    using device_unique [OF wf _ x(2) _ x(3)] row y' by (intro map_cong) auto
  with w' x y' show ?thesis by auto
qed

text \<open>UpdateDevice reads the row, and writes all of its mutable columns back, status
  included. A DisableDevice that lands between the read and the write is undone: the device is
  active again although both requests succeeded.\<close>

theorem UpdateDevice_undoes_disable:
  assumes "edge_wf d" and "x \<in> set (devices d)" and "same_device t i x" and "ed_status x = ''ACTIVE''"
  shows "\<exists>w1 y w2 z w3.
     edge_GetByID t i (live d) = (Inr x, w1) \<and>
     DisableDevice now t i w1 = (Inr y, w2) \<and> ed_status y = ''DISABLED'' \<and>
     edge_Update now' (apply_device_update cmd x) w2 = (Inr z, w3) \<and>
     (\<exists>v \<in> set (devices (tables w3)). same_device t i v \<and> ed_status v = ''ACTIVE'')"
proof -
  have wf: "devices_wf d" and chk: "device_checks x" "ed_tenant_id x = t" "ed_id x = i"
    using assms by (auto simp: edge_wf_defs same_device_def)
  define w1 where "w1 = (live d)\<lparr>nstmts := Suc 0\<rparr>"
  have g: "edge_GetByID t i (live d) = (Inr x, w1)"
    using edge_GetByID_present [of "live d" x t i] wf assms by (simp add: w1_def)
  define y where "y = device_trigger now (x\<lparr>ed_status := ''DISABLED''\<rparr>)"
  have "update_device now t i (\<lambda>x. x\<lparr>ed_status := ''DISABLED''\<rparr>) device_checks d =
      (Inr y, d\<lparr>devices := update_where (same_device t i)
                 (\<lambda>x. device_trigger now (x\<lparr>ed_status := ''DISABLED''\<rparr>)) (devices d)\<rparr>)"
    unfolding y_def using chk assms
    by (intro update_device_present [OF wf])
      (simp_all add: device_checks_def device_trigger_def device_statuses_def)
  then obtain w2 where dis: "DisableDevice now t i w1 = (Inr y, w2)" and o2: "\<And>n. \<not> outage w2 n"
    by (simp add: DisableDevice_def edge_SetStatus_def stmt_def w1_def)
  have wf2: "edge_wf (tables w2)"
    using edge_step_wf [OF step_Disable [OF dis]] assms(1) by (simp add: w1_def)
  have y: "y \<in> set (devices (tables w2))" "same_device t i y" "device_checks y" "ed_status y = ''DISABLED''"
    using dis assms chk by (auto simp: DisableDevice_def edge_SetStatus_def stmt_iffs w1_def
        in_update_where y_def device_trigger_def same_device_def device_checks_def device_statuses_def
        elim!: update_device_Inr)
  let ?x = "apply_device_update cmd x"
  let ?f = "\<lambda>x. x\<lparr>ed_name := ed_name ?x, ed_description := ed_description ?x,
                   ed_plc_address := ed_plc_address ?x,
                   ed_raspberry_base_url := ed_raspberry_base_url ?x, ed_status := ed_status ?x\<rparr>"
  let ?d3 = "(tables w2)\<lparr>devices := update_where (same_device t i)
                 (\<lambda>x. device_trigger now' (?f x)) (devices (tables w2))\<rparr>"
  have id: "ed_tenant_id ?x = t" "ed_id ?x = i" "ed_status ?x = ''ACTIVE''"
    using chk assms by (simp_all add: apply_device_update_def)
  have "update_device now' t i ?f device_checks (tables w2) = (Inr (device_trigger now' (?f y)), ?d3)"
    using y wf2 id by (intro update_device_present)
      (simp_all add: device_checks_def device_trigger_def device_statuses_def edge_wf_def)
  then obtain z w3 where upd: "edge_Update now' ?x w2 = (Inr z, w3)" and w3: "tables w3 = ?d3"
    by (auto simp: edge_Update_def op_bind_def stmt_live o2 id)
  have "device_trigger now' (?f y) \<in> set (devices (tables w3))"
    using y by (auto simp: w3 in_update_where)
  moreover have "same_device t i (device_trigger now' (?f y))"
    "ed_status (device_trigger now' (?f y)) = ''ACTIVE''"
    using y id by (simp_all add: same_device_def device_trigger_def)
  ultimately show ?thesis using g dis upd y(4) by blast
qed

text \<open>TouchLastSeen, which the ingestion calls after every batch, also moves updated_at of the
  device: the statement leaves the column alone, and the trigger of the table stamps it.\<close>

theorem TouchLastSeen_moves_updated_at:
  assumes "edge_TouchLastSeen now t i w = (Inr (), w')"
  shows "devices (tables w') =
    update_where (same_device t i) (\<lambda>x. x\<lparr>ed_last_seen_at := Some now, ed_updated_at := now\<rparr>)
      (devices (tables w))"
  using assms
  by (auto simp: edge_TouchLastSeen_def op_iffs stmt_iffs device_trigger_def elim!: update_device_Inr)


section \<open>Concrete instances\<close>

definition empty_edge :: edge_db where
  "empty_edge = \<lparr>devices = [], device_events = [], api_keys = []\<rparr>"

definition line_1_command :: create_device_command where
  "line_1_command = \<lparr>cd_name = ''line 1'', cd_machine_id = ''m-1'', cd_edge_type = ''RASPBERRY_PLC'',
     cd_raspberry_base_url = ''http://pi'', cd_description = None, cd_plc_address = None\<rparr>"

definition line_1 :: edge_device where
  "line_1 = \<lparr>ed_id = 1, ed_tenant_id = 7, ed_name = ''line 1'', ed_description = None,
     ed_machine_id = ''m-1'', ed_edge_type = ''RASPBERRY_PLC'', ed_raspberry_base_url = ''http://pi'',
     ed_plc_address = None, ed_status = ''ACTIVE'', ed_last_seen_at = None,
     ed_last_health_check_at = None, ed_last_health_status = ''UNKNOWN'',
     ed_last_health_summary = None, ed_created_at = 5, ed_updated_at = 5\<rparr>"

definition one_device :: edge_db where
  "one_device = empty_edge\<lparr>devices := [line_1]\<rparr>"

definition rename_command :: update_device_command where
  "rename_command = \<lparr>ud_name = Some ''line 2'', ud_description = None,
     ud_raspberry_base_url = None, ud_plc_address = None\<rparr>"

definition pi_ok :: check_result where
  "pi_ok = \<lparr>cr_check_type = [], cr_checked_at = 9, cr_overall_status = ''OK'',
     cr_summary = Some ''fine'', cr_details = []\<rparr>"

lemmas edge_instances = empty_edge_def line_1_command_def line_1_def one_device_def
  rename_command_def pi_ok_def

lemma one_device_wf: "edge_wf one_device" "edge_wf empty_edge"
  by (simp_all add: edge_wf_defs edge_instances device_checks_def device_statuses_def
      check_statuses_def)

lemma created_line_1:
  "CreateDevice 5 1 7 line_1_command (live empty_edge) =
     (Inr line_1, (live one_device)\<lparr>nstmts := 1\<rparr>)"
  by (simp add: CreateDevice_def edge_Create_def stmt_def edge_instances device_statuses_def
      live_def Let_def)

theorem edge_histories_wf_instance:
  "edge_wf (tables (snd (CreateDevice 5 1 7 line_1_command (live empty_edge))))"
  by (rule edge_histories_wf [OF steps_step [OF steps_refl step_Create [OF prod.collapse [symmetric]]]])
    (simp add: one_device_wf)

theorem edge_histories_isolated_instance:
  "tenant_view 8 (tables (snd (DisableDevice 6 7 1 (live one_device)))) = tenant_view 8 one_device"
  using edge_histories_isolated
    [OF steps_step [OF steps_refl step_Disable [OF prod.collapse [symmetric]]], of 8 7 6 1 "live one_device"]
  by simp

theorem StatusCheck_records_instance:
  "\<exists>w'. StatusCheck 9 (\<lambda>_. Inr (Some pi_ok)) 3 7 1 4 ''ana'' (live one_device)
      = (Inr (pi_ok\<lparr>cr_check_type := ''STATUS''\<rparr>), w') \<and>
    map de_id (device_events (tables w')) = [3] \<and>
    map ed_last_health_status (devices (tables w')) = [''OK'']"
proof -
  have "line_1 \<in> set (devices one_device)" "same_device 7 1 line_1" "ed_status line_1 = ''ACTIVE''"
    "cr_overall_status pi_ok \<in> set check_statuses" "3 \<notin> de_id ` set (device_events one_device)"
    by (simp_all add: edge_instances same_device_def check_statuses_def)
  from StatusCheck_records [OF one_device_wf(1) this(1-3) _ this(4,5), of "\<lambda>_. Inr (Some pi_ok)" 9 4 "''ana''"]
  obtain w' where "StatusCheck 9 (\<lambda>_. Inr (Some pi_ok)) 3 7 1 4 ''ana'' (live one_device)
      = (Inr (pi_ok\<lparr>cr_check_type := ''STATUS''\<rparr>), w')"
    and "tables w' = one_device\<lparr>device_events := device_events one_device @
           [check_event ''STATUS'' 3 7 1 4 ''ana'' pi_ok],
         devices := update_where (same_device 7 1)
         (\<lambda>x. x\<lparr>ed_last_health_check_at := Some 9, ed_last_health_status := cr_overall_status pi_ok,
                 ed_last_health_summary := Some (opt_or (cr_summary pi_ok) []), ed_updated_at := 9\<rparr>)
         (devices one_device)\<rparr>"
    by auto
  then show ?thesis
    by (intro exI [of _ w']) (simp add: edge_instances check_event_def same_device_def)
qed

theorem CreateDevice_GetDevice_instance:
  "fst (GetDevice 7 1 (snd (CreateDevice 5 1 7 line_1_command (live empty_edge)))) = Inr line_1"
  using CreateDevice_GetDevice [OF _ created_line_1] by (simp add: one_device_wf created_line_1)

theorem UpdateDevice_functional_instance:
  "\<exists>y w'. UpdateDevice 6 7 1 rename_command (live one_device) = (Inr y, w') \<and>
     map ed_name (devices (tables w')) = [''line 2''] \<and> ed_updated_at y = 6"
proof -
  have "\<exists>y w'. UpdateDevice 6 7 1 rename_command (live one_device) = (Inr y, w')"
    by (simp add: UpdateDevice_def op_bind_def edge_GetByID_def query_def stmt_def edge_Update_def
        update_device_def edge_instances same_device_def apply_device_update_def device_trigger_def
        device_checks_def device_statuses_def check_statuses_def Let_def)
  then obtain y w' where u: "UpdateDevice 6 7 1 rename_command (live one_device) = (Inr y, w')"
    by blast
  with UpdateDevice_functional [OF _ u] show ?thesis
    by (auto simp: one_device_wf) (simp add: edge_instances apply_device_update_def same_device_def)
qed

theorem UpdateDevice_undoes_disable_instance:
  "\<exists>w1 y w2 z w3.
     edge_GetByID 7 1 (live one_device) = (Inr line_1, w1) \<and>
     DisableDevice 6 7 1 w1 = (Inr y, w2) \<and> ed_status y = ''DISABLED'' \<and>
     edge_Update 8 (apply_device_update rename_command line_1) w2 = (Inr z, w3) \<and>
     (\<exists>v \<in> set (devices (tables w3)). same_device 7 1 v \<and> ed_status v = ''ACTIVE'')"
  by (rule UpdateDevice_undoes_disable)
    (simp_all add: one_device_wf, simp_all add: edge_instances same_device_def)

theorem TouchLastSeen_moves_updated_at_instance:
  "\<exists>w'. edge_TouchLastSeen 9 7 1 (live one_device) = (Inr (), w') \<and>
     map ed_updated_at (devices (tables w')) = [9]"
proof -
  have "\<exists>w'. edge_TouchLastSeen 9 7 1 (live one_device) = (Inr (), w')"
    by (simp add: op_bind_def stmt_def edge_TouchLastSeen_def update_device_def edge_instances
        same_device_def device_trigger_def device_checks_def device_statuses_def check_statuses_def Let_def)
  then obtain w' where "edge_TouchLastSeen 9 7 1 (live one_device) = (Inr (), w')" by blast
  with TouchLastSeen_moves_updated_at [OF this] show ?thesis
    by (auto simp: edge_instances same_device_def)
qed

end
