(* ===== verification/ApiKeys.thy ===== *)
theory ApiKeys
  imports EdgeDevices
begin

text \<open>
  API keys of edge devices: the format of a key (\<open>internal/domain/apikeys/keygen.go\<close>), the
  repository (\<open>internal/repo/pg/apikeys\<close>), the operations of the edge device service on keys,
  and the authenticator with its Redis cache (\<open>internal/security/apikeys_authenticator.go\<close>).
  \<open>sha\<close> is SHA-256 and stays a parameter; the random bytes of \<open>Generate\<close> are
  arguments. One clock value \<open>now\<close> serves a whole operation.
\<close>

section \<open>The format of a key\<close>

definition Prefix :: string where "Prefix = ''emb_''"
definition KeyIDLen :: nat where "KeyIDLen = 12"
definition SecretBytes :: nat where "SecretBytes = 32"

definition is_hex :: "char \<Rightarrow> bool" where
  "is_hex c = (let n = (of_char c :: nat)
     in 48 \<le> n \<and> n \<le> 57 \<or> 97 \<le> n \<and> n \<le> 102 \<or> 65 \<le> n \<and> n \<le> 70)"

definition hex_decodes :: "string \<Rightarrow> bool" where
  "hex_decodes s \<longleftrightarrow> even (length s) \<and> list_all is_hex s"

definition b64_char :: "nat \<Rightarrow> char" where
  "b64_char n = (if n < 26 then char_of (65 + n) else if n < 52 then char_of (71 + n)
     else if n < 62 then char_of (n - 4) else if n = 62 then CHR ''-'' else CHR ''_'')"

fun base64_raw_url :: "string \<Rightarrow> string" where
  "base64_raw_url [] = []"
| "base64_raw_url [a] = [b64_char (of_char a div 4), b64_char (of_char a mod 4 * 16)]"
| "base64_raw_url [a, b] =
     [b64_char (of_char a div 4), b64_char (of_char a mod 4 * 16 + of_char b div 16),
      b64_char (of_char b mod 16 * 4)]"
| "base64_raw_url (a # b # c # cs) =
     b64_char (of_char a div 4) # b64_char (of_char a mod 4 * 16 + of_char b div 16)
     # b64_char (of_char b mod 16 * 4 + of_char c div 64) # b64_char (of_char c mod 64)
     # base64_raw_url cs"

definition HashSecret :: "(string \<Rightarrow> string) \<Rightarrow> string \<Rightarrow> string" where
  "HashSecret sha secret = sha secret"

definition Matches :: "(string \<Rightarrow> string) \<Rightarrow> string \<Rightarrow> string \<Rightarrow> bool" where
  "Matches sha secret hash \<longleftrightarrow> HashSecret sha secret = hash"

text \<open>\<open>rnd_id\<close> and \<open>rnd_secret\<close> are what the two reads of \<open>crypto/rand\<close> return.\<close>

definition Generate ::
  "(string \<Rightarrow> string) \<Rightarrow> string option \<Rightarrow> string option \<Rightarrow> (string \<times> string \<times> string) option"
where
  "Generate sha rnd_id rnd_secret =
     (case rnd_id of None \<Rightarrow> None | Some idBytes \<Rightarrow>
        let keyID = hex_encode idBytes
        in case rnd_secret of None \<Rightarrow> None | Some secretBytes \<Rightarrow>
             let secret = base64_raw_url secretBytes
             in Some (Prefix @ keyID @ ''_'' @ secret, keyID, HashSecret sha secret))"

definition Parse :: "string \<Rightarrow> (string \<times> string) option" where
  "Parse plaintext =
     (case cut_prefix plaintext Prefix of None \<Rightarrow> None | Some rest \<Rightarrow>
        (case split_2 rest (CHR ''_'') of None \<Rightarrow> None | Some (keyID, secret) \<Rightarrow>
           if length keyID \<noteq> KeyIDLen \<or> secret = [] then None
           else if \<not> hex_decodes keyID then None
           else Some (keyID, secret)))"

lemma of_char_less: "(of_char c :: nat) < 256"
  by (rule nat_of_char_less_256)

lemma of_char_char_of: "n < 256 \<Longrightarrow> (of_char (char_of n :: char) :: nat) = n"
  by simp

lemma is_hex_char: "n < 16 \<Longrightarrow> is_hex (hex_char n)"
  by (auto simp: is_hex_def hex_char_def of_char_char_of Let_def)

lemma hex_encode_is_hex: "list_all is_hex (hex_encode bs)"
proof (induction bs)
  case (Cons c cs)
  have "(of_char c :: nat) div 16 < 16" using of_char_less [of c] by (simp add: div_less_iff_less_mult)
  then show ?case using Cons by (simp add: is_hex_char)
qed simp

lemma underscore_not_hex: "list_all is_hex s \<Longrightarrow> CHR ''_'' \<notin> set s"
  by (auto simp: list_all_iff is_hex_def Let_def)

lemma hex_decodes_encode [simp]: "hex_decodes (hex_encode bs)"
  by (simp add: hex_decodes_def hex_encode_is_hex)

lemma base64_raw_url_Nil [simp]: "base64_raw_url bs = [] \<longleftrightarrow> bs = []"
  by (cases bs rule: base64_raw_url.cases) auto

lemma Parse_Some:
  "Parse s = Some (keyID, secret) \<longleftrightarrow>
     s = Prefix @ keyID @ ''_'' @ secret \<and> length keyID = KeyIDLen \<and> list_all is_hex keyID \<and> secret \<noteq> []"
proof
  assume "Parse s = Some (keyID, secret)"
  then show "s = Prefix @ keyID @ ''_'' @ secret \<and> length keyID = KeyIDLen \<and> list_all is_hex keyID \<and>
      secret \<noteq> []"
    by (auto simp: Parse_def cut_prefix_Some hex_decodes_def dest!: split_2_Some
        split: option.splits if_splits)
next
  assume r: "s = Prefix @ keyID @ ''_'' @ secret \<and> length keyID = KeyIDLen \<and> list_all is_hex keyID \<and>
      secret \<noteq> []"
  then have "split_2 (keyID @ CHR ''_'' # secret) (CHR ''_'') = Some (keyID, secret)"
    by (intro split_2_append underscore_not_hex) simp
  with r show "Parse s = Some (keyID, secret)"
    by (simp add: Parse_def hex_decodes_def KeyIDLen_def)
qed


section \<open>Repository\<close>

record credential =
  cr_key_pk :: uuid
  cr_tenant_id :: uuid
  cr_device_id :: uuid
  cr_key_id :: string
  cr_key_hash :: string
  cr_expires_at :: "time option"
  cr_revoked_at :: "time option"
  cr_machine_id :: string
  cr_device_status :: string

record device_identity =
  di_tenant_id :: uuid
  di_device_id :: uuid
  di_machine_id :: string
  di_key_pk :: uuid
  di_key_id :: string

definition IsActive :: "api_key \<Rightarrow> time \<Rightarrow> bool" where
  "IsActive k now \<longleftrightarrow>
     (if ak_revoked_at k \<noteq> None then False
      else case ak_expires_at k of Some e \<Rightarrow> e > now | None \<Rightarrow> True)"

definition credential_of :: "api_key \<Rightarrow> edge_device \<Rightarrow> credential" where
  "credential_of k d =
     \<lparr>cr_key_pk = ak_id k, cr_tenant_id = ak_tenant_id k, cr_device_id = ak_device_id k,
      cr_key_id = ak_key_id k, cr_key_hash = ak_key_hash k, cr_expires_at = ak_expires_at k,
      cr_revoked_at = ak_revoked_at k, cr_machine_id = ed_machine_id d, cr_device_status = ed_status d\<rparr>"

definition key_GetByKeyID :: "string \<Rightarrow> credential edge_op" where
  "key_GetByKeyID keyID = query EdgeInternal
     (\<lambda>db. first_row ErrKeyNotFound
        [credential_of k d. k \<leftarrow> api_keys db, d \<leftarrow> devices db, ed_id d = ak_device_id k \<and> ak_key_id k = keyID])"

definition key_Create :: "api_key \<Rightarrow> unit edge_op" where
  "key_Create k = stmt EdgeInternal
     (\<lambda>db. if (\<exists>x \<in> set (api_keys db). ak_id x = ak_id k \<or> ak_key_id x = ak_key_id k)
              \<or> \<not> (\<exists>d \<in> set (devices db). ed_id d = ak_device_id k)
           then (Inl EdgeInternal, db)
           else (Inr (), db\<lparr>api_keys := api_keys db @ [k\<lparr>ak_revoked_at := None, ak_last_used_at := None\<rparr>]\<rparr>))"

definition key_ListByDevice :: "uuid \<Rightarrow> uuid \<Rightarrow> api_key list edge_op" where
  "key_ListByDevice tenantID deviceID = query EdgeInternal
     (\<lambda>db. Inr (sort_desc ak_created_at
        (filter (\<lambda>k. ak_tenant_id k = tenantID \<and> ak_device_id k = deviceID) (api_keys db))))"

definition assertExists :: "uuid \<Rightarrow> uuid \<Rightarrow> unit edge_op" where
  "assertExists tenantID keyPK = query EdgeInternal
     (\<lambda>db. if \<exists>k \<in> set (api_keys db). ak_id k = keyPK \<and> ak_tenant_id k = tenantID
           then Inr () else Inl ErrKeyNotFound)"

definition revocable :: "uuid \<Rightarrow> uuid \<Rightarrow> api_key \<Rightarrow> bool" where
  "revocable tenantID keyPK k \<longleftrightarrow> ak_id k = keyPK \<and> ak_tenant_id k = tenantID \<and> ak_revoked_at k = None"

definition key_Revoke :: "time \<Rightarrow> uuid \<Rightarrow> uuid \<Rightarrow> unit edge_op" where
  "key_Revoke now tenantID keyPK =
     op_bind (stmt EdgeInternal
        (\<lambda>db. (Inr (length (filter (revocable tenantID keyPK) (api_keys db))),
               db\<lparr>api_keys := update_where (revocable tenantID keyPK) (\<lambda>k. k\<lparr>ak_revoked_at := Some now\<rparr>)
                                (api_keys db)\<rparr>)))
       (\<lambda>n. if n = 0 then assertExists tenantID keyPK else op_ret ())"

definition key_TouchLastUsed :: "time \<Rightarrow> uuid \<Rightarrow> unit edge_op" where
  "key_TouchLastUsed now keyPK = stmt EdgeInternal
     (\<lambda>db. (Inr (), db\<lparr>api_keys := update_where (\<lambda>k. ak_id k = keyPK) (\<lambda>k. k\<lparr>ak_last_used_at := Some now\<rparr>)
                                     (api_keys db)\<rparr>))"

section \<open>The cache\<close>

text \<open>
  Redis as the authenticator uses it: the cached credentials and the throttle marks, each with
  the instant it expires. A command is answered, or refused without effect, or carried out with its
  reply lost; \<open>r_fate\<close> says which, for the n-th command. \<open>rdb = None\<close> is the nil client.
\<close>

datatype fate = Answered | Refused | Reply_lost

record redis =
  r_cache :: "string \<Rightarrow> (credential \<times> time) option"
  r_touch :: "string \<Rightarrow> time option"
  r_fate :: "nat \<Rightarrow> fate"
  r_cmds :: nat

record plane =
  pg :: "edge_db world"
  rdb :: "redis option"

type_synonym 'a plane_op = "(plane, edge_err, 'a) oper"

definition on_pg :: "'a edge_op \<Rightarrow> 'a plane_op" where
  "on_pg m p = (let (r, w) = m (pg p) in (r, p\<lparr>pg := w\<rparr>))"

text \<open>The answer of a command, None for an error, and the plane after it.\<close>

definition on_redis :: "(redis \<Rightarrow> 'a \<times> redis) \<Rightarrow> plane \<Rightarrow> 'a option \<times> plane" where
  "on_redis c p =
     (case rdb p of None \<Rightarrow> (None, p) | Some r \<Rightarrow>
        let r' = r\<lparr>r_cmds := Suc (r_cmds r)\<rparr>
        in case r_fate r (r_cmds r) of
             Answered \<Rightarrow> (let (x, r'') = c r' in (Some x, p\<lparr>rdb := Some r''\<rparr>))
           | Refused \<Rightarrow> (None, p\<lparr>rdb := Some r'\<rparr>)
           | Reply_lost \<Rightarrow> (None, p\<lparr>rdb := Some (snd (c r'))\<rparr>))"

definition cache_get :: "time \<Rightarrow> string \<Rightarrow> redis \<Rightarrow> credential option \<times> redis" where
  "cache_get now keyID r =
     ((case r_cache r keyID of Some (c, exp) \<Rightarrow> if now < exp then Some c else None | None \<Rightarrow> None), r)"

definition cache_set :: "time \<Rightarrow> time \<Rightarrow> string \<Rightarrow> credential \<Rightarrow> redis \<Rightarrow> unit \<times> redis" where
  "cache_set now ttl keyID c r = ((), r\<lparr>r_cache := (r_cache r)(keyID := Some (c, now + ttl))\<rparr>)"

definition cache_del :: "string \<Rightarrow> redis \<Rightarrow> unit \<times> redis" where
  "cache_del keyID r = ((), r\<lparr>r_cache := (r_cache r)(keyID := None)\<rparr>)"

definition touchEvery :: time where "touchEvery = minute"

definition touch_setnx :: "time \<Rightarrow> string \<Rightarrow> redis \<Rightarrow> bool \<times> redis" where
  "touch_setnx now keyID r =
     (case r_touch r keyID of
        Some exp \<Rightarrow> if now < exp then (False, r)
                     else (True, r\<lparr>r_touch := (r_touch r)(keyID := Some (now + touchEvery))\<rparr>)
      | None \<Rightarrow> (True, r\<lparr>r_touch := (r_touch r)(keyID := Some (now + touchEvery))\<rparr>))"

section \<open>The authenticator\<close>

datatype auth_error = ErrAPIKeyInvalid | AuthInfra edge_err

definition NewAPIKeyAuthenticator_ttl :: "time \<Rightarrow> time" where
  "NewAPIKeyAuthenticator_ttl ttl = (if ttl \<le> 0 then minute else ttl)"

text \<open>\<open>lookup\<close>, cut where it reads from Postgres and where it fills the cache.\<close>

definition lookup_cached :: "time \<Rightarrow> string \<Rightarrow> plane \<Rightarrow> credential option \<times> plane" where
  "lookup_cached now keyID p = (let (a, p') = on_redis (cache_get now keyID) p in (Option.bind a id, p'))"

definition lookup_fill :: "time \<Rightarrow> time \<Rightarrow> string \<Rightarrow> credential \<Rightarrow> plane \<Rightarrow> plane" where
  "lookup_fill now ttl keyID c p = snd (on_redis (cache_set now ttl keyID c) p)"

definition lookup :: "time \<Rightarrow> time \<Rightarrow> string \<Rightarrow> credential plane_op" where
  "lookup now ttl keyID p =
     (case lookup_cached now keyID p of
        (Some c, p1) \<Rightarrow> (Inr c, p1)
      | (None, p1) \<Rightarrow>
          (case on_pg (key_GetByKeyID keyID) p1 of
             (Inl e, p2) \<Rightarrow> (Inl e, p2)
           | (Inr c, p2) \<Rightarrow> (Inr c, lookup_fill now ttl keyID c p2)))"

definition touch :: "time \<Rightarrow> credential \<Rightarrow> plane \<Rightarrow> plane" where
  "touch now cred p =
     (case rdb p of None \<Rightarrow> p | Some _ \<Rightarrow>
        (case on_redis (touch_setnx now (cr_key_id cred)) p of
           (Some True, p') \<Rightarrow> snd (on_pg (key_TouchLastUsed now (cr_key_pk cred)) p')
         | (_, p') \<Rightarrow> p'))"

definition credential_ok :: "(string \<Rightarrow> string) \<Rightarrow> time \<Rightarrow> string \<Rightarrow> credential \<Rightarrow> bool" where
  "credential_ok sha now secret cred \<longleftrightarrow>
     (if \<not> Matches sha secret (cr_key_hash cred) then False
      else if cr_revoked_at cred \<noteq> None then False
      else if (case cr_expires_at cred of Some e \<Rightarrow> \<not> e > now | None \<Rightarrow> False) then False
      else if cr_device_status cred \<noteq> ''ACTIVE'' then False
      else True)"

definition identity_of :: "credential \<Rightarrow> device_identity" where
  "identity_of cred =
     \<lparr>di_tenant_id = cr_tenant_id cred, di_device_id = cr_device_id cred,
      di_machine_id = cr_machine_id cred, di_key_pk = cr_key_pk cred, di_key_id = cr_key_id cred\<rparr>"

definition Authenticate ::
  "(string \<Rightarrow> string) \<Rightarrow> time \<Rightarrow> time \<Rightarrow> string \<Rightarrow> (plane, auth_error, device_identity) oper" where
  "Authenticate sha now ttl plaintext p =
     (case Parse plaintext of
        None \<Rightarrow> (Inl ErrAPIKeyInvalid, p)
      | Some (keyID, secret) \<Rightarrow>
          (case lookup now ttl keyID p of
             (Inl e, p') \<Rightarrow> (Inl (if e = ErrKeyNotFound then ErrAPIKeyInvalid else AuthInfra e), p')
           | (Inr cred, p') \<Rightarrow>
               if credential_ok sha now secret cred
               then (Inr (identity_of cred), touch now cred p')
               else (Inl ErrAPIKeyInvalid, p')))"

definition InvalidateAPIKeyCache :: "string \<Rightarrow> plane \<Rightarrow> unit option \<times> plane" where
  "InvalidateAPIKeyCache keyID p =
     (case rdb p of None \<Rightarrow> (Some (), p) | Some _ \<Rightarrow> on_redis (cache_del keyID) p)"

section \<open>Keys in the edge device service\<close>

definition CreateAPIKey ::
  "(string \<Rightarrow> string) \<Rightarrow> time \<Rightarrow> string option \<Rightarrow> string option \<Rightarrow> uuid \<Rightarrow> uuid \<Rightarrow> uuid \<Rightarrow> string \<Rightarrow>
     time option \<Rightarrow> uuid option \<Rightarrow> (api_key \<times> string \<times> string) edge_op"
where
  "CreateAPIKey sha now rnd_id rnd_secret newID tenantID deviceID name expiresAt createdBy =
     op_bind (edge_GetByID tenantID deviceID) (\<lambda>device.
     case Generate sha rnd_id rnd_secret of
       None \<Rightarrow> op_fail EdgeRandom
     | Some (plaintext, keyID, hash) \<Rightarrow>
         let key = \<lparr>ak_id = newID, ak_tenant_id = tenantID, ak_device_id = deviceID, ak_key_id = keyID,
                    ak_key_hash = hash, ak_name = (if name \<noteq> [] then Some name else None),
                    ak_created_at = now, ak_created_by = createdBy, ak_expires_at = expiresAt,
                    ak_revoked_at = None, ak_last_used_at = None\<rparr>
         in op_bind (key_Create key) (\<lambda>_. op_ret (key, plaintext, ed_status device)))"

definition ListAPIKeys :: "uuid \<Rightarrow> uuid \<Rightarrow> (api_key list \<times> string) edge_op" where
  "ListAPIKeys tenantID deviceID =
     op_bind (edge_GetByID tenantID deviceID) (\<lambda>device.
     op_bind (key_ListByDevice tenantID deviceID) (\<lambda>keys. op_ret (keys, ed_status device)))"

definition key_id_of_pk :: "uuid \<Rightarrow> api_key list \<Rightarrow> string" where
  "key_id_of_pk keyPK keys = (case find (\<lambda>k. ak_id k = keyPK) keys of Some k \<Rightarrow> ak_key_id k | None \<Rightarrow> [])"

definition RevokeAPIKey :: "time \<Rightarrow> uuid \<Rightarrow> uuid \<Rightarrow> uuid \<Rightarrow> unit plane_op" where
  "RevokeAPIKey now tenantID deviceID keyPK =
     op_bind (on_pg (key_ListByDevice tenantID deviceID)) (\<lambda>keys.
     let keyID = key_id_of_pk keyPK keys
     in if keyID = [] then op_fail ErrKeyNotFound
        else op_bind (on_pg (key_Revoke now tenantID keyPK)) (\<lambda>_.
             \<lambda>p. (Inr (), snd (InvalidateAPIKeyCache keyID p))))"


section \<open>How the rows of keys evolve\<close>

text \<open>
  \<open>evolves now d d'\<close>: rows of keys only change in last_used_at and, once, in revoked_at,
  which is then \<open>now\<close>; a device keeps its machine id.
\<close>

definition row_evolves :: "time \<Rightarrow> api_key \<Rightarrow> api_key \<Rightarrow> bool" where
  "row_evolves now k k' \<longleftrightarrow>
     k' = k\<lparr>ak_revoked_at := ak_revoked_at k', ak_last_used_at := ak_last_used_at k'\<rparr> \<and>
     (ak_revoked_at k' = ak_revoked_at k \<or> ak_revoked_at k = None \<and> ak_revoked_at k' = Some now)"

definition machine_ids :: "edge_db \<Rightarrow> (uuid \<times> string) set" where
  "machine_ids d = set (map (\<lambda>x. (ed_id x, ed_machine_id x)) (devices d))"

definition evolves :: "time \<Rightarrow> edge_db \<Rightarrow> edge_db \<Rightarrow> bool" where
  "evolves now d d' \<longleftrightarrow>
     (\<forall>k \<in> set (api_keys d). \<exists>k' \<in> set (api_keys d'). row_evolves now k k') \<and>
     machine_ids d \<subseteq> machine_ids d'"

definition evolving :: "time \<Rightarrow> 'a edge_op \<Rightarrow> bool" where
  "evolving now m \<longleftrightarrow> (\<forall>d0. keeps (evolves now d0) m)"

lemma row_evolves_refl [simp]: "row_evolves now k k"
  by (simp add: row_evolves_def)

lemma evolves_refl [simp]: "evolves now d d"
  by (auto simp: evolves_def intro: row_evolves_refl)

lemma evolvingD: "evolving now m \<Longrightarrow> m w = (r, w') \<Longrightarrow> evolves now (tables w) (tables w')"
  unfolding evolving_def using keepsD evolves_refl by blast

lemma evolving_read_only: "read_only m \<Longrightarrow> evolving now m"
  by (simp add: evolving_def read_only_keeps)

lemma evolving_bind: "evolving now m \<Longrightarrow> (\<And>x. evolving now (f x)) \<Longrightarrow> evolving now (op_bind m f)"
  by (simp add: evolving_def keeps_bind)

lemma row_evolves_trans: "row_evolves now k k1 \<Longrightarrow> row_evolves now k1 k2 \<Longrightarrow> row_evolves now k k2"
  by (cases k; cases k1; cases k2) (auto simp: row_evolves_def)

lemma evolvesE:
  assumes "evolves now d d'" and "k \<in> set (api_keys d)"
  obtains k' where "k' \<in> set (api_keys d')" and "row_evolves now k k'"
  using assms by (auto simp: evolves_def)

lemma evolves_trans:
  assumes "evolves now d d1" and "evolves now d1 d2"
  shows "evolves now d d2"
proof -
  have "\<exists>k' \<in> set (api_keys d2). row_evolves now k k'" if k: "k \<in> set (api_keys d)" for k
    by (rule evolvesE [OF assms(1) k], erule evolvesE [OF assms(2)]) (blast intro: row_evolves_trans)
  with assms show ?thesis by (auto simp: evolves_def)
qed

lemma evolving_stmt:
  assumes "\<And>d x d'. q d = (Inr x, d') \<Longrightarrow> evolves now d d'"
  shows "evolving now (stmt infra q)"
  unfolding evolving_def by (auto intro!: keeps_stmt intro: evolves_trans assms)

lemma evolves_update_keys:
  assumes "\<And>k. p k \<Longrightarrow> row_evolves now k (f k)"
  shows "evolves now d (d\<lparr>api_keys := update_where p f (api_keys d)\<rparr>)"
proof -
  have "\<exists>k' \<in> set (update_where p f (api_keys d)). row_evolves now k k'" if "k \<in> set (api_keys d)" for k
    using that assms by (intro bexI [of _ "if p k then f k else k"]) (auto simp: in_update_where)
  then show ?thesis by (simp add: evolves_def machine_ids_def)
qed

lemma evolving_Revoke: "evolving now (key_Revoke now t k)"
  unfolding key_Revoke_def assertExists_def
  by (intro evolving_bind evolving_stmt)
    (auto intro!: evolves_update_keys evolving_read_only simp: revocable_def row_evolves_def)

lemma evolving_TouchLastUsed: "evolving now (key_TouchLastUsed now' k)"
  unfolding key_TouchLastUsed_def
  by (intro evolving_stmt) (auto intro!: evolves_update_keys simp: row_evolves_def)

lemma evolving_key_Create: "evolving now (key_Create k)"
  unfolding key_Create_def
  by (intro evolving_stmt)
    (auto simp: evolves_def machine_ids_def split: if_splits intro: row_evolves_refl)

lemma read_only_key_reads [simp]:
  "read_only (key_GetByKeyID k)" "read_only (key_ListByDevice t i)" "read_only (assertExists t i)"
  by (simp_all add: key_GetByKeyID_def key_ListByDevice_def assertExists_def)

lemma evolving_CreateAPIKey: "evolving now (CreateAPIKey sha now' ri rs newID t i name ex cb)"
  unfolding CreateAPIKey_def
proof (rule evolving_bind [OF evolving_read_only [OF read_only_edge_reads(2)]])
  have "evolving now (op_bind (key_Create k) (\<lambda>_. op_ret (y, p, st)))" for k y and p :: string and st :: string
    by (intro evolving_bind evolving_key_Create evolving_read_only) simp
  then show "evolving now (case Generate sha ri rs of None \<Rightarrow> op_fail EdgeRandom
     | Some (plaintext, keyID, hash) \<Rightarrow>
         let key = \<lparr>ak_id = newID, ak_tenant_id = t, ak_device_id = i, ak_key_id = keyID,
                    ak_key_hash = hash, ak_name = (if name \<noteq> [] then Some name else None),
                    ak_created_at = now', ak_created_by = cb, ak_expires_at = ex,
                    ak_revoked_at = None, ak_last_used_at = None\<rparr>
         in op_bind (key_Create key) (\<lambda>_. op_ret (key, plaintext, ed_status device)))" for device
    by (auto simp: Let_def evolving_read_only split: option.split)
qed

lemma evolves_device_update:
  assumes "same_identity f" and "update_device n t i f ok d = (Inr row, d')"
  shows "evolves now d d'"
proof -
  have "map (\<lambda>x. (ed_id x, ed_machine_id x)) (update_where p (\<lambda>x. device_trigger n (f x)) xs)
      = map (\<lambda>x. (ed_id x, ed_machine_id x)) xs" for p xs
    using assms(1) by (intro map_update_where_inv) (simp add: same_identity_def device_trigger_def)
  with assms(2) show ?thesis
    by (auto elim!: update_device_Inr simp: evolves_def machine_ids_def simp del: set_map
        intro: row_evolves_refl)
qed

lemma evolving_device_update:
  "same_identity f \<Longrightarrow> evolving now (stmt EdgeInternal (update_device n t i f ok))"
  by (intro evolving_stmt) (rule evolves_device_update)

lemma evolves_device_check:
  assumes "device_check ctype n client eventID t i u em w = (rc, w')"
  shows "evolves now (tables w) (tables w')"
  using assms
proof (cases rule: device_check_cases)
  case (2 d c d')
  have "evolves now (tables w) d'"
    using 2 by (auto simp: evolves_def machine_ids_def intro: row_evolves_refl)
  with 2(10) show ?thesis
    by (elim disjE exE) (auto intro: evolves_trans evolves_device_update [OF same_identity_simps(3)])
qed simp

lemma edge_step_evolves: "edge_step t w w' \<Longrightarrow> evolves now (tables w) (tables w')"
proof (induction rule: edge_step.induct)
  case (step_Create n newID t cmd w r w')
  have "evolving now (CreateDevice n newID t cmd)"
    unfolding CreateDevice_def edge_Create_def
    by (intro evolving_stmt) (auto simp: evolves_def machine_ids_def Let_def split: if_splits
        intro: row_evolves_refl)
  with step_Create show ?case by (rule evolvingD [rotated])
next
  case (step_Update n t i ucmd w r w')
  have "evolving now (UpdateDevice n t i ucmd)"
    unfolding UpdateDevice_def edge_Update_def
    by (intro evolving_bind evolving_device_update evolving_read_only) simp_all
  with step_Update show ?case by (rule evolvingD [rotated])
next
  case (step_Enable n t i w r w')
  then show ?case unfolding EnableDevice_def edge_SetStatus_def
    by (rule evolvingD [OF evolving_device_update, rotated]) simp
next
  case (step_Disable n t i w r w')
  then show ?case unfolding DisableDevice_def edge_SetStatus_def
    by (rule evolvingD [OF evolving_device_update, rotated]) simp
next
  case (step_Seen n t i w ru w')
  have "evolving now (edge_TouchLastSeen n t i)"
    unfolding edge_TouchLastSeen_def
    by (intro evolving_bind evolving_device_update evolving_read_only) simp_all
  with step_Seen show ?case by (rule evolvingD [rotated])
next
  case (step_Status n client eventID t i u em w rc w')
  then show ?case unfolding StatusCheck_def by (rule evolves_device_check)
next
  case (step_Health n client eventID t i u em w rc w')
  then show ?case unfolding HealthCheck_def by (rule evolves_device_check)
qed


section \<open>What the cache holds\<close>

text \<open>
  A cached credential belongs to a row of the table. If it was read as not revoked, it expires
  \<open>ttl\<close> after now at the latest, or \<open>ttl\<close> after the revocation when the row was
  revoked since.
\<close>

definition cred_for :: "api_key \<Rightarrow> credential \<Rightarrow> bool" where
  "cred_for k c \<longleftrightarrow> cr_key_pk c = ak_id k \<and> cr_tenant_id c = ak_tenant_id k \<and>
     cr_device_id c = ak_device_id k \<and> cr_key_id c = ak_key_id k \<and>
     cr_key_hash c = ak_key_hash k \<and> cr_expires_at c = ak_expires_at k"

definition covered :: "time \<Rightarrow> time \<Rightarrow> edge_db \<Rightarrow> string \<Rightarrow> credential \<Rightarrow> time \<Rightarrow> bool" where
  "covered ttl now d keyID c exp \<longleftrightarrow>
     (cr_device_id c, cr_machine_id c) \<in> machine_ids d \<and>
     (\<exists>k \<in> set (api_keys d). ak_key_id k = keyID \<and> cred_for k c \<and>
        (cr_revoked_at c = None \<longrightarrow> exp \<le> opt_or (ak_revoked_at k) now + ttl))"

definition cache_inv :: "time \<Rightarrow> time \<Rightarrow> plane \<Rightarrow> bool" where
  "cache_inv ttl now p \<longleftrightarrow>
     (\<forall>r keyID c exp. rdb p = Some r \<longrightarrow> r_cache r keyID = Some (c, exp) \<longrightarrow>
        covered ttl now (tables (pg p)) keyID c exp)"

lemma covered_evolves:
  assumes "covered ttl now d keyID c exp" and "evolves now d d'"
  shows "covered ttl now d' keyID c exp"
proof -
  obtain k where k: "k \<in> set (api_keys d)" "ak_key_id k = keyID" "cred_for k c"
      "cr_revoked_at c = None \<longrightarrow> exp \<le> opt_or (ak_revoked_at k) now + ttl"
    using assms(1) by (auto simp: covered_def)
  obtain k' where k': "k' \<in> set (api_keys d')" "row_evolves now k k'"
    using assms(2) k(1) by (rule evolvesE)
  have "ak_key_id k' = keyID \<and> cred_for k' c \<and>
      (cr_revoked_at c = None \<longrightarrow> exp \<le> opt_or (ak_revoked_at k') now + ttl)"
    using k k'(2) by (cases k; cases k') (auto simp: row_evolves_def cred_for_def)
  with assms k' show ?thesis by (auto simp: covered_def evolves_def)
qed

lemma covered_later:
  assumes "covered ttl now d keyID c exp" and "now \<le> now'"
  shows "covered ttl now' d keyID c exp"
proof -
  have "opt_or v now + ttl \<le> opt_or v now' + ttl" for v
    using assms(2) by (cases v) auto
  with assms(1) show ?thesis unfolding covered_def by (meson order.trans)
qed

lemma cache_inv_pg:
  "cache_inv ttl now p \<Longrightarrow> evolves now (tables (pg p)) (tables w) \<Longrightarrow> cache_inv ttl now (p\<lparr>pg := w\<rparr>)"
  by (auto simp: cache_inv_def intro: covered_evolves [rotated])

lemma on_pg_cases:
  "on_pg m p = (r, p') \<longleftrightarrow> (\<exists>w. m (pg p) = (r, w) \<and> p' = p\<lparr>pg := w\<rparr>)"
  by (auto simp: on_pg_def split: prod.splits)

lemma cache_inv_on_pg:
  "cache_inv ttl now p \<Longrightarrow> evolving now m \<Longrightarrow> on_pg m p = (r, p') \<Longrightarrow> cache_inv ttl now p'"
  by (auto simp: on_pg_cases intro: cache_inv_pg evolvingD)

lemma pg_on_redis [simp]: "pg (snd (on_redis c p)) = pg p"
  by (simp add: on_redis_def Let_def split: option.split fate.split prod.split)

lemma rdb_on_redis:
  "rdb (snd (on_redis c p)) = Some r' \<Longrightarrow>
     \<exists>r. rdb p = Some r \<and> (r' = r\<lparr>r_cmds := Suc (r_cmds r)\<rparr> \<or> r' = snd (c (r\<lparr>r_cmds := Suc (r_cmds r)\<rparr>)))"
  by (auto simp: on_redis_def Let_def split: option.splits fate.splits prod.splits)

lemma cache_inv_redis:
  assumes "cache_inv ttl now p"
    and "\<And>r keyID e. r_cache (snd (c r)) keyID = Some e \<Longrightarrow> r_cache r keyID = Some e \<or>
           covered ttl now (tables (pg p)) keyID (fst e) (snd e)"
  shows "cache_inv ttl now (snd (on_redis c p))"
  unfolding cache_inv_def
proof (intro allI impI)
  fix r' keyID cr exp
  assume r': "rdb (snd (on_redis c p)) = Some r'" and e: "r_cache r' keyID = Some (cr, exp)"
  obtain r where r: "rdb p = Some r"
    and "r' = r\<lparr>r_cmds := Suc (r_cmds r)\<rparr> \<or> r' = snd (c (r\<lparr>r_cmds := Suc (r_cmds r)\<rparr>))"
    using rdb_on_redis [OF r'] by blast
  then have "r_cache r keyID = Some (cr, exp) \<or> covered ttl now (tables (pg p)) keyID cr exp"
    using e assms(2) by fastforce
  with r assms(1) show "covered ttl now (tables (pg (snd (on_redis c p)))) keyID cr exp"
    by (auto simp: cache_inv_def)
qed

lemma cache_inv_read_redis:
  "cache_inv ttl now p \<Longrightarrow> (\<And>r. r_cache (snd (c r)) = r_cache r) \<Longrightarrow>
     cache_inv ttl now (snd (on_redis c p))"
  by (rule cache_inv_redis) simp_all

lemma cache_inv_del: "cache_inv ttl now p \<Longrightarrow> cache_inv ttl now (snd (on_redis (cache_del k) p))"
  by (rule cache_inv_redis) (simp_all add: cache_del_def split: if_splits)

lemma GetByKeyID_covered:
  assumes "key_GetByKeyID keyID w = (Inr c, w')"
  shows "tables w' = tables w \<and> covered ttl now (tables w) keyID c (now + ttl)"
  using assms
  by (auto simp: key_GetByKeyID_def stmt_iffs dest!: first_row_mem)
    (auto simp: covered_def credential_of_def cred_for_def machine_ids_def split: if_splits
      intro!: rev_image_eqI)

lemma lookup_cached_Some:
  assumes "lookup_cached now keyID p = (Some c, p')"
  obtains r exp where "rdb p = Some r" and "r_cache r keyID = Some (c, exp)" and "now < exp"
  using assms
  by (auto simp: lookup_cached_def on_redis_def cache_get_def Let_def
      split: option.splits fate.splits prod.splits if_splits)

lemma lookup_cached_snd:
  "lookup_cached now keyID p = (a, p') \<Longrightarrow> p' = snd (on_redis (cache_get now keyID) p)"
  by (auto simp: lookup_cached_def split: prod.splits)

lemma cache_inv_get:
  "cache_inv ttl now p \<Longrightarrow> cache_inv ttl now (snd (on_redis (cache_get n k) p))"
  by (rule cache_inv_read_redis) (simp_all add: cache_get_def)

lemma lookup_inv:
  assumes inv: "cache_inv ttl now p" and "lookup now ttl keyID p = (r, p')"
  shows "cache_inv ttl now p' \<and> tables (pg p') = tables (pg p)"
proof (cases "lookup_cached now keyID p")
  case (Pair a p1)
  then have p1: "cache_inv ttl now p1" "pg p1 = pg p"
    using inv by (auto dest: lookup_cached_snd intro: cache_inv_get)
  show ?thesis
  proof (cases a)
    case (Some c)
    with Pair p1 assms(2) show ?thesis by (simp add: lookup_def)
  next
    case None
    obtain r2 w2 where g: "key_GetByKeyID keyID (pg p1) = (r2, w2)" by fastforce
    then have w2: "tables w2 = tables (pg p1)"
      by (rule read_onlyD [rotated]) simp
    then have inv2: "cache_inv ttl now (p1\<lparr>pg := w2\<rparr>)"
      using p1 by (intro cache_inv_pg) simp_all
    show ?thesis
    proof (cases r2)
      case (Inl e)
      with None Pair assms(2) g inv2 w2 p1 show ?thesis
        by (auto simp: lookup_def on_pg_def)
    next
      case (Inr c)
      have "cache_inv ttl now (lookup_fill now ttl keyID c (p1\<lparr>pg := w2\<rparr>))"
        unfolding lookup_fill_def
        using GetByKeyID_covered [of keyID "pg p1" c w2 ttl now] g Inr w2
        by (intro cache_inv_redis [OF inv2]) (auto simp: cache_set_def split: if_splits)
      with Inr None Pair assms(2) g w2 p1 show ?thesis
        by (auto simp: lookup_def on_pg_def lookup_fill_def)
    qed
  qed
qed

lemma lookup_covered:
  assumes inv: "cache_inv ttl now p" and "0 < ttl" and "lookup now ttl keyID p = (Inr c, p')"
  shows "\<exists>exp. now < exp \<and> covered ttl now (tables (pg p)) keyID c exp"
proof (cases "lookup_cached now keyID p")
  case (Pair a p1)
  then have p1: "pg p1 = pg p" by (auto dest: lookup_cached_snd)
  show ?thesis
  proof (cases a)
    case (Some c')
    with Pair assms(3) have "lookup_cached now keyID p = (Some c, p1)" by (simp add: lookup_def)
    then show ?thesis by (rule lookup_cached_Some) (use inv in \<open>auto simp: cache_inv_def\<close>)
  next
    case None
    then obtain w2 where "key_GetByKeyID keyID (pg p) = (Inr c, w2)"
      using Pair assms(3) p1 by (auto simp: lookup_def on_pg_def split: prod.splits sum.splits)
    then show ?thesis using GetByKeyID_covered assms(2) by (intro exI [of _ "now + ttl"]) auto
  qed
qed


section \<open>Histories of the plane\<close>

text \<open>
  \<open>key_step sha ttl (now, p) (now', p')\<close>: the clock advances, or one operation runs: an
  authentication, the creation or the revocation of a key, an operation on devices. Arguments,
  random bytes, failing statements and failing Redis commands are arbitrary.
\<close>

inductive key_step ::
  "(string \<Rightarrow> string) \<Rightarrow> time \<Rightarrow> time \<times> plane \<Rightarrow> time \<times> plane \<Rightarrow> bool" for sha ttl where
  ks_tick: "now \<le> now' \<Longrightarrow> key_step sha ttl (now, p) (now', p)"
| ks_auth: "Authenticate sha now ttl s p = (r, p') \<Longrightarrow> key_step sha ttl (now, p) (now, p')"
| ks_create: "on_pg (CreateAPIKey sha now ri rs newID t i name ex cb) p = (rk, p') \<Longrightarrow>
     key_step sha ttl (now, p) (now, p')"
| ks_revoke: "RevokeAPIKey now t i k p = (ru, p') \<Longrightarrow> key_step sha ttl (now, p) (now, p')"
| ks_device: "edge_step t (pg p) w \<Longrightarrow> key_step sha ttl (now, p) (now, p\<lparr>pg := w\<rparr>)"

inductive key_steps ::
  "(string \<Rightarrow> string) \<Rightarrow> time \<Rightarrow> time \<times> plane \<Rightarrow> time \<times> plane \<Rightarrow> bool" for sha ttl where
  kss_refl: "key_steps sha ttl c c"
| kss_step: "key_steps sha ttl c c' \<Longrightarrow> key_step sha ttl c' c'' \<Longrightarrow> key_steps sha ttl c c''"

lemma touch_inv: "cache_inv ttl now p \<Longrightarrow> cache_inv ttl now (touch now cred p)"
proof -
  assume inv: "cache_inv ttl now p"
  obtain a p1 where a: "on_redis (touch_setnx now (cr_key_id cred)) p = (a, p1)" by fastforce
  have "cache_inv ttl now (snd (on_redis (touch_setnx now (cr_key_id cred)) p))"
    using inv by (rule cache_inv_read_redis) (simp add: touch_setnx_def split: option.split)
  with a have p1: "cache_inv ttl now p1" by simp
  have "cache_inv ttl now (snd (on_pg (key_TouchLastUsed now (cr_key_pk cred)) p1))"
    using cache_inv_on_pg [OF p1 evolving_TouchLastUsed] by (metis prod.collapse)
  with a p1 inv show ?thesis
    by (auto simp: touch_def split: option.split bool.split)
qed

lemma Authenticate_inv:
  assumes "cache_inv ttl now p" and "Authenticate sha now ttl s p = (r, p')"
  shows "cache_inv ttl now p'"
proof (cases "Parse s")
  case None
  with assms show ?thesis by (simp add: Authenticate_def)
next
  case (Some ks)
  obtain keyID secret where ks: "ks = (keyID, secret)" by fastforce
  obtain r1 p1 where l: "lookup now ttl keyID p = (r1, p1)" by fastforce
  with assms(1) have "cache_inv ttl now p1" by (simp add: lookup_inv)
  with assms(2) Some ks l show ?thesis
    by (auto simp: Authenticate_def split: sum.splits if_splits intro: touch_inv)
qed

lemma RevokeAPIKey_cases:
  assumes "RevokeAPIKey now t i k p = (r, p')"
  obtains e w where "p' = p\<lparr>pg := w\<rparr>" and "r = Inl e" and "evolves now (tables (pg p)) (tables w)"
  | keys w1 w2 where "key_ListByDevice t i (pg p) = (Inr keys, w1)" and "key_id_of_pk k keys \<noteq> []"
      and "key_Revoke now t k w1 = (Inr (), w2)" and "r = Inr ()"
      and "p' = snd (InvalidateAPIKeyCache (key_id_of_pk k keys) (p\<lparr>pg := w2\<rparr>))"
proof -
  obtain r1 w1 where l: "key_ListByDevice t i (pg p) = (r1, w1)" by fastforce
  then have w1: "tables w1 = tables (pg p)" by (rule read_onlyD [rotated]) simp
  show thesis
  proof (cases r1)
    case (Inl e)
    with l assms w1 show thesis
      by (intro that(1) [of w1]) (auto simp: RevokeAPIKey_def op_bind_def on_pg_def)
  next
    case (Inr keys)
    obtain r2 w2 where rv: "key_Revoke now t k w1 = (r2, w2)" by fastforce
    then have "evolves now (tables w1) (tables w2)" by (rule evolvingD [OF evolving_Revoke])
    with w1 Inr l rv assms show thesis
      by (cases "key_id_of_pk k keys = []"; cases r2)
        (auto simp: RevokeAPIKey_def op_bind_def on_pg_def Let_def intro: that)
  qed
qed

lemma RevokeAPIKey_inv:
  assumes "cache_inv ttl now p" and "RevokeAPIKey now t i k p = (r, p')"
  shows "cache_inv ttl now p'"
  using assms(2)
proof (cases rule: RevokeAPIKey_cases)
  case (1 e w)
  with assms(1) show ?thesis by (auto intro: cache_inv_pg)
next
  case (2 keys w1 w2)
  have "tables w1 = tables (pg p)" using 2(1) by (rule read_onlyD [rotated]) simp
  then have "evolves now (tables (pg p)) (tables w2)"
    using evolvingD [OF evolving_Revoke 2(3)] by simp
  then have "cache_inv ttl now (p\<lparr>pg := w2\<rparr>)" by (rule cache_inv_pg [OF assms(1)])
  with 2(5) show ?thesis
    by (auto simp: InvalidateAPIKeyCache_def split: option.split intro: cache_inv_del)
qed

lemma key_step_inv:
  "key_step sha ttl c c' \<Longrightarrow> cache_inv ttl (fst c) (snd c) \<Longrightarrow> cache_inv ttl (fst c') (snd c')"
proof (induction rule: key_step.induct)
  case (ks_tick now now' p)
  then show ?case by (auto simp: cache_inv_def intro: covered_later [rotated])
next
  case (ks_auth now s p r p')
  then show ?case by (auto intro: Authenticate_inv)
next
  case (ks_create now ri rs newID t i name ex cb p rk p')
  then show ?case by (auto intro: cache_inv_on_pg [OF _ evolving_CreateAPIKey])
next
  case (ks_revoke now t i k p ru p')
  then show ?case by (auto intro: RevokeAPIKey_inv)
next
  case (ks_device t p w now)
  then show ?case by (auto intro: cache_inv_pg edge_step_evolves)
qed

lemma key_steps_inv:
  "key_steps sha ttl c c' \<Longrightarrow> cache_inv ttl (fst c) (snd c) \<Longrightarrow> cache_inv ttl (fst c') (snd c')"
  by (induction rule: key_steps.induct) (auto intro: key_step_inv)

lemma Authenticate_Inr:
  assumes "Authenticate sha now ttl s p = (Inr ident, p')"
  obtains keyID secret c p1 where "Parse s = Some (keyID, secret)"
    and "lookup now ttl keyID p = (Inr c, p1)" and "credential_ok sha now secret c"
    and "ident = identity_of c"
  using assms
  by (auto simp: Authenticate_def split: option.splits prod.splits sum.splits if_splits)

lemma credential_ok_iff:
  "credential_ok sha now secret c \<longleftrightarrow>
     Matches sha secret (cr_key_hash c) \<and> cr_revoked_at c = None \<and>
     (\<forall>e. cr_expires_at c = Some e \<longrightarrow> now < e) \<and> cr_device_status c = ''ACTIVE''"
  by (auto simp: credential_ok_def split: option.splits)

definition start_plane :: "plane \<Rightarrow> bool" where
  "start_plane p \<longleftrightarrow> (case rdb p of None \<Rightarrow> True | Some r \<Rightarrow> r_cache r = (\<lambda>_. None))"

lemma start_plane_inv: "start_plane p \<Longrightarrow> cache_inv ttl now p"
  by (auto simp: start_plane_def cache_inv_def split: option.splits)


lemma credential_rows:
  assumes wf: "edge_wf d"
  shows "first_row e [credential_of k x. k \<leftarrow> api_keys d, x \<leftarrow> devices d,
            ed_id x = ak_device_id k \<and> ak_key_id k = keyID] = Inr c \<longleftrightarrow>
    (\<exists>k \<in> set (api_keys d). \<exists>x \<in> set (devices d).
       ak_key_id k = keyID \<and> ed_id x = ak_device_id k \<and> c = credential_of k x)"
    (is "first_row e ?rows = _ \<longleftrightarrow> ?R c")
proof
  assume "first_row e ?rows = Inr c"
  then have "c \<in> set ?rows" by (rule first_row_mem)
  then show "?R c" by (simp split: if_splits) blast
next
  assume c: "?R c"
  then have "c \<in> set ?rows" by fastforce
  then obtain c' where c': "first_row e ?rows = Inr c'" by (cases ?rows) auto
  then have "c' \<in> set ?rows" by (rule first_row_mem)
  then have "?R c'" by (simp split: if_splits) blast
  then obtain k' x' where k': "k' \<in> set (api_keys d)" "x' \<in> set (devices d)" "ak_key_id k' = keyID"
      "ed_id x' = ak_device_id k'" "c' = credential_of k' x'" by blast
  from c obtain k x where k: "k \<in> set (api_keys d)" "x \<in> set (devices d)" "ak_key_id k = keyID"
      "ed_id x = ak_device_id k" "c = credential_of k x" by blast
  have "k' = k" using wf k' k distinct_map_eq [of ak_key_id "api_keys d"] by (simp add: edge_wf_defs)
  moreover have "x' = x"
    using wf k' k calculation distinct_map_eq [of ed_id "devices d"] by (simp add: edge_wf_defs)
  ultimately show "first_row e ?rows = Inr c" using c' k k' by simp
qed

lemma Generate_parses:
  assumes "length idBytes = 6" and "length secretBytes = SecretBytes"
    and "Generate sha (Some idBytes) (Some secretBytes) = Some (plaintext, keyID, hash)"
  shows "\<exists>secret. Parse plaintext = Some (keyID, secret) \<and> Matches sha secret hash \<and>
    length keyID = KeyIDLen"
proof -
  have "secretBytes \<noteq> []" using assms(2) by (auto simp: SecretBytes_def)
  then show ?thesis
    using assms by (intro exI [of _ "base64_raw_url secretBytes"])
      (auto simp: Generate_def Parse_Some Let_def KeyIDLen_def Matches_def hex_encode_is_hex)
qed

lemma credential_ok_of:
  "credential_ok sha now secret (credential_of k x) \<longleftrightarrow>
     Matches sha secret (ak_key_hash k) \<and> IsActive k now \<and> ed_status x = ''ACTIVE''"
  by (auto simp: credential_ok_iff credential_of_def IsActive_def split: option.splits)

lemma revoked_rows:
  "filter (revocable t k) (update_where (revocable t k) (\<lambda>x. x\<lparr>ak_revoked_at := Some now\<rparr>) xs) = []"
  by (induction xs) (auto simp: revocable_def)

lemma revoke_keeps_row:
  "(\<exists>x \<in> set (update_where p (\<lambda>x. x\<lparr>ak_revoked_at := v\<rparr>) xs). ak_id x = k \<and> ak_tenant_id x = t)
     \<longleftrightarrow> (\<exists>x \<in> set xs. ak_id x = k \<and> ak_tenant_id x = t)"
  by (induction xs) auto

lemma key_Revoke_Inr:
  assumes "key_Revoke now t k w = (Inr (), w1)"
  shows "api_keys (tables w1) =
      update_where (revocable t k) (\<lambda>x. x\<lparr>ak_revoked_at := Some now\<rparr>) (api_keys (tables w)) \<and>
    (\<exists>x \<in> set (api_keys (tables w1)). ak_id x = k \<and> ak_tenant_id x = t)"
proof -
  let ?f = "filter (revocable t k) (api_keys (tables w))"
  let ?d = "(tables w)\<lparr>api_keys := update_where (revocable t k) (\<lambda>x. x\<lparr>ak_revoked_at := Some now\<rparr>)
               (api_keys (tables w))\<rparr>"
  let ?w = "w\<lparr>tables := ?d, nstmts := Suc (nstmts w)\<rparr>"
  have "(if length ?f = 0 then assertExists t k else op_ret ()) ?w = (Inr (), w1)"
    using assms by (simp add: key_Revoke_def op_bind_def stmt_def split: if_splits)
  moreover have "\<exists>x \<in> set (api_keys (tables w)). ak_id x = k \<and> ak_tenant_id x = t" if "?f \<noteq> []"
  proof -
    from that obtain x where "x \<in> set ?f" by (cases ?f) auto
    then show ?thesis by (auto simp: revocable_def)
  qed
  ultimately show ?thesis
    by (cases "?f = []") (auto simp: assertExists_def query_Inr revoke_keeps_row split: if_splits)
qed

section \<open>Properties\<close>

text \<open>Round trip of the key format: a key that Generate drew is parsed back to its public part
  and to a secret that matches the stored hash.\<close>

theorem Parse_Generate:
  assumes "length idBytes = 6" and "length secretBytes = SecretBytes"
    and "Generate sha (Some idBytes) (Some secretBytes) = Some (plaintext, keyID, hash)"
  shows "\<exists>secret. Parse plaintext = Some (keyID, secret) \<and> Matches sha secret hash \<and>
    length keyID = KeyIDLen"
  by (rule Generate_parses [OF assms])

text \<open>Parse accepts exactly the strings of the documented form, and cuts them at the first
  underscore after the prefix: the secret may hold underscores, the public part is twelve
  hexadecimal digits.\<close>

theorem Parse_spec:
  "Parse s = Some (keyID, secret) \<longleftrightarrow>
     s = ''emb_'' @ keyID @ ''_'' @ secret \<and> length keyID = 12 \<and> list_all is_hex keyID \<and> secret \<noteq> []"
  by (simp add: Parse_Some Prefix_def KeyIDLen_def)

text \<open>C11. Without a cache and with Postgres answering, a key authenticates if and only if it parses,
  its row exists, the secret matches, the key is active at that instant and its device is ACTIVE; the
  identity is that of the row and of its device.\<close>

theorem Authenticate_exact:
  assumes wf: "edge_wf (tables (pg p))" and no_cache: "rdb p = None" and up: "\<not> outage (pg p) (nstmts (pg p))"
  shows "fst (Authenticate sha now ttl s p) = Inr ident \<longleftrightarrow>
    (\<exists>secret. \<exists>k \<in> set (api_keys (tables (pg p))). \<exists>x \<in> set (devices (tables (pg p))).
       Parse s = Some (ak_key_id k, secret) \<and> Matches sha secret (ak_key_hash k) \<and> IsActive k now \<and>
       ed_id x = ak_device_id k \<and> ed_status x = ''ACTIVE'' \<and> ident = identity_of (credential_of k x))"
proof (cases "Parse s")
  case None
  then show ?thesis by (simp add: Authenticate_def)
next
  case (Some ks)
  obtain keyID secret where ks: "Parse s = Some (keyID, secret)" using Some by fastforce
  let ?rows = "[credential_of k x. k \<leftarrow> api_keys (tables (pg p)), x \<leftarrow> devices (tables (pg p)),
            ed_id x = ak_device_id k \<and> ak_key_id k = keyID]"
  have "lookup now ttl keyID p = (first_row ErrKeyNotFound ?rows, p\<lparr>pg := (pg p)\<lparr>nstmts := Suc (nstmts (pg p))\<rparr>\<rparr>)"
    using no_cache up
    by (cases "first_row ErrKeyNotFound ?rows")
      (simp_all add: lookup_def lookup_cached_def lookup_fill_def on_redis_def on_pg_def
        key_GetByKeyID_def query_def stmt_def)
  then have "fst (Authenticate sha now ttl s p) = Inr ident \<longleftrightarrow>
      (\<exists>c. first_row ErrKeyNotFound ?rows = Inr c \<and> credential_ok sha now secret c \<and> ident = identity_of c)"
    by (auto simp: Authenticate_def ks split: sum.splits)
  also have "\<dots> \<longleftrightarrow> (\<exists>k \<in> set (api_keys (tables (pg p))). \<exists>x \<in> set (devices (tables (pg p))).
       ak_key_id k = keyID \<and> ed_id x = ak_device_id k \<and>
       credential_ok sha now secret (credential_of k x) \<and> ident = identity_of (credential_of k x))"
    unfolding credential_rows [OF wf] by blast
  finally show ?thesis unfolding credential_ok_of by (simp add: ks) blast
qed




text \<open>Revoking is idempotent: a second revocation of a revoked key changes nothing, so that the
  first instant stays, and it is answered like the first one while Postgres answers.\<close>

theorem key_Revoke_idempotent:
  assumes "key_Revoke now t k w = (Inr (), w1)" and "key_Revoke now' t k w1 = (r, w2)"
  shows "tables w2 = tables w1 \<and> ((\<forall>n. \<not> outage w1 n) \<longrightarrow> r = Inr ())"
proof -
  note w1 = key_Revoke_Inr [OF assms(1)]
  then have none: "filter (revocable t k) (api_keys (tables w1)) = []"
    by (simp add: revoked_rows)
  note same = update_where_none [OF none]
  let ?w = "w1\<lparr>nstmts := Suc (nstmts w1)\<rparr>"
  have "key_Revoke now' t k w1 =
      (if outage w1 (nstmts w1) then (Inl EdgeInternal, ?w) else assertExists t k ?w)"
    by (simp add: key_Revoke_def op_bind_def stmt_def none same)
  moreover have "assertExists t k ?w =
      (if outage ?w (nstmts ?w) then Inl EdgeInternal else Inr (), ?w\<lparr>nstmts := Suc (nstmts ?w)\<rparr>)"
    using conjunct2 [OF w1] by (simp add: assertExists_def query_def stmt_def)
  ultimately show ?thesis using assms(2) by (auto split: if_splits)
qed

section \<open>Concrete instances\<close>

definition key_1 :: api_key where
  "key_1 = \<lparr>ak_id = 2, ak_tenant_id = 7, ak_device_id = 1, ak_key_id = ''0123456789ab'', ak_key_hash = ''s'',
     ak_name = None, ak_created_at = 5, ak_created_by = None, ak_expires_at = None,
     ak_revoked_at = None, ak_last_used_at = None\<rparr>"

definition plain_1 :: string where
  "plain_1 = ''emb_0123456789ab_s''"

definition one_key :: edge_db where
  "one_key = one_device\<lparr>api_keys := [key_1]\<rparr>"

definition fresh_redis :: redis where
  "fresh_redis = \<lparr>r_cache = (\<lambda>_. None), r_touch = (\<lambda>_. None), r_fate = (\<lambda>_. Answered), r_cmds = 0\<rparr>"

definition cached_plane :: plane where
  "cached_plane = \<lparr>pg = live one_key, rdb = Some fresh_redis\<rparr>"

lemmas key_instances = key_1_def plain_1_def one_key_def fresh_redis_def cached_plane_def edge_instances

lemma one_key_wf: "edge_wf one_key"
  by (simp add: edge_wf_defs key_instances device_checks_def device_statuses_def
      check_statuses_def has_device_def same_device_def)

lemma Parse_plain_1: "Parse plain_1 = Some (''0123456789ab'', ''s'')"
  by (simp add: Parse_Some key_instances Prefix_def KeyIDLen_def is_hex_def)


theorem Parse_Generate_instance:
  "\<exists>secret. Parse (Prefix @ hex_encode ''abcdef'' @ ''_'' @ base64_raw_url (replicate 32 (CHR ''x'')))
     = Some (hex_encode ''abcdef'', secret)"
  using Parse_Generate [of "''abcdef''" "replicate 32 (CHR ''x'')" id]
  by (auto simp: Generate_def SecretBytes_def Let_def)

theorem Authenticate_exact_instance:
  "fst (Authenticate id 9 minute plain_1 \<lparr>pg = live one_key, rdb = None\<rparr>)
     = Inr (identity_of (credential_of key_1 line_1))"
proof -
  have "edge_wf (tables (pg \<lparr>pg = live one_key, rdb = None\<rparr>))" by (simp add: one_key_wf)
  then show ?thesis
    by (subst Authenticate_exact)
      (simp_all add: Parse_plain_1, simp add: Matches_def HashSecret_def IsActive_def key_instances)
qed



theorem key_Revoke_idempotent_instance:
  "\<exists>w1 w2. key_Revoke 6 7 2 (live one_key) = (Inr (), w1) \<and> key_Revoke 8 7 2 w1 = (Inr (), w2) \<and>
     map ak_revoked_at (api_keys (tables w2)) = [Some 6]"
proof -
  define w1 where "w1 = snd (key_Revoke 6 7 2 (live one_key))"
  have a: "key_Revoke 6 7 2 (live one_key) = (Inr (), w1)" and up: "\<forall>n. \<not> outage w1 n"
    and row: "map ak_revoked_at (api_keys (tables w1)) = [Some 6]"
    by (simp_all add: w1_def key_Revoke_def op_bind_def stmt_def revocable_def key_instances)
  obtain r w2 where b: "key_Revoke 8 7 2 w1 = (r, w2)" by fastforce
  from key_Revoke_idempotent [OF a b] up row a b show ?thesis by auto
qed

section \<open>Two limits of the invalidation\<close>

text \<open>The order of RevokeAPIKey, Postgres first and the cache second, does not keep a revoked key
  out of the cache: a lookup that read the row before the revocation fills the cache after the
  invalidation, and the revoked key authenticates until the entry expires.\<close>

theorem revoked_key_recached:
  "\<exists>c w1 p1 p2.
     key_GetByKeyID ''0123456789ab'' (live one_key) = (Inr c, w1) \<and>
     RevokeAPIKey 10 7 1 2 (cached_plane\<lparr>pg := w1\<rparr>) = (Inr (), p1) \<and>
     map ak_revoked_at (api_keys (tables (pg p1))) = [Some 10] \<and>
     p2 = lookup_fill 11 minute ''0123456789ab'' c p1 \<and>
     (\<forall>now. 11 \<le> now \<longrightarrow> now < 11 + minute \<longrightarrow>
        (\<exists>ident. fst (Authenticate id now minute plain_1 p2) = Inr ident))"
proof -
  define c where "c = credential_of key_1 line_1"
  define w1 where "w1 = (live one_key)\<lparr>nstmts := 1\<rparr>"
  define p1 where "p1 = snd (RevokeAPIKey 10 7 1 2 (cached_plane\<lparr>pg := w1\<rparr>))"
  have 1: "key_GetByKeyID ''0123456789ab'' (live one_key) = (Inr c, w1)"
    by (simp add: key_GetByKeyID_def query_def stmt_def c_def w1_def key_instances)
  have 2: "fst (RevokeAPIKey 10 7 1 2 (cached_plane\<lparr>pg := w1\<rparr>)) = Inr ()"
    and p1: "map ak_revoked_at (api_keys (tables (pg p1))) = [Some 10]"
      "\<exists>r. rdb p1 = Some r \<and> (\<forall>n. r_fate r n = Answered)"
    by (simp_all add: p1_def RevokeAPIKey_def on_pg_def op_bind_def key_ListByDevice_def query_def
        stmt_def w1_def key_instances key_id_of_pk_def key_Revoke_def revocable_def sort_desc_def
        InvalidateAPIKeyCache_def on_redis_def cache_del_def Let_def)
  from p1(2) obtain r where r: "rdb p1 = Some r" "\<And>n. r_fate r n = Answered" by blast
  have "\<exists>ident. fst (Authenticate id now minute plain_1 (lookup_fill 11 minute ''0123456789ab'' c p1)) = Inr ident"
    if "now < 11 + minute" for now
    using that
    by (simp add: Authenticate_def Parse_plain_1 lookup_def lookup_cached_def lookup_fill_def
        on_redis_def r cache_set_def cache_get_def Let_def credential_ok_iff c_def credential_of_def
        key_1_def line_1_def Matches_def HashSecret_def)
  with 1 2 p1 show ?thesis
    by (intro exI [of _ c] exI [of _ w1] exI [of _ p1] exI [of _ "lookup_fill 11 minute ''0123456789ab'' c p1"])
      (auto simp: p1_def prod_eq_iff)
qed

theorem revoked_key_recached_instance:
  "\<exists>c w1 p1 ident. key_GetByKeyID ''0123456789ab'' (live one_key) = (Inr c, w1) \<and>
     RevokeAPIKey 10 7 1 2 (cached_plane\<lparr>pg := w1\<rparr>) = (Inr (), p1) \<and>
     fst (Authenticate id 20 minute plain_1 (lookup_fill 11 minute ''0123456789ab'' c p1)) = Inr ident"
proof -
  obtain c w1 p1 p2 where
      1: "key_GetByKeyID ''0123456789ab'' (live one_key) = (Inr c, w1)"
        "RevokeAPIKey 10 7 1 2 (cached_plane\<lparr>pg := w1\<rparr>) = (Inr (), p1)"
        "p2 = lookup_fill 11 minute ''0123456789ab'' c p1"
    and all: "\<forall>now. 11 \<le> now \<longrightarrow> now < 11 + minute \<longrightarrow>
        (\<exists>ident. fst (Authenticate id now minute plain_1 p2) = Inr ident)"
    using revoked_key_recached by blast
  have "\<exists>ident. fst (Authenticate id 20 minute plain_1 p2) = Inr ident"
    by (rule all [rule_format]) (simp_all add: duration_defs)
  with 1 show ?thesis by blast
qed

text \<open>Disabling a device does not invalidate its cached keys: the credential caches the status of
  the device, and a key that was used just before the device was disabled keeps authenticating until
  the entry expires.\<close>

theorem disabled_device_authenticates:
  "\<exists>ident p1 x w2.
     Authenticate id 10 minute plain_1 cached_plane = (Inr ident, p1) \<and>
     DisableDevice 11 7 1 (pg p1) = (Inr x, w2) \<and> map ed_status (devices (tables w2)) = [''DISABLED''] \<and>
     (\<forall>now. 11 \<le> now \<longrightarrow> now < 10 + minute \<longrightarrow>
        fst (Authenticate id now minute plain_1 (p1\<lparr>pg := w2\<rparr>)) = Inr ident)"
proof -
  define c where "c = credential_of key_1 line_1"
  define p1 where "p1 = snd (Authenticate id 10 minute plain_1 cached_plane)"
  define w2 where "w2 = snd (DisableDevice 11 7 1 (pg p1))"
  note auth = Authenticate_def Parse_plain_1 lookup_def lookup_cached_def lookup_fill_def on_redis_def
    cache_set_def cache_get_def Let_def credential_ok_iff credential_of_def Matches_def HashSecret_def
  note base = on_pg_def key_GetByKeyID_def query_def stmt_def touch_def touch_setnx_def
    key_TouchLastUsed_def key_1_def cached_plane_def fresh_redis_def one_key_def one_device_def
    empty_edge_def line_1_def
  have 1: "fst (Authenticate id 10 minute plain_1 cached_plane) = Inr (identity_of c)"
    by (simp add: auth base c_def)
  have p1: "\<exists>r. rdb p1 = Some r \<and> (\<forall>n. r_fate r n = Answered) \<and>
       r_cache r ''0123456789ab'' = Some (c, 10 + minute)"
    "devices (tables (pg p1)) = [line_1]" "\<And>n. \<not> outage (pg p1) n"
    by (simp_all add: p1_def auth base c_def)
  have 2: "\<exists>x. fst (DisableDevice 11 7 1 (pg p1)) = Inr x"
    "map ed_status (devices (tables w2)) = [''DISABLED'']"
    using p1(2,3)
    by (simp_all add: w2_def DisableDevice_def edge_SetStatus_def stmt_def update_device_def
        device_trigger_def device_checks_def device_statuses_def check_statuses_def same_device_def
        line_1_def Let_def)
  from p1(1) obtain r where r: "rdb p1 = Some r" "\<And>n. r_fate r n = Answered"
    "r_cache r ''0123456789ab'' = Some (c, 10 + minute)" by blast
  have "fst (Authenticate id now minute plain_1 (p1\<lparr>pg := w2\<rparr>)) = Inr (identity_of c)"
    if "now < 10 + minute" for now
    using that by (simp add: auth r) (simp add: c_def auth base)
  with 1 2 show ?thesis
    by (intro exI [of _ "identity_of c"] exI [of _ p1]) (auto simp: p1_def w2_def prod_eq_iff)
qed

theorem disabled_device_authenticates_instance:
  "\<exists>ident p1 x w2. Authenticate id 10 minute plain_1 cached_plane = (Inr ident, p1) \<and>
     DisableDevice 11 7 1 (pg p1) = (Inr x, w2) \<and>
     fst (Authenticate id 20 minute plain_1 (p1\<lparr>pg := w2\<rparr>)) = Inr ident"
proof -
  obtain ident p1 x w2 where
      1: "Authenticate id 10 minute plain_1 cached_plane = (Inr ident, p1)"
        "DisableDevice 11 7 1 (pg p1) = (Inr x, w2)"
    and all: "\<forall>now. 11 \<le> now \<longrightarrow> now < 10 + minute \<longrightarrow>
        fst (Authenticate id now minute plain_1 (p1\<lparr>pg := w2\<rparr>)) = Inr ident"
    using disabled_device_authenticates by blast
  have "fst (Authenticate id 20 minute plain_1 (p1\<lparr>pg := w2\<rparr>)) = Inr ident"
    by (rule all [rule_format]) (simp_all add: duration_defs)
  with 1 show ?thesis by blast
qed

end
