(* ===== verification/RateLimit.thy ===== *)
theory RateLimit
  imports ApiKeys Complex_Main
begin

text \<open>
  The token buckets in Redis: the limit of the ingestion (\<open>internal/consumers/ratelimit.go\<close>, by key)
  and of the dashboard (\<open>internal/api/middleware/dashboard_ratelimit.go\<close>, by user), which run the same Lua
  script. The script is modelled over rational numbers where Lua rounds to doubles, and Redis's clock,
  by which a bucket expires, is the clock the caller passes, in milliseconds.
\<close>

section \<open>The script\<close>

record bucket =
  bk_tokens :: rat
  bk_ts :: int
  bk_expires :: int

record limits =
  lm_rps :: rat
  lm_burst :: int

definition NewRateLimiter :: "int \<Rightarrow> int \<Rightarrow> limits" where
  "NewRateLimiter rps burst =
     \<lparr>lm_rps = of_int (if rps \<le> 0 then 200 else rps), lm_burst = (if burst \<le> 0 then 1000 else burst)\<rparr>"

definition NewDashboardRateLimiter :: "rat \<Rightarrow> int \<Rightarrow> limits" where
  "NewDashboardRateLimiter rps burst =
     \<lparr>lm_rps = (if rps \<le> 0 then 15 / 60 else rps), lm_burst = (if burst \<le> 0 then 5 else burst)\<rparr>"

definition live_bucket :: "int \<Rightarrow> bucket option \<Rightarrow> bucket option" where
  "live_bucket now b = (case b of None \<Rightarrow> None | Some x \<Rightarrow> if now < bk_expires x then Some x else None)"

text \<open>\<open>tokenBucketScript\<close>, asked for one token: the reply and the bucket it writes.\<close>

definition token_bucket :: "limits \<Rightarrow> int \<Rightarrow> bucket option \<Rightarrow> (int \<times> int) \<times> bucket" where
  "token_bucket l now b =
     (let rate = lm_rps l; burst = of_int (lm_burst l);
          (tokens0, ts) = (case live_bucket now b of None \<Rightarrow> (burst, now) | Some x \<Rightarrow> (bk_tokens x, bk_ts x));
          delta = of_int (max 0 (now - ts)) / 1000;
          full = min burst (tokens0 + delta * rate);
          allowed = (full \<ge> 1);
          tokens = (if allowed then full - 1 else full);
          expires = now + \<lceil>burst / rate * 1000\<rceil> + 1000;
          retry = (if allowed then 0 else max 1 \<lceil>(1 - tokens) / rate\<rceil>)
      in ((if allowed then 1 else 0, retry), \<lparr>bk_tokens = tokens, bk_ts = now, bk_expires = expires\<rparr>))"

section \<open>The limiter\<close>

text \<open>What the Redis client makes of a reply.\<close>

datatype reply = RInt int | RText string | RNil | RList "reply list"

fun parseBucketReply :: "reply \<Rightarrow> (bool \<times> int) option" where
  "parseBucketReply (RList [RInt a, RInt r]) = Some (a = 1, max r 0)"
| "parseBucketReply _ = None"

type_synonym buckets = "string \<Rightarrow> bucket option"

text \<open>\<open>Allow\<close>: the first argument is what happens to the command, None for a nil client.\<close>

definition Allow :: "fate option \<Rightarrow> limits \<Rightarrow> int \<Rightarrow> string \<Rightarrow> buckets \<Rightarrow> (bool \<times> int) \<times> buckets" where
  "Allow fate l now key bs =
     (case fate of
        None \<Rightarrow> ((True, 0), bs)
      | Some Refused \<Rightarrow> ((True, 0), bs)
      | Some f \<Rightarrow>
          (case token_bucket l now (bs key) of ((a, r), b) \<Rightarrow>
             (if f = Reply_lost then (True, 0)
              else case parseBucketReply (RList [RInt a, RInt r]) of None \<Rightarrow> (True, 0) | Some x \<Rightarrow> x,
              bs(key := Some b))))"

text \<open>
  The limiter of the dashboard: a copy of the script and of the reading of its reply, under its own keys,
  by the subject of the token. \<open>DashboardRateLimit\<close> answers the seconds of a refusal (429), or lets pass.
\<close>

definition dashboard_token_bucket :: "limits \<Rightarrow> int \<Rightarrow> bucket option \<Rightarrow> (int \<times> int) \<times> bucket" where
  "dashboard_token_bucket = token_bucket"

definition parseDashboardBucketReply :: "reply \<Rightarrow> (bool \<times> int) option" where
  "parseDashboardBucketReply = parseBucketReply"

definition dashboard_Allow :: "fate option \<Rightarrow> limits \<Rightarrow> int \<Rightarrow> string \<Rightarrow> buckets \<Rightarrow> (bool \<times> int) \<times> buckets" where
  "dashboard_Allow fate l now key bs =
     (case fate of
        None \<Rightarrow> ((True, 0), bs)
      | Some Refused \<Rightarrow> ((True, 0), bs)
      | Some f \<Rightarrow>
          (case dashboard_token_bucket l now (bs key) of ((a, r), b) \<Rightarrow>
             (if f = Reply_lost then (True, 0)
              else case parseDashboardBucketReply (RList [RInt a, RInt r]) of None \<Rightarrow> (True, 0) | Some x \<Rightarrow> x,
              bs(key := Some b))))"

definition DashboardRateLimit :: "fate option \<Rightarrow> limits \<Rightarrow> int \<Rightarrow> string \<Rightarrow> buckets \<Rightarrow> int option \<times> buckets" where
  "DashboardRateLimit fate l now sub bs =
     (if sub = [] then (None, bs)
      else case dashboard_Allow fate l now sub bs of ((allowed, retryAfter), bs') \<Rightarrow>
             (if \<not> allowed then Some retryAfter else None, bs'))"

lemma dashboard_Allow_eq: "dashboard_Allow = Allow"
  unfolding dashboard_Allow_def Allow_def dashboard_token_bucket_def parseDashboardBucketReply_def by (rule refl)

section \<open>The level of a bucket\<close>

definition limits_ok :: "limits \<Rightarrow> bool" where
  "limits_ok l \<longleftrightarrow> 0 < lm_rps l \<and> 1 \<le> lm_burst l"

lemma NewRateLimiter_ok [simp]: "limits_ok (NewRateLimiter rps burst)"
  by (simp add: limits_ok_def NewRateLimiter_def)

lemma NewDashboardRateLimiter_ok [simp]: "limits_ok (NewDashboardRateLimiter rps burst)"
  by (simp add: limits_ok_def NewDashboardRateLimiter_def)

text \<open>A bucket as the script leaves it: it does not expire before it would be full again.\<close>

definition bucket_wf :: "limits \<Rightarrow> bucket \<Rightarrow> bool" where
  "bucket_wf l x \<longleftrightarrow> 0 \<le> bk_tokens x \<and> bk_tokens x \<le> of_int (lm_burst l) \<and>
     of_int (lm_burst l) / lm_rps l * 1000 \<le> of_int (bk_expires x - bk_ts x)"

definition buckets_wf :: "limits \<Rightarrow> buckets \<Rightarrow> bool" where
  "buckets_wf l bs \<longleftrightarrow> (\<forall>k x. bs k = Some x \<longrightarrow> bucket_wf l x)"

definition credit :: "limits \<Rightarrow> int \<Rightarrow> rat" where
  "credit l ms = of_int (max 0 ms) / 1000 * lm_rps l"

definition level :: "limits \<Rightarrow> int \<Rightarrow> bucket option \<Rightarrow> rat" where
  "level l now b =
     (case live_bucket now b of
        None \<Rightarrow> of_int (lm_burst l)
      | Some x \<Rightarrow> min (of_int (lm_burst l)) (bk_tokens x + credit l (now - bk_ts x)))"

lemma token_bucket_level:
  "token_bucket l now b =
     (let full = level l now b; allowed = (1 \<le> full); tokens = (if allowed then full - 1 else full)
      in ((if allowed then 1 else 0, if allowed then 0 else max 1 \<lceil>(1 - tokens) / lm_rps l\<rceil>),
          \<lparr>bk_tokens = tokens, bk_ts = now, bk_expires = now + \<lceil>of_int (lm_burst l) / lm_rps l * 1000\<rceil> + 1000\<rparr>))"
  by (simp add: token_bucket_def level_def credit_def Let_def split: option.split)

lemma credit_nonneg: "limits_ok l \<Longrightarrow> 0 \<le> credit l ms"
  by (simp add: credit_def limits_ok_def)

lemma credit_add: "limits_ok l \<Longrightarrow> 0 \<le> b \<Longrightarrow> credit l (a + b) \<le> credit l a + credit l b"
proof -
  assume "limits_ok l" "0 \<le> b"
  then have "max 0 (a + b) \<le> max 0 a + max 0 b" by simp
  then have "(of_int (max 0 (a + b)) :: rat) \<le> of_int (max 0 a) + of_int (max 0 b)" by (metis of_int_add of_int_le_iff)
  then have "(of_int (max 0 (a + b)) :: rat) * lm_rps l \<le> (of_int (max 0 a) + of_int (max 0 b)) * lm_rps l"
    using \<open>limits_ok l\<close> by (intro mult_right_mono) (simp_all add: limits_ok_def)
  then show ?thesis by (simp add: credit_def field_simps)
qed

lemma level_bounds:
  assumes "limits_ok l" and "\<forall>x. b = Some x \<longrightarrow> bucket_wf l x"
  shows "0 \<le> level l now b \<and> level l now b \<le> of_int (lm_burst l)"
  using assms credit_nonneg [OF assms(1)]
  by (auto simp: level_def live_bucket_def bucket_wf_def limits_ok_def split: option.split)

lemma level_grows:
  assumes ok: "limits_ok l" and wf: "\<forall>x. b = Some x \<longrightarrow> bucket_wf l x" and le: "t \<le> t'"
  shows "level l t' b \<le> level l t b + credit l (t' - t)"
proof (cases b)
  case None
  then show ?thesis using credit_nonneg [OF ok] by (simp add: level_def live_bucket_def)
next
  case (Some x)
  let ?B = "of_int (lm_burst l) :: rat"
  have x: "0 \<le> bk_tokens x" "?B / lm_rps l * 1000 \<le> of_int (bk_expires x - bk_ts x)"
    using wf Some by (simp_all add: bucket_wf_def)
  have step: "credit l (t' - bk_ts x) \<le> credit l (t - bk_ts x) + credit l (t' - t)"
    using credit_add [OF ok, of "t' - t" "t - bk_ts x"] le by simp
  consider "bk_expires x \<le> t" | "t < bk_expires x" "bk_expires x \<le> t'" | "t' < bk_expires x" by linarith
  then show ?thesis
  proof cases
    case 1
    with Some le show ?thesis using credit_nonneg [OF ok] by (simp add: level_def live_bucket_def)
  next
    case 2
    have "(of_int (bk_expires x - bk_ts x) :: rat) \<le> of_int (max 0 (t' - bk_ts x))" using 2 by (simp only: of_int_le_iff)
    with x(2) have "?B / lm_rps l * 1000 \<le> of_int (max 0 (t' - bk_ts x))" by linarith
    then have full: "?B \<le> credit l (t' - bk_ts x)"
      using ok by (simp add: credit_def limits_ok_def field_simps)
    with 2 Some x(1) step credit_nonneg [OF ok, of "t' - t"] show ?thesis by (simp add: level_def live_bucket_def min_def)
  next
    case 3
    with le Some step credit_nonneg [OF ok, of "t' - t"] show ?thesis by (simp add: level_def live_bucket_def min_def)
  qed
qed

text \<open>After a command the bucket has the level it had, less the token it gave.\<close>

lemma token_bucket_after:
  assumes ok: "limits_ok l" and wf: "\<forall>x. b = Some x \<longrightarrow> bucket_wf l x" and run: "token_bucket l now b = ((a, r), b')"
  shows "bucket_wf l b'" and "level l now (Some b') = level l now b - of_int a"
    and "a = (if 1 \<le> level l now b then 1 else 0)"
proof -
  note lv = level_bounds [OF ok wf, of now]
  have q: "of_int (lm_burst l) / lm_rps l * 1000 \<le> (of_int \<lceil>of_int (lm_burst l) / lm_rps l * 1000\<rceil> :: rat)" by simp
  have "(0::rat) \<le> of_int (lm_burst l) * 1000 / lm_rps l" using ok by (simp add: limits_ok_def)
  then have pos: "0 < \<lceil>of_int (lm_burst l) * 1000 / lm_rps l\<rceil> + 1000"
    using zero_le_ceiling [of "of_int (lm_burst l) * 1000 / lm_rps l"] by linarith
  have q2: "y \<le> of_int \<lceil>y\<rceil> + 1000" for y :: rat
    using le_of_int_ceiling [of y] by linarith
  show "bucket_wf l b'" "a = (if 1 \<le> level l now b then 1 else 0)"
    using run lv q2 by (auto simp: token_bucket_level bucket_wf_def Let_def)
  show "level l now (Some b') = level l now b - of_int a"
    using run lv pos by (auto simp: token_bucket_level level_def [of l now "Some b'"] live_bucket_def credit_def Let_def min_def)
qed

section \<open>Properties\<close>

text \<open>A sequence of requests, each with the time it comes, its key and what happens to its command:
  whether it is let through.\<close>

fun limiter_run :: "limits \<Rightarrow> (int \<times> string \<times> fate) list \<Rightarrow> buckets \<Rightarrow> bool list" where
  "limiter_run l [] bs = []"
| "limiter_run l ((now, key, f) # es) bs =
     (case Allow (Some f) l now key bs of ((ok, _), bs') \<Rightarrow> ok # limiter_run l es bs')"

definition counted :: "string \<Rightarrow> (int \<times> string \<times> fate) \<times> bool \<Rightarrow> bool" where
  "counted k p \<longleftrightarrow> (case p of ((_, key, f), ok) \<Rightarrow> key = k \<and> f = Answered \<and> ok)"

lemma Allow_step:
  assumes ok: "limits_ok l" and wf: "buckets_wf l bs" and run: "Allow (Some f) l now key bs = ((g, r), bs')"
  shows "buckets_wf l bs'"
    and "level l now (bs' k) \<le> level l now (bs k) - (if counted k ((now, key, f), g) then 1 else 0)"
proof -
  obtain a r' b where t: "token_bucket l now (bs key) = ((a, r'), b)" by (metis prod.collapse)
  have "\<forall>x. bs key = Some x \<longrightarrow> bucket_wf l x" using wf by (simp add: buckets_wf_def)
  note after = token_bucket_after [OF ok this t]
  show "buckets_wf l bs'"
    using run wf t after(1) by (cases f) (auto simp: Allow_def buckets_wf_def split: if_splits)
  show "level l now (bs' k) \<le> level l now (bs k) - (if counted k ((now, key, f), g) then 1 else 0)"
    using run t after(2,3) by (cases f) (auto simp: Allow_def counted_def split: if_splits)
qed

lemma limiter_run_level:
  assumes "limits_ok l" and "buckets_wf l bs" and "sorted (t # map fst es)" and "\<forall>e \<in> set es. fst e \<le> t'" and "t \<le> t'"
  shows "of_nat (length (filter (counted k) (zip es (limiter_run l es bs)))) \<le> level l t (bs k) + credit l (t' - t)"
  using assms
proof (induction es arbitrary: bs t)
  case Nil
  have "\<forall>x. bs k = Some x \<longrightarrow> bucket_wf l x" using Nil by (simp add: buckets_wf_def)
  from level_bounds [OF Nil(1) this] credit_nonneg [OF Nil(1)] show ?case by simp
next
  case (Cons e es)
  obtain now key f where e: "e = (now, key, f)" by (cases e)
  obtain g r bs' where a: "Allow (Some f) l now key bs = ((g, r), bs')" by (metis prod.collapse)
  note st = Allow_step [OF Cons.prems(1,2) a]
  have wf: "\<forall>x. bs k = Some x \<longrightarrow> bucket_wf l x" using Cons.prems(2) by (simp add: buckets_wf_def)
  have le: "t \<le> now" "now \<le> t'" using Cons.prems(3,4) e by simp_all
  have "of_nat (length (filter (counted k) (zip es (limiter_run l es bs')))) \<le> level l now (bs' k) + credit l (t' - now)"
    using Cons.prems(3,4) e by (intro Cons.IH [OF Cons.prems(1) st(1)]) simp_all
  moreover note st(2) [of k] level_grows [OF Cons.prems(1) wf le(1)]
  moreover have "credit l (now - t) + credit l (t' - now) = credit l (t' - t)"
    using le by (simp add: credit_def field_simps)
  ultimately show ?case using e a by (simp split: if_splits)
qed

text \<open>C30. The limit holds: of the requests of a key that come in an interval of time and whose command Redis
  answers, no more pass than the burst and what the rate gives in the interval, whatever requests of other
  keys, refused commands and lost replies come between them, and whatever buckets expire.\<close>

theorem rate_limit_bounded:
  assumes "limits_ok l" and "buckets_wf l bs" and "sorted (map fst es)" and "\<forall>e \<in> set es. t \<le> fst e \<and> fst e \<le> t'"
    and "t \<le> t'"
  shows "of_nat (length (filter (counted k) (zip es (limiter_run l es bs)))) \<le>
    of_int (lm_burst l) + of_int (t' - t) / 1000 * lm_rps l"
proof -
  have "\<forall>x. bs k = Some x \<longrightarrow> bucket_wf l x" using assms(2) by (simp add: buckets_wf_def)
  from level_bounds [OF assms(1) this, of t] have "level l t (bs k) \<le> of_int (lm_burst l)" by simp
  moreover have "of_nat (length (filter (counted k) (zip es (limiter_run l es bs)))) \<le> level l t (bs k) + credit l (t' - t)"
    using assms by (intro limiter_run_level) auto
  ultimately show ?thesis using assms(5) by (simp add: credit_def)
qed

text \<open>The Retry-After is enough: a caller who was refused and waits the seconds he was told, without other
  requests under his key, passes.\<close>

theorem retry_after_suffices:
  assumes "limits_ok l" and "buckets_wf l bs" and "Allow (Some Answered) l now key bs = ((False, r), bs')"
    and "now + 1000 * r \<le> now'"
  shows "1 \<le> r \<and> fst (fst (Allow f l now' key bs'))"
proof -
  obtain a r' b where t: "token_bucket l now (bs key) = ((a, r'), b)" by (metis prod.collapse)
  have wf: "\<forall>x. bs key = Some x \<longrightarrow> bucket_wf l x" using assms(2) by (simp add: buckets_wf_def)
  note after = token_bucket_after [OF assms(1) wf t]
  have low: "level l now (bs key) < 1" and bs': "bs' = bs(key := Some b)" and r: "r = max 0 r'"
    using assms(3) t after(3) by (auto simp: Allow_def split: if_splits)
  have b: "bk_tokens b = level l now (bs key)" "bk_ts b = now" "r' = max 1 \<lceil>(1 - bk_tokens b) / lm_rps l\<rceil>"
    using t low by (auto simp: token_bucket_level Let_def)
  have r1: "1 \<le> r" "r = r'" using r b(3) by simp_all
  have "(1 - bk_tokens b) / lm_rps l \<le> of_int \<lceil>(1 - bk_tokens b) / lm_rps l\<rceil>" by simp
  also have "\<dots> \<le> of_int r" unfolding of_int_le_iff using r1 b(3) by simp
  finally have "(1 - bk_tokens b) / lm_rps l \<le> of_int r" .
  then have "1 - bk_tokens b \<le> of_int r * lm_rps l"
    using assms(1) by (simp add: limits_ok_def pos_divide_le_eq)
  moreover have "of_int (1000 * r) \<le> (of_int (max 0 (now' - now)) :: rat)"
    unfolding of_int_le_iff using assms(4) by linarith
  then have "of_int r * lm_rps l \<le> credit l (now' - now)"
    using assms(1) by (simp add: credit_def limits_ok_def field_simps)
  ultimately have "1 \<le> bk_tokens b + credit l (now' - now)" by simp
  moreover have "(1::rat) \<le> of_int (lm_burst l)" using assms(1) by (simp add: limits_ok_def)
  ultimately have "1 \<le> level l now' (Some b)" using b(2) by (simp add: level_def live_bucket_def)
  moreover obtain a2 r2 b2 where t2: "token_bucket l now' (Some b) = ((a2, r2), b2)" by (metis prod.collapse)
  moreover have "\<forall>x. Some b = Some x \<longrightarrow> bucket_wf l x" using after(1) by simp
  note token_bucket_after(3) [OF assms(1) this t2]
  ultimately show ?thesis using r1(1) bs' by (auto simp: Allow_def split: option.split fate.split)
qed

section \<open>Instances\<close>

definition slow_limits :: limits where "slow_limits = NewRateLimiter 1 2"

definition burst_of_3 :: "(int \<times> string \<times> fate) list" where
  "burst_of_3 = [(0, ''k'', Answered), (0, ''k'', Answered), (0, ''k'', Answered)]"

theorem rate_limit_bounded_instance:
  "length (filter (counted ''k'') (zip burst_of_3 (limiter_run slow_limits burst_of_3 (\<lambda>_. None)))) \<le> 3"
proof -
  have "(of_nat (length (filter (counted ''k'') (zip burst_of_3 (limiter_run slow_limits burst_of_3 (\<lambda>_. None))))) :: rat) \<le>
      of_int (lm_burst slow_limits) + of_int (1000 - 0) / 1000 * lm_rps slow_limits"
    by (rule rate_limit_bounded) (simp_all add: slow_limits_def buckets_wf_def burst_of_3_def)
  then show ?thesis by (simp add: slow_limits_def NewRateLimiter_def)
qed

theorem retry_after_suffices_instance:
  "\<exists>r bs'. Allow (Some Answered) slow_limits 5 ''k'' [''k'' \<mapsto> \<lparr>bk_tokens = 0, bk_ts = 5, bk_expires = 9000\<rparr>] = ((False, r), bs') \<and>
     fst (fst (Allow (Some Answered) slow_limits (5 + 1000 * r) ''k'' bs'))"
proof -
  let ?bs = "[''k'' \<mapsto> \<lparr>bk_tokens = 0, bk_ts = 5, bk_expires = 9000\<rparr>] :: buckets"
  have ok: "limits_ok slow_limits" by (simp add: slow_limits_def)
  have wf: "buckets_wf slow_limits ?bs" by (simp add: slow_limits_def NewRateLimiter_def buckets_wf_def bucket_wf_def)
  have "\<not> fst (fst (Allow (Some Answered) slow_limits 5 ''k'' ?bs))"
    by (simp add: Allow_def token_bucket_def slow_limits_def NewRateLimiter_def live_bucket_def Let_def)
  then obtain r bs' where a: "Allow (Some Answered) slow_limits 5 ''k'' ?bs = ((False, r), bs')" by (metis prod.collapse)
  from retry_after_suffices [OF ok wf a order_refl] a show ?thesis by blast
qed

end
