(* ===== verification/Consumers.thy ===== *)
theory Consumers
  imports MeasurementStore RateLimit
begin

text \<open>
  The endpoint the devices post their events to (\<open>internal/consumers\<close>): the middlewares in the order
  of \<open>internal/routes/url_mappings.go\<close> and the handler. A middleware is a function on handlers. The
  decoding of the JSON text is a parameter, as are the text of a UUID and its parser; the metrics, the log
  lines and the Idempotency-Key, which only goes into a log line, are not modelled.
\<close>

section \<open>State\<close>

text \<open>Postgres and the key cache, the buckets of the limiter, and the measurement store.\<close>

record 's cloud =
  cl_plane :: plane
  cl_buckets :: buckets
  cl_store :: 's

datatype 'e infra = StoreFailed 'e | DeviceFailed edge_err | NotAnID

definition on_store :: "('s, 'e, 'a) oper \<Rightarrow> ('s cloud, 'e infra, 'a) oper" where
  "on_store m c =
     (case m (cl_store c) of
        (Inl e, s) \<Rightarrow> (Inl (StoreFailed e), c\<lparr>cl_store := s\<rparr>)
      | (Inr x, s) \<Rightarrow> (Inr x, c\<lparr>cl_store := s\<rparr>))"

text \<open>\<open>ingestDeviceActivity.TouchLastSeen\<close>.\<close>

definition touch_device ::
  "(string \<Rightarrow> uuid option) \<Rightarrow> time \<Rightarrow> string \<Rightarrow> string \<Rightarrow> ('s cloud, 'e infra, unit) oper" where
  "touch_device parse now tenantID deviceID c =
     (case parse tenantID of
        None \<Rightarrow> (Inl NotAnID, c)
      | Some tid \<Rightarrow>
     (case parse deviceID of
        None \<Rightarrow> (Inl NotAnID, c)
      | Some did \<Rightarrow>
     (case edge_TouchLastSeen now tid did (pg (cl_plane c)) of
        (Inl e, w) \<Rightarrow> (Inl (DeviceFailed e), c\<lparr>cl_plane := (cl_plane c)\<lparr>pg := w\<rparr>\<rparr>)
      | (Inr x, w) \<Rightarrow> (Inr x, c\<lparr>cl_plane := (cl_plane c)\<lparr>pg := w\<rparr>\<rparr>))))"

section \<open>Requests and answers\<close>

datatype body = Unreadable | Body string

record request =
  rq_method :: string
  rq_api_key :: string
  rq_body :: body
  rq_identity :: "device_identity option"

datatype payload = NoPayload | Message string | Data batch_result

record response =
  rs_status :: nat
  rs_headers :: "(string \<times> string) list"
  rs_payload :: payload

type_synonym 's handler = "request \<Rightarrow> (string \<times> string) list \<Rightarrow> 's cloud \<Rightarrow> response \<times> 's cloud"

definition answer_with :: "nat \<Rightarrow> payload \<Rightarrow> (string \<times> string) list \<Rightarrow> 's cloud \<Rightarrow> response \<times> 's cloud" where
  "answer_with status x h c = (\<lparr>rs_status = status, rs_headers = h, rs_payload = x\<rparr>, c)"

record ('s, 'e) ingest_env =
  en_sha :: "string \<Rightarrow> string"
  en_ttl :: time
  en_json :: "string \<Rightarrow> json option"
  en_rfc3339 :: "string \<Rightarrow> time option"
  en_uuid_text :: "uuid \<Rightarrow> string"
  en_uuid_parse :: "string \<Rightarrow> uuid option"
  en_decimal :: "int \<Rightarrow> string"
  en_insert :: "measurement list \<Rightarrow> ('s, 'e, insert_report) oper"
  en_limits :: limits
  en_MaxBodyBytes :: int
  en_MaxEvents :: int

section \<open>Middlewares\<close>

definition CORS :: "'s handler \<Rightarrow> 's handler" where
  "CORS next req h c =
     (let h' = AList.update ''Access-Control-Allow-Headers'' ''Authorization,Content-Type,X-Tenant-ID,X-Request-ID,X-App-Base-URL''
                 (AList.update ''Access-Control-Allow-Methods'' ''GET,POST,PUT,PATCH,DELETE,OPTIONS''
                   (AList.update ''Access-Control-Allow-Origin'' ''*'' h))
      in if rq_method req = ''OPTIONS'' then answer_with 204 NoPayload h' c else next req h' c)"

definition RequestID :: "string \<Rightarrow> 's handler \<Rightarrow> 's handler" where
  "RequestID i next req h c = next req (AList.update ''X-Request-Id'' i h) c"

definition corsResponseHeaders :: "string list" where
  "corsResponseHeaders =
     [''Access-Control-Allow-Origin'', ''Access-Control-Allow-Methods'', ''Access-Control-Allow-Headers'']"

definition NoCORS :: "'s handler \<Rightarrow> 's handler" where
  "NoCORS next req h c =
     (let h' = filter (\<lambda>(k, _). k \<notin> set corsResponseHeaders) h
      in if rq_method req = ''OPTIONS'' then answer_with 405 NoPayload h' c else next req h' c)"

definition APIKeyAuth :: "('s, 'e) ingest_env \<Rightarrow> time \<Rightarrow> 's handler \<Rightarrow> 's handler" where
  "APIKeyAuth env now next req h c =
     (if rq_api_key req = [] then answer_with 403 (Message ''falta el header X-Api-Key'') h c
      else case Authenticate (en_sha env) now (en_ttl env) (rq_api_key req) (cl_plane c) of
        (Inl ErrAPIKeyInvalid, p) \<Rightarrow> answer_with 403 (Message ''API key invalida'') h (c\<lparr>cl_plane := p\<rparr>)
      | (Inl (AuthInfra _), p) \<Rightarrow> answer_with 500 (Message ''error de autenticacion'') h (c\<lparr>cl_plane := p\<rparr>)
      | (Inr identity, p) \<Rightarrow> next (req\<lparr>rq_identity := Some identity\<rparr>) h (c\<lparr>cl_plane := p\<rparr>))"

text \<open>What happens to the next command of the Redis client, and the client after it.\<close>

definition next_fate :: "plane \<Rightarrow> fate option" where
  "next_fate p = map_option (\<lambda>r. r_fate r (r_cmds r)) (rdb p)"

definition count_command :: "plane \<Rightarrow> plane" where
  "count_command p = p\<lparr>rdb := map_option (\<lambda>r. r\<lparr>r_cmds := Suc (r_cmds r)\<rparr>) (rdb p)\<rparr>"

definition RateLimit :: "('s, 'e) ingest_env \<Rightarrow> time \<Rightarrow> 's handler \<Rightarrow> 's handler" where
  "RateLimit env now next req h c =
     (case rq_identity req of
        None \<Rightarrow> next req h c
      | Some identity \<Rightarrow>
          (case Allow (next_fate (cl_plane c)) (en_limits env) (now div millisecond) (di_key_id identity) (cl_buckets c) of
             ((allowed, retryAfter), bs) \<Rightarrow>
               let c' = c\<lparr>cl_plane := count_command (cl_plane c), cl_buckets := bs\<rparr>
               in if \<not> allowed
                  then answer_with 429 (Message ''rate limit excedido'')
                         (AList.update ''Retry-After'' (en_decimal env retryAfter) h) c'
                  else next req h c'))"

section \<open>The handler\<close>

text \<open>\<open>io.ReadAll\<close> behind \<open>http.MaxBytesReader\<close>.\<close>

definition read_body :: "int \<Rightarrow> body \<Rightarrow> string + string" where
  "read_body limit b =
     (case b of
        Unreadable \<Rightarrow> Inl ''no se pudo leer el body''
      | Body s \<Rightarrow> if int (length s) > max 0 limit then Inl ''body demasiado grande'' else Inr s)"

text \<open>\<open>json.Unmarshal\<close> into \<open>BatchEventsRequest\<close>: None for a value of a wrong type. A member of a wrong type
  does not stop the decoding of the others; the last one of a name decides; null is the nil slice.\<close>

fun decode_events :: "(string \<times> json) list \<Rightarrow> json list \<Rightarrow> json list option" where
  "decode_events [] evs = Some evs"
| "decode_events ((k, v) # kvs) evs =
     (if fold_name k = ''EVENTS''
      then case v of JNull \<Rightarrow> decode_events kvs [] | JArr xs \<Rightarrow> decode_events kvs xs | _ \<Rightarrow> None
      else decode_events kvs evs)"

fun batch_request :: "json \<Rightarrow> json list option" where
  "batch_request (JObj kvs) = decode_events kvs []"
| "batch_request JNull = Some []"
| "batch_request _ = None"

text \<open>The checks on the envelope: the events of the batch, or the text of the answer.\<close>

definition envelope :: "('s, 'e) ingest_env \<Rightarrow> body \<Rightarrow> string + json list" where
  "envelope env b =
     (case read_body (en_MaxBodyBytes env) b of
        Inl msg \<Rightarrow> Inl msg
      | Inr text \<Rightarrow>
     (case Option.bind (en_json env text) batch_request of
        None \<Rightarrow> Inl ''JSON malformado''
      | Some events \<Rightarrow>
     if events = [] then Inl ''events es obligatorio y no puede estar vacio''
     else if int (length events) > en_MaxEvents env then Inl ''events excede el maximo de elementos''
     else Inr events))"

definition ToDeviceContext :: "(uuid \<Rightarrow> string) \<Rightarrow> device_identity \<Rightarrow> device_context" where
  "ToDeviceContext txt d =
     \<lparr>dc_tenant_id = txt (di_tenant_id d), dc_device_id = txt (di_device_id d), dc_machine_id = di_machine_id d\<rparr>"

definition ingest :: "('s, 'e) ingest_env \<Rightarrow> time \<Rightarrow> device_identity \<Rightarrow> json list \<Rightarrow> ('s cloud, 'e infra, batch_result) oper" where
  "ingest env now identity events =
     IngestBatch (en_rfc3339 env) (\<lambda>docs. on_store (en_insert env docs)) (Some (touch_device (en_uuid_parse env) now)) now
       (ToDeviceContext (en_uuid_text env) identity) events"

definition IngestEvents :: "('s, 'e) ingest_env \<Rightarrow> time \<Rightarrow> 's handler" where
  "IngestEvents env now req h c =
     (case rq_identity req of
        None \<Rightarrow> answer_with 500 (Message ''error interno'') h c
      | Some identity \<Rightarrow>
     (case envelope env (rq_body req) of
        Inl msg \<Rightarrow> answer_with 400 (Message msg) h c
      | Inr events \<Rightarrow>
     (case ingest env now identity events c of
        (Inl _, c') \<Rightarrow> answer_with 500 (Message ''no se pudo persistir el batch'') h c'
      | (Inr res, c') \<Rightarrow> answer_with 200 (Data res) h c')))"

definition Heartbeat :: "'s handler" where
  "Heartbeat req h c = answer_with 501 (Message ''not implemented'') h c"

text \<open>The chain of \<open>POST /api/v1/consumers/events\<close>.\<close>

definition consumer_events :: "('s, 'e) ingest_env \<Rightarrow> time \<Rightarrow> string \<Rightarrow> 's handler" where
  "consumer_events env now reqID =
     CORS (RequestID reqID (NoCORS (APIKeyAuth env now (RateLimit env now (IngestEvents env now)))))"

section \<open>Lemmas\<close>

lemma on_store_measurement_store:
  assumes "measurement_store insert_op stored known"
  shows "measurement_store (\<lambda>docs. on_store (insert_op docs)) (\<lambda>c. stored (cl_store c)) (\<lambda>c. known (cl_store c))"
proof (rule measurement_store.intro)
  show "stored (cl_store c') (docs ! j)"
    if "on_store (insert_op docs) c = (Inr rep, c')" "j < length docs" "report_outcome rep j = None" for docs c rep c' j
    using that by (auto simp: on_store_def split: prod.splits sum.splits
        dest: measurement_store.unreported_stored [OF assms])
  show "known (cl_store c') (ms_tenant_id (docs ! j)) (ms_event_id (docs ! j))"
    if "on_store (insert_op docs) c = (Inr rep, c')" "j < length docs" "j \<in> set (Duplicated rep)" for docs c rep c' j
    using that by (auto simp: on_store_def split: prod.splits sum.splits
        dest: measurement_store.duplicated_known [OF assms])
  show "known (cl_store c) (ms_tenant_id m) (ms_event_id m)" if "stored (cl_store c) m" for c :: "'a cloud" and m
    using that by (rule measurement_store.stored_known [OF assms])
  show "stored (cl_store (snd (on_store (insert_op docs) c))) m" if "stored (cl_store c) m" for c m docs
    using measurement_store.nothing_lost [OF assms that, of docs]
    by (auto simp: on_store_def split: prod.split sum.split)
qed

lemma touch_device_store [simp]: "cl_store (snd (touch_device parse now t d c)) = cl_store c"
  by (simp add: touch_device_def split: option.split prod.split sum.split)

text \<open>The batch as it is run and without the mark on the device: the same answer and store.\<close>

lemma ingest_untouched:
  assumes "ingest env now identity events c = (r, c')"
  obtains c1 where "IngestBatch (en_rfc3339 env) (\<lambda>docs. on_store (en_insert env docs)) None now
      (ToDeviceContext (en_uuid_text env) identity) events c = (r, c1)" and "cl_store c' = cl_store c1"
  using assms
  by (auto simp: ingest_def IngestBatch_verdicts Let_def recordActivity_def split: if_splits prod.splits sum.splits)

lemma consumer_events_cases:
  assumes "consumer_events env now reqID req h c = (resp, c')"
  obtains (early) "rs_status resp \<in> {204, 403, 429, 500}" and "cl_store c' = cl_store c"
      and "\<And>res. rs_payload resp \<noteq> Data res"
    | (broken) msg where "rs_status resp = 400" and "cl_store c' = cl_store c" and "envelope env (rq_body req) = Inl msg"
      and "rs_payload resp = Message msg"
    | (batch) identity p events c1 r where "rq_api_key req \<noteq> []"
      and "Authenticate (en_sha env) now (en_ttl env) (rq_api_key req) (cl_plane c) = (Inr identity, p)"
      and "envelope env (rq_body req) = Inr events" and "cl_store c1 = cl_store c"
      and "ingest env now identity events c1 = (r, c')"
      and "(\<exists>e. r = Inl e \<and> rs_status resp = 500 \<and> rs_payload resp = Message ''no se pudo persistir el batch'') \<or>
           (\<exists>res. r = Inr res \<and> rs_status resp = 200 \<and> rs_payload resp = Data res)"
proof -
  note defs = consumer_events_def CORS_def RequestID_def NoCORS_def answer_with_def Let_def
  show thesis
  proof (cases "rq_method req = ''OPTIONS'' \<or> rq_api_key req = []")
    case True
    then show thesis
    proof (cases "rq_method req = ''OPTIONS''")
      case True
      with assms show thesis by (intro early) (auto simp: defs)
    next
      case False
      with \<open>rq_method req = ''OPTIONS'' \<or> rq_api_key req = []\<close> assms show thesis
        by (intro early) (auto simp: defs APIKeyAuth_def)
    qed
  next
    case False
    obtain a p where a: "Authenticate (en_sha env) now (en_ttl env) (rq_api_key req) (cl_plane c) = (a, p)" by fastforce
    show thesis
    proof (cases a)
      case (Inl e)
      with assms a False show thesis by (intro early) (auto simp: defs APIKeyAuth_def split: auth_error.splits)
    next
      case (Inr identity)
      obtain ok retry bs where l: "Allow (next_fate p) (en_limits env) (now div millisecond) (di_key_id identity) (cl_buckets c) =
          ((ok, retry), bs)" by (metis prod.collapse)
      let ?c1 = "c\<lparr>cl_plane := count_command p, cl_buckets := bs\<rparr>"
      show thesis
      proof (cases ok)
        case False
        with \<open>\<not> (rq_method req = ''OPTIONS'' \<or> rq_api_key req = [])\<close> assms a Inr l show thesis
          by (intro early) (auto simp: defs APIKeyAuth_def RateLimit_def)
      next
        case True
        show thesis
        proof (cases "envelope env (rq_body req)")
          case (Inl msg)
          with False True assms a Inr l show thesis
            by (intro broken) (auto simp: defs APIKeyAuth_def RateLimit_def IngestEvents_def)
        next
          case (Inr events)
          obtain r c2 where g: "ingest env now identity events ?c1 = (r, c2)" by fastforce
          show thesis
            by (rule batch [of identity p events ?c1 r])
              (use False True assms a \<open>a = Inr identity\<close> l Inr g in
                \<open>auto simp: defs APIKeyAuth_def RateLimit_def IngestEvents_def split: sum.splits\<close>)
        qed
      qed
    qed
  qed
qed

lemma keys_of_update: "fst ` set (AList.update k v al) = insert k (fst ` set al)"
  by (induction al) auto

section \<open>Properties\<close>


text \<open>C29. The device gives a whole batch up when it is answered 400. It is answered so only for an envelope that
  cannot be read, and then nothing was stored; an envelope that can be read is answered 400 under no failure
  of Postgres, Redis or MongoDB, and a failed insertion is 500, to be sent again.\<close>

theorem consumer_gives_up_only_envelopes:
  assumes "consumer_events env now reqID req h c = (resp, c')"
  shows "(rs_status resp = 400 \<longrightarrow> isl (envelope env (rq_body req)) \<and> cl_store c' = cl_store c) \<and>
    (cl_store c' \<noteq> cl_store c \<longrightarrow> rs_status resp \<in> {200, 500} \<and>
       (\<exists>identity p. Authenticate (en_sha env) now (en_ttl env) (rq_api_key req) (cl_plane c) = (Inr identity, p)))"
  using assms by (cases rule: consumer_events_cases) auto

text \<open>No answer to a request other than a preflight opens the endpoint to a browser.\<close>

lemma consumer_no_browser:
  assumes "rq_method req \<noteq> ''OPTIONS''"
  shows "set (map fst (rs_headers (fst (consumer_events env now reqID req h c)))) \<inter> set corsResponseHeaders = {}"
proof -
  have clean: "k \<notin> set corsResponseHeaders"
    if "k \<in> fst ` set (filter (\<lambda>(k, _). k \<notin> set corsResponseHeaders) h)" for k h using that by auto
  have retry: "''Retry-After'' \<notin> set corsResponseHeaders" by (simp add: corsResponseHeaders_def)
  have "fst ` set (rs_headers (fst (APIKeyAuth env now (RateLimit env now (IngestEvents env now)) req h' c))) \<subseteq>
      insert ''Retry-After'' (fst ` set h')" for h'
    by (auto simp: APIKeyAuth_def RateLimit_def IngestEvents_def answer_with_def Let_def keys_of_update
        split: option.split sum.split prod.split auth_error.split)
  with assms clean retry show ?thesis
    by (fastforce simp: consumer_events_def CORS_def RequestID_def NoCORS_def Let_def)
qed

section \<open>Instances\<close>

text \<open>A device posts the three events of \<open>three_events\<close> under the key \<open>plain_1\<close>.\<close>

definition pi_env :: "((string \<times> string) list, unit) ingest_env" where
  "pi_env = \<lparr>en_sha = id, en_ttl = minute, en_json = (\<lambda>_. Some (JObj [(''events'', JArr three_events)])),
     en_rfc3339 = (\<lambda>_. Some 0), en_uuid_text = (\<lambda>u. if u = 7 then ''t'' else ''d''), en_uuid_parse = (\<lambda>_. None),
     en_decimal = (\<lambda>_. ''1''), en_insert = mongo_InsertMany event_key keyed_coll, en_limits = slow_limits,
     en_MaxBodyBytes = 100, en_MaxEvents = 10\<rparr>"

definition pi_cloud :: "(string \<times> string) list cloud" where
  "pi_cloud = \<lparr>cl_plane = \<lparr>pg = live (one_key\<lparr>devices := [line_1\<lparr>ed_machine_id := ''m''\<rparr>]\<rparr>), rdb = None\<rparr>,
     cl_buckets = (\<lambda>_. None), cl_store = []\<rparr>"

definition pi_request :: request where
  "pi_request = \<lparr>rq_method = ''POST'', rq_api_key = plain_1, rq_body = Body ''{}'', rq_identity = None\<rparr>"

definition pi_identity :: device_identity where
  "pi_identity = identity_of (credential_of key_1 (line_1\<lparr>ed_machine_id := ''m''\<rparr>))"

lemma pi_authenticates: "fst (Authenticate id 5 minute plain_1 (cl_plane pi_cloud)) = Inr pi_identity"
  by (simp add: Authenticate_def Parse_plain_1 lookup_def lookup_cached_def on_redis_def
      on_pg_def key_GetByKeyID_def query_def stmt_def lookup_fill_def credential_ok_iff credential_of_def
      Matches_def HashSecret_def Let_def pi_identity_def pi_cloud_def one_key_def one_device_def empty_edge_def
      key_1_def line_1_def)

lemma pi_envelope: "envelope pi_env (Body ''{}'') = Inr three_events"
proof -
  have "fold_name ''events'' = ''EVENTS''" by code_simp
  then show ?thesis
    by (simp add: envelope_def pi_env_def read_body_def del: fold_name.simps) (simp add: three_events_def)
qed

lemma pi_ingest:
  "ingest pi_env 5 pi_identity three_events c =
     (Inr \<lparr>Accepted = 1, Rejected = 2, Errors = three_errors\<rparr>, c\<lparr>cl_store := [(''t'', ''e1'')]\<rparr>)"
  if "cl_store c = []"
proof -
  have "ToDeviceContext (en_uuid_text pi_env) pi_identity = pi_context"
    by (simp add: ToDeviceContext_def pi_env_def pi_identity_def identity_of_def credential_of_def key_1_def pi_context_def)
  then show ?thesis using that
    by (simp add: ingest_def IngestBatch_verdicts)
      (simp add: pi_env_def three_events_def three_errors_def metric_event_valid
        bool_event_invalid mongo_InsertMany_def event_key_def keyed_coll_def Let_def empty_report_def on_store_def
        note_error_def duplicateKeyCode_def report_outcome_def recordActivity_def invalid_def touch_device_def)
qed

lemma pi_run:
  "\<exists>resp c'. consumer_events pi_env 5 ''id'' pi_request [] pi_cloud = (resp, c') \<and>
     rs_payload resp = Data \<lparr>Accepted = 1, Rejected = 2, Errors = three_errors\<rparr> \<and> cl_store c' = [(''t'', ''e1'')]"
proof -
  obtain p where a: "Authenticate id 5 minute plain_1 (cl_plane pi_cloud) = (Inr pi_identity, p)"
    using pi_authenticates by (metis prod.collapse)
  have env: "en_sha pi_env = id" "en_ttl pi_env = minute" by (simp_all add: pi_env_def)
  have "rdb p = None"
    using a by (auto simp: Authenticate_def Parse_plain_1 lookup_def lookup_cached_def on_redis_def lookup_fill_def touch_def
        on_pg_def pi_cloud_def Let_def split: if_splits sum.splits prod.splits option.splits)
  then have fate: "next_fate p = None" by (simp add: next_fate_def)
  have "plain_1 \<noteq> []" by (simp add: plain_1_def)
  then show ?thesis
    using a fate pi_envelope pi_ingest [of "pi_cloud\<lparr>cl_plane := count_command p, cl_buckets := cl_buckets pi_cloud\<rparr>"]
    by (simp add: consumer_events_def CORS_def RequestID_def NoCORS_def APIKeyAuth_def RateLimit_def IngestEvents_def
        answer_with_def Let_def env Allow_def pi_request_def)
      (simp add: pi_cloud_def answer_with_def corsResponseHeaders_def)
qed


theorem consumer_gives_up_only_envelopes_instance:
  "\<exists>p. Authenticate (en_sha pi_env) 5 (en_ttl pi_env) plain_1 (cl_plane pi_cloud) = (Inr pi_identity, p)"
proof -
  obtain resp c' where run: "consumer_events pi_env 5 ''id'' pi_request [] pi_cloud = (resp, c')"
    and "cl_store c' = [(''t'', ''e1'')]" using pi_run by blast
  then have "cl_store c' \<noteq> cl_store pi_cloud" by (simp add: pi_cloud_def)
  with consumer_gives_up_only_envelopes [OF run] pi_authenticates show ?thesis
    by (auto simp: pi_request_def pi_env_def)
qed

end
