(* ===== verification/IamDb.thy ===== *)
theory IamDb
  imports GoStd
begin

text \<open>
  The tables behind identity and access: tenants, roles, permissions, users, memberships
  (\<open>user_tenant_roles\<close>) and invitations, as the migrations 000001 to 000012 define them, with
  the constraints, the partial unique indexes and the trigger the code relies on. NULL is None; a
  NULL description reads as the empty string, as \<open>scanRole\<close> has it. Column lengths are not
  modelled: a statement that fails on one fails like one that meets an outage.
\<close>

section \<open>Rows\<close>

record theme =
  th_PrimaryColor :: string
  th_SecondaryColor :: string
  th_AccentColor :: string
  th_TextColor :: string
  th_BackgroundColor :: string
  th_LogoUrl :: string
  th_FaviconUrl :: string

record address =
  ad_Street :: string
  ad_City :: string
  ad_State :: string
  ad_PostalCode :: string
  ad_Country :: string

record tenant_settings =
  ts_ContactEmail :: string
  ts_CompanyWebsite :: string
  ts_Locale :: string
  ts_Timezone :: string
  ts_DateFormat :: string
  ts_TimeFormat :: string
  ts_Currency :: string

record tenant =
  tn_ID :: uuid
  tn_Name :: string
  tn_CompanyName :: string
  tn_Subdomain :: string
  tn_Description :: string
  tn_IsActive :: bool
  tn_Theme :: theme
  tn_Address :: address
  tn_Settings :: tenant_settings
  tn_CreatedAt :: time
  tn_UpdatedAt :: time

text \<open>A row of tenants: the domain type, and the column the domain type does not have.\<close>

record tenant_row =
  tr_tenant :: tenant
  tr_is_platform_tenant :: bool

abbreviation tr_id :: "tenant_row \<Rightarrow> uuid" where "tr_id t \<equiv> tn_ID (tr_tenant t)"

record role =
  ro_ID :: string
  ro_Name :: string
  ro_Description :: string
  ro_Permissions :: "string list"
  ro_IsSystemRole :: bool
  ro_IsGlobal :: bool
  ro_TenantID :: "uuid option"
  ro_CreatedAt :: time
  ro_UpdatedAt :: time
  ro_DeletedAt :: "time option"

record permission =
  pm_ID :: string
  pm_Name :: string
  pm_Section :: string
  pm_Description :: string
  pm_IsSystemPermission :: bool
  pm_TenantID :: "uuid option"
  pm_CreatedAt :: time
  pm_UpdatedAt :: time

record user_row =
  us_id :: uuid
  us_supabase_user_id :: "string option"
  us_email :: string
  us_name :: "string option"
  us_first_name :: "string option"
  us_last_name :: "string option"
  us_image :: "string option"
  us_tenant_id :: "uuid option"
  us_role :: string
  us_status :: string
  us_password_change_required :: bool
  us_auth_provider :: "string option"
  us_email_verified_at :: "time option"
  us_last_login_at :: "time option"
  us_created_at :: time
  us_updated_at :: time
  us_deleted_at :: "time option"

datatype user_role_status = UTRActive | UTRPending | UTRRevoked | UTRSuspended

record user_tenant_role =
  ut_ID :: uuid
  ut_UserID :: uuid
  ut_TenantID :: uuid
  ut_RoleID :: "string option"
  ut_Status :: user_role_status
  ut_AssignedBy :: "uuid option"
  ut_AssignedAt :: "time option"
  ut_CreatedAt :: time
  ut_UpdatedAt :: time

datatype invitation_status = InvPending | InvAccepted | InvRevoked | InvExpired

record invitation =
  iv_ID :: uuid
  iv_TenantID :: uuid
  iv_Email :: string
  iv_RoleID :: string
  iv_Status :: invitation_status
  iv_InvitedBy :: uuid
  iv_CreatedAt :: time
  iv_UpdatedAt :: time
  iv_ExpiresAt :: time

record iam_db =
  tenants :: "tenant_row list"
  roles :: "role list"
  permissions :: "permission list"
  users :: "user_row list"
  utrs :: "user_tenant_role list"
  invitations :: "invitation list"

section \<open>Errors\<close>

text \<open>
  The sentinel errors of \<open>internal/domain\<close> and \<open>internal/domain/users\<close>; the ids an error
  text carries are arguments. \<open>Internal\<close> is every error the code hands on unclassified.
\<close>

datatype iam_err =
    ErrForbidden
  | ErrNotFound
  | ErrRoleNotFound
  | ErrRoleIsSystemRole
  | ErrRoleHasAssignments
  | ErrRoleDuplicateName
  | ErrRoleLimitReached
  | ErrRoleUnknownPermissions "string list"
  | ErrRolePermissionNotHeld "string list"
  | ErrPermissionNotFound
  | ErrPermissionIsSystem
  | ValidationError string
  | ErrUserAlreadyHasActiveRole
  | ErrCannotChangeOwnRole
  | ErrAssignmentNotFound
  | ErrNoActiveAssignment
  | ErrInvalidRoleID
  | ErrInvalidUserID
  | ErrRoleNotAllowedForTenant
  | ForUser iam_err uuid
  | ErrUserNotFound
  | ErrEmailTaken
  | ErrCannotDeactivateSelf
  | ErrInvalidStatus
  | ErrInvitationAlreadyPending
  | ErrInvitationRateLimitExceeded
  | ErrInvitationNotPending
  | ErrTenantNotFound
  | Internal

type_synonym 'a iam_op = "(iam_db world, iam_err, 'a) oper"

text \<open>What Postgres answers to a statement that fails, as the code tells the cases apart.\<close>

datatype pg_err =
    NoRows
  | UniqueViolation string
  | ForeignKeyViolation string
  | CheckViolation
  | PgOther

section \<open>Functions and triggers of the database\<close>

definition is_platform :: "iam_db \<Rightarrow> uuid \<Rightarrow> bool" where
  "is_platform d t \<longleftrightarrow> (\<exists>x \<in> set (tenants d). tr_id x = t \<and> tr_is_platform_tenant x)"

definition role_is_global :: "iam_db \<Rightarrow> string option \<Rightarrow> bool" where
  "role_is_global d r \<longleftrightarrow> (\<exists>x \<in> set (roles d). Some (ro_ID x) = r \<and> ro_IsGlobal x)"

text \<open>\<open>tenant_can_use_role\<close>, in the form of migration 000010.\<close>

definition tenant_can_use_role :: "iam_db \<Rightarrow> uuid \<Rightarrow> string \<Rightarrow> bool" where
  "tenant_can_use_role d t r \<longleftrightarrow>
     (\<not> role_is_global d (Some r) \<and> r \<notin> {''admin'', ''operario''}) \<or> is_platform d t"

text \<open>The trigger \<open>trg_enforce_platform_role_tenant\<close>: None lets the row pass.\<close>

definition enforce_platform_role_tenant :: "iam_db \<Rightarrow> user_tenant_role \<Rightarrow> pg_err option" where
  "enforce_platform_role_tenant d u =
     (case ut_RoleID u of None \<Rightarrow> None
      | Some r \<Rightarrow> if tenant_can_use_role d (ut_TenantID u) r then None else Some CheckViolation)"

text \<open>
  The unique index \<open>idx_utr_active_unique\<close> over the active rows, and the foreign keys of a row.
\<close>

definition active_of :: "uuid \<Rightarrow> uuid \<Rightarrow> user_tenant_role \<Rightarrow> bool" where
  "active_of userID tenantID u \<longleftrightarrow>
     ut_UserID u = userID \<and> ut_TenantID u = tenantID \<and> ut_Status u = UTRActive"

definition utr_fkeys :: "iam_db \<Rightarrow> user_tenant_role \<Rightarrow> pg_err option" where
  "utr_fkeys d u =
     (if (case ut_AssignedBy u of None \<Rightarrow> False | Some a \<Rightarrow> a \<notin> us_id ` set (users d)) then
        Some (ForeignKeyViolation ''user_tenant_roles_assigned_by_fkey'')
      else if (case ut_RoleID u of None \<Rightarrow> False | Some r \<Rightarrow> r \<notin> ro_ID ` set (roles d)) then
        Some (ForeignKeyViolation ''user_tenant_roles_role_id_fkey'')
      else if ut_UserID u \<notin> us_id ` set (users d) then
        Some (ForeignKeyViolation ''user_tenant_roles_user_id_fkey'')
      else if ut_TenantID u \<notin> tr_id ` set (tenants d) then
        Some (ForeignKeyViolation ''user_tenant_roles_tenant_id_fkey'')
      else None)"

definition insert_utr :: "user_tenant_role \<Rightarrow> iam_db \<Rightarrow> (pg_err + user_tenant_role) \<times> iam_db" where
  "insert_utr u d =
     (case enforce_platform_role_tenant d u of Some e \<Rightarrow> (Inl e, d)
      | None \<Rightarrow>
        if ut_ID u \<in> ut_ID ` set (utrs d) then (Inl (UniqueViolation ''user_tenant_roles_pkey''), d)
        else if ut_Status u = UTRActive \<and> (\<exists>x \<in> set (utrs d). active_of (ut_UserID u) (ut_TenantID u) x)
        then (Inl (UniqueViolation ''idx_utr_active_unique''), d)
        else case utr_fkeys d u of Some e \<Rightarrow> (Inl e, d)
             | None \<Rightarrow> (Inr u, d\<lparr>utrs := utrs d @ [u]\<rparr>))"

text \<open>
  A predicate on rows over which the active rows are unique, used by the statements that update
  several memberships at once.
\<close>

definition active_unique :: "user_tenant_role list \<Rightarrow> bool" where
  "active_unique us \<longleftrightarrow>
     distinct (map (\<lambda>u. (ut_UserID u, ut_TenantID u)) (filter (\<lambda>u. ut_Status u = UTRActive) us))"

section \<open>Well-formed tables\<close>

definition platform_rule :: "iam_db \<Rightarrow> bool" where
  "platform_rule d \<longleftrightarrow>
     (\<forall>u \<in> set (utrs d). \<forall>r. ut_RoleID u = Some r \<longrightarrow> tenant_can_use_role d (ut_TenantID u) r)"

definition utr_refs :: "iam_db \<Rightarrow> bool" where
  "utr_refs d \<longleftrightarrow>
     (\<forall>u \<in> set (utrs d). ut_UserID u \<in> us_id ` set (users d) \<and> ut_TenantID u \<in> tr_id ` set (tenants d) \<and>
        (\<forall>r. ut_RoleID u = Some r \<longrightarrow> r \<in> ro_ID ` set (roles d)))"

definition roles_wf :: "iam_db \<Rightarrow> bool" where
  "roles_wf d \<longleftrightarrow> distinct (map ro_ID (roles d)) \<and>
     (\<forall>r \<in> set (roles d). ro_IsGlobal r \<longrightarrow> ro_IsSystemRole r)"

definition iam_wf :: "iam_db \<Rightarrow> bool" where
  "iam_wf d \<longleftrightarrow>
     distinct (map tr_id (tenants d)) \<and> distinct (map us_id (users d)) \<and>
     distinct (map ut_ID (utrs d)) \<and> active_unique (utrs d) \<and>
     roles_wf d \<and> platform_rule d \<and> utr_refs d"

lemmas iam_wf_defs = iam_wf_def platform_rule_def utr_refs_def roles_wf_def active_unique_def

lemma active_unique_append:
  "active_unique (us @ [u]) \<longleftrightarrow>
     active_unique us \<and> (ut_Status u = UTRActive \<longrightarrow> \<not> (\<exists>x \<in> set us. active_of (ut_UserID u) (ut_TenantID u) x))"
  by (auto simp: active_unique_def active_of_def image_iff) metis

lemma insert_utr_Inr:
  "insert_utr u d = (Inr x, d') \<Longrightarrow>
     x = u \<and> d' = d\<lparr>utrs := utrs d @ [u]\<rparr> \<and> enforce_platform_role_tenant d u = None \<and>
     ut_ID u \<notin> ut_ID ` set (utrs d) \<and> utr_fkeys d u = None \<and>
     \<not> (ut_Status u = UTRActive \<and> (\<exists>x \<in> set (utrs d). active_of (ut_UserID u) (ut_TenantID u) x))"
  unfolding insert_utr_def by (cases "enforce_platform_role_tenant d u"; cases "utr_fkeys d u") (auto split: if_splits)

lemma insert_utr_Inl: "insert_utr u d = (Inl e, d') \<Longrightarrow> d' = d"
  unfolding insert_utr_def by (auto split: option.splits if_splits)

lemma same_roles_tenants:
  "roles d' = roles d \<Longrightarrow> tenants d' = tenants d \<Longrightarrow>
     tenant_can_use_role d' t r = tenant_can_use_role d t r"
  by (simp add: tenant_can_use_role_def role_is_global_def is_platform_def)

lemma insert_utr_wf:
  assumes "iam_wf d" and "insert_utr u d = (Inr x, d')"
  shows "iam_wf d'"
proof -
  note i = insert_utr_Inr [OF assms(2)]
  have "tenant_can_use_role d (ut_TenantID u) r" if "ut_RoleID u = Some r" for r
    using i that by (auto simp: enforce_platform_role_tenant_def split: if_splits)
  moreover have "ut_UserID u \<in> us_id ` set (users d)" "ut_TenantID u \<in> tr_id ` set (tenants d)"
    "\<And>r. ut_RoleID u = Some r \<Longrightarrow> r \<in> ro_ID ` set (roles d)"
    using i by (auto simp: utr_fkeys_def split: if_splits)
  moreover have "active_unique (utrs d @ [u])"
    using assms(1) i by (auto simp: active_unique_append iam_wf_def)
  ultimately show ?thesis
    using assms(1) i
    by (auto simp: iam_wf_def platform_rule_def utr_refs_def roles_wf_def
        same_roles_tenants [of "d\<lparr>utrs := utrs d @ [u]\<rparr>" d])
qed

end
