(* ===== verification/Rbac.thy ===== *)
theory Rbac
  imports IamDb
begin

text \<open>
  Who may do what: \<open>internal/security/rbac.go\<close>, the tenant resolution of
  \<open>internal/api/middleware\<close> (by header and by path) with the cross-tenant fallback for platform
  operators. The authentication middleware, which needs the invitations, is in \<open>Invitations\<close>.
\<close>

section \<open>rbac.go\<close>

record role_context =
  rc_Name :: string
  rc_Permissions :: "string list"
  rc_IsGlobal :: bool

definition platformTenantAdminRole :: string where
  "platformTenantAdminRole = ''platform_admin''"

definition EffectiveRole :: "string \<Rightarrow> bool \<Rightarrow> string" where
  "EffectiveRole roleID isPlatformTenant =
     (if roleID = ''admin'' \<and> isPlatformTenant then platformTenantAdminRole else roleID)"

text \<open>The context of a request, as far as roles go: None before the tenant is resolved.\<close>

definition RoleContextFromContext :: "role_context option \<Rightarrow> role_context" where
  "RoleContextFromContext ctx =
     (case ctx of Some rc \<Rightarrow> rc | None \<Rightarrow> \<lparr>rc_Name = [], rc_Permissions = [], rc_IsGlobal = False\<rparr>)"

definition RoleFromContext :: "role_context option \<Rightarrow> string" where
  "RoleFromContext ctx = rc_Name (RoleContextFromContext ctx)"

definition CanSeePlatformInternals :: "role_context option \<Rightarrow> bool" where
  "CanSeePlatformInternals ctx \<longleftrightarrow> RoleFromContext ctx = ''super_admin''"

definition IsCrossTenantRole :: "role_context option \<Rightarrow> bool" where
  "IsCrossTenantRole ctx \<longleftrightarrow> rc_IsGlobal (RoleContextFromContext ctx)"

definition Can :: "role_context option \<Rightarrow> string \<Rightarrow> iam_err + unit" where
  "Can ctx perm =
     (let rc = RoleContextFromContext ctx
      in if rc_Name rc = [] then Inl ErrForbidden
         else if perm \<in> set (rc_Permissions rc) then Inr () else Inl ErrForbidden)"

section \<open>Resolution of the tenant\<close>

text \<open>What a middleware answers: an HTTP status with its error text, or it lets the request pass.\<close>

datatype 'a gate = Abort nat string | Pass 'a

text \<open>
  The membership query of \<open>TenantFromHeader\<close>. A membership whose role is NULL cannot be
  scanned into a string: the scan fails.
\<close>

definition membership_query :: "uuid \<Rightarrow> uuid \<Rightarrow> iam_db \<Rightarrow> pg_err + (string \<times> bool)" where
  "membership_query userID tenantID d =
     (case [(u, t). u \<leftarrow> utrs d, t \<leftarrow> tenants d, tr_id t = ut_TenantID u \<and> active_of userID tenantID u] of
        [] \<Rightarrow> Inl NoRows
      | (u, t) # _ \<Rightarrow> (case ut_RoleID u of None \<Rightarrow> Inl PgOther
                       | Some r \<Rightarrow> Inr (r, tr_is_platform_tenant t)))"

text \<open>
  Without an ORDER BY the database may return any of the matching rows; the model takes the first
  one in table order. The row decides the role of the request when a user holds two memberships of
  the platform tenant, which \<open>idx_utr_active_unique\<close> excludes while there is one such tenant.
\<close>

definition operator_query :: "uuid \<Rightarrow> iam_db \<Rightarrow> pg_err + (string \<times> bool)" where
  "operator_query userID d =
     first_row NoRows
       [(ro_ID r, ro_IsGlobal r). u \<leftarrow> utrs d, t \<leftarrow> tenants d, r \<leftarrow> roles d,
          tr_id t = ut_TenantID u \<and> tr_is_platform_tenant t \<and> Some (ro_ID r) = ut_RoleID u \<and>
          ro_DeletedAt r = None \<and> ut_UserID u = userID \<and> ut_Status u = UTRActive \<and>
          (ro_IsGlobal r \<or> ro_ID r = ''admin'')]"

datatype operator_err = OperatorQuery pg_err | TargetTenantNotFound

definition resolvePlatformOperator :: "uuid \<Rightarrow> uuid \<Rightarrow> (iam_db world, operator_err, string) oper" where
  "resolvePlatformOperator userID targetTenantID =
     op_bind (query (OperatorQuery PgOther) (\<lambda>d. case operator_query userID d of
                Inl e \<Rightarrow> Inl (OperatorQuery e) | Inr x \<Rightarrow> Inr x)) (\<lambda>(roleID, isGlobal).
     op_bind (query (OperatorQuery PgOther) (\<lambda>d. Inr (targetTenantID \<in> tr_id ` set (tenants d)))) (\<lambda>targetExists.
     if \<not> targetExists then op_fail TargetTenantNotFound
     else op_ret (EffectiveRole roleID True)))"

definition loadRolePermissions :: "string \<Rightarrow> (iam_db world, pg_err, string list \<times> bool) oper" where
  "loadRolePermissions roleID =
     query PgOther (\<lambda>d. first_row NoRows
       [(ro_Permissions r, ro_IsGlobal r). r \<leftarrow> roles d, ro_ID r = roleID \<and> ro_DeletedAt r = None])"

text \<open>
  \<open>TenantFromHeader\<close> for a path that is not exempt. \<open>header\<close> is the parsed X-Tenant-ID: None
  when it is missing, \<open>Some None\<close> when it is no UUID; \<open>user\<close> is the provisioned user.
\<close>

definition finish_context :: "uuid \<Rightarrow> string \<Rightarrow> iam_db world \<Rightarrow> (uuid \<times> role_context) gate \<times> iam_db world" where
  "finish_context tenantID roleID w =
     (case loadRolePermissions roleID w of
        (Inl _, w') \<Rightarrow> (Abort 500 ''internal error'', w')
      | (Inr (perms, isGlobal), w') \<Rightarrow>
          (Pass (tenantID, \<lparr>rc_Name = roleID, rc_Permissions = perms, rc_IsGlobal = isGlobal\<rparr>), w'))"

definition TenantFromHeader ::
  "uuid option option \<Rightarrow> uuid option \<Rightarrow> iam_db world \<Rightarrow> (uuid \<times> role_context) gate \<times> iam_db world"
where
  "TenantFromHeader header user w =
     (case header of
        None \<Rightarrow> (Abort 400 ''missing X-Tenant-ID header'', w)
      | Some None \<Rightarrow> (Abort 400 ''X-Tenant-ID must be a valid UUID'', w)
      | Some (Some tenantID) \<Rightarrow>
     (case user of
        None \<Rightarrow> (Abort 401 ''unauthenticated'', w)
      | Some userID \<Rightarrow>
     (case query PgOther (membership_query userID tenantID) w of
        (Inr (roleID, isPlatformTenant), w1) \<Rightarrow>
          finish_context tenantID (EffectiveRole roleID isPlatformTenant) w1
      | (Inl _, w1) \<Rightarrow>
          (case resolvePlatformOperator userID tenantID w1 of
             (Inl TargetTenantNotFound, w2) \<Rightarrow> (Abort 404 ''tenant not found'', w2)
           | (Inl _, w2) \<Rightarrow> (Abort 403 ''tenant access denied'', w2)
           | (Inr roleID, w2) \<Rightarrow> finish_context tenantID roleID w2))))"

text \<open>\<open>ResolveTenantAndCheckMembership\<close>: the tenant comes from the subdomain in the path.\<close>

definition ResolveTenantAndCheckMembership ::
  "string \<Rightarrow> uuid option \<Rightarrow> iam_db world \<Rightarrow> (uuid \<times> role_context) gate \<times> iam_db world"
where
  "ResolveTenantAndCheckMembership slug user w =
     (if slug = [] then (Abort 400 ''tenantId required'', w)
      else
     (case user of
        None \<Rightarrow> (Abort 401 ''unauthenticated'', w)
      | Some userID \<Rightarrow>
     (case query PgOther (\<lambda>d. first_row NoRows (filter (\<lambda>t. tn_Subdomain (tr_tenant t) = slug) (tenants d))) w of
        (Inl NoRows, w1) \<Rightarrow> (Abort 404 ''tenant not found'', w1)
      | (Inl _, w1) \<Rightarrow> (Abort 500 ''internal server error'', w1)
      | (Inr t, w1) \<Rightarrow>
     (case query PgOther (\<lambda>d. case first_row NoRows (filter (active_of userID (tr_id t)) (utrs d)) of
              Inl e \<Rightarrow> Inl e
            | Inr u \<Rightarrow> (case ut_RoleID u of None \<Rightarrow> Inl PgOther | Some r \<Rightarrow> Inr r)) w1 of
        (Inr roleID, w2) \<Rightarrow> finish_context (tr_id t) (EffectiveRole roleID (tr_is_platform_tenant t)) w2
      | (Inl NoRows, w2) \<Rightarrow>
          (case resolvePlatformOperator userID (tr_id t) w2 of
             (Inl TargetTenantNotFound, w3) \<Rightarrow> (Abort 404 ''tenant not found'', w3)
           | (Inl _, w3) \<Rightarrow> (Abort 403 ''tenant access denied'', w3)
           | (Inr roleID, w3) \<Rightarrow> finish_context (tr_id t) roleID w3)
      | (Inl _, w2) \<Rightarrow> (Abort 500 ''internal server error'', w2)))))"

text \<open>\<open>RBACCheck\<close> and \<open>PasswordChangeGuard\<close>.\<close>

definition RBACCheck :: "string \<Rightarrow> role_context option \<Rightarrow> unit gate" where
  "RBACCheck perm ctx = (case Can ctx perm of Inl _ \<Rightarrow> Abort 403 ''forbidden'' | Inr _ \<Rightarrow> Pass ())"

definition isExemptFromTenant :: "string \<Rightarrow> bool" where
  "isExemptFromTenant path \<longleftrightarrow> path \<in> set [''/api/v1/me'', ''/api/v1/auth/change-password'']"

definition isExemptFromPasswordGuard :: "string \<Rightarrow> bool" where
  "isExemptFromPasswordGuard path \<longleftrightarrow> path = ''/api/v1/me'' \<or> path = ''/api/v1/auth/change-password''"

definition PasswordChangeGuard :: "string \<Rightarrow> bool option \<Rightarrow> unit gate" where
  "PasswordChangeGuard path user_flag =
     (if isExemptFromPasswordGuard path then Pass ()
      else case user_flag of
             Some True \<Rightarrow> Abort 403 ''password_change_required''
           | _ \<Rightarrow> Pass ())"


section \<open>Lemmas\<close>

lemma query_cases:
  "query infra q w = (r, w') \<Longrightarrow>
     w' = w\<lparr>nstmts := Suc (nstmts w)\<rparr> \<and> (r = Inl infra \<or> r = q (tables w))"
  by (auto simp: query_def stmt_def split: if_splits sum.splits)

lemma query_sum_cases:
  assumes "query infra q w = (r, w')"
  obtains (ok) x where "r = Inr x" and "q (tables w) = Inr x" and "tables w' = tables w"
    | (err) e where "r = Inl e" and "tables w' = tables w"
  using query_cases [OF assms] by (cases r) auto

lemma finish_context_Pass:
  "finish_context t r w = (Pass (t', rc), w') \<Longrightarrow>
     t' = t \<and> rc_Name rc = r \<and> tables w' = tables w \<and>
     (\<exists>x \<in> set (roles (tables w)). ro_ID x = r \<and> ro_DeletedAt x = None \<and>
        rc_Permissions rc = ro_Permissions x \<and> rc_IsGlobal rc = ro_IsGlobal x)"
  by (auto simp: finish_context_def loadRolePermissions_def stmt_iffs dest!: first_row_mem
      split: prod.splits sum.splits if_splits)

lemma membership_query_Inr:
  assumes "membership_query u t d = Inr (r, p)"
  shows "\<exists>x \<in> set (utrs d). active_of u t x \<and> ut_RoleID x = Some r \<and>
    (\<exists>y \<in> set (tenants d). tr_id y = t \<and> tr_is_platform_tenant y = p)"
proof -
  let ?xs = "[(x, y). x \<leftarrow> utrs d, y \<leftarrow> tenants d, tr_id y = ut_TenantID x \<and> active_of u t x]"
  obtain x y ys where xs: "?xs = (x, y) # ys" and r: "ut_RoleID x = Some r" "tr_is_platform_tenant y = p"
    using assms by (auto simp: membership_query_def split: list.splits option.splits)
  have "(x, y) \<in> set ?xs" unfolding xs by simp
  then show ?thesis using r by (auto simp: active_of_def split: if_splits)
qed

lemma resolvePlatformOperator_Inr:
  assumes "resolvePlatformOperator u t w = (Inr r, w')"
  shows "tables w' = tables w \<and> t \<in> tr_id ` set (tenants (tables w)) \<and>
    (\<exists>x \<in> set (utrs (tables w)). \<exists>y \<in> set (tenants (tables w)). \<exists>z \<in> set (roles (tables w)).
       ut_UserID x = u \<and> ut_Status x = UTRActive \<and> ut_TenantID x = tr_id y \<and> tr_is_platform_tenant y \<and>
       ut_RoleID x = Some (ro_ID z) \<and> ro_DeletedAt z = None \<and> (ro_IsGlobal z \<or> ro_ID z = ''admin'') \<and>
       r = EffectiveRole (ro_ID z) True)"
proof -
  from assms obtain rid g where q: "operator_query u (tables w) = Inr (rid, g)"
    and r: "r = EffectiveRole rid True" and t: "t \<in> tr_id ` set (tenants (tables w))"
    and w': "tables w' = tables w"
    by (auto simp: resolvePlatformOperator_def op_iffs stmt_iffs split: sum.splits if_splits)
  from q have "(rid, g) \<in> set [(ro_ID r, ro_IsGlobal r). x \<leftarrow> utrs (tables w), y \<leftarrow> tenants (tables w),
      r \<leftarrow> roles (tables w),
          tr_id y = ut_TenantID x \<and> tr_is_platform_tenant y \<and> Some (ro_ID r) = ut_RoleID x \<and>
          ro_DeletedAt r = None \<and> ut_UserID x = u \<and> ut_Status x = UTRActive \<and>
          (ro_IsGlobal r \<or> ro_ID r = ''admin'')]"
    unfolding operator_query_def by (rule first_row_mem)
  then obtain x y z where "x \<in> set (utrs (tables w))" "y \<in> set (tenants (tables w))"
      "z \<in> set (roles (tables w))" "tr_id y = ut_TenantID x" "tr_is_platform_tenant y"
      "Some (ro_ID z) = ut_RoleID x" "ro_DeletedAt z = None" "ut_UserID x = u" "ut_Status x = UTRActive"
      "ro_IsGlobal z \<or> ro_ID z = ''admin''" "rid = ro_ID z"
    by (auto split: if_splits)
  with r t w' show ?thesis by metis
qed

lemma resolvePlatformOperator_tables:
  "resolvePlatformOperator u t w = (r, w') \<Longrightarrow> tables w' = tables w"
  unfolding resolvePlatformOperator_def
  by (erule op_bindE, auto simp: stmt_iffs) (erule op_bindE, auto simp: stmt_iffs split: if_splits)+

text \<open>The two ways to a role in a tenant.\<close>

definition member_role :: "iam_db \<Rightarrow> uuid \<Rightarrow> uuid \<Rightarrow> string \<Rightarrow> bool" where
  "member_role d userID tenantID name \<longleftrightarrow>
     (\<exists>x \<in> set (utrs d). \<exists>r. active_of userID tenantID x \<and> ut_RoleID x = Some r \<and>
        (\<exists>y \<in> set (tenants d). tr_id y = tenantID \<and> name = EffectiveRole r (tr_is_platform_tenant y)))"

definition operator_role :: "iam_db \<Rightarrow> uuid \<Rightarrow> string \<Rightarrow> bool" where
  "operator_role d userID name \<longleftrightarrow>
     (\<exists>x \<in> set (utrs d). \<exists>y \<in> set (tenants d). \<exists>z \<in> set (roles d).
        active_of userID (tr_id y) x \<and> tr_is_platform_tenant y \<and> ut_RoleID x = Some (ro_ID z) \<and>
        ro_DeletedAt z = None \<and> (ro_IsGlobal z \<or> ro_ID z = ''admin'') \<and> name = EffectiveRole (ro_ID z) True)"

definition context_of_role :: "iam_db \<Rightarrow> role_context \<Rightarrow> bool" where
  "context_of_role d rc \<longleftrightarrow>
     (\<exists>x \<in> set (roles d). ro_ID x = rc_Name rc \<and> ro_DeletedAt x = None \<and>
        rc_Permissions rc = ro_Permissions x \<and> rc_IsGlobal rc = ro_IsGlobal x)"

lemma TenantFromHeader_Pass:
  assumes "TenantFromHeader header user w = (Pass (t, rc), w')"
  obtains u where "header = Some (Some t)" and "user = Some u" and "tables w' = tables w"
    and "member_role (tables w) u t (rc_Name rc) \<or>
         operator_role (tables w) u (rc_Name rc) \<and> t \<in> tr_id ` set (tenants (tables w))"
    and "context_of_role (tables w) rc"
proof -
  obtain t0 u where h: "header = Some (Some t0)" "user = Some u"
    using assms by (auto simp: TenantFromHeader_def split: option.splits)
  obtain r1 w1 where q: "query PgOther (membership_query u t0) w = (r1, w1)" by fastforce
  then have w1: "tables w1 = tables w" by (rule query_dbD)
  show thesis
  proof (cases r1)
    case (Inr p)
    obtain rid pl where p: "p = (rid, pl)" by fastforce
    have f: "finish_context t0 (EffectiveRole rid pl) w1 = (Pass (t, rc), w')"
      using assms h q Inr p by (simp add: TenantFromHeader_def)
    have "membership_query u t0 (tables w) = Inr (rid, pl)"
      using q Inr p by (simp add: query_Inr)
    from membership_query_Inr [OF this] have "member_role (tables w) u t0 (EffectiveRole rid pl)"
      by (auto simp: member_role_def)
    with finish_context_Pass [OF f] h w1 show thesis
      by (intro that [of u]) (auto simp: context_of_role_def)
  next
    case (Inl e)
    obtain r2 w2 where op: "resolvePlatformOperator u t0 w1 = (r2, w2)" by fastforce
    with assms h q Inl obtain rid where r2: "r2 = Inr rid"
      and f: "finish_context t0 rid w2 = (Pass (t, rc), w')"
      by (auto simp: TenantFromHeader_def split: sum.splits operator_err.splits)
    from resolvePlatformOperator_Inr [OF op [unfolded r2]] w1
    have "operator_role (tables w) u rid" "t0 \<in> tr_id ` set (tenants (tables w))" "tables w2 = tables w"
      by (auto simp: operator_role_def active_of_def)
    with finish_context_Pass [OF f] h show thesis
      by (intro that [of u]) (auto simp: context_of_role_def)
  qed
qed

lemma global_member_platform:
  assumes wf: "iam_wf d" and m: "member_role d u t name \<or> operator_role d u name"
    and g: "z \<in> set (roles d)" "ro_ID z = name" "ro_IsGlobal z"
  shows "\<exists>x \<in> set (utrs d). ut_UserID x = u \<and> ut_Status x = UTRActive \<and> is_platform d (ut_TenantID x)"
  using m
proof
  assume "operator_role d u name"
  then obtain x y where "x \<in> set (utrs d)" "y \<in> set (tenants d)" "active_of u (tr_id y) x" "tr_is_platform_tenant y"
    unfolding operator_role_def by blast
  then show ?thesis by (intro bexI [of _ x]) (auto simp: active_of_def is_platform_def)
next
  assume "member_role d u t name"
  then obtain x r y where x: "x \<in> set (utrs d)" "active_of u t x" "ut_RoleID x = Some r"
    and y: "y \<in> set (tenants d)" "tr_id y = t" "name = EffectiveRole r (tr_is_platform_tenant y)"
    by (auto simp: member_role_def)
  have "is_platform d t"
  proof (cases "tr_is_platform_tenant y")
    case True
    with y show ?thesis by (auto simp: is_platform_def)
  next
    case False
    then have "name = r" using y by (simp add: EffectiveRole_def)
    with g have "role_is_global d (Some r)" by (auto simp: role_is_global_def)
    moreover have "tenant_can_use_role d (ut_TenantID x) r"
      using wf x by (auto simp: iam_wf_def platform_rule_def)
    ultimately show ?thesis using x(2) by (auto simp: tenant_can_use_role_def active_of_def)
  qed
  with x show ?thesis by (auto simp: active_of_def)
qed

lemma filter_unique_first:
  "distinct (map k xs) \<Longrightarrow> x \<in> set xs \<Longrightarrow> first_row e (filter (\<lambda>y. k y = k x) xs) = Inr x"
  by (induction xs) (auto simp: filter_empty_conv image_iff)

text \<open>While the database answers, an answer depends on the tables alone.\<close>

definition calm :: "'d world \<Rightarrow> bool" where
  "calm w \<longleftrightarrow> outage w = (\<lambda>_. False)"

lemma calm_simps [simp]: "calm (live d)" "calm w \<Longrightarrow> calm (w\<lparr>nstmts := n\<rparr>)"
  by (simp_all add: calm_def live_def)

lemma query_calm [simp]:
  "calm w \<Longrightarrow> query infra q w = (q (tables w), w\<lparr>nstmts := Suc (nstmts w)\<rparr>)"
  by (simp add: calm_def query_def stmt_def split: sum.splits)

lemma finish_context_calm:
  "calm w \<Longrightarrow> calm w' \<Longrightarrow> tables w = tables w' \<Longrightarrow>
     fst (finish_context t r w) = fst (finish_context t r w')"
  by (simp add: finish_context_def loadRolePermissions_def split: sum.splits prod.splits)

lemma resolvePlatformOperator_calm:
  assumes "calm w"
  shows "\<exists>n. resolvePlatformOperator u t w =
    (fst (resolvePlatformOperator u t (live (tables w))), w\<lparr>nstmts := n\<rparr>)"
  using assms by (auto simp: resolvePlatformOperator_def op_bind_def split: sum.splits prod.splits)

definition via_operator :: "uuid \<Rightarrow> uuid \<Rightarrow> iam_db \<Rightarrow> (uuid \<times> role_context) gate" where
  "via_operator u t d = (case fst (resolvePlatformOperator u t (live d)) of
       Inl TargetTenantNotFound \<Rightarrow> Abort 404 ''tenant not found''
     | Inl _ \<Rightarrow> Abort 403 ''tenant access denied''
     | Inr r \<Rightarrow> fst (finish_context t r (live d)))"

lemma via_operator_calm:
  assumes "calm w"
  shows "fst (case resolvePlatformOperator u t w of
       (Inl TargetTenantNotFound, w') \<Rightarrow> (Abort 404 ''tenant not found'', w')
     | (Inl (OperatorQuery e), w') \<Rightarrow> (Abort 403 ''tenant access denied'', w')
     | (Inr r, w') \<Rightarrow> finish_context t r w') = via_operator u t (tables w)"
proof -
  obtain n where "resolvePlatformOperator u t w =
      (fst (resolvePlatformOperator u t (live (tables w))), w\<lparr>nstmts := n\<rparr>)"
    using resolvePlatformOperator_calm [OF assms] by blast
  then show ?thesis using assms
    by (auto simp: via_operator_def intro!: finish_context_calm split: sum.splits operator_err.splits)
qed

lemma join_unique:
  assumes "distinct (map tr_id ts)" and "x \<in> set ts"
  shows "concat (map (\<lambda>t. if tr_id t = k \<and> k = tr_id x \<and> Q then [f t] else []) ts) =
    (if k = tr_id x \<and> Q then [f x] else [])"
  using assms by (induction ts) (auto simp: image_iff)

lemma membership_join:
  assumes "distinct (map tr_id (tenants d))" and "x \<in> set (tenants d)"
  shows "[(v, y). v \<leftarrow> us, y \<leftarrow> tenants d, tr_id y = ut_TenantID v \<and> active_of u (tr_id x) v] =
    map (\<lambda>v. (v, x)) (filter (active_of u (tr_id x)) us)"
proof (induction us)
  case (Cons v us)
  have "(tr_id y = ut_TenantID v \<and> active_of u (tr_id x) v) =
      (tr_id y = ut_TenantID v \<and> ut_TenantID v = tr_id x \<and> active_of u (tr_id x) v)" for y
    by (auto simp: active_of_def)
  with Cons show ?case using join_unique [OF assms, of "ut_TenantID v" "active_of u (tr_id x) v" "\<lambda>y. (v, y)"]
    by (auto simp: active_of_def)
qed simp

section \<open>Properties\<close>

text \<open>C1. Access is always earned: whatever statements fail, TenantFromHeader lets a request pass only
  for the tenant of the header, and only when the user holds an active membership in it, or an active
  membership of the platform tenant with a global role or as admin; the role of the request is the
  effective role of that membership, and its permissions are those of a role row that is not deleted.\<close>

theorem TenantFromHeader_sound:
  assumes "TenantFromHeader header user w = (Pass (t, rc), w')"
  shows "header = Some (Some t) \<and> tables w' = tables w \<and>
    (\<exists>u. user = Some u \<and>
       (member_role (tables w) u t (rc_Name rc) \<or>
        operator_role (tables w) u (rc_Name rc) \<and> t \<in> tr_id ` set (tenants (tables w)))) \<and>
    context_of_role (tables w) rc"
  by (rule TenantFromHeader_Pass [OF assms]) auto

text \<open>Cross-tenant power stays with the platform: a request whose role context may act on other
  tenants belongs to a user with an active membership of the platform tenant. It rests on the rule that
  the trigger keeps on the memberships, so no assignment made by a client tenant can lead there.\<close>

theorem cross_tenant_is_platform:
  assumes "iam_wf (tables w)" and "TenantFromHeader header (Some u) w = (Pass (t, rc), w')"
    and "IsCrossTenantRole (Some rc)"
  shows "\<exists>x \<in> set (utrs (tables w)). ut_UserID x = u \<and> ut_Status x = UTRActive \<and>
    is_platform (tables w) (ut_TenantID x)"
proof (rule TenantFromHeader_Pass [OF assms(2)])
  fix v
  assume "Some u = Some v" and "context_of_role (tables w) rc"
    and "member_role (tables w) v t (rc_Name rc) \<or>
         operator_role (tables w) v (rc_Name rc) \<and> t \<in> tr_id ` set (tenants (tables w))"
  with assms(1,3) show ?thesis
    by (auto simp: context_of_role_def IsCrossTenantRole_def RoleContextFromContext_def
        dest: global_member_platform)
qed


section \<open>Instances\<close>

definition tenant_sample :: "uuid \<Rightarrow> string \<Rightarrow> bool \<Rightarrow> tenant_row" where
  "tenant_sample i sub platform =
     \<lparr>tr_tenant = \<lparr>tn_ID = i, tn_Name = sub, tn_CompanyName = sub, tn_Subdomain = sub, tn_Description = [],
        tn_IsActive = True,
        tn_Theme = \<lparr>th_PrimaryColor = [], th_SecondaryColor = [], th_AccentColor = [], th_TextColor = [],
          th_BackgroundColor = [], th_LogoUrl = [], th_FaviconUrl = []\<rparr>,
        tn_Address = \<lparr>ad_Street = [], ad_City = [], ad_State = [], ad_PostalCode = [], ad_Country = []\<rparr>,
        tn_Settings = \<lparr>ts_ContactEmail = [], ts_CompanyWebsite = [], ts_Locale = [], ts_Timezone = [],
          ts_DateFormat = [], ts_TimeFormat = [], ts_Currency = []\<rparr>,
        tn_CreatedAt = 0, tn_UpdatedAt = 0\<rparr>,
      tr_is_platform_tenant = platform\<rparr>"

definition role_sample :: "string \<Rightarrow> bool \<Rightarrow> bool \<Rightarrow> string list \<Rightarrow> role" where
  "role_sample i system global perms = \<lparr>ro_ID = i, ro_Name = i, ro_Description = [], ro_Permissions = perms,
     ro_IsSystemRole = system, ro_IsGlobal = global, ro_TenantID = None,
     ro_CreatedAt = 0, ro_UpdatedAt = 0, ro_DeletedAt = None\<rparr>"

definition user_sample :: "uuid \<Rightarrow> string \<Rightarrow> user_row" where
  "user_sample i email = \<lparr>us_id = i, us_supabase_user_id = None, us_email = email, us_name = None,
     us_first_name = Some ''Ana'', us_last_name = Some ''Paz'', us_image = None, us_tenant_id = None,
     us_role = ''user'', us_status = ''active'', us_password_change_required = False,
     us_auth_provider = None, us_email_verified_at = None, us_last_login_at = None, us_created_at = 0, us_updated_at = 0, us_deleted_at = None\<rparr>"

definition membership_sample :: "uuid \<Rightarrow> uuid \<Rightarrow> uuid \<Rightarrow> string \<Rightarrow> user_tenant_role" where
  "membership_sample i u t r = \<lparr>ut_ID = i, ut_UserID = u, ut_TenantID = t, ut_RoleID = Some r,
     ut_Status = UTRActive, ut_AssignedBy = None, ut_AssignedAt = None, ut_CreatedAt = 0, ut_UpdatedAt = 0\<rparr>"

lemmas samples = tenant_sample_def role_sample_def user_sample_def membership_sample_def

text \<open>
  The platform (tenant 1) with its admin (user 10), and a client (tenant 2) with its admin (user 20).
\<close>

definition two_tenants :: iam_db where
  "two_tenants = \<lparr>tenants = [tenant_sample 1 ''mrg'' True, tenant_sample 2 ''acme'' False],
     roles = [role_sample ''admin'' True False [''perm_users_manage''],
              role_sample ''platform_admin'' True True [''perm_tenants_manage''],
              role_sample ''cliente_admin'' True False [''perm_users_manage'']],
     permissions = [], users = [user_sample 10 ''a'', user_sample 20 ''b''],
     utrs = [membership_sample 100 10 1 ''admin'', membership_sample 200 20 2 ''cliente_admin''],
     invitations = []\<rparr>"

definition platform_context :: role_context where
  "platform_context = \<lparr>rc_Name = ''platform_admin'', rc_Permissions = [''perm_tenants_manage''], rc_IsGlobal = True\<rparr>"

lemma two_tenants_wf: "iam_wf two_tenants"
  by (simp add: iam_wf_defs two_tenants_def samples tenant_can_use_role_def role_is_global_def is_platform_def)

lemma operator_enters_client:
  "TenantFromHeader (Some (Some 2)) (Some 10) (live two_tenants) =
     (Pass (2, platform_context), (live two_tenants)\<lparr>nstmts := 4\<rparr>)"
  by (simp add: TenantFromHeader_def membership_query_def two_tenants_def samples active_of_def
      resolvePlatformOperator_def operator_query_def op_bind_def finish_context_def loadRolePermissions_def
      EffectiveRole_def platformTenantAdminRole_def platform_context_def)

theorem TenantFromHeader_sound_instance:
  "\<exists>w'. TenantFromHeader (Some (Some 2)) (Some 10) (live two_tenants) = (Pass (2, platform_context), w') \<and>
     (member_role two_tenants 10 2 ''platform_admin'' \<or> operator_role two_tenants 10 ''platform_admin'')"
  using TenantFromHeader_sound [OF operator_enters_client] operator_enters_client
  by (auto simp: platform_context_def)

theorem cross_tenant_is_platform_instance:
  "\<exists>x \<in> set (utrs two_tenants). ut_UserID x = 10 \<and> ut_Status x = UTRActive \<and> is_platform two_tenants (ut_TenantID x)"
  using cross_tenant_is_platform [OF _ operator_enters_client]
  by (simp add: two_tenants_wf IsCrossTenantRole_def RoleContextFromContext_def platform_context_def)


end
