(* ===== verification/Roles.thy ===== *)
theory Roles
  imports Rbac "HOL-Library.List_Lexorder" "HOL-Library.Char_ord"
begin

text \<open>
  Roles: the repository of \<open>internal/repo/pg/roles\<close>, the service and \<open>EnsureAssignable\<close> of
  \<open>internal/app/roles\<close>, and the mapping of errors to HTTP. The service asks a catalog which
  permission ids exist; the Go interface \<open>PermissionCatalog\<close> is the record \<open>permission_catalog\<close>
  of its two operations, and the locale \<open>role_catalog\<close> states what the service relies on. Its
  implementation is in the theory Permissions.
\<close>

section \<open>Repository\<close>

definition role_visible :: "iam_db \<Rightarrow> uuid \<Rightarrow> bool \<Rightarrow> role \<Rightarrow> bool" where
  "role_visible d tenantID includeGlobal r \<longleftrightarrow>
     (ro_TenantID r = Some tenantID \<or> ro_TenantID r = None) \<and> ro_DeletedAt r = None \<and>
     tenant_can_use_role d tenantID (ro_ID r) \<and> (\<not> ro_IsGlobal r \<or> includeGlobal)"

text \<open>\<open>collation\<close> is the order of text columns in the database.\<close>

definition role_List :: "(string \<Rightarrow> 'k::linorder) \<Rightarrow> uuid \<Rightarrow> bool \<Rightarrow> role list iam_op" where
  "role_List collation tenantID includeGlobal =
     query Internal (\<lambda>d. Inr
       (sort_key (\<lambda>r. if ro_IsSystemRole r then 0 else (1 :: nat))
         (sort_key (\<lambda>r. collation (ro_Name r)) (filter (role_visible d tenantID includeGlobal) (roles d)))))"

definition GetByIDForTenant :: "string \<Rightarrow> uuid \<Rightarrow> bool \<Rightarrow> role iam_op" where
  "GetByIDForTenant i tenantID includeGlobal =
     query Internal (\<lambda>d. first_row ErrRoleNotFound
       (filter (\<lambda>r. ro_ID r = i \<and> role_visible d tenantID includeGlobal r) (roles d)))"

definition custom_of :: "uuid \<Rightarrow> role \<Rightarrow> bool" where
  "custom_of tenantID r \<longleftrightarrow>
     ro_TenantID r = Some tenantID \<and> \<not> ro_IsSystemRole r \<and> ro_DeletedAt r = None"

definition CountCustomByTenant :: "uuid \<Rightarrow> nat iam_op" where
  "CountCustomByTenant tenantID = query Internal (\<lambda>d. Inr (length (filter (custom_of tenantID) (roles d))))"

text \<open>The unique index \<open>idx_roles_tenant_name_active\<close>; rows without a tenant never clash.\<close>

definition role_names_unique :: "role list \<Rightarrow> bool" where
  "role_names_unique rs \<longleftrightarrow>
     distinct (map (\<lambda>r. (ro_TenantID r, ro_Name r))
       (filter (\<lambda>r. ro_TenantID r \<noteq> None \<and> \<not> ro_IsSystemRole r \<and> ro_DeletedAt r = None) rs))"

definition role_Create :: "time \<Rightarrow> role \<Rightarrow> role iam_op" where
  "role_Create now role =
     stmt Internal (\<lambda>d.
       let row = role\<lparr>ro_IsSystemRole := False, ro_IsGlobal := False, ro_CreatedAt := now,
                      ro_UpdatedAt := now, ro_DeletedAt := None\<rparr>
       in if ro_ID role \<in> ro_ID ` set (roles d) \<or> \<not> role_names_unique (roles d @ [row]) then
            (Inl ErrRoleDuplicateName, d)
          else if (case ro_TenantID role of None \<Rightarrow> False | Some t \<Rightarrow> t \<notin> tr_id ` set (tenants d)) then
            (Inl Internal, d)
          else (Inr (role\<lparr>ro_CreatedAt := now, ro_UpdatedAt := now\<rparr>), d\<lparr>roles := roles d @ [row]\<rparr>))"

definition role_Update :: "time \<Rightarrow> role \<Rightarrow> role iam_op" where
  "role_Update now role =
     stmt Internal (\<lambda>d.
       let hit = (\<lambda>r. ro_ID r = ro_ID role \<and> ro_DeletedAt r = None);
           rs = update_where hit (\<lambda>r. r\<lparr>ro_Name := ro_Name role, ro_Description := ro_Description role,
                  ro_Permissions := ro_Permissions role, ro_UpdatedAt := now\<rparr>) (roles d)
       in if filter hit (roles d) = [] then (Inl ErrRoleNotFound, d)
          else if \<not> role_names_unique rs then (Inl ErrRoleDuplicateName, d)
          else (Inr (role\<lparr>ro_UpdatedAt := now\<rparr>), d\<lparr>roles := rs\<rparr>))"

definition role_SoftDelete :: "time \<Rightarrow> string \<Rightarrow> unit iam_op" where
  "role_SoftDelete now i =
     stmt Internal (\<lambda>d.
       let hit = (\<lambda>r. ro_ID r = i \<and> ro_DeletedAt r = None)
       in if filter hit (roles d) = [] then (Inl ErrRoleNotFound, d)
          else (Inr (), d\<lparr>roles := update_where hit (\<lambda>r. r\<lparr>ro_DeletedAt := Some now\<rparr>) (roles d)\<rparr>))"

definition CountActiveAssignments :: "string \<Rightarrow> nat iam_op" where
  "CountActiveAssignments roleID =
     query Internal (\<lambda>d. Inr (length (filter (\<lambda>u. ut_RoleID u = Some roleID \<and> ut_Status u = UTRActive) (utrs d))))"

section \<open>Service\<close>

record permission_catalog =
  cat_UnknownPermissionIDs :: "uuid \<Rightarrow> string list \<Rightarrow> string list iam_op"
  cat_SystemPermissionIDs :: "string list \<Rightarrow> string list iam_op"

definition MaxCustomRolesPerTenant :: nat where
  "MaxCustomRolesPerTenant = 3"

definition validatePermissions :: "permission_catalog \<Rightarrow> uuid \<Rightarrow> string list \<Rightarrow> unit iam_op" where
  "validatePermissions cat tenantID perms =
     (if perms = [] then op_ret ()
      else op_bind (cat_UnknownPermissionIDs cat tenantID perms) (\<lambda>unknown.
           if unknown \<noteq> [] then op_fail (ErrRoleUnknownPermissions unknown) else op_ret ()))"

definition ensureGrantable :: "permission_catalog \<Rightarrow> role_context option \<Rightarrow> string list \<Rightarrow> unit iam_op" where
  "ensureGrantable cat ctx added =
     (if added = [] \<or> CanSeePlatformInternals ctx then op_ret ()
      else op_bind (cat_SystemPermissionIDs cat added) (\<lambda>system.
           let held = rc_Permissions (RoleContextFromContext ctx);
               notHeld = filter (\<lambda>p. p \<notin> set held) system
           in if notHeld \<noteq> [] then op_fail (ErrRolePermissionNotHeld notHeld) else op_ret ()))"

text \<open>The map \<open>seen\<close> of the Go code holds the elements of \<open>result\<close>.\<close>

fun dedup_perms :: "string list \<Rightarrow> string list \<Rightarrow> string list" where
  "dedup_perms result [] = result"
| "dedup_perms result (p # ps) =
     (let normalized = trim_space p
      in if normalized = [] \<or> normalized \<in> set result then dedup_perms result ps
         else dedup_perms (result @ [normalized]) ps)"

definition deduplicatePermissions :: "string list \<Rightarrow> string list" where
  "deduplicatePermissions perms = sort (dedup_perms [] perms)"

text \<open>\<open>rnd\<close> is what \<open>rand.Read\<close> delivers for three bytes, None when it fails.\<close>

definition generateRoleID :: "string option \<Rightarrow> iam_err + string" where
  "generateRoleID rnd =
     (case rnd of None \<Rightarrow> Inl Internal | Some b \<Rightarrow> Inr (''custom_'' @ hex_encode b))"

definition ListRoles :: "(string \<Rightarrow> 'k::linorder) \<Rightarrow> uuid \<Rightarrow> bool \<Rightarrow> role list iam_op" where
  "ListRoles collation tenantID includeGlobal = role_List collation tenantID includeGlobal"

definition GetRole :: "string \<Rightarrow> uuid \<Rightarrow> bool \<Rightarrow> role iam_op" where
  "GetRole i tenantID includeGlobal = GetByIDForTenant i tenantID includeGlobal"

definition CreateRole ::
  "permission_catalog \<Rightarrow> time \<Rightarrow> string option \<Rightarrow> role_context option \<Rightarrow> uuid \<Rightarrow> string \<Rightarrow> string \<Rightarrow>
     string list \<Rightarrow> role iam_op"
where
  "CreateRole cat now rnd ctx tenantID name description perms0 =
     op_bind (CountCustomByTenant tenantID) (\<lambda>count.
     if count \<ge> MaxCustomRolesPerTenant then op_fail ErrRoleLimitReached
     else
       let perms = deduplicatePermissions perms0 in
       op_bind (validatePermissions cat tenantID perms) (\<lambda>_.
       op_bind (ensureGrantable cat ctx perms) (\<lambda>_.
       op_bind (op_of (generateRoleID rnd)) (\<lambda>i.
       role_Create now \<lparr>ro_ID = i, ro_Name = name, ro_Description = description, ro_Permissions = perms,
         ro_IsSystemRole = False, ro_IsGlobal = False, ro_TenantID = Some tenantID,
         ro_CreatedAt = 0, ro_UpdatedAt = 0, ro_DeletedAt = None\<rparr>))))"

definition UpdateRole ::
  "permission_catalog \<Rightarrow> time \<Rightarrow> role_context option \<Rightarrow> string \<Rightarrow> uuid \<Rightarrow> bool \<Rightarrow> string \<Rightarrow> string \<Rightarrow>
     string list \<Rightarrow> role iam_op"
where
  "UpdateRole cat now ctx i tenantID includeGlobal name description perms0 =
     op_bind (GetByIDForTenant i tenantID includeGlobal) (\<lambda>role.
     if ro_IsSystemRole role then op_fail ErrRoleIsSystemRole
     else
       let perms = deduplicatePermissions perms0 in
       op_bind (validatePermissions cat tenantID perms) (\<lambda>_.
       let added = filter (\<lambda>p. p \<notin> set (ro_Permissions role)) perms in
       op_bind (ensureGrantable cat ctx added) (\<lambda>_.
       role_Update now (role\<lparr>ro_Name := name, ro_Description := description, ro_Permissions := perms\<rparr>))))"

definition DeleteRole :: "time \<Rightarrow> string \<Rightarrow> uuid \<Rightarrow> bool \<Rightarrow> unit iam_op" where
  "DeleteRole now i tenantID includeGlobal =
     op_bind (GetByIDForTenant i tenantID includeGlobal) (\<lambda>role.
     if ro_IsSystemRole role then op_fail ErrRoleIsSystemRole
     else op_bind (CountActiveAssignments i) (\<lambda>count.
          if count > 0 then op_fail ErrRoleHasAssignments
          else role_SoftDelete now i))"

definition EnsureAssignable :: "string \<Rightarrow> uuid \<Rightarrow> bool \<Rightarrow> unit iam_op" where
  "EnsureAssignable roleID tenantID includeGlobal =
     op_try (GetByIDForTenant roleID tenantID includeGlobal)
       (\<lambda>e. op_fail (if e = ErrRoleNotFound then ErrInvalidRoleID else Internal))
       (\<lambda>_. op_ret ())"

text \<open>\<open>HandleError\<close> of the role handlers: status and error code.\<close>

definition role_HandleError :: "iam_err \<Rightarrow> nat \<times> string" where
  "role_HandleError e =
     (case e of
        ErrRoleNotFound \<Rightarrow> (404, ''ROLE_NOT_FOUND'')
      | ErrRoleLimitReached \<Rightarrow> (403, ''LIMIT_REACHED'')
      | ErrRoleDuplicateName \<Rightarrow> (409, ''DUPLICATE_NAME'')
      | ErrRoleIsSystemRole \<Rightarrow> (403, ''SYSTEM_ROLE'')
      | ErrRolePermissionNotHeld _ \<Rightarrow> (403, ''PERMISSION_NOT_HELD'')
      | ErrRoleUnknownPermissions _ \<Rightarrow> (400, ''UNKNOWN_PERMISSIONS'')
      | _ \<Rightarrow> (500, ''INTERNAL_ERROR''))"

text \<open>The handlers, from the parsed request on: they decide \<open>includeGlobal\<close> by the caller's role.\<close>

definition UpdateRole_handler ::
  "permission_catalog \<Rightarrow> time \<Rightarrow> role_context option \<Rightarrow> string \<Rightarrow> uuid \<Rightarrow> string \<Rightarrow> string \<Rightarrow> string list \<Rightarrow>
     iam_db world \<Rightarrow> (nat \<times> string + role) \<times> iam_db world"
where
  "UpdateRole_handler cat now ctx i tenantID name description perms =
     op_try (UpdateRole cat now ctx i tenantID (CanSeePlatformInternals ctx) name description perms)
       (\<lambda>e. op_fail (role_HandleError e)) op_ret"

definition DeleteRole_handler ::
  "time \<Rightarrow> role_context option \<Rightarrow> string \<Rightarrow> uuid \<Rightarrow>
     iam_db world \<Rightarrow> (nat \<times> string \<times> nat option + unit) \<times> iam_db world"
where
  "DeleteRole_handler now ctx i tenantID =
     op_try (DeleteRole now i tenantID (CanSeePlatformInternals ctx))
       (\<lambda>e. if e = ErrRoleHasAssignments then
              op_try (CountActiveAssignments i)
                (\<lambda>e'. op_fail (let (s, c) = role_HandleError e' in (s, c, None)))
                (\<lambda>n. op_fail (409, ''ROLE_HAS_ASSIGNMENTS'', Some n))
            else op_fail (let (s, c) = role_HandleError e in (s, c, None)))
       op_ret"

section \<open>Lemmas\<close>

lemma dedup_perms_spec:
  "distinct r \<Longrightarrow> distinct (dedup_perms r ps) \<and>
     set (dedup_perms r ps) = set r \<union> (trim_space ` set ps - {[]})"
  by (induction r ps rule: dedup_perms.induct) (auto simp: Let_def)

lemma set_deduplicatePermissions: "set (deduplicatePermissions ps) = trim_space ` set ps - {[]}"
  by (simp add: deduplicatePermissions_def dedup_perms_spec)

lemma role_visible_mem:
  assumes "GetByIDForTenant i t g w = (Inr r, w')"
  shows "r \<in> set (roles (tables w)) \<and> ro_ID r = i \<and> role_visible (tables w) t g r \<and> tables w' = tables w"
proof -
  have "first_row ErrRoleNotFound (filter (\<lambda>r. ro_ID r = i \<and> role_visible (tables w) t g r) (roles (tables w))) = Inr r"
    and w: "tables w' = tables w"
    using assms by (auto simp: GetByIDForTenant_def query_Inr)
  then show ?thesis by (auto dest: first_row_mem)
qed

lemma GetByIDForTenant_read_only [simp]: "read_only (GetByIDForTenant i t g)"
  by (simp add: GetByIDForTenant_def)

text \<open>A hidden role and one that does not exist.\<close>

definition role_hidden :: "iam_db \<Rightarrow> uuid \<Rightarrow> bool \<Rightarrow> string \<Rightarrow> bool" where
  "role_hidden d t g i \<longleftrightarrow> (\<forall>r \<in> set (roles d). ro_ID r = i \<longrightarrow> \<not> role_visible d t g r)"

lemma GetByIDForTenant_hidden:
  "role_hidden (tables w) t g i \<Longrightarrow>
     GetByIDForTenant i t g w =
       (Inl (if outage w (nstmts w) then Internal else ErrRoleNotFound), w\<lparr>nstmts := Suc (nstmts w)\<rparr>)"
  by (auto simp: GetByIDForTenant_def query_def stmt_def role_hidden_def filter_empty_conv
      first_row_Inl split: sum.splits)

text \<open>What a successful write leaves.\<close>

lemma role_Create_Inr:
  assumes "role_Create now x w = (Inr r, w')"
    and "\<not> ro_IsSystemRole x" "\<not> ro_IsGlobal x" "ro_DeletedAt x = None" "ro_TenantID x = Some t"
  shows "r = x\<lparr>ro_CreatedAt := now, ro_UpdatedAt := now\<rparr> \<and>
    tables w' = (tables w)\<lparr>roles := roles (tables w) @ [r]\<rparr> \<and>
    ro_ID x \<notin> ro_ID ` set (roles (tables w)) \<and> role_names_unique (roles (tables w) @ [r]) \<and>
    t \<in> tr_id ` set (tenants (tables w))"
proof -
  have "x\<lparr>ro_IsSystemRole := False, ro_IsGlobal := False, ro_CreatedAt := now,
                      ro_UpdatedAt := now, ro_DeletedAt := None\<rparr> = x\<lparr>ro_CreatedAt := now, ro_UpdatedAt := now\<rparr>"
    using assms(2-4) by (cases x) simp
  with assms(1,5) show ?thesis
    by (auto simp: role_Create_def stmt_Inr Let_def split: if_splits)
qed

definition role_revision :: "role \<Rightarrow> role \<Rightarrow> role" where
  "role_revision x = (\<lambda>r. r\<lparr>ro_Name := ro_Name x, ro_Description := ro_Description x,
     ro_Permissions := ro_Permissions x, ro_UpdatedAt := ro_UpdatedAt x\<rparr>)"

lemma role_Update_Inr:
  assumes "role_Update now x w = (Inr r, w')"
  shows "r = x\<lparr>ro_UpdatedAt := now\<rparr> \<and> role_names_unique (roles (tables w')) \<and>
    tables w' = (tables w)\<lparr>roles := update_where (\<lambda>y. ro_ID y = ro_ID x \<and> ro_DeletedAt y = None)
      (role_revision r) (roles (tables w))\<rparr>"
  using assms by (auto simp: role_Update_def stmt_Inr Let_def role_revision_def split: if_splits)

lemma role_SoftDelete_Inr:
  assumes "role_SoftDelete now i w = (Inr u, w')"
  shows "tables w' = (tables w)\<lparr>roles := update_where (\<lambda>y. ro_ID y = i \<and> ro_DeletedAt y = None)
      (\<lambda>r. r\<lparr>ro_DeletedAt := Some now\<rparr>) (roles (tables w))\<rparr>"
  using assms by (auto simp: role_SoftDelete_def stmt_Inr Let_def split: if_splits)

lemma role_write_Inl:
  "role_Create now x w = (Inl e, w') \<Longrightarrow> tables w' = tables w"
  "role_Update now x w = (Inl e, w') \<Longrightarrow> tables w' = tables w"
  "role_SoftDelete now i w = (Inl e, w') \<Longrightarrow> tables w' = tables w"
  by (auto simp: role_Create_def role_Update_def role_SoftDelete_def stmt_Inl Let_def)

lemma DeleteRole_cases:
  assumes "DeleteRole now i t g w = (r, w')"
  obtains (err) e where "r = Inl e" and "tables w' = tables w"
    | (ok) x where "r = Inr ()" and "x \<in> set (roles (tables w))" and "ro_ID x = i"
        and "role_visible (tables w) t g x" and "\<not> ro_IsSystemRole x"
        and "\<forall>u \<in> set (utrs (tables w)). ut_RoleID u = Some i \<longrightarrow> ut_Status u \<noteq> UTRActive"
        and "tables w' = (tables w)\<lparr>roles := update_where (\<lambda>y. ro_ID y = i \<and> ro_DeletedAt y = None)
               (\<lambda>r. r\<lparr>ro_DeletedAt := Some now\<rparr>) (roles (tables w))\<rparr>"
proof (cases r)
  case (Inl e)
  then have "tables w' = tables w" using assms
    by (auto simp: DeleteRole_def CountActiveAssignments_def op_iffs stmt_iffs
        dest!: read_onlyD [OF GetByIDForTenant_read_only] role_write_Inl split: if_splits)
  with Inl show thesis by (rule err)
next
  case (Inr u)
  then obtain x w1 where "GetByIDForTenant i t g w = (Inr x, w1)" and sys: "\<not> ro_IsSystemRole x"
    and del: "op_bind (CountActiveAssignments i) (\<lambda>count. if count > 0 then op_fail ErrRoleHasAssignments
          else role_SoftDelete now i) w1 = (Inr u, w')"
    using assms by (auto simp: DeleteRole_def op_bind_Inr_iff split: if_splits)
  from role_visible_mem [OF this(1)] have x: "x \<in> set (roles (tables w))" "ro_ID x = i"
    "role_visible (tables w) t g x" and w1: "tables w1 = tables w" by simp_all
  from del w1 obtain w2 where sd: "role_SoftDelete now i w2 = (Inr u, w')" and "tables w2 = tables w"
    and "filter (\<lambda>u. ut_RoleID u = Some i \<and> ut_Status u = UTRActive) (utrs (tables w)) = []"
    by (auto simp: CountActiveAssignments_def op_bind_Inr_iff query_Inr split: if_splits)
  with role_SoftDelete_Inr [OF sd] x sys Inr show thesis
    by (intro ok [of x]) (auto simp: filter_empty_conv)
qed

text \<open>The contract between the service and the catalog.\<close>

definition grantable :: "(iam_db \<Rightarrow> string \<Rightarrow> bool) \<Rightarrow> iam_db \<Rightarrow> role_context option \<Rightarrow> string set \<Rightarrow> bool" where
  "grantable system d ctx ps \<longleftrightarrow> CanSeePlatformInternals ctx \<or>
     (\<forall>p \<in> ps. system d p \<longrightarrow> p \<in> set (rc_Permissions (RoleContextFromContext ctx)))"

locale role_catalog =
  fixes cat :: permission_catalog
    and known :: "iam_db \<Rightarrow> uuid \<Rightarrow> string \<Rightarrow> bool"
    and system :: "iam_db \<Rightarrow> string \<Rightarrow> bool"
  assumes unknown_read_only: "read_only (cat_UnknownPermissionIDs cat t ids)"
    and system_read_only: "read_only (cat_SystemPermissionIDs cat ids)"
    and unknown_exact: "cat_UnknownPermissionIDs cat t ids w = (Inr u, w') \<Longrightarrow>
      set u = {p \<in> set ids. \<not> known (tables w) t p}"
    and system_exact: "cat_SystemPermissionIDs cat ids w = (Inr s, w') \<Longrightarrow>
      set s = {p \<in> set ids. system (tables w) p}"
begin

lemma validate_read_only: "read_only (validatePermissions cat t ps)"
  unfolding validatePermissions_def
  by (intro read_only_if read_only_bind unknown_read_only) simp_all

lemma ensure_read_only: "read_only (ensureGrantable cat ctx ps)"
  unfolding ensureGrantable_def Let_def
  by (intro read_only_if read_only_bind system_read_only) simp_all

lemma validate_Inr:
  assumes "validatePermissions cat t ps w = (Inr u, w')"
  shows "\<forall>p \<in> set ps. known (tables w) t p"
  using assms by (auto simp: validatePermissions_def op_bind_Inr_iff dest!: unknown_exact split: if_splits)

lemma ensure_Inr:
  assumes "ensureGrantable cat ctx ps w = (Inr u, w')"
  shows "grantable system (tables w) ctx (set ps)"
  using assms by (auto simp: ensureGrantable_def grantable_def op_bind_Inr_iff Let_def filter_empty_conv
      dest!: system_exact split: if_splits)

lemma CreateRole_cases:
  assumes "CreateRole cat now rnd ctx t name desc ps w = (r, w')"
  obtains (err) e where "r = Inl e" and "tables w' = tables w"
    | (ok) x where "r = Inr x" and "ro_TenantID x = Some t" and "\<not> ro_IsSystemRole x" and "\<not> ro_IsGlobal x"
        and "ro_DeletedAt x = None" and "ro_Permissions x = deduplicatePermissions ps"
        and "length (filter (custom_of t) (roles (tables w))) < MaxCustomRolesPerTenant"
        and "\<forall>p \<in> set (ro_Permissions x). known (tables w) t p"
        and "grantable system (tables w) ctx (set (ro_Permissions x))"
        and "ro_ID x \<notin> ro_ID ` set (roles (tables w))"
        and "role_names_unique (roles (tables w) @ [x])" and "t \<in> tr_id ` set (tenants (tables w))"
        and "tables w' = (tables w)\<lparr>roles := roles (tables w) @ [x]\<rparr>"
        and "\<exists>b. rnd = Some b \<and> ro_ID x = ''custom_'' @ hex_encode b"
        and "ro_Name x = name" and "ro_Description x = desc"
proof (cases r)
  case (Inl e)
  then have "tables w' = tables w" using assms
    by (auto simp: CreateRole_def CountCustomByTenant_def op_iffs stmt_iffs Let_def
        dest!: read_onlyD [OF validate_read_only] read_onlyD [OF ensure_read_only] role_write_Inl
        split: if_splits)
  with Inl show thesis by (rule err)
next
  case (Inr x)
  then obtain w1 w2 w3 i where
    v: "validatePermissions cat t (deduplicatePermissions ps) w1 = (Inr (), w2)"
    and w1: "tables w1 = tables w"
    and lim: "length (filter (custom_of t) (roles (tables w))) < MaxCustomRolesPerTenant"
    and g: "ensureGrantable cat ctx (deduplicatePermissions ps) w2 = (Inr (), w3)"
    and i: "generateRoleID rnd = Inr i"
    and c: "role_Create now \<lparr>ro_ID = i, ro_Name = name, ro_Description = desc,
         ro_Permissions = deduplicatePermissions ps,
         ro_IsSystemRole = False, ro_IsGlobal = False, ro_TenantID = Some t,
         ro_CreatedAt = 0, ro_UpdatedAt = 0, ro_DeletedAt = None\<rparr> w3 = (Inr x, w')"
    using assms by (auto simp: CreateRole_def CountCustomByTenant_def op_bind_Inr_iff query_Inr Let_def
        split: if_splits)
  have w2: "tables w2 = tables w" using v w1 by (simp add: read_onlyD [OF validate_read_only])
  have w3: "tables w3 = tables w" using g w2 by (simp add: read_onlyD [OF ensure_read_only])
  from i have "\<exists>b. rnd = Some b \<and> i = ''custom_'' @ hex_encode b"
    by (auto simp: generateRoleID_def split: option.splits)
  moreover have "role_names_unique (roles (tables w) @ [x]) \<and> i \<notin> ro_ID ` set (roles (tables w)) \<and>
      t \<in> tr_id ` set (tenants (tables w)) \<and> tables w' = (tables w)\<lparr>roles := roles (tables w) @ [x]\<rparr>"
    and x: "x = \<lparr>ro_ID = i, ro_Name = name, ro_Description = desc,
         ro_Permissions = deduplicatePermissions ps,
         ro_IsSystemRole = False, ro_IsGlobal = False, ro_TenantID = Some t,
         ro_CreatedAt = now, ro_UpdatedAt = now, ro_DeletedAt = None\<rparr>"
    using role_Create_Inr [OF c, of t] w3 by auto
  ultimately show thesis using validate_Inr [OF v] ensure_Inr [OF g] w1 w2 lim Inr
    by (intro ok [of x]) auto
qed

lemma UpdateRole_cases:
  assumes "UpdateRole cat now ctx i t g name desc ps w = (r, w')"
  obtains (err) e where "r = Inl e" and "tables w' = tables w"
    | (ok) old x where "r = Inr x" and "old \<in> set (roles (tables w))" and "ro_ID old = i"
        and "role_visible (tables w) t g old" and "\<not> ro_IsSystemRole old"
        and "x = old\<lparr>ro_Name := name, ro_Description := desc, ro_Permissions := deduplicatePermissions ps,
               ro_UpdatedAt := now\<rparr>"
        and "\<forall>p \<in> set (ro_Permissions x). known (tables w) t p"
        and "grantable system (tables w) ctx (set (ro_Permissions x) - set (ro_Permissions old))"
        and "role_names_unique (roles (tables w'))"
        and "tables w' = (tables w)\<lparr>roles := update_where (\<lambda>y. ro_ID y = i \<and> ro_DeletedAt y = None)
               (role_revision x) (roles (tables w))\<rparr>"
proof (cases r)
  case (Inl e)
  then have "tables w' = tables w" using assms
    by (auto simp: UpdateRole_def op_iffs Let_def dest!: read_onlyD [OF GetByIDForTenant_read_only]
        read_onlyD [OF validate_read_only] read_onlyD [OF ensure_read_only] role_write_Inl split: if_splits)
  with Inl show thesis by (rule err)
next
  case (Inr x)
  let ?ps = "deduplicatePermissions ps"
  from Inr obtain old w1 w2 w3 where o: "GetByIDForTenant i t g w = (Inr old, w1)"
    and sys: "\<not> ro_IsSystemRole old" and v: "validatePermissions cat t ?ps w1 = (Inr (), w2)"
    and e: "ensureGrantable cat ctx (filter (\<lambda>p. p \<notin> set (ro_Permissions old)) ?ps) w2 = (Inr (), w3)"
    and u: "role_Update now (old\<lparr>ro_Name := name, ro_Description := desc, ro_Permissions := ?ps\<rparr>) w3 = (Inr x, w')"
    using assms by (auto simp: UpdateRole_def op_bind_Inr_iff Let_def split: if_splits)
  have w1: "tables w1 = tables w" using o by (simp add: read_onlyD [OF GetByIDForTenant_read_only])
  have w2: "tables w2 = tables w" using v w1 by (simp add: read_onlyD [OF validate_read_only])
  have w3: "tables w3 = tables w" using e w2 by (simp add: read_onlyD [OF ensure_read_only])
  have "set (filter (\<lambda>p. p \<notin> set (ro_Permissions old)) ?ps) = set ?ps - set (ro_Permissions old)" by auto
  with ensure_Inr [OF e] w2
  have gr: "grantable system (tables w) ctx (set ?ps - set (ro_Permissions old))" by simp
  from conjunct1 [OF role_Update_Inr [OF u]]
  have x: "x = old\<lparr>ro_Name := name, ro_Description := desc, ro_Permissions := ?ps, ro_UpdatedAt := now\<rparr>"
    by simp
  note n = conjunct1 [OF conjunct2 [OF role_Update_Inr [OF u]]]
  from conjunct2 [OF conjunct2 [OF role_Update_Inr [OF u]]] w3
  have t: "tables w' = (tables w)\<lparr>roles := update_where (\<lambda>y. ro_ID y = ro_ID old \<and> ro_DeletedAt y = None)
               (role_revision x) (roles (tables w))\<rparr>" by simp
  from role_visible_mem [OF o] sys Inr x n t gr validate_Inr [OF v] w1
  show thesis by (intro ok [of x old]) auto
qed

end

section \<open>Properties\<close>

text \<open>A role the caller may not see is indistinguishable from one that does not exist: reading,
  editing, deleting and assigning it give the one answer below, which depends neither on the hidden
  row nor on the rest of the request, and change nothing.\<close>

theorem hidden_role_is_absent:
  assumes "role_hidden (tables w) t g i"
  shows "GetRole i t g w =
      (Inl (if outage w (nstmts w) then Internal else ErrRoleNotFound), w\<lparr>nstmts := Suc (nstmts w)\<rparr>) \<and>
    UpdateRole cat now ctx i t g name desc ps w = GetRole i t g w \<and>
    (\<exists>e. DeleteRole now i t g w = (Inl e, w\<lparr>nstmts := Suc (nstmts w)\<rparr>) \<and> fst (GetRole i t g w) = Inl e) \<and>
    EnsureAssignable i t g w =
      (Inl (if outage w (nstmts w) then Internal else ErrInvalidRoleID), w\<lparr>nstmts := Suc (nstmts w)\<rparr>)"
  by (simp add: GetRole_def UpdateRole_def DeleteRole_def EnsureAssignable_def op_bind_def op_try_def
      GetByIDForTenant_hidden [OF assms])

text \<open>A role is deleted exactly when the caller sees it, it is no system role and no active
  membership uses it; afterwards nobody sees it any more.\<close>

theorem DeleteRole_exact:
  assumes "distinct (map ro_ID (roles d))"
  shows "(fst (DeleteRole now i t g (live d)) = Inr () \<longleftrightarrow>
      (\<exists>r \<in> set (roles d). ro_ID r = i \<and> role_visible d t g r \<and> \<not> ro_IsSystemRole r) \<and>
      \<not> (\<exists>u \<in> set (utrs d). ut_RoleID u = Some i \<and> ut_Status u = UTRActive)) \<and>
    (fst (DeleteRole now i t g (live d)) = Inr () \<longrightarrow>
      (\<forall>t' g'. role_hidden (tables (snd (DeleteRole now i t g (live d)))) t' g' i))"
proof -
  have "fst (DeleteRole now i t g (live d)) = Inr () \<longleftrightarrow>
      (\<exists>r \<in> set (roles d). ro_ID r = i \<and> role_visible d t g r \<and> \<not> ro_IsSystemRole r) \<and>
      \<not> (\<exists>u \<in> set (utrs d). ut_RoleID u = Some i \<and> ut_Status u = UTRActive)" (is "?l \<longleftrightarrow> ?r")
  proof
    assume ?l
    then obtain w' where "DeleteRole now i t g (live d) = (Inr (), w')" by (metis prod.collapse)
    then show ?r by (cases rule: DeleteRole_cases) auto
  next
    assume ?r
    then obtain x where x: "x \<in> set (roles d)" "ro_ID x = i" "role_visible d t g x" "\<not> ro_IsSystemRole x"
      and a: "filter (\<lambda>u. ut_RoleID u = Some i \<and> ut_Status u = UTRActive) (utrs d) = []"
      by (auto simp: filter_empty_conv)
    have "filter (\<lambda>r. ro_ID r = i \<and> role_visible d t g r) (roles d) = [x]"
      using filter_key_unique [OF assms x(1), of "role_visible d t g"] x by simp
    then have "GetByIDForTenant i t g (live d) = (Inr x, (live d)\<lparr>nstmts := Suc 0\<rparr>)"
      by (simp add: GetByIDForTenant_def)
    moreover have "filter (\<lambda>r. ro_ID r = i \<and> ro_DeletedAt r = None) (roles d) \<noteq> []"
      using x by (auto simp: filter_empty_conv role_visible_def)
    ultimately show ?l using x(4) a
      by (simp add: DeleteRole_def op_bind_def CountActiveAssignments_def role_SoftDelete_def stmt_def Let_def)
  qed
  moreover have "role_hidden (tables w') t' g' i" if "DeleteRole now i t g (live d) = (Inr (), w')" for w' t' g'
    using that
  proof (cases rule: DeleteRole_cases)
    case (ok x)
    have "\<not> (ro_ID r = i \<and> ro_DeletedAt r = None)" if "r \<in> set (roles (tables w'))" for r
      by (rule update_where_done [of _ "\<lambda>r. r\<lparr>ro_DeletedAt := Some now\<rparr>" r "roles d"]) (use that ok in auto)
    then show ?thesis by (auto simp: role_hidden_def role_visible_def)
  qed simp
  ultimately show ?thesis by (metis prod.collapse)
qed

end
