(* ===== verification/Permissions.thy ===== *)
theory Permissions
  imports Roles
begin

text \<open>
  Permissions: the repository of \<open>internal/repo/pg/permissions\<close> and the service of
  \<open>internal/app/permissions\<close>. The repository is the catalog of the role service, which the
  interpretation of \<open>role_catalog\<close> proves; the histories of the role and permission endpoints
  follow, with what holds after every one of them.
\<close>

section \<open>Repository\<close>

definition perm_visible :: "uuid \<Rightarrow> permission \<Rightarrow> bool" where
  "perm_visible tenantID p \<longleftrightarrow> pm_TenantID p = Some tenantID \<or> pm_IsSystemPermission p"

definition perm_List :: "(string \<Rightarrow> 'k::linorder) \<Rightarrow> uuid \<Rightarrow> permission list iam_op" where
  "perm_List collation tenantID =
     query Internal (\<lambda>d. Inr
       (sort_key (\<lambda>p. if pm_IsSystemPermission p then 0 else (1 :: nat))
         (sort_key (\<lambda>p. collation (pm_Name p)) (filter (perm_visible tenantID) (permissions d)))))"

definition perm_GetByID :: "string \<Rightarrow> uuid \<Rightarrow> permission iam_op" where
  "perm_GetByID i tenantID =
     query Internal (\<lambda>d. first_row ErrPermissionNotFound
       (filter (\<lambda>p. pm_ID p = i \<and> perm_visible tenantID p) (permissions d)))"

definition perm_checks :: "permission \<Rightarrow> bool" where
  "perm_checks p \<longleftrightarrow>
     (pm_IsSystemPermission p \<longleftrightarrow> pm_TenantID p = None) \<and>
     char_length (pm_Name p) \<ge> 3 \<and> char_length (pm_Section p) > 0 \<and> char_length (pm_Description p) > 0"

definition perm_Create :: "time \<Rightarrow> permission \<Rightarrow> unit iam_op" where
  "perm_Create now p =
     stmt Internal (\<lambda>d.
       if \<not> perm_checks p \<or> pm_ID p \<in> pm_ID ` set (permissions d) \<or>
          (case pm_TenantID p of None \<Rightarrow> False | Some t \<Rightarrow> t \<notin> tr_id ` set (tenants d))
       then (Inl Internal, d)
       else (Inr (), d\<lparr>permissions := permissions d @ [p\<lparr>pm_CreatedAt := now, pm_UpdatedAt := now\<rparr>]\<rparr>))"

text \<open>The trigger \<open>trg_permissions_updated_at\<close> stamps every row that is updated.\<close>

definition perm_Update :: "time \<Rightarrow> permission \<Rightarrow> unit iam_op" where
  "perm_Update now p =
     stmt Internal (\<lambda>d.
       let hit = (\<lambda>x. pm_ID x = pm_ID p \<and> \<not> pm_IsSystemPermission x);
           f = (\<lambda>x. x\<lparr>pm_Name := pm_Name p, pm_Section := pm_Section p,
                       pm_Description := pm_Description p, pm_UpdatedAt := now\<rparr>)
       in if filter hit (permissions d) = [] then (Inl ErrPermissionNotFound, d)
          else if \<not> list_all perm_checks (map f (filter hit (permissions d))) then (Inl Internal, d)
          else (Inr (), d\<lparr>permissions := update_where hit f (permissions d)\<rparr>))"

definition deletable :: "string \<Rightarrow> uuid \<Rightarrow> permission \<Rightarrow> bool" where
  "deletable i tenantID p \<longleftrightarrow>
     pm_ID p = i \<and> \<not> pm_IsSystemPermission p \<and> pm_TenantID p = Some tenantID"

definition perm_Delete :: "time \<Rightarrow> string \<Rightarrow> uuid \<Rightarrow> unit iam_op" where
  "perm_Delete now i tenantID =
     op_bind (perm_GetByID i tenantID) (\<lambda>p.
     if pm_IsSystemPermission p then op_fail ErrPermissionIsSystem
     else txn (
       op_bind (query Internal (\<lambda>_. Inr ())) (\<lambda>_.
       op_bind (stmt Internal (\<lambda>d.
           if filter (deletable i tenantID) (permissions d) = [] then (Inl ErrPermissionNotFound, d)
           else (Inr (), d\<lparr>permissions := filter (\<lambda>x. \<not> deletable i tenantID x) (permissions d)\<rparr>))) (\<lambda>_.
       op_bind (stmt Internal (\<lambda>d. (Inr (), d\<lparr>roles :=
           update_where (\<lambda>r. ro_TenantID r = Some tenantID \<and> i \<in> set (ro_Permissions r))
             (\<lambda>r. r\<lparr>ro_Permissions := filter (\<lambda>q. q \<noteq> i) (ro_Permissions r), ro_UpdatedAt := now\<rparr>)
             (roles d)\<rparr>))) (\<lambda>_.
       query Internal (\<lambda>_. Inr ()))))))"

definition SystemPermissionIDs :: "string list \<Rightarrow> string list iam_op" where
  "SystemPermissionIDs ids =
     (if ids = [] then op_ret []
      else query Internal (\<lambda>d. Inr (map pm_ID
             (filter (\<lambda>p. pm_ID p \<in> set ids \<and> pm_IsSystemPermission p) (permissions d)))))"

definition UnknownPermissionIDs :: "uuid \<Rightarrow> string list \<Rightarrow> string list iam_op" where
  "UnknownPermissionIDs tenantID ids =
     (if ids = [] then op_ret []
      else op_bind (query Internal (\<lambda>d. Inr (map pm_ID
             (filter (\<lambda>p. pm_ID p \<in> set ids \<and> perm_visible tenantID p) (permissions d))))) (\<lambda>known.
           op_ret (filter (\<lambda>i. i \<notin> set known) ids)))"

section \<open>Service\<close>

definition ListPermissions :: "(string \<Rightarrow> 'k::linorder) \<Rightarrow> uuid \<Rightarrow> permission list iam_op" where
  "ListPermissions collation tenantID = perm_List collation tenantID"

definition GetPermission :: "string \<Rightarrow> uuid \<Rightarrow> permission iam_op" where
  "GetPermission i tenantID = perm_GetByID i tenantID"

definition validatePermissionFields :: "string \<Rightarrow> string \<Rightarrow> string \<Rightarrow> iam_err + unit" where
  "validatePermissionFields name sec description =
     (if length (trim_space name) < 3 then Inl (ValidationError ''name'')
      else if trim_space sec = [] then Inl (ValidationError ''section'')
      else if trim_space description = [] then Inl (ValidationError ''description'')
      else Inr ())"

text \<open>\<open>new_id\<close> is the text of the fresh UUID.\<close>

definition CreatePermission ::
  "time \<Rightarrow> string \<Rightarrow> uuid \<Rightarrow> string \<Rightarrow> string \<Rightarrow> string \<Rightarrow> permission iam_op"
where
  "CreatePermission now new_id tenantID name sec description =
     op_bind (op_of (validatePermissionFields name sec description)) (\<lambda>_.
     op_bind (perm_Create now \<lparr>pm_ID = new_id, pm_Name = name, pm_Section = sec,
         pm_Description = description, pm_IsSystemPermission = False, pm_TenantID = Some tenantID,
         pm_CreatedAt = 0, pm_UpdatedAt = 0\<rparr>) (\<lambda>_.
     perm_GetByID new_id tenantID))"

definition UpdatePermission ::
  "time \<Rightarrow> string \<Rightarrow> uuid \<Rightarrow> string \<Rightarrow> string \<Rightarrow> string \<Rightarrow> permission iam_op"
where
  "UpdatePermission now i tenantID name sec description =
     op_bind (perm_GetByID i tenantID) (\<lambda>p.
     if pm_IsSystemPermission p then op_fail ErrPermissionIsSystem
     else
       op_bind (op_of (validatePermissionFields name sec description)) (\<lambda>_.
       op_bind (perm_Update now (p\<lparr>pm_Name := name, pm_Section := sec, pm_Description := description\<rparr>)) (\<lambda>_.
       perm_GetByID i tenantID)))"

definition DeletePermission :: "time \<Rightarrow> string \<Rightarrow> uuid \<Rightarrow> unit iam_op" where
  "DeletePermission now i tenantID = perm_Delete now i tenantID"

section \<open>The repository is the catalog\<close>

definition pg_catalog :: permission_catalog where
  "pg_catalog = \<lparr>cat_UnknownPermissionIDs = UnknownPermissionIDs, cat_SystemPermissionIDs = SystemPermissionIDs\<rparr>"

definition perm_known :: "iam_db \<Rightarrow> uuid \<Rightarrow> string \<Rightarrow> bool" where
  "perm_known d t i \<longleftrightarrow> (\<exists>p \<in> set (permissions d). pm_ID p = i \<and> perm_visible t p)"

definition perm_system :: "iam_db \<Rightarrow> string \<Rightarrow> bool" where
  "perm_system d i \<longleftrightarrow> (\<exists>p \<in> set (permissions d). pm_ID p = i \<and> pm_IsSystemPermission p)"

interpretation pg: role_catalog pg_catalog perm_known perm_system
proof
  fix t ids w u w'
  show "read_only (cat_UnknownPermissionIDs pg_catalog t ids)"
    by (auto simp: pg_catalog_def UnknownPermissionIDs_def)
  show "read_only (cat_SystemPermissionIDs pg_catalog ids)"
    by (auto simp: pg_catalog_def SystemPermissionIDs_def)
  show "set u = {p \<in> set ids. \<not> perm_known (tables w) t p}"
    if "cat_UnknownPermissionIDs pg_catalog t ids w = (Inr u, w')"
    using that by (auto simp: pg_catalog_def UnknownPermissionIDs_def perm_known_def op_bind_Inr_iff query_Inr
        split: if_splits)
  show "set u = {p \<in> set ids. perm_system (tables w) p}"
    if "cat_SystemPermissionIDs pg_catalog ids w = (Inr u, w')"
    using that by (auto simp: pg_catalog_def SystemPermissionIDs_def perm_system_def query_Inr split: if_splits)
qed

section \<open>Effects of the operations\<close>

lemma perm_GetByID_read_only [simp]: "read_only (perm_GetByID i t)"
  by (simp add: perm_GetByID_def)

lemma perm_GetByID_Inr:
  assumes "perm_GetByID i t w = (Inr p, w')"
  shows "p \<in> set (permissions (tables w)) \<and> pm_ID p = i \<and> perm_visible t p \<and> tables w' = tables w"
proof -
  have "first_row ErrPermissionNotFound (filter (\<lambda>p. pm_ID p = i \<and> perm_visible t p) (permissions (tables w))) = Inr p"
    and w: "tables w' = tables w"
    using assms by (auto simp: perm_GetByID_def query_Inr)
  then show ?thesis by (auto dest: first_row_mem)
qed

text \<open>
  The tables after an operation on permissions are the old ones or show its one effect, even when
  the operation ends in an error.
\<close>

lemma perm_Create_cases:
  assumes "perm_Create now p w = (r, w')"
  shows "(\<exists>e. r = Inl e) \<and> tables w' = tables w \<or> r = Inr () \<and> perm_checks p \<and>
     pm_ID p \<notin> pm_ID ` set (permissions (tables w)) \<and>
     tables w' = (tables w)\<lparr>permissions := permissions (tables w) @ [p\<lparr>pm_CreatedAt := now, pm_UpdatedAt := now\<rparr>]\<rparr>"
  using assms by (cases r) (auto simp: perm_Create_def stmt_iffs split: if_splits)

definition perm_revision :: "time \<Rightarrow> permission \<Rightarrow> permission \<Rightarrow> permission" where
  "perm_revision now p = (\<lambda>x. x\<lparr>pm_Name := pm_Name p, pm_Section := pm_Section p,
     pm_Description := pm_Description p, pm_UpdatedAt := now\<rparr>)"

lemma perm_Update_cases:
  assumes "perm_Update now p w = (r, w')"
  shows "(\<exists>e. r = Inl e) \<and> tables w' = tables w \<or> r = Inr () \<and>
     tables w' = (tables w)\<lparr>permissions :=
       update_where (\<lambda>x. pm_ID x = pm_ID p \<and> \<not> pm_IsSystemPermission x) (perm_revision now p) (permissions (tables w))\<rparr>"
  using assms by (cases r) (auto simp: perm_Update_def perm_revision_def Let_def stmt_iffs split: if_splits)

definition erase_permission :: "time \<Rightarrow> string \<Rightarrow> uuid \<Rightarrow> iam_db \<Rightarrow> iam_db" where
  "erase_permission now i t d = d\<lparr>permissions := filter (\<lambda>x. \<not> deletable i t x) (permissions d),
     roles := update_where (\<lambda>r. ro_TenantID r = Some t \<and> i \<in> set (ro_Permissions r))
       (\<lambda>r. r\<lparr>ro_Permissions := filter (\<lambda>q. q \<noteq> i) (ro_Permissions r), ro_UpdatedAt := now\<rparr>) (roles d)\<rparr>"

lemma CreatePermission_cases:
  assumes "CreatePermission now i t name sec desc w = (r, w')"
  obtains (same) e where "r = Inl e" and "tables w' = tables w"
    | (new) p where "pm_ID p = i" and "\<not> pm_IsSystemPermission p" and "pm_TenantID p = Some t"
        and "i \<notin> pm_ID ` set (permissions (tables w))"
        and "tables w' = (tables w)\<lparr>permissions := permissions (tables w) @ [p]\<rparr>"
proof -
  let ?p = "\<lparr>pm_ID = i, pm_Name = name, pm_Section = sec, pm_Description = desc,
    pm_IsSystemPermission = False, pm_TenantID = Some t, pm_CreatedAt = 0, pm_UpdatedAt = 0\<rparr>"
  let ?q = "?p\<lparr>pm_CreatedAt := now, pm_UpdatedAt := now\<rparr>"
  from assms consider e where "r = Inl e" "tables w' = tables w"
    | r1 w1 where "perm_Create now ?p w = (r1, w1)" "r1 = Inr () \<longrightarrow> perm_GetByID i t w1 = (r, w')"
        "\<forall>e. r1 = Inl e \<longrightarrow> r = Inl e \<and> w' = w1"
    unfolding CreatePermission_def by (elim op_bindE) auto
  then show thesis
  proof cases
    case 1
    then show thesis by (rule same)
  next
    case 2
    show thesis
    proof (cases r1)
      case (Inl e)
      with 2 perm_Create_cases [OF 2(1)] show thesis by (intro same) auto
    next
      case (Inr u)
      with 2(2) have "tables w' = tables w1" by (simp add: read_onlyD [OF perm_GetByID_read_only])
      with Inr perm_Create_cases [OF 2(1)] show thesis by (intro new [of ?q]) auto
    qed
  qed
qed

lemma UpdatePermission_cases:
  assumes "UpdatePermission now i t name sec desc w = (r, w')"
  obtains (same) "tables w' = tables w"
    | (new) p where "tables w' = (tables w)\<lparr>permissions :=
        update_where (\<lambda>x. pm_ID x = i \<and> \<not> pm_IsSystemPermission x) (perm_revision now p) (permissions (tables w))\<rparr>"
        and "\<exists>x \<in> set (permissions (tables w)). pm_ID x = i \<and> pm_TenantID x = Some t \<and> \<not> pm_IsSystemPermission x"
proof -
  obtain r1 w1 where g: "perm_GetByID i t w = (r1, w1)" by fastforce
  then have w1: "tables w1 = tables w" by (rule read_onlyD [OF perm_GetByID_read_only])
  show thesis
  proof (cases "tables w' = tables w")
    case True
    then show thesis by (rule same)
  next
    case False
    then obtain p w2 q where p: "r1 = Inr p" "\<not> pm_IsSystemPermission p"
      and u: "perm_Update now (p\<lparr>pm_Name := name, pm_Section := sec, pm_Description := desc\<rparr>) w1 = (q, w2)"
      and w': "tables w' = tables w2"
      using assms g w1 unfolding UpdatePermission_def
      by (elim op_bindE) (auto split: if_splits elim!: op_bindE dest!: read_onlyD [OF perm_GetByID_read_only])
    from g p have "p \<in> set (permissions (tables w)) \<and> pm_ID p = i \<and> perm_visible t p"
      by (auto dest: perm_GetByID_Inr)
    with perm_Update_cases [OF u] p w1 w' False show thesis
      by (intro new) (auto simp: perm_visible_def)
  qed
qed

lemma DeletePermission_cases:
  assumes "DeletePermission now i t w = (r, w')"
  obtains (err) e where "r = Inl e" and "tables w' = tables w"
    | (ok) "r = Inr ()" and "tables w' = erase_permission now i t (tables w)"
        and "\<exists>p \<in> set (permissions (tables w)). deletable i t p"
proof (cases r)
  case (Inl e)
  with assms have "tables w' = tables w"
    by (auto simp: DeletePermission_def perm_Delete_def op_bind_Inl_iff dest!: txn_Inl_db
        read_onlyD [OF perm_GetByID_read_only] split: if_splits)
  with Inl show thesis by (rule err)
next
  case (Inr u)
  with assms show thesis
    by (intro ok) (auto simp: DeletePermission_def perm_Delete_def op_bind_Inr_iff txn_Inr stmt_iffs
        erase_permission_def filter_empty_conv dest!: read_onlyD [OF perm_GetByID_read_only] split: if_splits)
qed

section \<open>Histories\<close>

text \<open>A request to the role or permission endpoints, with the caller's role context and tenant.\<close>

datatype catalog_req =
    ReqCreateRole "string option" string string "string list"
  | ReqUpdateRole string string string "string list"
  | ReqDeleteRole string
  | ReqCreatePermission string string string string
  | ReqUpdatePermission string string string string
  | ReqDeletePermission string

fun catalog_exec :: "time \<Rightarrow> role_context option \<Rightarrow> uuid \<Rightarrow> catalog_req \<Rightarrow> iam_db world \<Rightarrow> iam_db world" where
  "catalog_exec now ctx t (ReqCreateRole rnd name desc ps) w =
     snd (CreateRole pg_catalog now rnd ctx t name desc ps w)"
| "catalog_exec now ctx t (ReqUpdateRole i name desc ps) w =
     snd (UpdateRole pg_catalog now ctx i t (CanSeePlatformInternals ctx) name desc ps w)"
| "catalog_exec now ctx t (ReqDeleteRole i) w =
     snd (DeleteRole now i t (CanSeePlatformInternals ctx) w)"
| "catalog_exec now ctx t (ReqCreatePermission i name sec desc) w =
     snd (CreatePermission now i t name sec desc w)"
| "catalog_exec now ctx t (ReqUpdatePermission i name sec desc) w =
     snd (UpdatePermission now i t name sec desc w)"
| "catalog_exec now ctx t (ReqDeletePermission i) w = snd (DeletePermission now i t w)"

type_synonym catalog_event = "time \<times> role_context option \<times> uuid \<times> catalog_req"

fun catalog_run :: "catalog_event list \<Rightarrow> iam_db world \<Rightarrow> iam_db world" where
  "catalog_run [] w = w"
| "catalog_run ((now, ctx, t, q) # es) w = catalog_run es (catalog_exec now ctx t q w)"

text \<open>The effect of one request on the tables, whatever it answers.\<close>

inductive catalog_effect :: "role_context option \<Rightarrow> uuid \<Rightarrow> iam_db \<Rightarrow> iam_db \<Rightarrow> bool"
  for ctx t d where
  none: "catalog_effect ctx t d d"
| create_role: "catalog_effect ctx t d (d\<lparr>roles := roles d @ [x]\<rparr>)"
    if "ro_TenantID x = Some t" "\<not> ro_IsSystemRole x" "\<not> ro_IsGlobal x" "ro_DeletedAt x = None"
       "length (filter (custom_of t) (roles d)) < MaxCustomRolesPerTenant"
       "\<forall>p \<in> set (ro_Permissions x). perm_known d t p"
       "grantable perm_system d ctx (set (ro_Permissions x))"
       "ro_ID x \<notin> ro_ID ` set (roles d)" "role_names_unique (roles d @ [x])"
| update_role: "catalog_effect ctx t d (d\<lparr>roles := rs\<rparr>)"
    if "old \<in> set (roles d)" "role_visible d t g old" "\<not> ro_IsSystemRole old"
       "\<forall>p \<in> set (ro_Permissions x). perm_known d t p"
       "grantable perm_system d ctx (set (ro_Permissions x) - set (ro_Permissions old))"
       "rs = update_where (\<lambda>y. ro_ID y = ro_ID old \<and> ro_DeletedAt y = None) (role_revision x) (roles d)"
       "role_names_unique rs"
| delete_role: "catalog_effect ctx t d (d\<lparr>roles := update_where (\<lambda>y. ro_ID y = ro_ID old \<and> ro_DeletedAt y = None)
               (\<lambda>r. r\<lparr>ro_DeletedAt := Some now\<rparr>) (roles d)\<rparr>)"
    if "old \<in> set (roles d)" "role_visible d t g old" "\<not> ro_IsSystemRole old"
| create_perm: "catalog_effect ctx t d (d\<lparr>permissions := permissions d @ [p]\<rparr>)"
    if "\<not> pm_IsSystemPermission p" "pm_TenantID p = Some t" "pm_ID p \<notin> pm_ID ` set (permissions d)"
| update_perm: "catalog_effect ctx t d (d\<lparr>permissions :=
        update_where (\<lambda>x. pm_ID x = pm_ID y \<and> \<not> pm_IsSystemPermission x) (perm_revision now p) (permissions d)\<rparr>)"
    if "y \<in> set (permissions d)" "pm_TenantID y = Some t" "\<not> pm_IsSystemPermission y"
| delete_perm: "catalog_effect ctx t d (erase_permission now i t d)"
    if "\<exists>p \<in> set (permissions d). deletable i t p"

lemma catalog_exec_effect: "catalog_effect ctx t (tables w) (tables (catalog_exec now ctx t q w))"
proof (cases q)
  case (ReqCreateRole rnd name desc ps)
  obtain r w' where e: "CreateRole pg_catalog now rnd ctx t name desc ps w = (r, w')" by fastforce
  then show ?thesis
    by (cases rule: pg.CreateRole_cases)
      (use ReqCreateRole e in \<open>auto intro: none create_role\<close>)
next
  case (ReqUpdateRole i name desc ps)
  let ?g = "CanSeePlatformInternals ctx"
  obtain r w' where e: "UpdateRole pg_catalog now ctx i t ?g name desc ps w = (r, w')" by fastforce
  then show ?thesis
  proof (cases rule: pg.UpdateRole_cases)
    case (err f)
    with ReqUpdateRole e show ?thesis by (simp add: none)
  next
    case (ok old x)
    then have "catalog_effect ctx t (tables w) ((tables w)\<lparr>roles :=
        update_where (\<lambda>y. ro_ID y = i \<and> ro_DeletedAt y = None) (role_revision x) (roles (tables w))\<rparr>)"
      by (intro update_role [of old _ _ ?g x]) (simp_all del: update_where_def)
    with ReqUpdateRole e ok show ?thesis by simp
  qed
next
  case (ReqDeleteRole i)
  obtain r w' where e: "DeleteRole now i t (CanSeePlatformInternals ctx) w = (r, w')" by fastforce
  then show ?thesis
    by (cases rule: DeleteRole_cases) (use ReqDeleteRole e in \<open>auto intro: none delete_role\<close>)
next
  case (ReqCreatePermission i name sec desc)
  obtain r w' where e: "CreatePermission now i t name sec desc w = (r, w')" by fastforce
  then show ?thesis
    by (cases rule: CreatePermission_cases) (use ReqCreatePermission e in \<open>auto intro: none create_perm\<close>)
next
  case (ReqUpdatePermission i name sec desc)
  obtain r w' where e: "UpdatePermission now i t name sec desc w = (r, w')" by fastforce
  then show ?thesis
    by (cases rule: UpdatePermission_cases) (use ReqUpdatePermission e in \<open>auto intro: none update_perm\<close>)
next
  case (ReqDeletePermission i)
  obtain r w' where e: "DeletePermission now i t w = (r, w')" by fastforce
  then show ?thesis
    by (cases rule: DeletePermission_cases) (use ReqDeletePermission e in \<open>auto intro: none delete_perm\<close>)
qed

section \<open>Invariants of the histories\<close>

definition custom_perms_known :: "iam_db \<Rightarrow> bool" where
  "custom_perms_known d \<longleftrightarrow>
     (\<forall>r \<in> set (roles d). \<forall>t. \<not> ro_IsSystemRole r \<longrightarrow> ro_TenantID r = Some t \<longrightarrow>
        (\<forall>p \<in> set (ro_Permissions r). perm_known d t p))"

definition role_limit :: "iam_db \<Rightarrow> bool" where
  "role_limit d \<longleftrightarrow> (\<forall>t. length (filter (custom_of t) (roles d)) \<le> MaxCustomRolesPerTenant)"

definition catalog_wf :: "iam_db \<Rightarrow> bool" where
  "catalog_wf d \<longleftrightarrow> iam_wf d \<and> role_names_unique (roles d) \<and>
     (\<forall>r \<in> set (roles d). \<not> ro_IsSystemRole r \<longrightarrow> ro_TenantID r \<noteq> None) \<and>
     role_limit d \<and> custom_perms_known d \<and> distinct (map pm_ID (permissions d))"

lemma role_is_global_keys:
  "role_is_global d r \<longleftrightarrow>
     (\<exists>x \<in> set (map (\<lambda>r. (ro_ID r, ro_IsGlobal r, ro_IsSystemRole r)) (roles d)). Some (fst x) = r \<and> fst (snd x))"
  by (auto simp: role_is_global_def)

lemma iam_wf_same_roles:
  assumes "iam_wf d"
    and k: "map (\<lambda>r. (ro_ID r, ro_IsGlobal r, ro_IsSystemRole r)) (roles d') =
            map (\<lambda>r. (ro_ID r, ro_IsGlobal r, ro_IsSystemRole r)) (roles d)"
    and same: "tenants d' = tenants d" "users d' = users d" "utrs d' = utrs d"
  shows "iam_wf d'"
proof -
  have id: "map ro_ID (roles d') = map ro_ID (roles d)"
    using arg_cong [OF k, of "map fst"] by (simp add: comp_def)
  have "tenant_can_use_role d' t r = tenant_can_use_role d t r" for t r
    unfolding tenant_can_use_role_def role_is_global_keys k is_platform_def same ..
  then have "platform_rule d'" using assms(1) same by (simp add: iam_wf_def platform_rule_def)
  moreover have "utr_refs d'" using assms(1) same arg_cong [OF id, of set]
    by (simp add: iam_wf_def utr_refs_def)
  moreover have "roles_wf d'"
  proof -
    have g: "(\<forall>r \<in> set (roles e). ro_IsGlobal r \<longrightarrow> ro_IsSystemRole r) \<longleftrightarrow>
        (\<forall>x \<in> set (map (\<lambda>r. (ro_ID r, ro_IsGlobal r, ro_IsSystemRole r)) (roles e)). fst (snd x) \<longrightarrow> snd (snd x))"
      for e by simp
    have "(\<forall>r \<in> set (roles d'). ro_IsGlobal r \<longrightarrow> ro_IsSystemRole r) \<longleftrightarrow>
        (\<forall>r \<in> set (roles d). ro_IsGlobal r \<longrightarrow> ro_IsSystemRole r)"
      by (simp only: g [of d'] g [of d] k)
    then show ?thesis using assms(1) id by (simp add: iam_wf_def roles_wf_def)
  qed
  ultimately show ?thesis using assms(1) same by (simp add: iam_wf_def)
qed

lemma iam_wf_update_roles:
  assumes "iam_wf d" "\<And>r. ro_ID (f r) = ro_ID r" "\<And>r. ro_IsGlobal (f r) = ro_IsGlobal r"
    "\<And>r. ro_IsSystemRole (f r) = ro_IsSystemRole r"
  shows "iam_wf (d\<lparr>roles := update_where p f (roles d)\<rparr>)"
  by (rule iam_wf_same_roles [OF assms(1)]) (simp_all add: map_update_where_inv assms)

lemma iam_wf_permissions: "iam_wf d \<Longrightarrow> iam_wf (d\<lparr>permissions := ps\<rparr>)"
  by (rule iam_wf_same_roles) simp_all

lemma iam_wf_add_role:
  assumes "iam_wf d" "ro_ID x \<notin> ro_ID ` set (roles d)" "\<not> ro_IsGlobal x"
  shows "iam_wf (d\<lparr>roles := roles d @ [x]\<rparr>)"
proof -
  let ?d = "d\<lparr>roles := roles d @ [x]\<rparr>"
  have "tenant_can_use_role ?d t r = tenant_can_use_role d t r" for t r
    using assms(3) by (auto simp: tenant_can_use_role_def role_is_global_def is_platform_def)
  then show ?thesis using assms by (auto simp: iam_wf_def platform_rule_def utr_refs_def roles_wf_def)
qed

lemma role_names_unique_keys:
  "role_names_unique rs \<longleftrightarrow> distinct (map (\<lambda>k. (fst k, fst (snd k)))
     (filter (\<lambda>k. fst k \<noteq> None \<and> \<not> fst (snd (snd k)) \<and> snd (snd (snd k)) = None)
       (map (\<lambda>r. (ro_TenantID r, ro_Name r, ro_IsSystemRole r, ro_DeletedAt r)) rs)))"
  by (simp add: role_names_unique_def filter_map comp_def)

lemma role_names_unique_delete:
  assumes "role_names_unique rs"
  shows "role_names_unique (update_where p (\<lambda>r. r\<lparr>ro_DeletedAt := Some now\<rparr>) rs)"
proof -
  let ?q = "\<lambda>r. ro_TenantID r \<noteq> None \<and> \<not> ro_IsSystemRole r \<and> ro_DeletedAt r = None"
  have "filter ?q (update_where p (\<lambda>r. r\<lparr>ro_DeletedAt := Some now\<rparr>) rs) = filter (\<lambda>r. \<not> p r) (filter ?q rs)"
    by (induction rs) auto
  then show ?thesis using assms unfolding role_names_unique_def by (simp only: distinct_map_filter)
qed

lemma custom_of_update:
  assumes "\<And>r. custom_of t (f r) \<Longrightarrow> custom_of t r"
  shows "length (filter (custom_of t) (update_where p f rs)) \<le> length (filter (custom_of t) rs)"
  by (induction rs) (auto dest: assms)

lemma catalog_effect_iam_wf: "catalog_effect ctx t d d' \<Longrightarrow> iam_wf d \<Longrightarrow> iam_wf d'"
proof (induction rule: catalog_effect.induct)
  case (delete_perm i now)
  then show ?case
    using iam_wf_update_roles [OF iam_wf_permissions [OF delete_perm(2)]]
    by (simp add: erase_permission_def)
qed (simp_all add: iam_wf_add_role iam_wf_update_roles iam_wf_permissions role_revision_def)

lemma catalog_effect_names:
  "catalog_effect ctx t d d' \<Longrightarrow> role_names_unique (roles d) \<Longrightarrow> role_names_unique (roles d')"
proof (induction rule: catalog_effect.induct)
  case (delete_perm i now)
  then show ?case by (simp add: erase_permission_def role_names_unique_keys map_update_where_inv)
qed (simp_all add: role_names_unique_delete)

lemma catalog_effect_tenant:
  assumes "catalog_effect ctx t d d'" "\<forall>r \<in> set (roles d). \<not> ro_IsSystemRole r \<longrightarrow> ro_TenantID r \<noteq> None"
  shows "\<forall>r \<in> set (roles d'). \<not> ro_IsSystemRole r \<longrightarrow> ro_TenantID r \<noteq> None"
  using assms by (induction rule: catalog_effect.induct)
    (auto simp: in_update_where role_revision_def erase_permission_def)

lemma catalog_effect_limit:
  assumes "catalog_effect ctx t d d'" and "role_limit d"
  shows "role_limit d'"
  using assms
proof (induction rule: catalog_effect.induct)
  case (create_role x)
  then show ?case by (auto simp: role_limit_def custom_of_def)
next
  case (update_role old g x rs)
  have "length (filter (custom_of t') rs) \<le> length (filter (custom_of t') (roles d))" for t'
    unfolding update_role(6) by (rule custom_of_update) (simp add: role_revision_def custom_of_def)
  with update_role(8) show ?case by (simp add: role_limit_def) (meson order_trans)
next
  case (delete_role old g now)
  then show ?case unfolding role_limit_def
    by (auto intro!: order_trans [OF custom_of_update] simp: custom_of_def)
next
  case (delete_perm i now)
  then show ?case unfolding role_limit_def erase_permission_def
    by (auto intro!: order_trans [OF custom_of_update] simp: custom_of_def)
qed (simp_all add: role_limit_def)

lemma perm_known_simps [simp]:
  "perm_known (d\<lparr>roles := rs\<rparr>) t p = perm_known d t p"
  "perm_known (d\<lparr>permissions := permissions d @ [x]\<rparr>) t p \<longleftrightarrow>
     perm_known d t p \<or> pm_ID x = p \<and> perm_visible t x"
  by (auto simp: perm_known_def)

lemma perm_keys:
  "perm_known d t i \<longleftrightarrow> (\<exists>k \<in> set (map (\<lambda>p. (pm_ID p, pm_TenantID p, pm_IsSystemPermission p)) (permissions d)).
     fst k = i \<and> (fst (snd k) = Some t \<or> snd (snd k)))"
  "perm_system d i \<longleftrightarrow> (\<exists>k \<in> set (map (\<lambda>p. (pm_ID p, pm_TenantID p, pm_IsSystemPermission p)) (permissions d)).
     fst k = i \<and> snd (snd k))"
  by (auto simp: perm_known_def perm_visible_def perm_system_def)

lemma perm_keys_update:
  "map (\<lambda>p. (pm_ID p, pm_TenantID p, pm_IsSystemPermission p)) (update_where h (perm_revision now q) ps) =
   map (\<lambda>p. (pm_ID p, pm_TenantID p, pm_IsSystemPermission p)) ps"
  by (rule map_update_where_inv) (simp add: perm_revision_def)

lemma perm_known_update [simp]:
  "perm_known (d\<lparr>permissions := update_where h (perm_revision now q) (permissions d)\<rparr>) = perm_known d"
  "perm_system (d\<lparr>permissions := update_where h (perm_revision now q) (permissions d)\<rparr>) = perm_system d"
  by (simp_all add: fun_eq_iff perm_keys perm_keys_update del: set_map)

lemma catalog_effect_known:
  assumes "catalog_effect ctx t d d'" and "roles_wf d" and "custom_perms_known d"
    and "\<forall>r \<in> set (roles d). \<not> ro_IsSystemRole r \<longrightarrow> ro_TenantID r \<noteq> None"
  shows "custom_perms_known d'"
  using assms
proof (induction rule: catalog_effect.induct)
  case (update_role old g x rs)
  have t: "ro_TenantID old = Some t" using update_role by (auto simp: role_visible_def)
  have "r = old" if "r \<in> set (roles d)" "ro_ID r = ro_ID old" for r
    using update_role(1,8) that by (auto simp: roles_wf_def distinct_map dest: inj_onD)
  then have "ro_TenantID r = Some t" if "r \<in> set (roles d)" "ro_ID r = ro_ID old" for r
    using t that by blast
  then show ?case using update_role(4,6,9)
    by (auto simp: custom_perms_known_def in_update_where role_revision_def split: if_splits)
next
  case (delete_role old g now)
  then show ?case by (auto simp: custom_perms_known_def in_update_where split: if_splits)
next
  case (update_perm y now p)
  then show ?case by (auto simp: custom_perms_known_def)
next
  case (delete_perm i now)
  have keep: "perm_known (erase_permission now i t d) t' q"
    if "perm_known d t' q" "\<not> (t' = t \<and> q = i)" for t' q
    using that by (auto simp: perm_known_def erase_permission_def deletable_def perm_visible_def)
  show ?case unfolding custom_perms_known_def
  proof (intro ballI allI impI)
    fix r' t' q
    assume r': "r' \<in> set (roles (erase_permission now i t d))" "\<not> ro_IsSystemRole r'"
      "ro_TenantID r' = Some t'" "q \<in> set (ro_Permissions r')"
    then obtain r where r0: "r \<in> set (roles d)" and e: "r' = (if ro_TenantID r = Some t \<and> i \<in> set (ro_Permissions r)
        then r\<lparr>ro_Permissions := filter (\<lambda>q. q \<noteq> i) (ro_Permissions r), ro_UpdatedAt := now\<rparr> else r)"
      by (auto simp: erase_permission_def in_update_where)
    have r: "\<not> ro_IsSystemRole r" "ro_TenantID r = Some t'" "q \<in> set (ro_Permissions r)" "\<not> (t' = t \<and> q = i)"
      using r'(2-4) unfolding e by (auto split: if_splits)
    then have "perm_known d t' q" using r0 delete_perm(3) by (auto simp: custom_perms_known_def)
    with r(4) show "perm_known (erase_permission now i t d) t' q" by (intro keep)
  qed
qed (auto simp: custom_perms_known_def)

lemma catalog_effect_perm_ids:
  "catalog_effect ctx t d d' \<Longrightarrow> distinct (map pm_ID (permissions d)) \<Longrightarrow> distinct (map pm_ID (permissions d'))"
  by (induction rule: catalog_effect.induct)
    (simp_all add: map_update_where_inv perm_revision_def erase_permission_def distinct_map_filter)

lemma catalog_effect_wf: "catalog_effect ctx t d d' \<Longrightarrow> catalog_wf d \<Longrightarrow> catalog_wf d'"
  unfolding catalog_wf_def
  using catalog_effect_iam_wf catalog_effect_names catalog_effect_tenant catalog_effect_limit
    catalog_effect_known catalog_effect_perm_ids by (simp add: iam_wf_def)

lemma catalog_run_wf: "catalog_wf (tables w) \<Longrightarrow> catalog_wf (tables (catalog_run es w))"
  by (induction es w rule: catalog_run.induct) (auto intro: catalog_effect_wf catalog_exec_effect)

lemma catalog_effect_system: "catalog_effect ctx t d d' \<Longrightarrow> perm_system d' p = perm_system d p"
  by (induction rule: catalog_effect.induct)
    (auto simp: perm_system_def [of "_\<lparr>permissions := _ @ _\<rparr>"] perm_system_def [of "_\<lparr>roles := _\<rparr>"]
      perm_system_def [of d] perm_system_def [of "erase_permission _ _ _ _"] erase_permission_def deletable_def)

text \<open>Some custom role of the tenant lists the permission.\<close>

definition custom_carries :: "iam_db \<Rightarrow> uuid \<Rightarrow> string \<Rightarrow> bool" where
  "custom_carries d t p \<longleftrightarrow>
     (\<exists>r \<in> set (roles d). \<not> ro_IsSystemRole r \<and> ro_TenantID r = Some t \<and> p \<in> set (ro_Permissions r))"

definition holds_permission :: "role_context option \<Rightarrow> string \<Rightarrow> bool" where
  "holds_permission ctx p \<longleftrightarrow>
     CanSeePlatformInternals ctx \<or> p \<in> set (rc_Permissions (RoleContextFromContext ctx))"

lemma update_role_owner:
  assumes "catalog_wf d" "old \<in> set (roles d)" "role_visible d t g old" "\<not> ro_IsSystemRole old"
    and "r \<in> set (roles d)" "ro_ID r = ro_ID old"
  shows "r = old \<and> ro_TenantID r = Some t"
proof -
  have "inj_on ro_ID (set (roles d))" using assms(1) by (simp add: catalog_wf_def iam_wf_def roles_wf_def distinct_map)
  then have "r = old" using assms by (auto dest: inj_onD)
  moreover have "ro_TenantID old = Some t" using assms(1-4) by (auto simp: catalog_wf_def role_visible_def)
  ultimately show ?thesis by simp
qed

lemma custom_carries_update:
  assumes "custom_carries (d\<lparr>roles := update_where h f (roles d)\<rparr>) t p"
    and "\<And>r. ro_IsSystemRole (f r) = ro_IsSystemRole r" "\<And>r. ro_TenantID (f r) = ro_TenantID r"
    and "\<And>r. set (ro_Permissions (f r)) \<subseteq> set (ro_Permissions r)"
  shows "custom_carries d t p"
proof -
  obtain r where "r \<in> set (roles d)" "\<not> ro_IsSystemRole (if h r then f r else r)"
    "ro_TenantID (if h r then f r else r) = Some t" "p \<in> set (ro_Permissions (if h r then f r else r))"
    using assms(1) by (auto simp: custom_carries_def in_update_where)
  with assms(2-4) show ?thesis
    unfolding custom_carries_def by (intro bexI [of _ r]) (auto split: if_splits)
qed

lemma catalog_effect_carries:
  assumes "catalog_effect ctx t d d'" and "catalog_wf d" and "perm_system d p"
    and "custom_carries d' t' p" and "\<not> custom_carries d t' p"
  shows "t' = t \<and> holds_permission ctx p"
  using assms
proof (induction rule: catalog_effect.induct)
  case (create_role x)
  then show ?case by (auto simp: custom_carries_def grantable_def holds_permission_def)
next
  case (update_role old g x rs)
  note own = update_role_owner [OF update_role(8,1,2,3)]
  from update_role(10) obtain r where r: "r \<in> set (roles d)"
    and e: "\<not> ro_IsSystemRole r" "ro_TenantID r = Some t'"
      "p \<in> set (ro_Permissions (if ro_ID r = ro_ID old \<and> ro_DeletedAt r = None then role_revision x r else r))"
    unfolding custom_carries_def update_role(6)
    by (auto simp: in_update_where role_revision_def split: if_splits)
  have n: "p \<notin> set (ro_Permissions r)" using update_role(11) r e(1,2) by (auto simp: custom_carries_def)
  with e(3) have "ro_ID r = ro_ID old" and px: "p \<in> set (ro_Permissions x)"
    by (auto simp: role_revision_def split: if_splits)
  with own [OF r] e n update_role(5,9) show ?case
    by (auto simp: grantable_def holds_permission_def)
next
  case (delete_role old g now)
  from custom_carries_update [OF delete_role(6)] delete_role(7) show ?case by simp
next
  case (delete_perm i now)
  have "custom_carries (d\<lparr>roles := roles (erase_permission now i t d)\<rparr>) t' p"
    using delete_perm(4) by (simp add: custom_carries_def)
  then have "custom_carries d t' p" unfolding erase_permission_def
    by simp (erule custom_carries_update, auto)
  with delete_perm(5) show ?case by simp
qed (auto simp: custom_carries_def)

lemma catalog_run_carries:
  assumes "catalog_wf (tables w)" and "perm_system (tables w) p"
    and "custom_carries (tables (catalog_run es w)) t p" and "\<not> custom_carries (tables w) t p"
  shows "\<exists>now ctx q. (now, ctx, t, q) \<in> set es \<and> holds_permission ctx p"
  using assms
proof (induction es w rule: catalog_run.induct)
  case (2 now ctx t' q es w)
  let ?w = "catalog_exec now ctx t' q w"
  note eff = catalog_exec_effect [of ctx t' w now q]
  show ?case
  proof (cases "custom_carries (tables ?w) t p")
    case True
    with catalog_effect_carries [OF eff 2(2,3)] 2(5) show ?thesis by auto
  next
    case False
    with 2 catalog_effect_wf [OF eff] catalog_effect_system [OF eff, of p] show ?thesis by fastforce
  qed
qed simp

text \<open>What a tenant's requests cannot touch.\<close>

definition foreign :: "uuid \<Rightarrow> iam_db \<Rightarrow> role list \<times> permission list" where
  "foreign t d = (filter (\<lambda>r. ro_TenantID r \<noteq> Some t) (roles d),
     filter (\<lambda>p. pm_TenantID p \<noteq> Some t) (permissions d))"

lemma filter_update_where_cong:
  assumes "\<And>x. x \<in> set xs \<Longrightarrow> p x \<Longrightarrow> \<not> q x \<and> \<not> q (f x)"
  shows "filter q (update_where p f xs) = filter q xs"
  using assms by (induction xs) auto

lemma catalog_effect_foreign:
  assumes "catalog_effect ctx t d d'" and "catalog_wf d"
  shows "foreign t d' = foreign t d \<and> utrs d' = utrs d \<and> users d' = users d \<and> tenants d' = tenants d"
  using assms
proof (induction rule: catalog_effect.induct)
  case (update_role old g x rs)
  note own = update_role_owner [OF update_role(8,1,2,3)]
  show ?case unfolding update_role(6) foreign_def
    by (auto intro!: filter_update_where_cong dest!: own simp: role_revision_def)
next
  case (delete_role old g now)
  note own = update_role_owner [OF delete_role(4,1,2,3)]
  show ?case unfolding foreign_def by (auto intro!: filter_update_where_cong dest!: own)
next
  case (update_perm y now p)
  have own: "x = y" if "pm_ID x = pm_ID y" "x \<in> set (permissions d)" for x
    using update_perm(1,4) that by (auto simp: catalog_wf_def distinct_map dest: inj_onD)
  show ?case using update_perm(2) unfolding foreign_def
    by (auto intro!: filter_update_where_cong dest!: own simp: perm_revision_def)
next
  case (delete_perm i now)
  then show ?case unfolding foreign_def erase_permission_def
    by (auto intro!: filter_update_where_cong simp: deletable_def intro: filter_cong)
qed (auto simp: foreign_def)

lemma catalog_run_foreign:
  assumes "catalog_wf (tables w)" and "\<forall>(now, ctx, t', q) \<in> set es. t' = t"
  shows "foreign t (tables (catalog_run es w)) = foreign t (tables w)"
  using assms
proof (induction es w rule: catalog_run.induct)
  case (2 now ctx t' q es w)
  note eff = catalog_exec_effect [of ctx t' w now q]
  from 2 catalog_effect_wf [OF eff] catalog_effect_foreign [OF eff] show ?case by simp
qed simp

section \<open>Properties\<close>

text \<open>C8. Every history of requests to the role and permission endpoints, of any tenants and callers and
  with any outages, keeps the tables in order: the names of a tenant's custom roles differ, no tenant
  has more than three of them, a custom role lists only permissions that exist for its tenant (also
  after permissions are deleted), and the rules on memberships stay intact.\<close>

theorem catalog_histories_wf:
  assumes "catalog_wf (tables w)"
  shows "catalog_wf (tables (catalog_run es w))"
  by (rule catalog_run_wf [OF assms])


text \<open>A tenant's requests to these endpoints touch nothing but its own custom roles and permissions:
  system roles, system permissions and the rows of other tenants are the same rows afterwards.\<close>

theorem catalog_frame:
  assumes "catalog_wf (tables w)" and "\<forall>(now, ctx, t', q) \<in> set es. t' = t"
  shows "filter (\<lambda>r. ro_TenantID r \<noteq> Some t) (roles (tables (catalog_run es w))) =
      filter (\<lambda>r. ro_TenantID r \<noteq> Some t) (roles (tables w)) \<and>
    filter (\<lambda>x. pm_TenantID x \<noteq> Some t) (permissions (tables (catalog_run es w))) =
      filter (\<lambda>x. pm_TenantID x \<noteq> Some t) (permissions (tables w))"
  using catalog_run_foreign [OF assms] by (simp add: foreign_def)

text \<open>Deleting a permission is all or nothing: either the permission is gone and no role of the
  tenant lists it, or nothing changed, whichever statement of the transaction fails.\<close>

theorem DeletePermission_atomic:
  "(case DeletePermission now i t w of
      (Inl e, w') \<Rightarrow> tables w' = tables w
    | (Inr _, w') \<Rightarrow> \<not> (\<exists>p \<in> set (permissions (tables w')). deletable i t p) \<and>
        \<not> (\<exists>r \<in> set (roles (tables w')). ro_TenantID r = Some t \<and> i \<in> set (ro_Permissions r)))"
proof -
  obtain r w' where e: "DeletePermission now i t w = (r, w')" by fastforce
  then show ?thesis
  proof (cases rule: DeletePermission_cases)
    case ok
    have "\<not> (ro_TenantID r = Some t \<and> i \<in> set (ro_Permissions r))" if "r \<in> set (roles (tables w'))" for r
      by (rule update_where_done [OF _ that [unfolded ok(2) erase_permission_def, simplified]]) simp
    moreover have "\<not> (\<exists>p \<in> set (permissions (tables w')). deletable i t p)"
      unfolding ok(2) erase_permission_def by simp
    ultimately show ?thesis by (simp add: e ok(1))
  qed (simp add: e)
qed

text \<open>A name that \<open>validatePermissionFields\<close> accepts can still be too short for the database: the
  code counts bytes and the CHECK of the table counts characters, so a two-letter name with accents
  passes validation and the request ends in an internal error instead of a validation error.\<close>

theorem short_name_internal_error:
  assumes "validatePermissionFields name sec description = Inr ()" and "char_length name < 3"
  shows "fst (CreatePermission now i t name sec description (live d)) = Inl Internal"
  using assms by (simp add: CreatePermission_def perm_Create_def stmt_def perm_checks_def op_bind_def)

section \<open>Instances\<close>

definition perm_row :: "string \<Rightarrow> permission" where
  "perm_row i = \<lparr>pm_ID = i, pm_Name = i, pm_Section = ''s'', pm_Description = ''d'',
     pm_IsSystemPermission = True, pm_TenantID = None, pm_CreatedAt = 0, pm_UpdatedAt = 0\<rparr>"

definition system_role_row :: role where
  "system_role_row = \<lparr>ro_ID = ''cliente_admin'', ro_Name = ''Client admin'', ro_Description = [],
     ro_Permissions = [''perm_users_manage''], ro_IsSystemRole = True, ro_IsGlobal = False,
     ro_TenantID = None, ro_CreatedAt = 0, ro_UpdatedAt = 0, ro_DeletedAt = None\<rparr>"

text \<open>One client's tenant: a system role that may manage users, and no custom roles yet.\<close>

definition catalog_db :: iam_db where
  "catalog_db = \<lparr>tenants = [], roles = [system_role_row],
     permissions = [perm_row ''perm_users_manage'', perm_row ''perm_tenants_manage''],
     users = [], utrs = [], invitations = []\<rparr>"

definition client_admin_context :: "role_context option" where
  "client_admin_context = Some \<lparr>rc_Name = ''cliente_admin'', rc_Permissions = [''perm_users_manage''],
     rc_IsGlobal = False\<rparr>"

lemma catalog_db_wf: "catalog_wf catalog_db"
  by (simp add: catalog_wf_def iam_wf_defs catalog_db_def system_role_row_def perm_row_def role_names_unique_def
      role_limit_def custom_of_def custom_perms_known_def)

theorem catalog_histories_wf_instance:
  "catalog_wf (tables (catalog_run
     [(5, client_admin_context, 7, ReqCreateRole (Some ''abc'') ''Clerk'' [] [''perm_users_manage'']),
      (6, client_admin_context, 7, ReqDeletePermission ''x'')] (live catalog_db)))"
  by (rule catalog_histories_wf) (simp add: catalog_db_wf)

lemma live_catalog_db: "tables (live catalog_db) = catalog_db" "catalog_wf (tables (live catalog_db))"
  by (simp_all add: catalog_db_wf)


theorem catalog_frame_instance:
  "filter (\<lambda>r. ro_TenantID r \<noteq> Some 7) (roles (tables (catalog_run
     [(5, client_admin_context, 7, ReqDeleteRole ''cliente_admin'')] (live catalog_db)))) = [system_role_row]"
proof -
  have "filter (\<lambda>r. ro_TenantID r \<noteq> Some 7) (roles catalog_db) = [system_role_row]"
    by (simp add: catalog_db_def system_role_row_def)
  moreover have "filter (\<lambda>r. ro_TenantID r \<noteq> Some 7) (roles (tables (catalog_run
     [(5, client_admin_context, 7, ReqDeleteRole ''cliente_admin'')] (live catalog_db)))) =
     filter (\<lambda>r. ro_TenantID r \<noteq> Some 7) (roles (tables (live catalog_db)))"
    by (rule conjunct1 [OF catalog_frame [OF live_catalog_db(2)]]) simp
  ultimately show ?thesis by simp
qed

text \<open>The name of two accented letters.\<close>

definition two_letters :: string where
  "two_letters = [CHR 0xC3, CHR 0xB1, CHR 0xC3, CHR 0xA9]"

lemma two_letters_trim: "trim_space two_letters = two_letters" "trim_space ''s'' = ''s''"
  by (rule trim_space_id; code_simp)+

theorem short_name_internal_error_instance:
  "fst (CreatePermission 5 ''id'' 7 two_letters ''s'' ''s'' (live catalog_db)) = Inl Internal"
  by (rule short_name_internal_error)
    (simp add: validatePermissionFields_def two_letters_trim two_letters_def [THEN arg_cong [of _ _ length]],
     code_simp)

text \<open>The client's admin asks for \<open>platform_admin\<close>, which exists.\<close>

theorem hidden_role_is_absent_instance:
  "fst (UpdateRole pg_catalog 5 client_admin_context ''platform_admin'' 2 False ''x'' [] [] (live two_tenants)) =
     Inl ErrRoleNotFound"
proof -
  have "role_hidden (tables (live two_tenants)) 2 False ''platform_admin''"
    by (simp add: role_hidden_def two_tenants_def samples role_visible_def)
  from hidden_role_is_absent [OF this] show ?thesis by simp
qed

theorem DeleteRole_exact_instance:
  "fst (DeleteRole 5 ''cliente_admin'' 2 False (live two_tenants)) \<noteq> Inr ()"
proof -
  have "distinct (map ro_ID (roles two_tenants))" by (simp add: two_tenants_def samples)
  note exact = conjunct1 [OF DeleteRole_exact [OF this]]
  show ?thesis unfolding exact by (simp add: two_tenants_def samples)
qed

end
