(* ===== verification/UserRoles.thy ===== *)
theory UserRoles
  imports Permissions
begin

text \<open>
  Memberships: the statements of \<open>internal/repo/pg/user_roles\<close> with their cloaking predicates, the
  six use cases of \<open>internal/api/usecases/user_roles\<close> and the decisions of their handlers. A user
  who holds a membership with a global role is a platform identity: callers other than super_admin
  must not learn that it exists.
\<close>

section \<open>Repository\<close>

text \<open>\<open>COALESCE(r.is_global, FALSE) = FALSE OR includeGlobal\<close> over the left join with roles.\<close>

definition utr_visible :: "iam_db \<Rightarrow> bool \<Rightarrow> user_tenant_role \<Rightarrow> bool" where
  "utr_visible d includeGlobal u \<longleftrightarrow> \<not> role_is_global d (ut_RoleID u) \<or> includeGlobal"

definition platform_identity :: "iam_db \<Rightarrow> uuid \<Rightarrow> bool" where
  "platform_identity d userID \<longleftrightarrow>
     (\<exists>v \<in> set (utrs d). ut_UserID v = userID \<and> ut_Status v \<noteq> UTRRevoked \<and> role_is_global d (ut_RoleID v))"

fun utr_status_text :: "user_role_status \<Rightarrow> string" where
  "utr_status_text UTRActive = ''active''"
| "utr_status_text UTRPending = ''pending''"
| "utr_status_text UTRRevoked = ''revoked''"
| "utr_status_text UTRSuspended = ''suspended''"

record utr_detail =
  ud_utr :: user_tenant_role
  ud_RoleName :: string
  ud_UserEmail :: string
  ud_UserName :: "string option"
  ud_UserFirstName :: "string option"
  ud_UserLastName :: "string option"

text \<open>The row of roles that a left join on the primary key finds.\<close>

definition role_of :: "iam_db \<Rightarrow> string option \<Rightarrow> role option" where
  "role_of d r = find (\<lambda>x. Some (ro_ID x) = r) (roles d)"

definition utr_FindByTenant :: "uuid \<Rightarrow> string option \<Rightarrow> bool \<Rightarrow> utr_detail list iam_op" where
  "utr_FindByTenant tenantID status includeGlobal =
     query Internal (\<lambda>d. Inr
       [\<lparr>ud_utr = x, ud_RoleName = (case role_of d (ut_RoleID x) of None \<Rightarrow> [] | Some r \<Rightarrow> ro_Name r),
          ud_UserEmail = us_email y, ud_UserName = us_name y, ud_UserFirstName = us_first_name y,
          ud_UserLastName = us_last_name y\<rparr>.
        x \<leftarrow> sort_desc ut_CreatedAt (utrs d), y \<leftarrow> users d,
        us_id y = ut_UserID x \<and> ut_TenantID x = tenantID \<and> utr_visible d includeGlobal x \<and>
        (case status of None \<Rightarrow> True | Some s \<Rightarrow> utr_status_text (ut_Status x) = s)])"

definition utr_FindByID :: "uuid \<Rightarrow> bool \<Rightarrow> user_tenant_role option iam_op" where
  "utr_FindByID i includeGlobal =
     query Internal (\<lambda>d. Inr (find (\<lambda>u. ut_ID u = i \<and> utr_visible d includeGlobal u) (utrs d)))"

definition checkRoleAllowedForTenant :: "string \<Rightarrow> uuid \<Rightarrow> bool \<Rightarrow> unit iam_op" where
  "checkRoleAllowedForTenant roleID tenantID includeGlobal =
     op_bind (query Internal (\<lambda>d. first_row ErrInvalidRoleID
       [tenant_can_use_role d tenantID (ro_ID r). r \<leftarrow> roles d,
          ro_ID r = roleID \<and> ro_DeletedAt r = None \<and>
          (ro_TenantID r = Some tenantID \<or> ro_TenantID r = None) \<and> (\<not> ro_IsGlobal r \<or> includeGlobal)]))
     (\<lambda>allowed. if \<not> allowed then op_fail ErrRoleNotAllowedForTenant else op_ret ())"

definition hasVisibleActiveAssignment :: "uuid \<Rightarrow> uuid \<Rightarrow> bool \<Rightarrow> bool iam_op" where
  "hasVisibleActiveAssignment userID tenantID includeGlobal =
     query Internal (\<lambda>d. Inr (\<exists>u \<in> set (utrs d). active_of userID tenantID u \<and> utr_visible d includeGlobal u))"

definition resolveActiveUniqueViolation :: "uuid \<Rightarrow> uuid \<Rightarrow> bool \<Rightarrow> 'a iam_op" where
  "resolveActiveUniqueViolation userID tenantID includeGlobal =
     op_bind (hasVisibleActiveAssignment userID tenantID includeGlobal) (\<lambda>visible.
     op_fail (if visible then ErrUserAlreadyHasActiveRole else ErrInvalidUserID))"

definition mapForeignKeyViolation :: "string \<Rightarrow> iam_err option" where
  "mapForeignKeyViolation constraint =
     (if constraint = ''user_tenant_roles_role_id_fkey'' then Some ErrInvalidRoleID
      else if constraint = ''user_tenant_roles_user_id_fkey'' then Some ErrInvalidUserID
      else None)"

text \<open>\<open>CreateQuery\<close>: the guard on platform identities leaves zero rows to insert.\<close>

definition CreateQuery ::
  "time \<Rightarrow> user_tenant_role \<Rightarrow> bool \<Rightarrow> (iam_db world, pg_err, user_tenant_role) oper"
where
  "CreateQuery now u includeGlobal =
     stmt PgOther (\<lambda>d. if includeGlobal \<or> \<not> platform_identity d (ut_UserID u)
       then insert_utr (u\<lparr>ut_CreatedAt := now, ut_UpdatedAt := now\<rparr>) d else (Inl NoRows, d))"

definition utr_Create :: "time \<Rightarrow> user_tenant_role \<Rightarrow> bool \<Rightarrow> user_tenant_role iam_op" where
  "utr_Create now u includeGlobal =
     op_bind (case ut_RoleID u of None \<Rightarrow> op_ret ()
              | Some r \<Rightarrow> checkRoleAllowedForTenant r (ut_TenantID u) includeGlobal) (\<lambda>_.
     op_try (CreateQuery now u includeGlobal)
       (\<lambda>e. case e of
              NoRows \<Rightarrow> op_fail ErrInvalidUserID
            | UniqueViolation _ \<Rightarrow> resolveActiveUniqueViolation (ut_UserID u) (ut_TenantID u) includeGlobal
            | ForeignKeyViolation c \<Rightarrow>
                op_fail (case mapForeignKeyViolation c of Some m \<Rightarrow> m | None \<Rightarrow> Internal)
            | CheckViolation \<Rightarrow> op_fail ErrRoleNotAllowedForTenant
            | PgOther \<Rightarrow> op_fail Internal)
       op_ret)"

definition UpdateQuery ::
  "time \<Rightarrow> string option \<Rightarrow> uuid \<Rightarrow> bool \<Rightarrow> (iam_db world, pg_err, user_tenant_role) oper"
where
  "UpdateQuery now roleID i includeGlobal =
     stmt PgOther (\<lambda>d.
       let hit = (\<lambda>u. ut_ID u = i \<and> utr_visible d includeGlobal u \<and>
                   (includeGlobal \<or> \<not> platform_identity d (ut_UserID u)));
           f = (\<lambda>u. u\<lparr>ut_RoleID := roleID, ut_UpdatedAt := now\<rparr>)
       in case filter hit (utrs d) of
            [] \<Rightarrow> (Inl NoRows, d)
          | u # _ \<Rightarrow>
              (case enforce_platform_role_tenant d (f u) of Some e \<Rightarrow> (Inl e, d)
               | None \<Rightarrow>
                 if (case roleID of None \<Rightarrow> False | Some r \<Rightarrow> r \<notin> ro_ID ` set (roles d)) then
                   (Inl (ForeignKeyViolation ''user_tenant_roles_role_id_fkey''), d)
                 else (Inr (f u), d\<lparr>utrs := update_where hit f (utrs d)\<rparr>)))"

definition utr_Update :: "time \<Rightarrow> user_tenant_role \<Rightarrow> bool \<Rightarrow> user_tenant_role option iam_op" where
  "utr_Update now u includeGlobal =
     op_bind (case ut_RoleID u of None \<Rightarrow> op_ret ()
              | Some r \<Rightarrow> checkRoleAllowedForTenant r (ut_TenantID u) includeGlobal) (\<lambda>_.
     op_try (UpdateQuery now (ut_RoleID u) (ut_ID u) includeGlobal)
       (\<lambda>e. case e of
              NoRows \<Rightarrow> op_ret None
            | ForeignKeyViolation c \<Rightarrow>
                op_fail (case mapForeignKeyViolation c of Some m \<Rightarrow> m | None \<Rightarrow> Internal)
            | CheckViolation \<Rightarrow> op_fail ErrRoleNotAllowedForTenant
            | _ \<Rightarrow> op_fail Internal)
       (\<lambda>x. op_ret (Some x)))"

definition utr_Revoke :: "time \<Rightarrow> uuid \<Rightarrow> uuid \<Rightarrow> bool \<Rightarrow> user_tenant_role option iam_op" where
  "utr_Revoke now i tenantID includeGlobal =
     stmt Internal (\<lambda>d.
       let hit = (\<lambda>u. ut_ID u = i \<and> ut_TenantID u = tenantID \<and> utr_visible d includeGlobal u);
           f = (\<lambda>u. u\<lparr>ut_Status := UTRRevoked, ut_UpdatedAt := now\<rparr>)
       in case filter hit (utrs d) of
            [] \<Rightarrow> (Inr None, d)
          | u # _ \<Rightarrow> (Inr (Some (f u)), d\<lparr>utrs := update_where hit f (utrs d)\<rparr>))"

text \<open>
  \<open>BulkCreate\<close>: a conflict is looked up through the pool, outside the transaction, where the
  rows the transaction has inserted are not visible.
\<close>

definition outside_tx :: "'d \<Rightarrow> ('d world, 'e, 'a) oper \<Rightarrow> ('d world, 'e, 'a) oper" where
  "outside_tx d m w = (case m (w\<lparr>tables := d\<rparr>) of (r, w') \<Rightarrow> (r, w'\<lparr>tables := tables w\<rparr>))"

definition bulk_error :: "iam_db \<Rightarrow> bool \<Rightarrow> user_tenant_role \<Rightarrow> pg_err \<Rightarrow> user_tenant_role iam_op" where
  "bulk_error d0 includeGlobal u e =
     (case e of
        NoRows \<Rightarrow> op_fail (ForUser ErrInvalidUserID (ut_UserID u))
      | UniqueViolation _ \<Rightarrow>
          op_try (outside_tx d0 (resolveActiveUniqueViolation (ut_UserID u) (ut_TenantID u) includeGlobal))
            (\<lambda>f. op_fail (ForUser f (ut_UserID u))) op_ret
      | ForeignKeyViolation c \<Rightarrow>
          op_fail (case mapForeignKeyViolation c of Some m \<Rightarrow> ForUser m (ut_UserID u) | None \<Rightarrow> Internal)
      | CheckViolation \<Rightarrow> op_fail (ForUser ErrRoleNotAllowedForTenant (ut_UserID u))
      | PgOther \<Rightarrow> op_fail Internal)"

fun bulk_create :: "iam_db \<Rightarrow> time \<Rightarrow> bool \<Rightarrow> user_tenant_role list \<Rightarrow> user_tenant_role list iam_op" where
  "bulk_create d0 now includeGlobal [] = op_ret []"
| "bulk_create d0 now includeGlobal (u # us) =
     op_bind (op_try (CreateQuery now u includeGlobal) (bulk_error d0 includeGlobal u) op_ret) (\<lambda>x.
     op_bind (bulk_create d0 now includeGlobal us) (\<lambda>xs. op_ret (x # xs)))"

definition BulkCreate :: "time \<Rightarrow> user_tenant_role list \<Rightarrow> bool \<Rightarrow> user_tenant_role list iam_op" where
  "BulkCreate now us includeGlobal =
     op_bind (case us of [] \<Rightarrow> op_ret ()
              | u # _ \<Rightarrow> (case ut_RoleID u of None \<Rightarrow> op_ret ()
                          | Some r \<Rightarrow> checkRoleAllowedForTenant r (ut_TenantID u) includeGlobal)) (\<lambda>_ w.
     txn (op_bind (query Internal (\<lambda>_. Inr ())) (\<lambda>_.
          op_bind (bulk_create (tables w) now includeGlobal us) (\<lambda>xs.
          op_bind (query Internal (\<lambda>_. Inr ())) (\<lambda>_. op_ret xs)))) w)"

record user_role_with_context =
  uc_TenantID :: uuid
  uc_TenantName :: string
  uc_RoleID :: string
  uc_RoleName :: string
  uc_Status :: user_role_status

definition utr_FindByUser :: "uuid \<Rightarrow> uuid \<Rightarrow> bool \<Rightarrow> bool \<Rightarrow> user_role_with_context list iam_op" where
  "utr_FindByUser userID tenantID crossTenant includeGlobal =
     query Internal (\<lambda>d. Inr
       [\<lparr>uc_TenantID = ut_TenantID x, uc_TenantName = tn_Name (tr_tenant t),
          uc_RoleID = opt_or (ut_RoleID x) [],
          uc_RoleName = opt_or (coalesce [map_option ro_Name (role_of d (ut_RoleID x)), ut_RoleID x]) [],
          uc_Status = ut_Status x\<rparr>.
        x \<leftarrow> sort_desc ut_CreatedAt (utrs d), t \<leftarrow> tenants d,
        tr_id t = ut_TenantID x \<and> ut_UserID x = userID \<and> (crossTenant \<or> ut_TenantID x = tenantID) \<and>
        utr_visible d includeGlobal x])"

text \<open>The unique index can be violated when several rows of one user turn active at once.\<close>

definition utr_UpdateStatus :: "time \<Rightarrow> uuid \<Rightarrow> uuid \<Rightarrow> user_role_status \<Rightarrow> bool \<Rightarrow> user_tenant_role iam_op" where
  "utr_UpdateStatus now userID tenantID status includeGlobal =
     stmt Internal (\<lambda>d.
       let hit = (\<lambda>u. ut_UserID u = userID \<and> ut_TenantID u = tenantID \<and> ut_Status u \<noteq> UTRPending \<and>
                   utr_visible d includeGlobal u);
           f = (\<lambda>u. u\<lparr>ut_Status := status, ut_UpdatedAt := now\<rparr>);
           us = update_where hit f (utrs d)
       in case filter hit (utrs d) of
            [] \<Rightarrow> (Inl ErrNoActiveAssignment, d)
          | u # _ \<Rightarrow> if \<not> active_unique us then (Inl Internal, d)
                       else (Inr (f u), d\<lparr>utrs := us\<rparr>))"

section \<open>Use cases\<close>

record assign_request =
  as_UserID :: uuid
  as_TenantID :: uuid
  as_RoleID :: string
  as_AssignedBy :: "uuid option"
  as_IncludeGlobal :: bool

text \<open>\<open>new_id\<close> stands for the fresh UUID of the membership.\<close>

definition active_membership :: "time \<Rightarrow> uuid \<Rightarrow> uuid \<Rightarrow> uuid \<Rightarrow> string \<Rightarrow> uuid option \<Rightarrow> user_tenant_role" where
  "active_membership now new_id userID tenantID roleID by =
     \<lparr>ut_ID = new_id, ut_UserID = userID, ut_TenantID = tenantID, ut_RoleID = Some roleID,
      ut_Status = UTRActive, ut_AssignedBy = by, ut_AssignedAt = Some now,
      ut_CreatedAt = 0, ut_UpdatedAt = 0\<rparr>"

definition AssignUserRole :: "time \<Rightarrow> uuid \<Rightarrow> assign_request \<Rightarrow> user_tenant_role iam_op" where
  "AssignUserRole now new_id req =
     op_bind (EnsureAssignable (as_RoleID req) (as_TenantID req) (as_IncludeGlobal req)) (\<lambda>_.
     utr_Create now (active_membership now new_id (as_UserID req) (as_TenantID req) (as_RoleID req)
       (as_AssignedBy req)) (as_IncludeGlobal req))"

definition BulkAssignUserRoles ::
  "time \<Rightarrow> (nat \<Rightarrow> uuid) \<Rightarrow> uuid list \<Rightarrow> uuid \<Rightarrow> string \<Rightarrow> uuid option \<Rightarrow> bool \<Rightarrow> user_tenant_role list iam_op"
where
  "BulkAssignUserRoles now new_id userIDs tenantID roleID by includeGlobal =
     op_bind (EnsureAssignable roleID tenantID includeGlobal) (\<lambda>_.
     BulkCreate now (map (\<lambda>(i, u). active_membership now (new_id i) u tenantID roleID by)
       (enumerate 0 userIDs)) includeGlobal)"

definition ListUserRoles :: "uuid \<Rightarrow> string option \<Rightarrow> bool \<Rightarrow> utr_detail list iam_op" where
  "ListUserRoles tenantID status includeGlobal = utr_FindByTenant tenantID status includeGlobal"

definition GetUserRoles :: "uuid \<Rightarrow> uuid \<Rightarrow> bool \<Rightarrow> bool \<Rightarrow> user_role_with_context list iam_op" where
  "GetUserRoles userID tenantID crossTenant includeGlobal = utr_FindByUser userID tenantID crossTenant includeGlobal"

definition RevokeUserRole :: "time \<Rightarrow> uuid \<Rightarrow> uuid \<Rightarrow> bool \<Rightarrow> user_tenant_role iam_op" where
  "RevokeUserRole now i tenantID includeGlobal =
     op_bind (utr_FindByID i includeGlobal) (\<lambda>existing.
     case existing of
       None \<Rightarrow> op_fail ErrAssignmentNotFound
     | Some e \<Rightarrow>
         if ut_TenantID e \<noteq> tenantID then op_fail ErrAssignmentNotFound
         else op_bind (utr_Revoke now i tenantID includeGlobal) (\<lambda>result.
              case result of None \<Rightarrow> op_fail ErrAssignmentNotFound | Some x \<Rightarrow> op_ret x))"

text \<open>\<open>caller\<close> is the user that \<open>JWTAuth\<close> put into the context.\<close>

definition UpdateUserRole ::
  "time \<Rightarrow> uuid option \<Rightarrow> uuid \<Rightarrow> uuid \<Rightarrow> string \<Rightarrow> bool \<Rightarrow> user_tenant_role iam_op"
where
  "UpdateUserRole now caller i tenantID roleID includeGlobal =
     op_bind (utr_FindByID i includeGlobal) (\<lambda>existing.
     case existing of
       None \<Rightarrow> op_fail ErrAssignmentNotFound
     | Some u \<Rightarrow>
         if ut_TenantID u \<noteq> tenantID then op_fail ErrAssignmentNotFound
         else if caller = Some (ut_UserID u) then op_fail ErrCannotChangeOwnRole
         else op_bind (EnsureAssignable roleID tenantID includeGlobal) (\<lambda>_.
              op_bind (utr_Update now (u\<lparr>ut_RoleID := Some roleID\<rparr>) includeGlobal) (\<lambda>updated.
              case updated of None \<Rightarrow> op_fail ErrAssignmentNotFound | Some x \<Rightarrow> op_ret x)))"

section \<open>Handlers\<close>

text \<open>\<open>errors.Is\<close> looks through the wrapped error of a batch.\<close>

fun unwrap_err :: "iam_err \<Rightarrow> iam_err" where
  "unwrap_err (ForUser e _) = unwrap_err e"
| "unwrap_err e = e"

definition assign_status :: "iam_err \<Rightarrow> nat" where
  "assign_status e =
     (case unwrap_err e of
        ErrUserAlreadyHasActiveRole \<Rightarrow> 409
      | ErrInvalidRoleID \<Rightarrow> 400
      | ErrInvalidUserID \<Rightarrow> 400
      | ErrRoleNotAllowedForTenant \<Rightarrow> 403
      | _ \<Rightarrow> 500)"

definition update_role_status :: "iam_err \<Rightarrow> nat" where
  "update_role_status e =
     (case e of
        ErrAssignmentNotFound \<Rightarrow> 404
      | ErrInvalidRoleID \<Rightarrow> 400
      | ErrCannotChangeOwnRole \<Rightarrow> 403
      | ErrRoleNotAllowedForTenant \<Rightarrow> 403
      | _ \<Rightarrow> 500)"

definition revoke_status :: "iam_err \<Rightarrow> nat" where
  "revoke_status e = (case e of ErrAssignmentNotFound \<Rightarrow> 404 | _ \<Rightarrow> 500)"

text \<open>
  The handlers from the parsed request on; \<open>ctxTenant\<close> is the tenant that \<open>TenantFromHeader\<close>
  established, \<open>caller\<close> the authenticated user.
\<close>

definition AssignUserRole_handler ::
  "time \<Rightarrow> uuid \<Rightarrow> role_context option \<Rightarrow> uuid \<Rightarrow> uuid option \<Rightarrow> uuid \<Rightarrow> uuid \<Rightarrow> string \<Rightarrow>
     (iam_db world, nat, user_tenant_role) oper"
where
  "AssignUserRole_handler now new_id ctx ctxTenant caller userID tenantID roleID =
     (if ctxTenant \<noteq> tenantID then op_fail 403
      else op_try (AssignUserRole now new_id \<lparr>as_UserID = userID, as_TenantID = tenantID, as_RoleID = roleID,
             as_AssignedBy = caller, as_IncludeGlobal = CanSeePlatformInternals ctx\<rparr>)
             (\<lambda>e. op_fail (assign_status e)) op_ret)"

definition BulkAssignUserRoles_handler ::
  "time \<Rightarrow> (nat \<Rightarrow> uuid) \<Rightarrow> role_context option \<Rightarrow> uuid \<Rightarrow> uuid option \<Rightarrow> uuid list \<Rightarrow> uuid \<Rightarrow> string \<Rightarrow>
     (iam_db world, nat, user_tenant_role list) oper"
where
  "BulkAssignUserRoles_handler now new_id ctx ctxTenant caller userIDs tenantID roleID =
     (if ctxTenant \<noteq> tenantID then op_fail 403
      else op_try (BulkAssignUserRoles now new_id userIDs tenantID roleID caller (CanSeePlatformInternals ctx))
             (\<lambda>e. op_fail (assign_status e)) op_ret)"

definition UpdateUserRole_handler ::
  "time \<Rightarrow> role_context option \<Rightarrow> uuid \<Rightarrow> uuid option \<Rightarrow> uuid \<Rightarrow> string \<Rightarrow> (iam_db world, nat, user_tenant_role) oper"
where
  "UpdateUserRole_handler now ctx ctxTenant caller i roleID =
     op_try (UpdateUserRole now caller i ctxTenant roleID (CanSeePlatformInternals ctx))
       (\<lambda>e. op_fail (update_role_status e)) op_ret"

definition RevokeUserRole_handler ::
  "time \<Rightarrow> role_context option \<Rightarrow> uuid \<Rightarrow> uuid \<Rightarrow> (iam_db world, nat, user_tenant_role) oper"
where
  "RevokeUserRole_handler now ctx ctxTenant i =
     op_try (RevokeUserRole now i ctxTenant (CanSeePlatformInternals ctx))
       (\<lambda>e. op_fail (revoke_status e)) op_ret"

section \<open>Effects\<close>

definition role_allowed :: "iam_db \<Rightarrow> string \<Rightarrow> uuid \<Rightarrow> bool \<Rightarrow> bool" where
  "role_allowed d roleID tenantID includeGlobal \<longleftrightarrow>
     (\<exists>r \<in> set (roles d). ro_ID r = roleID \<and> ro_DeletedAt r = None \<and>
        (ro_TenantID r = Some tenantID \<or> ro_TenantID r = None) \<and> (\<not> ro_IsGlobal r \<or> includeGlobal)) \<and>
     tenant_can_use_role d tenantID roleID"

text \<open>What one statement on the memberships of a tenant does to the tables.\<close>

inductive utr_step :: "bool \<Rightarrow> uuid \<Rightarrow> iam_db \<Rightarrow> iam_db \<Rightarrow> bool"
  for g :: bool and t :: uuid where
  add: "utr_step g t d d'"
    if "insert_utr u d = (Inr x, d')" "ut_TenantID u = t" "ut_RoleID u = Some r" "role_allowed d r t g"
       "g \<or> \<not> platform_identity d (ut_UserID u)"
| rerole: "utr_step g t d (d\<lparr>utrs := update_where hit (\<lambda>u. u\<lparr>ut_RoleID := Some r, ut_UpdatedAt := now\<rparr>) (utrs d)\<rparr>)"
    if "\<forall>u \<in> set (utrs d). hit u \<longrightarrow> ut_TenantID u = t \<and> utr_visible d g u \<and>
          (g \<or> \<not> platform_identity d (ut_UserID u))" "role_allowed d r t g"
| restatus: "utr_step g t d (d\<lparr>utrs := update_where hit (\<lambda>u. u\<lparr>ut_Status := s, ut_UpdatedAt := now\<rparr>) (utrs d)\<rparr>)"
    if "\<forall>u \<in> set (utrs d). hit u \<longrightarrow> ut_TenantID u = t \<and> utr_visible d g u"
       "active_unique (update_where hit (\<lambda>u. u\<lparr>ut_Status := s, ut_UpdatedAt := now\<rparr>) (utrs d))"

inductive_simps utr_step_iff: "utr_step g t d d'"

abbreviation utr_steps :: "bool \<Rightarrow> uuid \<Rightarrow> iam_db \<Rightarrow> iam_db \<Rightarrow> bool" where
  "utr_steps g t \<equiv> (utr_step g t)\<^sup>*\<^sup>*"

lemma checkRole_read_only [simp]: "read_only (checkRoleAllowedForTenant r t g)"
  by (auto simp: checkRoleAllowedForTenant_def)

lemma checkRole_Inr:
  assumes "checkRoleAllowedForTenant r t g w = (Inr u, w')"
  shows "role_allowed (tables w) r t g"
proof -
  let ?xs = "[tenant_can_use_role (tables w) t (ro_ID x). x \<leftarrow> roles (tables w), ro_ID x = r \<and> ro_DeletedAt x = None \<and>
          (ro_TenantID x = Some t \<or> ro_TenantID x = None) \<and> (\<not> ro_IsGlobal x \<or> g)]"
  have "first_row ErrInvalidRoleID ?xs = Inr True"
    using assms by (auto simp: checkRoleAllowedForTenant_def op_bind_Inr_iff query_Inr split: if_splits)
  then have "True \<in> set ?xs" by (rule first_row_mem)
  then show ?thesis by (auto simp: role_allowed_def split: if_splits)
qed

lemma resolve_Inl:
  "resolveActiveUniqueViolation u t g w = (r, w') \<Longrightarrow> (\<exists>e. r = Inl e) \<and> tables w' = tables w"
  unfolding resolveActiveUniqueViolation_def hasVisibleActiveAssignment_def
  by (erule op_bindE) (auto dest: query_dbD)

lemma CreateQuery_cases:
  assumes "CreateQuery now u g w = (r, w')"
  shows "(\<exists>e. r = Inl e) \<and> tables w' = tables w \<or>
    (\<exists>x. r = Inr x \<and> (g \<or> \<not> platform_identity (tables w) (ut_UserID u)) \<and>
       insert_utr (u\<lparr>ut_CreatedAt := now, ut_UpdatedAt := now\<rparr>) (tables w) = (Inr x, tables w'))"
  using assms by (cases r) (auto simp: CreateQuery_def stmt_iffs split: if_splits)

lemma utr_Create_cases:
  assumes "utr_Create now u g w = (r, w')"
  obtains (err) e where "r = Inl e" and "tables w' = tables w"
    | (ok) x where "r = Inr x" and "g \<or> \<not> platform_identity (tables w) (ut_UserID u)"
        and "insert_utr (u\<lparr>ut_CreatedAt := now, ut_UpdatedAt := now\<rparr>) (tables w) = (Inr x, tables w')"
        and "\<And>i. ut_RoleID u = Some i \<Longrightarrow> role_allowed (tables w) i (ut_TenantID u) g"
proof -
  let ?chk = "case ut_RoleID u of None \<Rightarrow> op_ret () | Some r \<Rightarrow> checkRoleAllowedForTenant r (ut_TenantID u) g"
  have ro: "read_only ?chk" by (simp split: option.splits)
  from assms show thesis unfolding utr_Create_def
  proof (cases rule: op_bindE)
    case (1 e)
    with read_onlyD [OF ro 1(1)] show thesis by (intro err)
  next
    case (2 y w1)
    note w1 = read_onlyD [OF ro 2(1)]
    have al: "role_allowed (tables w) i (ut_TenantID u) g" if "ut_RoleID u = Some i" for i
      using 2(1) that by (auto dest: checkRole_Inr)
    from 2(2) show thesis
    proof (cases rule: op_tryE)
      case (1 e w2)
      then have w2: "tables w2 = tables w" using CreateQuery_cases [OF 1(1)] w1 by auto
      have "(\<exists>f. r = Inl f) \<and> tables w' = tables w2"
        using 1(2) by (auto dest!: resolve_Inl split: pg_err.splits option.splits)
      with w2 show thesis by (auto intro: err)
    next
      case (2 x w2)
      with CreateQuery_cases [OF 2(1)] w1 al show thesis by (auto intro: ok)
    qed
  qed
qed

lemma role_allowed_roles:
  "roles d' = roles d \<Longrightarrow> tenants d' = tenants d \<Longrightarrow> role_allowed d' r t g = role_allowed d r t g"
  by (simp add: role_allowed_def same_roles_tenants [of d' d])

lemma insert_utr_same:
  "insert_utr u d = (Inr x, d') \<Longrightarrow> roles d' = roles d \<and> tenants d' = tenants d \<and> users d' = users d"
  by (drule insert_utr_Inr) simp

lemma utr_step_same:
  "utr_step g t d d' \<Longrightarrow> roles d' = roles d \<and> tenants d' = tenants d \<and> users d' = users d"
  by (induction rule: utr_step.induct) (auto dest: insert_utr_same)

lemma utr_steps_same:
  "utr_steps g t d d' \<Longrightarrow> roles d' = roles d \<and> tenants d' = tenants d \<and> users d' = users d"
  by (induction rule: rtranclp_induct) (auto dest: utr_step_same)

lemma outside_tx_tables: "outside_tx d m w = (r, w') \<Longrightarrow> tables w' = tables w"
  by (auto simp: outside_tx_def split: prod.splits)

lemma outside_tx_Inl:
  "outside_tx d (resolveActiveUniqueViolation u t g) w = (r, w') \<Longrightarrow> \<exists>e. r = Inl e"
  by (auto simp: outside_tx_def split: prod.splits dest!: resolve_Inl)

lemma bulk_error_Inl: "bulk_error d0 g u e w = (r, w') \<Longrightarrow> \<exists>f. r = Inl f"
  unfolding bulk_error_def by (cases e) (auto simp: op_try_cases dest: outside_tx_Inl)

lemma bulk_step_cases:
  assumes "op_try (CreateQuery now u g) (bulk_error d0 g u) op_ret w = (Inr x, w')"
  shows "(g \<or> \<not> platform_identity (tables w) (ut_UserID u)) \<and>
    insert_utr (u\<lparr>ut_CreatedAt := now, ut_UpdatedAt := now\<rparr>) (tables w) = (Inr x, tables w')"
  using assms
proof (cases rule: op_tryE)
  case (1 e w1)
  then show ?thesis by (auto dest: bulk_error_Inl)
next
  case (2 y w1)
  with CreateQuery_cases [OF 2(1)] show ?thesis by auto
qed

lemma bulk_create_steps:
  assumes "bulk_create d0 now g us w = (Inr xs, w')"
    and "\<forall>u \<in> set us. ut_TenantID u = t \<and> ut_RoleID u = Some r" and "role_allowed (tables w) r t g"
  shows "utr_steps g t (tables w) (tables w') \<and> length xs = length us \<and>
    utrs (tables w') = utrs (tables w) @ xs"
  using assms
proof (induction us arbitrary: w xs)
  case (Cons u us)
  from Cons.prems(1) obtain x w1 ys where
    step: "op_try (CreateQuery now u g) (bulk_error d0 g u) op_ret w = (Inr x, w1)"
    and rest: "bulk_create d0 now g us w1 = (Inr ys, w')" and xs: "xs = x # ys"
    by (auto simp: op_bind_Inr_iff)
  from bulk_step_cases [OF step] have guard: "g \<or> \<not> platform_identity (tables w) (ut_UserID u)"
    and ins: "insert_utr (u\<lparr>ut_CreatedAt := now, ut_UpdatedAt := now\<rparr>) (tables w) = (Inr x, tables w1)"
    by blast+
  have 1: "utr_step g t (tables w) (tables w1)"
    using ins guard Cons.prems by (intro utr_step.add [OF ins, of t r]) simp_all
  have "role_allowed (tables w1) r t g"
    using utr_step_same [OF 1] Cons.prems(3) role_allowed_roles [of "tables w1" "tables w"] by simp
  with Cons.IH [OF rest] Cons.prems(2) have "utr_steps g t (tables w1) (tables w')" "length ys = length us"
    "utrs (tables w') = utrs (tables w1) @ ys" by simp_all
  moreover from insert_utr_Inr [OF ins] have "utrs (tables w1) = utrs (tables w) @ [x]" by simp
  ultimately show ?case using converse_rtranclp_into_rtranclp [of "utr_step g t", OF 1] xs by simp
qed simp

lemma BulkCreate_cases:
  assumes "BulkCreate now us g w = (r, w')"
    and same: "\<forall>u \<in> set us. ut_TenantID u = t \<and> ut_RoleID u = Some i"
  obtains (err) e where "r = Inl e" and "tables w' = tables w"
    | (ok) xs where "r = Inr xs" and "utr_steps g t (tables w) (tables w')" and "length xs = length us"
        and "utrs (tables w') = utrs (tables w) @ xs"
proof -
  let ?chk = "case us of [] \<Rightarrow> op_ret () | u # _ \<Rightarrow> (case ut_RoleID u of None \<Rightarrow> op_ret ()
                          | Some r \<Rightarrow> checkRoleAllowedForTenant r (ut_TenantID u) g)"
  have ro: "read_only ?chk" by (simp split: list.splits option.splits)
  from assms(1) show thesis unfolding BulkCreate_def
  proof (cases rule: op_bindE)
    case (1 e)
    with read_onlyD [OF ro 1(1)] show thesis by (intro err)
  next
    case (2 y w1)
    note w1 = read_onlyD [OF ro 2(1)]
    show thesis
    proof (cases r)
      case (Inl e)
      with 2(2) w1 have "tables w' = tables w" by (auto dest: txn_Inl_db)
      with Inl show thesis by (rule err)
    next
      case (Inr xs)
      with 2(2) obtain w2 w3 where b: "bulk_create (tables w1) now g us w2 = (Inr xs, w3)"
        and eq: "tables w2 = tables w1" "tables w' = tables w3"
        by (fastforce simp: txn_Inr op_bind_Inr_iff query_Inr)
      show thesis
      proof (cases us)
        case Nil
        with b eq w1 Inr show thesis by (intro ok [of xs]) auto
      next
        case (Cons u vs)
        with 2(1) same have "role_allowed (tables w2) i t g" using checkRole_Inr w1 eq by auto
        from bulk_create_steps [OF b same this] eq w1 Inr show thesis by (intro ok [of xs]) simp_all
      qed
    qed
  qed
qed

lemma EnsureAssignable_read_only [simp]: "read_only (EnsureAssignable r t g)"
  unfolding EnsureAssignable_def by (intro read_only_try) simp_all

lemma utr_FindByID_Inr:
  assumes "utr_FindByID i g w = (Inr x, w')"
  shows "tables w' = tables w \<and>
    (\<forall>u. x = Some u \<longrightarrow> u \<in> set (utrs (tables w)) \<and> ut_ID u = i \<and> utr_visible (tables w) g u)"
  using assms by (auto simp: utr_FindByID_def query_Inr find_Some_iff)

lemma utr_FindByID_read_only [simp]: "read_only (utr_FindByID i g)"
  by (simp add: utr_FindByID_def)

lemma AssignUserRole_cases:
  assumes "AssignUserRole now new_id req w = (r, w')"
  obtains (err) e where "r = Inl e" and "tables w' = tables w"
    | (ok) x where "r = Inr x" and "utr_step (as_IncludeGlobal req) (as_TenantID req) (tables w) (tables w')"
        and "utrs (tables w') = utrs (tables w) @ [x]" and "ut_UserID x = as_UserID req"
        and "ut_TenantID x = as_TenantID req" and "ut_RoleID x = Some (as_RoleID req)" and "ut_Status x = UTRActive"
  using assms unfolding AssignUserRole_def
proof (cases rule: op_bindE)
  case (1 e)
  with read_onlyD [OF EnsureAssignable_read_only 1(1)] show thesis by (intro err)
next
  case (2 y w1)
  note w1 = read_onlyD [OF EnsureAssignable_read_only 2(1)]
  let ?u = "active_membership now new_id (as_UserID req) (as_TenantID req) (as_RoleID req) (as_AssignedBy req)"
  have f: "ut_UserID ?u = as_UserID req" "ut_TenantID ?u = as_TenantID req" "ut_RoleID ?u = Some (as_RoleID req)"
    "ut_Status ?u = UTRActive" by (simp_all add: active_membership_def)
  from 2(2) show thesis
  proof (cases rule: utr_Create_cases)
    case (err e)
    with w1 show thesis by (intro that(1)) simp_all
  next
    case x: (ok x)
    have "utr_step (as_IncludeGlobal req) (as_TenantID req) (tables w1) (tables w')"
      by (rule utr_step.add [OF x(3), of _ "as_RoleID req"]) (use x f in simp_all)
    with insert_utr_Inr [OF x(3)] w1 x(1) f show thesis by (intro that(2) [of x]) simp_all
  qed
qed

lemma BulkAssignUserRoles_cases:
  assumes "BulkAssignUserRoles now new_id us t i by g w = (r, w')"
  obtains (err) e where "r = Inl e" and "tables w' = tables w"
    | (ok) xs where "r = Inr xs" and "utr_steps g t (tables w) (tables w')" and "length xs = length us"
        and "utrs (tables w') = utrs (tables w) @ xs"
  using assms unfolding BulkAssignUserRoles_def
proof (cases rule: op_bindE)
  case (1 e)
  with read_onlyD [OF EnsureAssignable_read_only 1(1)] show thesis by (intro err)
next
  case (2 y w1)
  note w1 = read_onlyD [OF EnsureAssignable_read_only 2(1)]
  let ?us = "map (\<lambda>(j, u). active_membership now (new_id j) u t i by) (enumerate 0 us)"
  have same: "\<forall>u \<in> set ?us. ut_TenantID u = t \<and> ut_RoleID u = Some i" by (auto simp: active_membership_def)
  from 2(2) same show thesis
  proof (cases rule: BulkCreate_cases)
    case (err e)
    with w1 show thesis by (intro that(1)) simp_all
  next
    case xs: (ok xs)
    with w1 show thesis by (intro that(2) [of xs]) simp_all
  qed
qed

lemma active_unique_inactive:
  assumes "active_unique us" and "s \<noteq> UTRActive"
  shows "active_unique (update_where hit (\<lambda>u. u\<lparr>ut_Status := s, ut_UpdatedAt := now\<rparr>) us)"
proof -
  have "map (\<lambda>u. (ut_UserID u, ut_TenantID u)) (filter (\<lambda>u. ut_Status u = UTRActive)
      (update_where hit (\<lambda>u. u\<lparr>ut_Status := s, ut_UpdatedAt := now\<rparr>) us)) =
    map (\<lambda>u. (ut_UserID u, ut_TenantID u)) (filter (\<lambda>u. \<not> hit u) (filter (\<lambda>u. ut_Status u = UTRActive) us))"
    using assms(2) by (induction us) auto
  then show ?thesis using assms(1) unfolding active_unique_def by (simp only: distinct_map_filter)
qed

lemma RevokeUserRole_cases:
  assumes "RevokeUserRole now i t g w = (r, w')" and "iam_wf (tables w)"
  obtains (same) "tables w' = tables w"
    | (step) "utr_step g t (tables w) (tables w')"
proof -
  obtain r0 w0 where f: "utr_FindByID i g w = (r0, w0)" by fastforce
  note w0 = read_onlyD [OF utr_FindByID_read_only f]
  obtain r1 w1 where v: "utr_Revoke now i t g w0 = (r1, w1)" by fastforce
  have "tables w' = tables w \<or> tables w' = tables w1"
    using assms(1) f v w0 unfolding RevokeUserRole_def
    by (auto simp: op_bind_def split: sum.splits option.splits if_splits)
  moreover have "tables w1 = tables w \<or> utr_step g t (tables w) (tables w1)"
  proof (cases "tables w1 = tables w")
    case False
    let ?hit = "\<lambda>u. ut_ID u = i \<and> ut_TenantID u = t \<and> utr_visible (tables w) g u"
    let ?f = "\<lambda>u. u\<lparr>ut_Status := UTRRevoked, ut_UpdatedAt := now\<rparr>"
    from False v w0 have "tables w1 = (tables w)\<lparr>utrs := update_where ?hit ?f (utrs (tables w))\<rparr>"
      by (cases r1) (auto simp: utr_Revoke_def stmt_iffs Let_def split: list.splits)
    moreover have "active_unique (update_where ?hit ?f (utrs (tables w)))"
      using assms(2) by (intro active_unique_inactive) (simp_all add: iam_wf_def)
    ultimately show ?thesis by (auto intro: utr_step.restatus)
  qed simp
  ultimately show thesis using same step by metis
qed

lemma UpdateQuery_cases:
  assumes "UpdateQuery now (Some r) i g w = (q, w')"
  shows "tables w' = tables w \<or> tables w' = (tables w)\<lparr>utrs := update_where
      (\<lambda>u. ut_ID u = i \<and> utr_visible (tables w) g u \<and> (g \<or> \<not> platform_identity (tables w) (ut_UserID u)))
      (\<lambda>u. u\<lparr>ut_RoleID := Some r, ut_UpdatedAt := now\<rparr>) (utrs (tables w))\<rparr>"
  using assms by (cases q) (auto simp: UpdateQuery_def stmt_iffs Let_def split: list.splits option.splits if_splits)

lemma UpdateUserRole_cases:
  assumes "UpdateUserRole now caller i t r g w = (q, w')" and "iam_wf (tables w)"
  obtains (same) "tables w' = tables w"
    | (step) "utr_step g t (tables w) (tables w')"
        and "\<forall>u \<in> set (utrs (tables w)). caller = Some (ut_UserID u) \<longrightarrow> u \<in> set (utrs (tables w'))"
proof (cases "tables w' = tables w")
  case True
  then show thesis by (rule same)
next
  case False
  obtain r0 w0 where f: "utr_FindByID i g w = (r0, w0)" by fastforce
  note w0 = read_onlyD [OF utr_FindByID_read_only f]
  obtain u where r0: "r0 = Inr (Some u)" and t: "ut_TenantID u = t" and own: "caller \<noteq> Some (ut_UserID u)"
    using assms(1) f w0 False unfolding UpdateUserRole_def
    by (auto simp: op_bind_def split: sum.splits option.splits if_splits)
  have u: "u \<in> set (utrs (tables w))" "ut_ID u = i" using utr_FindByID_Inr [OF f [unfolded r0]] by auto
  obtain r1 w1 where e: "EnsureAssignable r t g w0 = (r1, w1)" by fastforce
  note w1 = read_onlyD [OF EnsureAssignable_read_only e]
  obtain r2 w2 where m: "utr_Update now (u\<lparr>ut_RoleID := Some r\<rparr>) g w1 = (r2, w2)" by fastforce
  have w': "tables w' = tables w \<or> tables w' = tables w2"
    using assms(1) f w0 r0 t own e w1 m unfolding UpdateUserRole_def
    by (auto simp: op_bind_def split: sum.splits option.splits if_splits)
  obtain r3 w3 where c: "checkRoleAllowedForTenant r t g w1 = (r3, w3)" by fastforce
  note w3 = read_onlyD [OF checkRole_read_only c]
  obtain r4 w4 where q: "UpdateQuery now (Some r) i g w3 = (r4, w4)" by fastforce
  have "tables w2 = tables w \<or> r3 = Inr () \<and> tables w2 = tables w4"
    using m c q t u w0 w1 w3 unfolding utr_Update_def
    by (auto simp: op_bind_def op_try_def split: sum.splits pg_err.splits option.splits)
  with w' False have r3: "r3 = Inr ()" and w'4: "tables w' = tables w4" by auto
  have al: "role_allowed (tables w) r t g" using checkRole_Inr [OF c [unfolded r3]] w0 w1 by simp
  have uniq: "v = u" if "v \<in> set (utrs (tables w))" "ut_ID v = i" for v
    using assms(2) u that by (auto simp: iam_wf_def distinct_map dest: inj_onD)
  let ?hit = "\<lambda>u. ut_ID u = i \<and> utr_visible (tables w) g u \<and> (g \<or> \<not> platform_identity (tables w) (ut_UserID u))"
  have new: "tables w' = (tables w)\<lparr>utrs := update_where ?hit
      (\<lambda>u. u\<lparr>ut_RoleID := Some r, ut_UpdatedAt := now\<rparr>) (utrs (tables w))\<rparr>"
    using UpdateQuery_cases [OF q] False w'4 w0 w1 w3 by simp
  show thesis
  proof (rule step)
    show "utr_step g t (tables w) (tables w')" unfolding new
      by (rule utr_step.rerole) (use al uniq t in auto)
    show "\<forall>v \<in> set (utrs (tables w)). caller = Some (ut_UserID v) \<longrightarrow> v \<in> set (utrs (tables w'))"
      unfolding new using own uniq by (fastforce simp: in_update_where)
  qed
qed

section \<open>Invariants\<close>

lemma utr_step_wf: "utr_step g t d d' \<Longrightarrow> iam_wf d \<Longrightarrow> iam_wf d'"
proof (induction rule: utr_step.induct)
  case (add u d x d' r)
  then show ?case by (auto intro: insert_utr_wf)
next
  case (rerole d hit r now)
  let ?f = "\<lambda>u. u\<lparr>ut_RoleID := Some r, ut_UpdatedAt := now\<rparr>"
  let ?d = "d\<lparr>utrs := update_where hit ?f (utrs d)\<rparr>"
  have r: "r \<in> ro_ID ` set (roles d)" "tenant_can_use_role d t r" using rerole(2) by (auto simp: role_allowed_def)
  have "map (\<lambda>u. (ut_UserID u, ut_TenantID u)) (filter (\<lambda>u. ut_Status u = UTRActive) (update_where hit ?f us)) =
      map (\<lambda>u. (ut_UserID u, ut_TenantID u)) (filter (\<lambda>u. ut_Status u = UTRActive) us)" for us
    by (induction us) auto
  then have "active_unique (utrs ?d)" using rerole(3) by (simp add: iam_wf_def active_unique_def)
  moreover have "platform_rule ?d" unfolding platform_rule_def
  proof (intro ballI allI impI)
    fix v i assume "v \<in> set (utrs ?d)" "ut_RoleID v = Some i"
    then obtain u where u: "u \<in> set (utrs d)" "v = (if hit u then ?f u else u)" by (auto simp: in_update_where)
    have "tenant_can_use_role d (ut_TenantID v) i"
      using u rerole(1,3) r \<open>ut_RoleID v = Some i\<close> by (cases "hit u") (auto simp: iam_wf_def platform_rule_def)
    then show "tenant_can_use_role ?d (ut_TenantID v) i" by (simp add: same_roles_tenants [of ?d d])
  qed
  moreover have "utr_refs ?d" unfolding utr_refs_def
  proof
    fix v assume "v \<in> set (utrs ?d)"
    then obtain u where u: "u \<in> set (utrs d)" "v = (if hit u then ?f u else u)" by (auto simp: in_update_where)
    then show "ut_UserID v \<in> us_id ` set (users ?d) \<and> ut_TenantID v \<in> tr_id ` set (tenants ?d) \<and>
        (\<forall>r. ut_RoleID v = Some r \<longrightarrow> r \<in> ro_ID ` set (roles ?d))"
      using rerole(3) r(1) by (simp add: iam_wf_def utr_refs_def)
  qed
  moreover have "distinct (map ut_ID (utrs ?d))" using rerole(3) by (simp add: iam_wf_def map_update_where_inv)
  ultimately show ?case using rerole(3) by (simp add: iam_wf_def roles_wf_def)
next
  case (restatus d hit now s)
  let ?f = "\<lambda>u. u\<lparr>ut_Status := s, ut_UpdatedAt := now\<rparr>"
  let ?d = "d\<lparr>utrs := update_where hit ?f (utrs d)\<rparr>"
  have keys: "\<exists>u \<in> set (utrs d). ut_TenantID v = ut_TenantID u \<and> ut_RoleID v = ut_RoleID u \<and> ut_UserID v = ut_UserID u"
    if "v \<in> set (utrs ?d)" for v
    using that by (auto simp: in_update_where)
  have "platform_rule ?d" "utr_refs ?d"
    using restatus(3) keys same_roles_tenants [of ?d d]
    by (force simp: iam_wf_def platform_rule_def utr_refs_def)+
  then show ?case using restatus(2,3) by (simp add: iam_wf_def roles_wf_def map_update_where_inv)
qed

text \<open>Rows of other tenants stay.\<close>

lemma utr_step_foreign:
  "utr_step g t d d' \<Longrightarrow> filter (\<lambda>u. ut_TenantID u \<noteq> t) (utrs d') = filter (\<lambda>u. ut_TenantID u \<noteq> t) (utrs d)"
proof (induction rule: utr_step.induct)
  case (add u d x d' r)
  from insert_utr_Inr [OF add(1)] add(2) show ?case by simp
qed (auto intro!: filter_update_where_cong)

text \<open>
  A caller who may not see the platform's internals leaves the memberships with global roles as they
  are, and neither adds a membership of a platform identity nor changes the role of one.
\<close>

definition hidden_rows :: "iam_db \<Rightarrow> user_tenant_role list" where
  "hidden_rows d = filter (\<lambda>u. role_is_global d (ut_RoleID u)) (utrs d)"

definition roles_held :: "uuid \<Rightarrow> iam_db \<Rightarrow> (uuid \<times> uuid \<times> string option) list" where
  "roles_held u d = map (\<lambda>x. (ut_ID x, ut_TenantID x, ut_RoleID x)) (filter (\<lambda>x. ut_UserID x = u) (utrs d))"

lemma role_is_global_same: "roles d' = roles d \<Longrightarrow> role_is_global d' r = role_is_global d r"
  by (simp add: role_is_global_def)

lemma role_allowed_not_global:
  assumes "roles_wf d" "role_allowed d r t False"
  shows "\<not> role_is_global d (Some r)"
proof -
  obtain x where x: "x \<in> set (roles d)" "ro_ID x = r" "\<not> ro_IsGlobal x"
    using assms(2) by (auto simp: role_allowed_def)
  have "y = x" if "y \<in> set (roles d)" "ro_ID y = r" for y
    using assms(1) x that by (auto simp: roles_wf_def distinct_map dest: inj_onD)
  with x(3) show ?thesis by (auto simp: role_is_global_def)
qed

lemma utr_step_hidden:
  assumes "utr_step g t d d'" and "\<not> g" and "roles_wf d"
  shows "hidden_rows d' = hidden_rows d"
  using assms
proof (induction rule: utr_step.induct)
  case (add u d x d' r)
  from insert_utr_Inr [OF add(1)] role_allowed_not_global [OF add(7)] add(3,4,6) show ?case
    by (simp add: hidden_rows_def role_is_global_same [of "d\<lparr>utrs := utrs d @ [u]\<rparr>" d])
next
  case (rerole d hit r now)
  let ?d = "d\<lparr>utrs := update_where hit (\<lambda>u. u\<lparr>ut_RoleID := Some r, ut_UpdatedAt := now\<rparr>) (utrs d)\<rparr>"
  have "hidden_rows ?d = filter (\<lambda>u. role_is_global d (ut_RoleID u)) (utrs ?d)"
    by (simp add: hidden_rows_def role_is_global_same [of ?d d])
  also have "\<dots> = hidden_rows d" unfolding hidden_rows_def using rerole(1,2,3) role_allowed_not_global [OF rerole(4)]
    by (auto intro!: filter_update_where_cong simp: utr_visible_def)
  finally show ?case .
next
  case (restatus d hit now s)
  let ?d = "d\<lparr>utrs := update_where hit (\<lambda>u. u\<lparr>ut_Status := s, ut_UpdatedAt := now\<rparr>) (utrs d)\<rparr>"
  have "hidden_rows ?d = filter (\<lambda>u. role_is_global d (ut_RoleID u)) (utrs ?d)"
    by (simp add: hidden_rows_def role_is_global_same [of ?d d])
  also have "\<dots> = hidden_rows d" unfolding hidden_rows_def using restatus(1,3)
    by (auto intro!: filter_update_where_cong simp: utr_visible_def)
  finally show ?case .
qed

lemma platform_identity_hidden:
  "platform_identity d u \<longleftrightarrow> (\<exists>x \<in> set (hidden_rows d). ut_UserID x = u \<and> ut_Status x \<noteq> UTRRevoked)"
  by (auto simp: platform_identity_def hidden_rows_def)

lemma utr_step_roles_held:
  assumes "utr_step g t d d'" and "\<not> g" and "platform_identity d p"
  shows "roles_held p d' = roles_held p d"
  using assms
proof (induction rule: utr_step.induct)
  case (add u d x d' r)
  from insert_utr_Inr [OF add(1)] add(5,6,7) show ?case by (auto simp: roles_held_def)
next
  case (rerole d hit r now)
  have "filter (\<lambda>x. ut_UserID x = p) (update_where hit (\<lambda>u. u\<lparr>ut_RoleID := Some r, ut_UpdatedAt := now\<rparr>) (utrs d)) =
      filter (\<lambda>x. ut_UserID x = p) (utrs d)"
    using rerole(1,3,4) by (auto intro!: filter_update_where_cong)
  then show ?case by (simp add: roles_held_def)
next
  case (restatus d hit now s)
  have "map (\<lambda>x. (ut_ID x, ut_TenantID x, ut_RoleID x)) (filter (\<lambda>x. ut_UserID x = p)
      (update_where hit (\<lambda>u. u\<lparr>ut_Status := s, ut_UpdatedAt := now\<rparr>) us)) =
    map (\<lambda>x. (ut_ID x, ut_TenantID x, ut_RoleID x)) (filter (\<lambda>x. ut_UserID x = p) us)" for us
    by (induction us) auto
  then show ?case by (simp add: roles_held_def)
qed

section \<open>Histories\<close>

datatype utr_req =
    ReqAssign uuid uuid string
  | ReqBulkAssign "nat \<Rightarrow> uuid" "uuid list" string
  | ReqRerole uuid string
  | ReqRevoke uuid

fun utr_exec ::
  "time \<Rightarrow> role_context option \<Rightarrow> uuid option \<Rightarrow> uuid \<Rightarrow> utr_req \<Rightarrow> iam_db world \<Rightarrow> iam_db world" where
  "utr_exec now ctx caller t (ReqAssign new_id u r) w =
     snd (AssignUserRole_handler now new_id ctx t caller u t r w)"
| "utr_exec now ctx caller t (ReqBulkAssign new_id us r) w =
     snd (BulkAssignUserRoles_handler now new_id ctx t caller us t r w)"
| "utr_exec now ctx caller t (ReqRerole i r) w = snd (UpdateUserRole_handler now ctx t caller i r w)"
| "utr_exec now ctx caller t (ReqRevoke i) w = snd (RevokeUserRole_handler now ctx t i w)"

type_synonym utr_event = "time \<times> role_context option \<times> uuid option \<times> uuid \<times> utr_req"

fun utr_run :: "utr_event list \<Rightarrow> iam_db world \<Rightarrow> iam_db world" where
  "utr_run [] w = w"
| "utr_run ((now, ctx, caller, t, q) # es) w = utr_run es (utr_exec now ctx caller t q w)"

lemma snd_try_fail: "snd (op_try m (\<lambda>e. op_fail (h e)) op_ret w) = snd (m w)"
  by (simp add: op_try_def split: prod.splits sum.splits)

lemma utr_exec_steps:
  assumes "iam_wf (tables w)"
  shows "utr_steps (CanSeePlatformInternals ctx) t (tables w) (tables (utr_exec now ctx caller t q w))"
proof (cases q)
  case (ReqAssign new_id u r)
  let ?req = "\<lparr>as_UserID = u, as_TenantID = t, as_RoleID = r, as_AssignedBy = caller,
    as_IncludeGlobal = CanSeePlatformInternals ctx\<rparr>"
  obtain a w' where e: "AssignUserRole now new_id ?req w = (a, w')" by fastforce
  then show ?thesis
    by (cases rule: AssignUserRole_cases)
      (use ReqAssign e in \<open>simp_all add: AssignUserRole_handler_def snd_try_fail\<close>)
next
  case (ReqBulkAssign new_id us r)
  obtain a w' where e: "BulkAssignUserRoles now new_id us t r caller (CanSeePlatformInternals ctx) w = (a, w')"
    by fastforce
  then show ?thesis
    by (cases rule: BulkAssignUserRoles_cases)
      (use ReqBulkAssign e in \<open>simp_all add: BulkAssignUserRoles_handler_def snd_try_fail\<close>)
next
  case (ReqRerole i r)
  obtain a w' where e: "UpdateUserRole now caller i t r (CanSeePlatformInternals ctx) w = (a, w')" by fastforce
  from e assms show ?thesis
    by (cases rule: UpdateUserRole_cases)
      (use ReqRerole e in \<open>simp_all add: UpdateUserRole_handler_def snd_try_fail\<close>)
next
  case (ReqRevoke i)
  obtain a w' where e: "RevokeUserRole now i t (CanSeePlatformInternals ctx) w = (a, w')" by fastforce
  from e assms show ?thesis
    by (cases rule: RevokeUserRole_cases)
      (use ReqRevoke e in \<open>simp_all add: RevokeUserRole_handler_def snd_try_fail\<close>)
qed

lemma utr_steps_wf: "utr_steps g t d d' \<Longrightarrow> iam_wf d \<Longrightarrow> iam_wf d'"
  by (induction rule: rtranclp_induct) (auto intro: utr_step_wf)

lemma utr_steps_foreign:
  "utr_steps g t d d' \<Longrightarrow> filter (\<lambda>u. ut_TenantID u \<noteq> t) (utrs d') = filter (\<lambda>u. ut_TenantID u \<noteq> t) (utrs d)"
  by (induction rule: rtranclp_induct) (auto dest: utr_step_foreign)

lemma roles_wf_same: "roles d' = roles d \<Longrightarrow> roles_wf d' = roles_wf d"
  by (simp add: roles_wf_def)

lemma utr_steps_cloaked:
  assumes "utr_steps g t d d'" and "\<not> g" and "roles_wf d"
  shows "hidden_rows d' = hidden_rows d \<and> roles_wf d' \<and> (\<forall>p. platform_identity d p \<longrightarrow> roles_held p d' = roles_held p d)"
  using assms
proof (induction rule: rtranclp_induct)
  case (step x y)
  then have x: "hidden_rows x = hidden_rows d" "roles_wf x"
    "\<And>p. platform_identity d p \<Longrightarrow> roles_held p x = roles_held p d" by simp_all
  have y: "hidden_rows y = hidden_rows x" by (rule utr_step_hidden [OF step(2,4) x(2)])
  have "roles_wf y" using utr_step_same [OF step(2)] x(2) roles_wf_same [of y x] by simp
  moreover have "roles_held p y = roles_held p x" if "platform_identity d p" for p
    by (rule utr_step_roles_held [OF step(2,4)]) (use that x(1) in \<open>simp add: platform_identity_hidden\<close>)
  ultimately show ?case using x y by simp
qed simp

lemma utr_run_cloaked:
  assumes "iam_wf (tables w)" and "\<forall>(now, ctx, caller, t, q) \<in> set es. \<not> CanSeePlatformInternals ctx"
  shows "hidden_rows (tables (utr_run es w)) = hidden_rows (tables w) \<and>
    (\<forall>p. platform_identity (tables w) p \<longrightarrow> roles_held p (tables (utr_run es w)) = roles_held p (tables w))"
  using assms
proof (induction es w rule: utr_run.induct)
  case (2 now ctx caller t q es w)
  let ?w = "utr_exec now ctx caller t q w"
  note st = utr_exec_steps [OF 2(2), of ctx t now caller q]
  have "roles_wf (tables w)" using 2(2) by (simp add: iam_wf_def)
  note c = utr_steps_cloaked [OF st _ this]
  have h: "hidden_rows (tables ?w) = hidden_rows (tables w)"
    "\<And>p. platform_identity (tables w) p \<Longrightarrow> roles_held p (tables ?w) = roles_held p (tables w)"
    using c 2(3) by simp_all
  have "hidden_rows (tables (utr_run es ?w)) = hidden_rows (tables ?w) \<and>
    (\<forall>p. platform_identity (tables ?w) p \<longrightarrow> roles_held p (tables (utr_run es ?w)) = roles_held p (tables ?w))"
    by (rule 2(1)) (use utr_steps_wf [OF st 2(2)] 2(3) in simp_all)
  with h show ?case by (simp add: platform_identity_hidden)
qed simp

section \<open>Properties\<close>



text \<open>A batch is all or nothing: an error leaves the tables as they were, and success appends exactly
  one membership per requested user.\<close>

theorem BulkAssign_atomic:
  "(case BulkAssignUserRoles now new_id us t r by g w of
      (Inl e, w') \<Rightarrow> tables w' = tables w
    | (Inr xs, w') \<Rightarrow> utrs (tables w') = utrs (tables w) @ xs \<and> length xs = length us)"
proof -
  obtain a w' where e: "BulkAssignUserRoles now new_id us t r by g w = (a, w')" by fastforce
  then show ?thesis by (cases rule: BulkAssignUserRoles_cases) (simp_all add: e)
qed

text \<open>Nobody changes the role of his own membership: whatever \<open>UpdateUserRole\<close> answers, the caller's
  rows are the same rows afterwards.\<close>

theorem UpdateUserRole_own_kept:
  assumes "iam_wf (tables w)" and "u \<in> set (utrs (tables w))"
  shows "u \<in> set (utrs (tables (snd (UpdateUserRole now (Some (ut_UserID u)) i t r g w))))"
proof -
  obtain a w' where e: "UpdateUserRole now (Some (ut_UserID u)) i t r g w = (a, w')" by fastforce
  from e assms(1) show ?thesis by (cases rule: UpdateUserRole_cases) (use assms(2) e in auto)
qed

text \<open>A platform identity is indistinguishable from a user who does not exist: assigning a role to
  either gets the same answer, whatever role is asked for.\<close>

theorem hidden_user_is_absent:
  assumes "platform_identity d u" and "u' \<notin> us_id ` set (users d)"
    and "\<forall>x \<in> set (utrs d). ut_UserID x \<noteq> u'" and "new_id \<notin> ut_ID ` set (utrs d)"
    and "case by of None \<Rightarrow> True | Some a \<Rightarrow> a \<in> us_id ` set (users d)"
  shows "fst (AssignUserRole now new_id \<lparr>as_UserID = u, as_TenantID = t, as_RoleID = r, as_AssignedBy = by,
      as_IncludeGlobal = False\<rparr> (live d)) =
    fst (AssignUserRole now new_id \<lparr>as_UserID = u', as_TenantID = t, as_RoleID = r, as_AssignedBy = by,
      as_IncludeGlobal = False\<rparr> (live d))"
proof -
  let ?new = "\<lambda>v. (active_membership now new_id v t r by)\<lparr>ut_CreatedAt := now, ut_UpdatedAt := now\<rparr>"
  obtain a n where e: "EnsureAssignable r t False (live d) = (a, (live d)\<lparr>nstmts := n\<rparr>)"
    by (cases "first_row ErrRoleNotFound (filter (\<lambda>x. ro_ID x = r \<and> role_visible d t False x) (roles d))")
      (simp_all add: EnsureAssignable_def GetByIDForTenant_def op_try_def)
  obtain b w1 where c1: "checkRoleAllowedForTenant r t False ((live d)\<lparr>nstmts := n\<rparr>) = (b, w1)" by fastforce
  then have "w1 = (live d)\<lparr>nstmts := Suc n\<rparr>"
    by (auto simp: checkRoleAllowedForTenant_def op_bind_def split: sum.splits if_splits)
  with c1 have c: "checkRoleAllowedForTenant r t False ((live d)\<lparr>nstmts := n\<rparr>) = (b, (live d)\<lparr>nstmts := Suc n\<rparr>)"
    by simp
  have pi: "\<not> platform_identity d u'" using assms(3) by (auto simp: platform_identity_def)
  have ins: "insert_utr (?new u') d = (Inl (ForeignKeyViolation ''user_tenant_roles_user_id_fkey''), d)"
    if b: "b = Inr ()"
  proof -
    from checkRole_Inr [OF c [unfolded b]] have al: "role_allowed d r t False" by simp
    then have "r \<in> ro_ID ` set (roles d)" "tenant_can_use_role d t r" by (auto simp: role_allowed_def)
    with assms(2-5) show ?thesis
      by (auto simp: insert_utr_def enforce_platform_role_tenant_def active_membership_def utr_fkeys_def
          active_of_def split: option.splits)
  qed
  have "fst (utr_Create now (active_membership now new_id v t r by) False ((live d)\<lparr>nstmts := n\<rparr>)) =
      (case b of Inl f \<Rightarrow> Inl f | Inr _ \<Rightarrow> Inl ErrInvalidUserID)" if "v = u \<or> v = u'" for v
    using that assms(1) pi ins c
    by (cases b) (auto simp: utr_Create_def op_bind_def op_try_def active_membership_def CreateQuery_def stmt_def
        mapForeignKeyViolation_def)
  then show ?thesis using e by (cases a) (simp_all add: AssignUserRole_def op_bind_def)
qed

text \<open>A batch that names the same user twice blames the user id: the second row meets the first one
  inside the transaction, the conflict is looked up outside it where no membership exists yet, and so an
  existing user without a membership is reported as one that does not exist.\<close>

theorem bulk_duplicate_blames_user:
  assumes "role_visible d t g x" "x \<in> set (roles d)" "ro_ID x = r" "distinct (map ro_ID (roles d))"
    and "u \<in> us_id ` set (users d)" "t \<in> tr_id ` set (tenants d)" "\<forall>v \<in> set (utrs d). ut_UserID v \<noteq> u"
    and "new_id 0 \<notin> ut_ID ` set (utrs d)" "new_id 1 \<notin> ut_ID ` set (utrs d)" "new_id 0 \<noteq> new_id 1"
  shows "fst (BulkAssignUserRoles now new_id [u, u] t r None g (live d)) = Inl (ForUser ErrInvalidUserID u)"
proof -
  let ?u = "\<lambda>j. active_membership now (new_id j) u t r None"
  let ?row = "\<lambda>j. (?u j)\<lparr>ut_CreatedAt := now, ut_UpdatedAt := now\<rparr>"
  let ?d1 = "d\<lparr>utrs := utrs d @ [?row 0]\<rparr>"
  have use: "tenant_can_use_role d t r" and g: "\<not> ro_IsGlobal x \<or> g"
    and t: "ro_TenantID x = Some t \<or> ro_TenantID x = None" and del: "ro_DeletedAt x = None"
    using assms(1,3) by (auto simp: role_visible_def)
  have fx: "filter (\<lambda>y. ro_ID y = r \<and> P y) (roles d) = [x]" if "P x" for P
    using filter_key_unique [OF assms(4,2), of P] that assms(3) by simp
  have comp: "[f y. y \<leftarrow> ys, P y] = map f (filter P ys)" for f :: "role \<Rightarrow> bool" and P ys
    by (induction ys) auto
  have e: "EnsureAssignable r t g (live d) = (Inr (), (live d)\<lparr>nstmts := 1\<rparr>)"
    using fx [of "role_visible d t g"] assms(1) by (simp add: EnsureAssignable_def GetByIDForTenant_def op_try_def)
  have c: "checkRoleAllowedForTenant r t g ((live d)\<lparr>nstmts := 1\<rparr>) = (Inr (), (live d)\<lparr>nstmts := Suc 1\<rparr>)"
    using fx [of "\<lambda>y. ro_DeletedAt y = None \<and> (ro_TenantID y = Some t \<or> ro_TenantID y = None) \<and> (\<not> ro_IsGlobal y \<or> g)"]
      use g t del assms(3) by (simp add: checkRoleAllowedForTenant_def op_bind_def comp)
  have same: "tenant_can_use_role ?d1 t r" "platform_identity d u = False"
    using use same_roles_tenants [of ?d1 d] assms(7) by (auto simp: platform_identity_def)
  have i0: "insert_utr (?row 0) d = (Inr (?row 0), ?d1)"
    using use assms(2,3,5-8) by (auto simp: insert_utr_def enforce_platform_role_tenant_def active_membership_def
        utr_fkeys_def active_of_def)
  have i1: "insert_utr (?row 1) ?d1 = (Inl (UniqueViolation ''idx_utr_active_unique''), ?d1)"
    using same(1) assms(9,10) by (auto simp: insert_utr_def enforce_platform_role_tenant_def active_membership_def
        active_of_def)
  have pi1: "g \<or> \<not> platform_identity ?d1 u"
  proof (cases g)
    case False
    then have "\<not> role_is_global d (Some r)"
      using g assms(2-4) by (auto simp: role_is_global_def distinct_map dest!: inj_onD)
    then show ?thesis using assms(7)
      by (auto simp: platform_identity_def active_membership_def role_is_global_def)
  qed simp
  have ids: "ut_UserID (?u j) = u" "ut_TenantID (?u j) = t" "ut_RoleID (?u j) = Some r" for j
    by (simp_all add: active_membership_def)
  have q0: "CreateQuery now (?u 0) g w = (Inr (?row 0), w\<lparr>tables := ?d1, nstmts := Suc (nstmts w)\<rparr>)"
    if "calm w" "tables w = d" for w
    using that i0 same(2) ids by (simp add: CreateQuery_def stmt_def calm_def)
  have q1: "CreateQuery now (?u (Suc 0)) g w =
      (Inl (UniqueViolation ''idx_utr_active_unique''), w\<lparr>nstmts := Suc (nstmts w)\<rparr>)"
    if "calm w" "tables w = ?d1" for w
    using that i1 pi1 ids by (simp add: CreateQuery_def stmt_def calm_def)
  have calm_tables: "calm (w\<lparr>tables := a, nstmts := n\<rparr>) = calm w" "calm (w\<lparr>nstmts := n, tables := a\<rparr>) = calm w"
    "calm (w\<lparr>tables := a\<rparr>) = calm w" for w :: "iam_db world" and a n
    by (simp_all add: calm_def)
  have res: "outside_tx d (resolveActiveUniqueViolation u t g) w = (Inl ErrInvalidUserID, w')"
    if "calm w" "w' = w\<lparr>nstmts := Suc (nstmts w)\<rparr>" for w w'
    using that assms(7) by (auto simp: outside_tx_def resolveActiveUniqueViolation_def op_bind_def
        hasVisibleActiveAssignment_def active_of_def calm_def query_def stmt_def)
  show ?thesis
    using e c ids
    by (simp add: BulkAssignUserRoles_def BulkCreate_def op_bind_def op_try_def txn_def bulk_error_def res q0 q1
        calm_tables)
qed

section \<open>Instances\<close>

text \<open>User 30 holds the global role \<open>platform_admin\<close> in the platform tenant; user 40 is a newcomer.\<close>

definition hidden_member :: iam_db where
  "hidden_member = two_tenants\<lparr>users := users two_tenants @ [user_sample 30 ''c'', user_sample 40 ''d''],
     utrs := utrs two_tenants @ [membership_sample 300 30 1 ''platform_admin'']\<rparr>"

lemma hidden_member_wf: "iam_wf (tables (live hidden_member))"
  by (simp add: iam_wf_defs hidden_member_def two_tenants_def samples tenant_can_use_role_def role_is_global_def
      is_platform_def)

lemma hidden_member_identity: "platform_identity hidden_member 30"
  by (simp add: platform_identity_def hidden_member_def two_tenants_def samples role_is_global_def)



theorem UpdateUserRole_own_kept_instance:
  "membership_sample 200 20 2 ''cliente_admin'' \<in>
     set (utrs (tables (snd (UpdateUserRole 5 (Some 20) 200 2 ''x'' False (live hidden_member)))))"
  using UpdateUserRole_own_kept [OF hidden_member_wf, of "membership_sample 200 20 2 ''cliente_admin''" 5 200 2 "''x''" False]
  by (simp add: hidden_member_def two_tenants_def membership_sample_def)

theorem hidden_user_is_absent_instance:
  "fst (AssignUserRole 5 400 \<lparr>as_UserID = 30, as_TenantID = 2, as_RoleID = ''cliente_admin'', as_AssignedBy = Some 20,
      as_IncludeGlobal = False\<rparr> (live hidden_member)) =
    fst (AssignUserRole 5 400 \<lparr>as_UserID = 99, as_TenantID = 2, as_RoleID = ''cliente_admin'', as_AssignedBy = Some 20,
      as_IncludeGlobal = False\<rparr> (live hidden_member))"
  by (rule hidden_user_is_absent [OF hidden_member_identity])
    (simp_all add: hidden_member_def two_tenants_def samples)

theorem bulk_duplicate_blames_user_instance:
  "fst (BulkAssignUserRoles 5 (\<lambda>j. of_nat (400 + j)) [40, 40] 2 ''cliente_admin'' None False (live hidden_member)) =
     Inl (ForUser ErrInvalidUserID 40)"
  by (rule bulk_duplicate_blames_user [where x = "role_sample ''cliente_admin'' True False [''perm_users_manage'']"])
    (simp_all add: hidden_member_def two_tenants_def samples role_visible_def tenant_can_use_role_def role_is_global_def)

end
