(* ===== verification/Users.thy ===== *)
theory Users
  imports UserRoles
begin

text \<open>
  The management of users: \<open>internal/domain/users\<close>, \<open>internal/repo/pg/users/postgres.go\<close>,
  \<open>internal/app/users/service.go\<close> and the handlers of \<open>internal/api/handler/users\<close> from the
  parsed request on. \<open>mail_ok e\<close> stands for \<open>net/mail.ParseAddress(e)\<close> giving the address
  \<open>e\<close> itself; \<open>parse\<close> for \<open>uuid.Parse\<close> of the third-party uuid package. The tenant of a
  request and the ids of its caller are UUIDs, so that the checks for their being empty do not appear.
\<close>

section \<open>Domain\<close>

record user =
  du_ID :: uuid
  du_TenantID :: uuid
  du_FirstName :: string
  du_LastName :: string
  du_Email :: string
  du_Role :: string
  du_Image :: "string option"
  du_CreatedAt :: time
  du_UpdatedAt :: time
  du_DeletedAt :: "time option"

record assigned_role =
  ar_ID :: string
  ar_Name :: string
  ar_Permissions :: "string list"

record user_with_roles =
  uw_User :: user
  uw_Roles :: "assigned_role list"

record create_user_command =
  cu_FirstName :: string
  cu_LastName :: string
  cu_Email :: string
  cu_Role :: string
  cu_Image :: "string option"
  cu_AssignedBy :: uuid

record update_user_command =
  uu_FirstName :: "string option"
  uu_LastName :: "string option"
  uu_Role :: "string option"
  uu_Image :: "string option"

text \<open>A validation answers None when the value is fine, else the text of the error.\<close>

definition required_field :: "string \<Rightarrow> nat \<Rightarrow> string \<Rightarrow> string \<Rightarrow> string option" where
  "required_field value bound missing long =
     (if value = [] then Some missing else if bound < length value then Some long else None)"

definition ValidateFirstName :: "string \<Rightarrow> string option" where
  "ValidateFirstName s =
     required_field s 100 ''first_name is required'' ''first_name must be at most 100 characters''"

definition ValidateLastName :: "string \<Rightarrow> string option" where
  "ValidateLastName s =
     required_field s 100 ''last_name is required'' ''last_name must be at most 100 characters''"

definition ValidateEmail :: "(string \<Rightarrow> bool) \<Rightarrow> string \<Rightarrow> string option" where
  "ValidateEmail mail_ok s =
     (case required_field s 254 ''email is required'' ''email must be at most 254 characters'' of
        Some e \<Rightarrow> Some e
      | None \<Rightarrow> if mail_ok s then None else Some ''email format is invalid'')"

definition ValidateRole :: "string \<Rightarrow> string option" where
  "ValidateRole s = required_field s 50 ''role is required'' ''role must be at most 50 characters''"

definition user_Validate :: "(string \<Rightarrow> bool) \<Rightarrow> user \<Rightarrow> string option" where
  "user_Validate mail_ok u = coalesce
     [ValidateFirstName (du_FirstName u), ValidateLastName (du_LastName u),
      ValidateEmail mail_ok (du_Email u), ValidateRole (du_Role u)]"

definition create_Validate :: "create_user_command \<Rightarrow> string option" where
  "create_Validate c = coalesce
     [ValidateFirstName (cu_FirstName c), ValidateLastName (cu_LastName c),
      required_field (cu_Email c) 254 ''email is required'' ''email must be at most 254 characters'',
      ValidateRole (cu_Role c)]"

definition update_Validate :: "update_user_command \<Rightarrow> string option" where
  "update_Validate c =
     (if (case uu_FirstName c of None \<Rightarrow> False | Some s \<Rightarrow> 100 < length s) then
        Some ''first_name must be at most 100 characters''
      else if (case uu_LastName c of None \<Rightarrow> False | Some s \<Rightarrow> 100 < length s) then
        Some ''last_name must be at most 100 characters''
      else None)"

section \<open>Repository\<close>

text \<open>
  The \<open>LEFT JOIN LATERAL\<close> of \<open>GetByID\<close>: the active membership of the user in the tenant of the
  request, or else, for a cross-tenant caller, the one assigned last, those without a date behind.
  Equal dates are in no order for the database; the model takes table order.
\<close>

definition latest_first :: "user_tenant_role list \<Rightarrow> user_tenant_role list" where
  "latest_first us =
     sort_desc (\<lambda>t. the (ut_AssignedAt t)) (filter (\<lambda>t. ut_AssignedAt t \<noteq> None) us)
     @ filter (\<lambda>t. ut_AssignedAt t = None) us"

definition resolved_membership :: "iam_db \<Rightarrow> uuid \<Rightarrow> uuid \<Rightarrow> bool \<Rightarrow> user_tenant_role option" where
  "resolved_membership d tenantID userID crossTenant =
     (case latest_first (filter (active_of userID tenantID) (utrs d)) @
           (if crossTenant
            then latest_first (filter (\<lambda>t. ut_UserID t = userID \<and> ut_Status t = UTRActive \<and>
                   ut_TenantID t \<noteq> tenantID) (utrs d))
            else []) of
        [] \<Rightarrow> None
      | t # _ \<Rightarrow> Some t)"

definition role_name_of :: "user_tenant_role option \<Rightarrow> string option" where
  "role_name_of m = (case m of None \<Rightarrow> None | Some t \<Rightarrow> ut_RoleID t)"

text \<open>The columns that every query on users selects, read by \<open>scanUser\<close>.\<close>

definition scan_user :: "uuid \<Rightarrow> user_tenant_role option \<Rightarrow> user_row \<Rightarrow> user" where
  "scan_user tenantID m u =
     \<lparr>du_ID = us_id u,
      du_TenantID = opt_or (coalesce [us_tenant_id u, map_option ut_TenantID m]) tenantID,
      du_FirstName = opt_or (coalesce [us_first_name u, us_name u]) [],
      du_LastName = opt_or (us_last_name u) [],
      du_Email = us_email u,
      du_Role = opt_or (role_name_of m) (us_role u),
      du_Image = us_image u, du_CreatedAt = us_created_at u, du_UpdatedAt = us_updated_at u,
      du_DeletedAt = us_deleted_at u\<rparr>"

text \<open>The rows of a listing: a user joined to the memberships that fit, or to none when none fits.\<close>

definition left_join :: "'a list \<Rightarrow> 'a option list" where
  "left_join xs = (if xs = [] then [None] else map Some xs)"

definition listed_users :: "iam_db \<Rightarrow> uuid \<Rightarrow> bool \<Rightarrow> (user_row \<times> user_tenant_role option) list" where
  "listed_users d tenantID includeGlobal =
     [(u, m). u \<leftarrow> sort_desc us_created_at (users d), m \<leftarrow> left_join (filter (active_of (us_id u) tenantID) (utrs d)),
        us_deleted_at u = None \<and> (us_tenant_id u = Some tenantID \<or> m \<noteq> None) \<and>
        (\<not> role_is_global d (role_name_of m) \<or> includeGlobal)]"

definition ListByTenant :: "uuid \<Rightarrow> nat \<Rightarrow> nat \<Rightarrow> bool \<Rightarrow> (user list \<times> nat) iam_op" where
  "ListByTenant tenantID limit offset includeGlobal =
     op_bind (query Internal (\<lambda>d. Inr (length (listed_users d tenantID includeGlobal)))) (\<lambda>totalCount.
     op_bind (query Internal (\<lambda>d. Inr (take limit (drop offset
                (map (\<lambda>(u, m). scan_user tenantID m u) (listed_users d tenantID includeGlobal)))))) (\<lambda>page.
     op_ret (page, totalCount)))"

definition found_by_id :: "iam_db \<Rightarrow> uuid \<Rightarrow> uuid \<Rightarrow> bool \<Rightarrow> bool \<Rightarrow> user_row list" where
  "found_by_id d tenantID userID crossTenant visible =
     filter (\<lambda>u. us_id u = userID \<and> us_deleted_at u = None \<and>
       (us_tenant_id u = Some tenantID \<or> resolved_membership d tenantID userID crossTenant \<noteq> None \<or> crossTenant) \<and>
       visible) (users d)"

definition user_GetByID :: "uuid \<Rightarrow> uuid \<Rightarrow> bool \<Rightarrow> bool \<Rightarrow> user iam_op" where
  "user_GetByID tenantID userID crossTenant includeGlobal =
     query Internal (\<lambda>d.
       let m = resolved_membership d tenantID userID crossTenant
       in first_row ErrUserNotFound (map (scan_user tenantID m)
            (found_by_id d tenantID userID crossTenant
               (\<not> role_is_global d (role_name_of m) \<or> includeGlobal))))"

text \<open>\<open>GetByIDWithRoles\<close> joins roles that are not deleted, for the cloaking as well.\<close>

definition joined_role :: "iam_db \<Rightarrow> user_tenant_role option \<Rightarrow> role option" where
  "joined_role d m = find (\<lambda>r. Some (ro_ID r) = role_name_of m \<and> ro_DeletedAt r = None) (roles d)"

definition GetByIDWithRoles :: "uuid \<Rightarrow> uuid \<Rightarrow> bool \<Rightarrow> bool \<Rightarrow> user_with_roles iam_op" where
  "GetByIDWithRoles tenantID userID crossTenant includeGlobal =
     query Internal (\<lambda>d.
       let m = resolved_membership d tenantID userID crossTenant;
           r = joined_role d m
       in first_row ErrUserNotFound (map (\<lambda>u.
            \<lparr>uw_User = scan_user tenantID m u,
             uw_Roles = (case r of None \<Rightarrow> []
               | Some x \<Rightarrow> [\<lparr>ar_ID = ro_ID x, ar_Name = ro_Name x, ar_Permissions = ro_Permissions x\<rparr>])\<rparr>)
            (found_by_id d tenantID userID crossTenant
               ((case r of None \<Rightarrow> True | Some x \<Rightarrow> \<not> ro_IsGlobal x) \<or> includeGlobal))))"

text \<open>
  The constraints of the table users: primary key, \<open>users_tenant_id_email_key\<close> (rows without a
  tenant never collide), \<open>users_supabase_user_id_key\<close> and the foreign key to tenants.
\<close>

definition same_email :: "user_row \<Rightarrow> user_row \<Rightarrow> bool" where
  "same_email u x \<longleftrightarrow> us_tenant_id u \<noteq> None \<and> us_tenant_id x = us_tenant_id u \<and> us_email x = us_email u"

definition same_supabase :: "user_row \<Rightarrow> user_row \<Rightarrow> bool" where
  "same_supabase u x \<longleftrightarrow> us_supabase_user_id u \<noteq> None \<and> us_supabase_user_id x = us_supabase_user_id u"

definition insert_user :: "user_row \<Rightarrow> iam_db \<Rightarrow> (pg_err + user_row) \<times> iam_db" where
  "insert_user u d =
     (if us_id u \<in> us_id ` set (users d) then (Inl (UniqueViolation ''users_pkey''), d)
      else if \<exists>x \<in> set (users d). same_supabase u x
      then (Inl (UniqueViolation ''users_supabase_user_id_key''), d)
      else if \<exists>x \<in> set (users d). same_email u x
      then (Inl (UniqueViolation ''users_tenant_id_email_key''), d)
      else if (case us_tenant_id u of None \<Rightarrow> False | Some t \<Rightarrow> t \<notin> tr_id ` set (tenants d))
      then (Inl (ForeignKeyViolation ''users_tenant_id_fkey''), d)
      else (Inr u, d\<lparr>users := users d @ [u]\<rparr>))"

definition new_user_row :: "time \<Rightarrow> uuid \<Rightarrow> user \<Rightarrow> user_row" where
  "new_user_row now newID u =
     \<lparr>us_id = newID, us_supabase_user_id = None, us_email = du_Email u, us_name = None,
      us_first_name = Some (du_FirstName u), us_last_name = Some (du_LastName u), us_image = du_Image u,
      us_tenant_id = Some (du_TenantID u), us_role = du_Role u, us_status = ''active'',
      us_password_change_required = False, us_auth_provider = None, us_email_verified_at = None, us_last_login_at = None, us_created_at = now,
      us_updated_at = now, us_deleted_at = None\<rparr>"

definition insert_user_error :: "pg_err \<Rightarrow> iam_err" where
  "insert_user_error e = (case e of UniqueViolation _ \<Rightarrow> ErrEmailTaken | _ \<Rightarrow> Internal)"

definition user_Create :: "(string \<Rightarrow> bool) \<Rightarrow> time \<Rightarrow> uuid \<Rightarrow> user \<Rightarrow> user iam_op" where
  "user_Create mail_ok now newID u =
     (case user_Validate mail_ok u of
        Some e \<Rightarrow> op_fail (ValidationError e)
      | None \<Rightarrow> op_try (stmt PgOther (insert_user (new_user_row now newID u)))
                  (\<lambda>e. op_fail (insert_user_error e))
                  (\<lambda>row. op_ret (scan_user (du_TenantID u) None row)))"

definition insert_membership_error :: "pg_err \<Rightarrow> iam_err" where
  "insert_membership_error e =
     (case e of
        ForeignKeyViolation c \<Rightarrow> if c = ''user_tenant_roles_role_id_fkey'' then ErrInvalidRoleID else Internal
      | UniqueViolation c \<Rightarrow> if c = ''idx_utr_active_unique'' then ErrUserAlreadyHasActiveRole else Internal
      | _ \<Rightarrow> Internal)"

definition CreateWithRole ::
  "(string \<Rightarrow> bool) \<Rightarrow> time \<Rightarrow> uuid \<Rightarrow> user \<Rightarrow> user_tenant_role \<Rightarrow> user iam_op" where
  "CreateWithRole mail_ok now newID u utr =
     (case user_Validate mail_ok u of
        Some e \<Rightarrow> op_fail (ValidationError e)
      | None \<Rightarrow>
          txn (op_bind (query Internal (\<lambda>_. Inr ())) (\<lambda>_.
               op_bind (op_try (stmt PgOther (insert_user (new_user_row now newID u)))
                          (\<lambda>e. op_fail (insert_user_error e)) op_ret) (\<lambda>row.
               op_bind (op_try (stmt PgOther (insert_utr (utr\<lparr>ut_UserID := us_id row,
                                   ut_CreatedAt := now, ut_UpdatedAt := now\<rparr>)))
                          (\<lambda>e. op_fail (insert_membership_error e)) op_ret) (\<lambda>_.
               op_bind (query Internal (\<lambda>_. Inr ())) (\<lambda>_.
               op_ret (scan_user (du_TenantID u) None row)))))))"

text \<open>The rows \<open>Update\<close> and \<open>Delete\<close> may touch; the trigger of the table stamps \<open>updated_at\<close>.\<close>

definition in_tenant :: "iam_db \<Rightarrow> uuid \<Rightarrow> uuid \<Rightarrow> user_row \<Rightarrow> bool" where
  "in_tenant d tenantID userID u \<longleftrightarrow> us_id u = userID \<and> us_deleted_at u = None \<and>
     (us_tenant_id u = Some tenantID \<or> (\<exists>t \<in> set (utrs d). active_of userID tenantID t))"

definition update_users ::
  "time \<Rightarrow> (user_row \<Rightarrow> bool) \<Rightarrow> (user_row \<Rightarrow> user_row) \<Rightarrow> iam_db \<Rightarrow> (iam_err + user_row) \<times> iam_db" where
  "update_users now hit f d =
     (let g = (\<lambda>u. (f u)\<lparr>us_updated_at := now\<rparr>)
      in case filter hit (users d) of
           [] \<Rightarrow> (Inl ErrUserNotFound, d)
         | u # _ \<Rightarrow> (Inr (g u), d\<lparr>users := update_where hit g (users d)\<rparr>))"

definition user_Update :: "(string \<Rightarrow> bool) \<Rightarrow> time \<Rightarrow> user \<Rightarrow> user iam_op" where
  "user_Update mail_ok now u =
     (case user_Validate mail_ok u of
        Some e \<Rightarrow> op_fail (ValidationError e)
      | None \<Rightarrow>
          op_bind (stmt Internal (\<lambda>d. update_users now (in_tenant d (du_TenantID u) (du_ID u))
             (\<lambda>x. x\<lparr>us_first_name := Some (du_FirstName u), us_last_name := Some (du_LastName u),
                     us_role := du_Role u, us_image := du_Image u\<rparr>) d))
            (\<lambda>row. op_ret (scan_user (du_TenantID u) None row)))"

definition user_Delete :: "time \<Rightarrow> uuid \<Rightarrow> uuid \<Rightarrow> unit iam_op" where
  "user_Delete now tenantID userID =
     op_bind (stmt Internal (\<lambda>d. update_users now (in_tenant d tenantID userID)
        (\<lambda>x. x\<lparr>us_deleted_at := Some now\<rparr>) d)) (\<lambda>_. op_ret ())"

definition ListPendingByTenant :: "uuid \<Rightarrow> bool \<Rightarrow> user list iam_op" where
  "ListPendingByTenant tenantID includeGlobal =
     query Internal (\<lambda>d. Inr
       [scan_user tenantID (Some m) u.
          m \<leftarrow> sort_desc ut_CreatedAt (utrs d), u \<leftarrow> users d,
          us_id u = ut_UserID m \<and> ut_TenantID m = tenantID \<and> ut_Status m = UTRPending \<and>
          us_deleted_at u = None \<and> (\<not> role_is_global d (ut_RoleID m) \<or> includeGlobal)])"

section \<open>Service\<close>

definition ListUsers :: "uuid \<Rightarrow> nat \<Rightarrow> nat \<Rightarrow> bool \<Rightarrow> (user list \<times> nat) iam_op" where
  "ListUsers tenantID limit offset includeGlobal = ListByTenant tenantID limit offset includeGlobal"

definition GetUser :: "uuid \<Rightarrow> uuid \<Rightarrow> bool \<Rightarrow> bool \<Rightarrow> user iam_op" where
  "GetUser tenantID userID crossTenant includeGlobal = user_GetByID tenantID userID crossTenant includeGlobal"

definition GetUserWithRoles :: "uuid \<Rightarrow> uuid \<Rightarrow> bool \<Rightarrow> bool \<Rightarrow> user_with_roles iam_op" where
  "GetUserWithRoles tenantID userID crossTenant includeGlobal =
     GetByIDWithRoles tenantID userID crossTenant includeGlobal"

definition CreateUser ::
  "(string \<Rightarrow> bool) \<Rightarrow> time \<Rightarrow> uuid \<Rightarrow> uuid \<Rightarrow> uuid \<Rightarrow> create_user_command \<Rightarrow> bool \<Rightarrow> user iam_op" where
  "CreateUser mail_ok now newID newUtrID tenantID cmd includeGlobal =
     (case create_Validate cmd of
        Some e \<Rightarrow> op_fail (ValidationError e)
      | None \<Rightarrow>
          op_bind (EnsureAssignable (cu_Role cmd) tenantID includeGlobal) (\<lambda>_.
          CreateWithRole mail_ok now newID
            \<lparr>du_ID = 0, du_TenantID = tenantID, du_FirstName = cu_FirstName cmd,
             du_LastName = cu_LastName cmd, du_Email = cu_Email cmd, du_Role = cu_Role cmd,
             du_Image = cu_Image cmd, du_CreatedAt = 0, du_UpdatedAt = 0, du_DeletedAt = None\<rparr>
            \<lparr>ut_ID = newUtrID, ut_UserID = 0, ut_TenantID = tenantID, ut_RoleID = Some (cu_Role cmd),
             ut_Status = UTRActive, ut_AssignedBy = Some (cu_AssignedBy cmd), ut_AssignedAt = Some now,
             ut_CreatedAt = 0, ut_UpdatedAt = 0\<rparr>))"

definition apply_user_update :: "update_user_command \<Rightarrow> user \<Rightarrow> user" where
  "apply_user_update cmd u =
     u\<lparr>du_FirstName := opt_or (uu_FirstName cmd) (du_FirstName u),
        du_LastName := opt_or (uu_LastName cmd) (du_LastName u),
        du_Role := opt_or (uu_Role cmd) (du_Role u),
        du_Image := (case uu_Image cmd of None \<Rightarrow> du_Image u | Some i \<Rightarrow> Some i)\<rparr>"

definition UpdateUser ::
  "(string \<Rightarrow> bool) \<Rightarrow> time \<Rightarrow> uuid \<Rightarrow> uuid \<Rightarrow> bool \<Rightarrow> bool \<Rightarrow> update_user_command \<Rightarrow> user iam_op" where
  "UpdateUser mail_ok now tenantID userID crossTenant includeGlobal cmd =
     (case update_Validate cmd of
        Some e \<Rightarrow> op_fail (ValidationError e)
      | None \<Rightarrow>
          op_bind (user_GetByID tenantID userID crossTenant includeGlobal) (\<lambda>current.
          op_bind (case uu_Role cmd of None \<Rightarrow> op_ret ()
                   | Some r \<Rightarrow> EnsureAssignable r (du_TenantID current) includeGlobal) (\<lambda>_.
          user_Update mail_ok now (apply_user_update cmd current))))"

definition DeleteUser :: "time \<Rightarrow> uuid \<Rightarrow> uuid \<Rightarrow> bool \<Rightarrow> bool \<Rightarrow> unit iam_op" where
  "DeleteUser now tenantID userID crossTenant includeGlobal =
     op_bind (user_GetByID tenantID userID crossTenant includeGlobal) (\<lambda>current.
     user_Delete now (du_TenantID current) userID)"

definition ListPendingUsers :: "uuid \<Rightarrow> bool \<Rightarrow> user list iam_op" where
  "ListPendingUsers tenantID includeGlobal = ListPendingByTenant tenantID includeGlobal"

definition status_of_text :: "string \<Rightarrow> user_role_status option" where
  "status_of_text s =
     (if s = ''active'' then Some UTRActive
      else if s = ''inactive'' then Some UTRRevoked
      else if s = ''suspended'' then Some UTRSuspended
      else None)"

text \<open>
  The id of the target is the text of the path; the guard compares it with the text of the caller's
  id. A text that is no UUID is refused by the driver, as the statement of \<open>GetByID\<close> fails.
\<close>

definition UpdateUserStatus ::
  "(string \<Rightarrow> uuid option) \<Rightarrow> time \<Rightarrow> uuid \<Rightarrow> string \<Rightarrow> string \<Rightarrow> string \<Rightarrow> bool \<Rightarrow> bool \<Rightarrow> user iam_op"
where
  "UpdateUserStatus parse now tenantID userText callerText status crossTenant includeGlobal =
     (if userText = callerText then op_fail ErrCannotDeactivateSelf
      else
     (case status_of_text status of
        None \<Rightarrow> op_fail ErrInvalidStatus
      | Some utrStatus \<Rightarrow>
     (case parse userText of
        None \<Rightarrow> op_fail Internal
      | Some userID \<Rightarrow>
          op_bind (user_GetByID tenantID userID crossTenant includeGlobal) (\<lambda>current.
          op_bind (utr_UpdateStatus now userID (du_TenantID current) utrStatus includeGlobal) (\<lambda>_.
          op_ret current)))))"

section \<open>Handlers\<close>

text \<open>
  \<open>HandleError\<close>: status and code. Two errors of the domain that no operation returns
  (\<open>ErrImmutableField\<close>, \<open>ErrTenantMismatch\<close>) have no constructor.
\<close>

definition users_HandleError :: "iam_err \<Rightarrow> nat \<times> string" where
  "users_HandleError e =
     (case e of
        ErrUserNotFound \<Rightarrow> (404, ''USER_NOT_FOUND'')
      | ErrEmailTaken \<Rightarrow> (409, ''DUPLICATE_EMAIL'')
      | ValidationError _ \<Rightarrow> (400, ''VALIDATION_ERROR'')
      | ErrCannotDeactivateSelf \<Rightarrow> (400, ''CANNOT_DEACTIVATE_SELF'')
      | ErrInvalidStatus \<Rightarrow> (400, ''INVALID_STATUS'')
      | ErrInvalidRoleID \<Rightarrow> (400, ''INVALID_ROLE'')
      | ErrNoActiveAssignment \<Rightarrow> (404, ''NO_ACTIVE_ASSIGNMENT'')
      | _ \<Rightarrow> (500, ''INTERNAL_ERROR''))"

type_synonym 'a reply = "(iam_db world, nat \<times> string, 'a) oper"

definition answer :: "'a iam_op \<Rightarrow> 'a reply" where
  "answer m = op_try m (\<lambda>e. op_fail (users_HandleError e)) op_ret"

text \<open>A query parameter: absent or empty is the default, otherwise an integer within bounds.\<close>

definition page_param :: "string \<Rightarrow> int \<Rightarrow> (int \<Rightarrow> bool) \<Rightarrow> int option" where
  "page_param text dflt ok =
     (if text = [] then Some dflt
      else case parse_int64 text of None \<Rightarrow> None | Some n \<Rightarrow> if ok n then Some n else None)"

definition ListUsers_handler ::
  "role_context option \<Rightarrow> uuid \<Rightarrow> string \<Rightarrow> string \<Rightarrow> (user list \<times> nat) reply" where
  "ListUsers_handler ctx tenantID l off =
     (case page_param l 20 (\<lambda>n. 1 \<le> n \<and> n \<le> 100) of
        None \<Rightarrow> op_fail (400, ''VALIDATION_ERROR'')
      | Some limit \<Rightarrow>
     (case page_param off 0 (\<lambda>n. 0 \<le> n) of
        None \<Rightarrow> op_fail (400, ''VALIDATION_ERROR'')
      | Some offset \<Rightarrow>
          answer (ListUsers tenantID (nat limit) (nat offset) (CanSeePlatformInternals ctx))))"

definition GetUser_handler :: "role_context option \<Rightarrow> uuid \<Rightarrow> uuid \<Rightarrow> string \<Rightarrow> (user + user_with_roles) reply" where
  "GetUser_handler ctx tenantID userID include =
     (let includeGlobal = CanSeePlatformInternals ctx; crossTenant = IsCrossTenantRole ctx
      in if include = ''roles''
         then answer (op_bind (GetUserWithRoles tenantID userID crossTenant includeGlobal) (\<lambda>u. op_ret (Inr u)))
         else answer (op_bind (GetUser tenantID userID crossTenant includeGlobal) (\<lambda>u. op_ret (Inl u))))"

definition ListPendingUsers_handler :: "role_context option \<Rightarrow> uuid \<Rightarrow> user list reply" where
  "ListPendingUsers_handler ctx tenantID = answer (ListPendingUsers tenantID (CanSeePlatformInternals ctx))"

definition UpdateUserStatus_handler ::
  "(string \<Rightarrow> uuid option) \<Rightarrow> time \<Rightarrow> role_context option \<Rightarrow> uuid \<Rightarrow> string option \<Rightarrow> string \<Rightarrow> string \<Rightarrow> user reply"
where
  "UpdateUserStatus_handler parse now ctx tenantID caller userText status =
     (case caller of
        None \<Rightarrow> op_fail (401, ''UNAUTHORIZED'')
      | Some callerText \<Rightarrow>
          answer (UpdateUserStatus parse now tenantID userText callerText status
                    (IsCrossTenantRole ctx) (CanSeePlatformInternals ctx)))"

definition CreateUser_handler ::
  "(string \<Rightarrow> bool) \<Rightarrow> time \<Rightarrow> uuid \<Rightarrow> uuid \<Rightarrow> role_context option \<Rightarrow> uuid \<Rightarrow> uuid option \<Rightarrow>
     create_user_command \<Rightarrow> user reply"
where
  "CreateUser_handler mail_ok now newID newUtrID ctx tenantID caller req =
     (case caller of
        None \<Rightarrow> op_fail (401, ''UNAUTHORIZED'')
      | Some callerID \<Rightarrow>
          answer (CreateUser mail_ok now newID newUtrID tenantID (req\<lparr>cu_AssignedBy := callerID\<rparr>)
                    (CanSeePlatformInternals ctx)))"

definition UpdateMe_handler ::
  "(string \<Rightarrow> bool) \<Rightarrow> time \<Rightarrow> role_context option \<Rightarrow> uuid \<Rightarrow> uuid option \<Rightarrow> string option \<Rightarrow> string option \<Rightarrow> user reply"
where
  "UpdateMe_handler mail_ok now ctx tenantID user firstName lastName =
     (case user of
        None \<Rightarrow> op_fail (401, ''UNAUTHORIZED'')
      | Some userID \<Rightarrow>
          answer (UpdateUser mail_ok now tenantID userID False (CanSeePlatformInternals ctx)
             \<lparr>uu_FirstName = firstName, uu_LastName = lastName, uu_Role = None, uu_Image = None\<rparr>))"

definition UpdateUser_handler ::
  "(string \<Rightarrow> bool) \<Rightarrow> time \<Rightarrow> role_context option \<Rightarrow> uuid \<Rightarrow> uuid \<Rightarrow> update_user_command \<Rightarrow> user reply" where
  "UpdateUser_handler mail_ok now ctx tenantID userID cmd =
     answer (UpdateUser mail_ok now tenantID userID (IsCrossTenantRole ctx) (CanSeePlatformInternals ctx) cmd)"

definition DeleteUser_handler :: "time \<Rightarrow> role_context option \<Rightarrow> uuid \<Rightarrow> uuid \<Rightarrow> unit reply" where
  "DeleteUser_handler now ctx tenantID userID =
     answer (DeleteUser now tenantID userID (IsCrossTenantRole ctx) (CanSeePlatformInternals ctx))"

section \<open>Effects\<close>

text \<open>
  What a request does to the tables: nothing, a new user with an active membership, a change of
  columns of users that no constraint mentions, or a change of the status of memberships.
\<close>

definition same_keys :: "(user_row \<Rightarrow> user_row) \<Rightarrow> bool" where
  "same_keys f \<longleftrightarrow> (\<forall>u. us_id (f u) = us_id u \<and> us_tenant_id (f u) = us_tenant_id u \<and>
     us_email (f u) = us_email u \<and> us_supabase_user_id (f u) = us_supabase_user_id u \<and> us_status (f u) = us_status u)"

inductive user_effect :: "bool \<Rightarrow> iam_db \<Rightarrow> iam_db \<Rightarrow> bool" for g :: bool where
  none: "user_effect g d d"
| create: "user_effect g d d2"
    if "insert_user row d = (Inr row', d1)" "insert_utr m d1 = (Inr m', d2)" "ut_UserID m = us_id row"
       "us_tenant_id row = Some (ut_TenantID m)" "ut_RoleID m = Some r" "role_allowed d r (ut_TenantID m) g"
| modify: "user_effect g d (d\<lparr>users := update_where hit f (users d)\<rparr>)" if "same_keys f"
| status: "user_effect g d d'" if "utr_step g t d d'"

lemma user_GetByID_read_only [simp]: "read_only (user_GetByID t u c g)"
  by (simp add: user_GetByID_def)

lemma user_GetByID_Inr:
  assumes "user_GetByID t u c g w = (Inr x, w')"
  obtains row where "row \<in> set (users (tables w))" and "us_id row = u" and "us_deleted_at row = None"
    and "x = scan_user t (resolved_membership (tables w) t u c) row"
    and "\<not> role_is_global (tables w) (role_name_of (resolved_membership (tables w) t u c)) \<or> g"
    and "tables w' = tables w"
proof -
  let ?m = "resolved_membership (tables w) t u c"
  have "x \<in> set (map (scan_user t ?m) (found_by_id (tables w) t u c (\<not> role_is_global (tables w) (role_name_of ?m) \<or> g)))"
    using assms by (auto simp: user_GetByID_def query_Inr Let_def simp del: set_map dest!: first_row_mem)
  moreover have "tables w' = tables w" using assms by (auto simp: user_GetByID_def dest: query_dbD)
  ultimately show thesis by (auto simp: found_by_id_def intro: that)
qed

lemma filter_Cons_mem: "filter p xs = x # ys \<Longrightarrow> x \<in> set xs \<and> p x"
  by (drule arg_cong [of _ _ set]) auto

lemma update_users_Inr:
  "update_users now hit f d = (Inr r, d') \<Longrightarrow>
     d' = d\<lparr>users := update_where hit (\<lambda>u. (f u)\<lparr>us_updated_at := now\<rparr>) (users d)\<rparr> \<and>
     (\<exists>u \<in> set (users d). hit u \<and> r = (f u)\<lparr>us_updated_at := now\<rparr>)"
  by (auto simp: update_users_def Let_def split: list.splits dest!: filter_Cons_mem)

lemma update_users_Inl: "update_users now hit f d = (Inl e, d') \<Longrightarrow> d' = d \<and> e = ErrUserNotFound \<and> filter hit (users d) = []"
  by (auto simp: update_users_def Let_def split: list.splits)

lemma insert_user_Inr:
  "insert_user u d = (Inr x, d') \<Longrightarrow> x = u \<and> d' = d\<lparr>users := users d @ [u]\<rparr> \<and>
     us_id u \<notin> us_id ` set (users d) \<and> \<not> (\<exists>x \<in> set (users d). same_email u x) \<and>
     \<not> (\<exists>x \<in> set (users d). same_supabase u x) \<and>
     (\<forall>t. us_tenant_id u = Some t \<longrightarrow> t \<in> tr_id ` set (tenants d))"
  by (auto simp: insert_user_def split: if_splits)

lemma insert_user_Inl: "insert_user u d = (Inl e, d') \<Longrightarrow> d' = d"
  by (auto simp: insert_user_def split: if_splits)

lemma utr_UpdateStatus_cases:
  assumes "utr_UpdateStatus now u t s g w = (r, w')"
  obtains (err) e where "r = Inl e" and "tables w' = tables w"
    | (ok) x where "r = Inr x"
        and "tables w' = (tables w)\<lparr>utrs := update_where (\<lambda>v. ut_UserID v = u \<and> ut_TenantID v = t \<and>
               ut_Status v \<noteq> UTRPending \<and> utr_visible (tables w) g v)
               (\<lambda>v. v\<lparr>ut_Status := s, ut_UpdatedAt := now\<rparr>) (utrs (tables w))\<rparr>"
        and "active_unique (utrs (tables w'))"
  using assms
  by (cases r) (auto simp: utr_UpdateStatus_def stmt_iffs Let_def split: list.splits if_splits)

lemma CreateWithRole_cases:
  assumes "CreateWithRole mail_ok now newID u utr w = (r, w')"
  obtains (err) e where "r = Inl e" and "tables w' = tables w"
    | (ok) row d1 m where "r = Inr (scan_user (du_TenantID u) None row)" and "user_Validate mail_ok u = None"
        and "row = new_user_row now newID u" and "insert_user row (tables w) = (Inr row, d1)"
        and "m = utr\<lparr>ut_UserID := newID, ut_CreatedAt := now, ut_UpdatedAt := now\<rparr>"
        and "insert_utr m d1 = (Inr m, tables w')"
proof (cases r)
  case (Inl e)
  then have "tables w' = tables w"
    using assms by (auto simp: CreateWithRole_def dest: txn_Inl_db split: option.splits)
  with Inl show thesis by (rule err)
next
  case (Inr x)
  note iffs = op_bind_Inr_iff query_Inr stmt_Inr op_try_cases txn_Inr
  from assms Inr obtain row d1 m where
      v: "user_Validate mail_ok u = None" and x: "x = scan_user (du_TenantID u) None row"
    and i1: "insert_user (new_user_row now newID u) (tables w) = (Inr row, d1)"
    and i2: "insert_utr (utr\<lparr>ut_UserID := us_id row, ut_CreatedAt := now, ut_UpdatedAt := now\<rparr>) d1 = (Inr m, tables w')"
    by (auto simp: CreateWithRole_def iffs split: option.splits)
  have row: "row = new_user_row now newID u" using insert_user_Inr [OF i1] by simp
  moreover have "m = utr\<lparr>ut_UserID := newID, ut_CreatedAt := now, ut_UpdatedAt := now\<rparr>"
    using insert_utr_Inr [OF i2] row by (simp add: new_user_row_def)
  ultimately show thesis using Inr v x i1 i2 by (intro ok) (auto simp: new_user_row_def)
qed

lemma EnsureAssignable_Inr:
  assumes "EnsureAssignable r t g w = (Inr u, w')"
  shows "tables w' = tables w \<and> role_allowed (tables w) r t g"
proof -
  have "tables w' = tables w" by (rule read_onlyD [OF EnsureAssignable_read_only assms])
  moreover obtain x w1 where "GetByIDForTenant r t g w = (Inr x, w1)"
    using assms by (auto simp: EnsureAssignable_def op_try_cases)
  then have "x \<in> set (filter (\<lambda>y. ro_ID y = r \<and> role_visible (tables w) t g y) (roles (tables w)))"
    by (auto simp: GetByIDForTenant_def query_Inr simp del: set_filter dest!: first_row_mem)
  then have "role_allowed (tables w) r t g" by (auto simp: role_allowed_def role_visible_def)
  ultimately show ?thesis ..
qed

lemma CreateUser_cases:
  assumes "CreateUser mail_ok now newID newUtrID t cmd g w = (r, w')"
  obtains (err) e where "r = Inl e" and "tables w' = tables w"
    | (ok) x row m d1 where "r = Inr x" and "insert_user row (tables w) = (Inr row, d1)"
        and "insert_utr m d1 = (Inr m, tables w')" and "us_id row = newID" and "us_tenant_id row = Some t"
        and "us_email row = cu_Email cmd" and "us_deleted_at row = None" and "ut_UserID m = newID"
        and "ut_TenantID m = t" and "ut_RoleID m = Some (cu_Role cmd)" and "ut_Status m = UTRActive"
        and "ut_AssignedBy m = Some (cu_AssignedBy cmd)"
        and "role_allowed (tables w) (cu_Role cmd) t g" and "x = scan_user t None row"
proof (cases "create_Validate cmd")
  case (Some e)
  then have "r = Inl (ValidationError e)" "w' = w" using assms by (simp_all add: CreateUser_def)
  then show thesis by (intro err) simp_all
next
  case None
  from assms [unfolded CreateUser_def None option.simps] show thesis
  proof (cases rule: op_bindE)
    case (1 e)
    with read_onlyD [OF EnsureAssignable_read_only 1(1)] show thesis by (intro err)
  next
    case (2 y w1)
    note a = EnsureAssignable_Inr [OF 2(1)]
    from 2(2) show thesis
    proof (cases rule: CreateWithRole_cases)
      case (err e)
      with a show thesis by (intro that(1)) auto
    next
      case (ok row d1 m)
      with a show thesis
        by (intro that(2) [where x = "scan_user t None row" and row = row and ?d1.0 = d1 and m = m])
          (simp_all add: new_user_row_def)
    qed
  qed
qed

lemma same_keys_stamp: "same_keys f \<Longrightarrow> same_keys (\<lambda>u. (f u)\<lparr>us_updated_at := now\<rparr>)"
  by (simp add: same_keys_def)

lemma user_Update_cases:
  assumes "user_Update mail_ok now x w = (r, w')"
  obtains (err) e where "r = Inl e" and "tables w' = tables w"
    | (ok) f where "same_keys f" and "user_Validate mail_ok x = None"
        and "tables w' = (tables w)\<lparr>users := update_where (in_tenant (tables w) (du_TenantID x) (du_ID x)) f (users (tables w))\<rparr>"
proof (cases "user_Validate mail_ok x")
  case (Some e)
  then have "r = Inl (ValidationError e)" "w' = w" using assms by (simp_all add: user_Update_def)
  then show thesis by (intro err) simp_all
next
  case None
  let ?f = "\<lambda>y. y\<lparr>us_first_name := Some (du_FirstName x), us_last_name := Some (du_LastName x),
      us_role := du_Role x, us_image := du_Image x\<rparr>"
  have k: "same_keys ?f" by (simp add: same_keys_def)
  from assms [unfolded user_Update_def None option.simps] show thesis
  proof (cases rule: op_bindE)
    case (1 e)
    then show thesis by (intro err) (auto simp: stmt_Inl)
  next
    case (2 row w1)
    then have "tables w' = tables w1" by simp
    with 2(1) None same_keys_stamp [OF k, of now] show thesis
      by (intro ok [of "\<lambda>y. (?f y)\<lparr>us_updated_at := now\<rparr>"]) (auto simp: stmt_Inr dest!: update_users_Inr)
  qed
qed

lemma user_Delete_cases:
  assumes "user_Delete now t u w = (r, w')"
  obtains (err) e where "r = Inl e" and "tables w' = tables w"
    | (ok) "r = Inr ()" and "tables w' = (tables w)\<lparr>users := update_where (in_tenant (tables w) t u)
              (\<lambda>y. y\<lparr>us_deleted_at := Some now, us_updated_at := now\<rparr>) (users (tables w))\<rparr>"
        and "\<exists>y \<in> set (users (tables w)). in_tenant (tables w) t u y"
  using assms unfolding user_Delete_def
proof (cases rule: op_bindE)
  case (1 e)
  then show thesis by (intro that(1)) (auto simp: stmt_Inl)
next
  case (2 row w1)
  then show thesis by (intro that(2)) (auto simp: stmt_Inr dest!: update_users_Inr)
qed

text \<open>The user a request finds, and the tenant it acts on.\<close>

definition finds :: "iam_db \<Rightarrow> uuid \<Rightarrow> uuid \<Rightarrow> bool \<Rightarrow> bool \<Rightarrow> user \<Rightarrow> bool" where
  "finds d t u c g x \<longleftrightarrow>
     (\<exists>row \<in> set (users d). us_id row = u \<and> us_deleted_at row = None \<and>
        x = scan_user t (resolved_membership d t u c) row) \<and>
     (\<not> role_is_global d (role_name_of (resolved_membership d t u c)) \<or> g)"

lemma user_GetByID_finds:
  "user_GetByID t u c g w = (Inr x, w') \<Longrightarrow> finds (tables w) t u c g x \<and> tables w' = tables w"
  by (erule user_GetByID_Inr) (auto simp: finds_def)

lemma finds_ID: "finds d t u c g x \<Longrightarrow> du_ID x = u"
  by (auto simp: finds_def scan_user_def)

lemma UpdateUser_cases:
  assumes "UpdateUser mail_ok now t u c g cmd w = (r, w')"
  obtains (err) e where "r = Inl e" and "tables w' = tables w"
    | (ok) x f where "finds (tables w) t u c g x" and "same_keys f"
        and "tables w' = (tables w)\<lparr>users := update_where (in_tenant (tables w) (du_TenantID x) u) f (users (tables w))\<rparr>"
proof (cases "update_Validate cmd")
  case (Some e)
  then have "r = Inl (ValidationError e)" "w' = w" using assms by (simp_all add: UpdateUser_def)
  then show thesis by (intro err) simp_all
next
  case None
  from assms [unfolded UpdateUser_def None option.simps] show thesis
  proof (cases rule: op_bindE)
    case (1 e)
    with read_onlyD [OF user_GetByID_read_only 1(1)] show thesis by (intro err)
  next
    case (2 x w1)
    note a = user_GetByID_finds [OF 2(1)]
    from 2(2) show thesis
    proof (cases rule: op_bindE)
      case (1 e)
      then have "tables w' = tables w1"
        by (cases "uu_Role cmd") (auto dest: read_onlyD [OF EnsureAssignable_read_only])
      with 1 a show thesis by (intro err) simp_all
    next
      case (2 y w2)
      then have w2: "tables w2 = tables w"
        using a by (cases "uu_Role cmd") (auto dest: read_onlyD [OF EnsureAssignable_read_only])
      from 2(2) show thesis
      proof (cases rule: user_Update_cases)
        case (err e)
        with w2 show thesis by (intro that(1)) auto
      next
        case (ok f)
        have "du_TenantID (apply_user_update cmd x) = du_TenantID x" "du_ID (apply_user_update cmd x) = u"
          using finds_ID [OF conjunct1 [OF a]] by (simp_all add: apply_user_update_def)
        with ok w2 a show thesis by (intro that(2) [where x = x and f = f]) simp_all
      qed
    qed
  qed
qed

lemma DeleteUser_cases:
  assumes "DeleteUser now t u c g w = (r, w')"
  obtains (err) e where "r = Inl e" and "tables w' = tables w"
    | (ok) x where "r = Inr ()" and "finds (tables w) t u c g x"
        and "tables w' = (tables w)\<lparr>users := update_where (in_tenant (tables w) (du_TenantID x) u)
              (\<lambda>y. y\<lparr>us_deleted_at := Some now, us_updated_at := now\<rparr>) (users (tables w))\<rparr>"
        and "\<exists>y \<in> set (users (tables w)). in_tenant (tables w) (du_TenantID x) u y"
  using assms unfolding DeleteUser_def
proof (cases rule: op_bindE)
  case (1 e)
  with read_onlyD [OF user_GetByID_read_only 1(1)] show thesis by (intro that(1))
next
  case (2 x w1)
  note a = user_GetByID_finds [OF 2(1)]
  from 2(2) show thesis
    by (cases rule: user_Delete_cases) (use a in \<open>auto intro: that\<close>)
qed

lemma UpdateUserStatus_cases:
  assumes "UpdateUserStatus parse now t ut ct status c g w = (r, w')"
  obtains (err) e where "r = Inl e" and "tables w' = tables w"
    | (ok) u s x where "ut \<noteq> ct" and "status_of_text status = Some s" and "parse ut = Some u"
        and "finds (tables w) t u c g x" and "r = Inr x"
        and "tables w' = (tables w)\<lparr>utrs := update_where (\<lambda>v. ut_UserID v = u \<and> ut_TenantID v = du_TenantID x \<and>
               ut_Status v \<noteq> UTRPending \<and> utr_visible (tables w) g v)
               (\<lambda>v. v\<lparr>ut_Status := s, ut_UpdatedAt := now\<rparr>) (utrs (tables w))\<rparr>"
        and "active_unique (utrs (tables w'))"
proof (cases "ut = ct \<or> status_of_text status = None \<or> parse ut = None")
  case True
  then have "\<exists>e. r = Inl e" "w' = w"
    using assms by (auto simp: UpdateUserStatus_def split: if_splits option.splits)
  then show thesis by (auto intro: err)
next
  case False
  then obtain s u where s: "status_of_text status = Some s" "parse ut = Some u" and ne: "ut \<noteq> ct" by auto
  from assms [unfolded UpdateUserStatus_def s option.simps] ne
  have "op_bind (user_GetByID t u c g) (\<lambda>current. op_bind (utr_UpdateStatus now u (du_TenantID current) s g)
      (\<lambda>_. op_ret current)) w = (r, w')" by simp
  then show thesis
  proof (cases rule: op_bindE)
    case (1 e)
    with read_onlyD [OF user_GetByID_read_only 1(1)] show thesis by (intro err)
  next
    case (2 x w1)
    note a = user_GetByID_finds [OF 2(1)]
    from 2(2) show thesis
    proof (cases rule: op_bindE)
      case (1 e)
      from 1(1) show thesis by (cases rule: utr_UpdateStatus_cases) (use 1 a in \<open>auto intro: err\<close>)
    next
      case (2 y w2)
      then have w2: "w2 = w'" "r = Inr x" by simp_all
      from 2(1) show thesis
      proof (cases rule: utr_UpdateStatus_cases)
        case (ok z)
        with a s ne w2 show thesis by (intro that(2) [where x = x and u = u and s = s]) simp_all
      qed simp
    qed
  qed
qed

section \<open>Histories\<close>

datatype user_req =
    ReqCreateUser uuid uuid create_user_command
  | ReqUpdateUser uuid update_user_command
  | ReqUpdateMe "string option" "string option"
  | ReqDeleteUser uuid
  | ReqUserStatus string string

text \<open>\<open>text_of\<close> is \<open>uuid.String\<close>: the text of the caller's id.\<close>

fun user_exec ::
  "(string \<Rightarrow> bool) \<Rightarrow> (string \<Rightarrow> uuid option) \<Rightarrow> (uuid \<Rightarrow> string) \<Rightarrow> time \<Rightarrow> role_context option \<Rightarrow> uuid option \<Rightarrow>
     uuid \<Rightarrow> user_req \<Rightarrow> iam_db world \<Rightarrow> iam_db world" where
  "user_exec mail_ok parse text_of now ctx caller t (ReqCreateUser i m cmd) w =
     snd (CreateUser_handler mail_ok now i m ctx t caller cmd w)"
| "user_exec mail_ok parse text_of now ctx caller t (ReqUpdateUser u cmd) w =
     snd (UpdateUser_handler mail_ok now ctx t u cmd w)"
| "user_exec mail_ok parse text_of now ctx caller t (ReqUpdateMe a b) w =
     snd (UpdateMe_handler mail_ok now ctx t caller a b w)"
| "user_exec mail_ok parse text_of now ctx caller t (ReqDeleteUser u) w =
     snd (DeleteUser_handler now ctx t u w)"
| "user_exec mail_ok parse text_of now ctx caller t (ReqUserStatus ut s) w =
     snd (UpdateUserStatus_handler parse now ctx t (map_option text_of caller) ut s w)"

lemma snd_answer: "snd (answer m w) = snd (m w)"
  by (simp add: answer_def op_try_def split: prod.splits sum.splits)

lemma create_effect:
  "user_effect g (tables w) (tables (snd (CreateUser mail_ok now i m t cmd g w)))"
proof -
  obtain r w' where e: "CreateUser mail_ok now i m t cmd g w = (r, w')" by fastforce
  then show ?thesis
    by (cases rule: CreateUser_cases) (use e in \<open>auto intro: user_effect.none user_effect.create\<close>)
qed

lemma update_effect:
  "user_effect g (tables w) (tables (snd (UpdateUser mail_ok now t u c g cmd w)))"
proof -
  obtain r w' where e: "UpdateUser mail_ok now t u c g cmd w = (r, w')" by fastforce
  then show ?thesis
    by (cases rule: UpdateUser_cases) (use e in \<open>auto intro: user_effect.none user_effect.modify\<close>)
qed

lemma delete_effect: "user_effect g (tables w) (tables (snd (DeleteUser now t u c g w)))"
proof -
  obtain r w' where e: "DeleteUser now t u c g w = (r, w')" by fastforce
  then show ?thesis
  proof (cases rule: DeleteUser_cases)
    case (err e)
    then show ?thesis by (simp add: e user_effect.none)
  next
    case (ok x)
    have "same_keys (\<lambda>y. y\<lparr>us_deleted_at := Some now, us_updated_at := now\<rparr>)" by (simp add: same_keys_def)
    with ok show ?thesis by (simp add: e user_effect.modify)
  qed
qed

lemma status_effect:
  "user_effect g (tables w) (tables (snd (UpdateUserStatus parse now t ut ct s c g w)))"
proof -
  obtain r w' where e: "UpdateUserStatus parse now t ut ct s c g w = (r, w')" by fastforce
  then show ?thesis
  proof (cases rule: UpdateUserStatus_cases)
    case (err e)
    then show ?thesis by (simp add: e user_effect.none)
  next
    case (ok u st x)
    have "utr_step g (du_TenantID x) (tables w) (tables w')"
      unfolding ok(6) by (rule utr_step.restatus) (use ok(7) in \<open>simp_all add: ok(6)\<close>)
    then show ?thesis by (simp add: e user_effect.status)
  qed
qed

lemma user_exec_effect:
  "user_effect (CanSeePlatformInternals ctx) (tables w)
     (tables (user_exec mail_ok parse text_of now ctx caller t q w))"
  by (cases q; cases caller)
    (auto simp: CreateUser_handler_def UpdateUser_handler_def UpdateMe_handler_def DeleteUser_handler_def
      UpdateUserStatus_handler_def snd_answer create_effect update_effect delete_effect status_effect
      intro: user_effect.none)

section \<open>Well-formed users\<close>

text \<open>The constraints of the table users that the theory of its rows does not state.\<close>

definition users_wf :: "iam_db \<Rightarrow> bool" where
  "users_wf d \<longleftrightarrow>
     distinct (map (\<lambda>u. (us_tenant_id u, us_email u)) (filter (\<lambda>u. us_tenant_id u \<noteq> None) (users d))) \<and>
     distinct (map us_supabase_user_id (filter (\<lambda>u. us_supabase_user_id u \<noteq> None) (users d))) \<and>
     (\<forall>u \<in> set (users d). \<forall>t. us_tenant_id u = Some t \<longrightarrow> t \<in> tr_id ` set (tenants d))"

lemma users_wf_same: "users d' = users d \<Longrightarrow> tenants d' = tenants d \<Longrightarrow> users_wf d' = users_wf d"
  by (simp add: users_wf_def)

lemma insert_user_wf:
  assumes "insert_user u d = (Inr x, d')" and "iam_wf d" and "users_wf d"
  shows "iam_wf d' \<and> users_wf d'"
proof -
  note i = insert_user_Inr [OF assms(1)]
  have t: "tenant_can_use_role d' t r = tenant_can_use_role d t r" for t r
    using i by (intro same_roles_tenants) auto
  have "iam_wf d'" using assms(2) i t by (auto simp: iam_wf_def platform_rule_def utr_refs_def roles_wf_def)
  moreover have "users_wf d'"
    using assms(3) i by (fastforce simp: users_wf_def same_email_def same_supabase_def)
  ultimately show ?thesis ..
qed

definition same_refs :: "(user_row \<Rightarrow> user_row) \<Rightarrow> bool" where
  "same_refs f \<longleftrightarrow> (\<forall>u. us_id (f u) = us_id u \<and> us_tenant_id (f u) = us_tenant_id u \<and>
     us_email (f u) = us_email u \<and> us_supabase_user_id (f u) = us_supabase_user_id u)"

lemma same_keys_refs: "same_keys f \<Longrightarrow> same_refs f"
  by (simp add: same_keys_def same_refs_def)

lemma keys_update_where:
  assumes "same_refs f"
  shows "map us_id (update_where p f us) = map us_id us"
    "map (\<lambda>u. (us_tenant_id u, us_email u)) (filter (\<lambda>u. us_tenant_id u \<noteq> None) (update_where p f us)) =
       map (\<lambda>u. (us_tenant_id u, us_email u)) (filter (\<lambda>u. us_tenant_id u \<noteq> None) us)"
    "map us_supabase_user_id (filter (\<lambda>u. us_supabase_user_id u \<noteq> None) (update_where p f us)) =
       map us_supabase_user_id (filter (\<lambda>u. us_supabase_user_id u \<noteq> None) us)"
    "us_tenant_id ` set (update_where p f us) = us_tenant_id ` set us"
    "us_id ` set (update_where p f us) = us_id ` set us"
  using assms unfolding same_refs_def by (induction us) auto

lemma modify_users_wf:
  assumes "same_refs f" and "iam_wf d" and "users_wf d"
  shows "iam_wf (d\<lparr>users := update_where p f (users d)\<rparr>) \<and> users_wf (d\<lparr>users := update_where p f (users d)\<rparr>)"
proof -
  let ?d = "d\<lparr>users := update_where p f (users d)\<rparr>"
  note k = keys_update_where [OF assms(1)]
  have t: "tenant_can_use_role ?d t r = tenant_can_use_role d t r" for t r
    by (intro same_roles_tenants) auto
  have "iam_wf ?d" using assms(2) t by (simp add: iam_wf_def platform_rule_def utr_refs_def roles_wf_def k)
  moreover have "\<forall>u \<in> set (users ?d). \<forall>t. us_tenant_id u = Some t \<longrightarrow> t \<in> tr_id ` set (tenants d)"
  proof (intro ballI allI impI)
    fix u t assume u: "u \<in> set (users ?d)" "us_tenant_id u = Some t"
    then have "us_tenant_id u \<in> us_tenant_id ` set (users d)" using k(4) [of p "users d"] imageI [OF u(1), of us_tenant_id] by simp
    then show "t \<in> tr_id ` set (tenants d)" using assms(3) u(2) by (fastforce simp: users_wf_def)
  qed
  ultimately show ?thesis using assms(3) by (simp add: users_wf_def k del: not_None_eq)
qed

lemma user_effect_wf:
  assumes "user_effect g d d'" and "iam_wf d" and "users_wf d"
  shows "iam_wf d' \<and> users_wf d'"
  using assms
proof (induction rule: user_effect.induct)
  case (create row d row' d1 m m' d2 r)
  note u = insert_user_wf [OF create(1,7,8)]
  have "iam_wf d2" by (rule insert_utr_wf [OF conjunct1 [OF u] create(2)])
  moreover have "users d2 = users d1" "tenants d2 = tenants d1" using insert_utr_Inr [OF create(2)] by simp_all
  ultimately show ?case using u users_wf_same by blast
next
  case (modify f d hit)
  then show ?case by (intro modify_users_wf) (rule same_keys_refs)
next
  case (status t d d')
  have "users d' = users d" "tenants d' = tenants d" using utr_step_same [OF status(1)] by simp_all
  then show ?case using utr_step_wf [OF status(1,2)] status(3) users_wf_same by blast
qed simp_all

type_synonym user_event = "time \<times> role_context option \<times> uuid option \<times> uuid \<times> user_req"

fun user_run ::
  "(string \<Rightarrow> bool) \<Rightarrow> (string \<Rightarrow> uuid option) \<Rightarrow> (uuid \<Rightarrow> string) \<Rightarrow> user_event list \<Rightarrow> iam_db world \<Rightarrow> iam_db world"
where
  "user_run mail_ok parse text_of [] w = w"
| "user_run mail_ok parse text_of ((now, ctx, caller, t, q) # es) w =
     user_run mail_ok parse text_of es (user_exec mail_ok parse text_of now ctx caller t q w)"

text \<open>Without sight of the platform's internals no request adds a platform role or touches a row with one.\<close>

lemma user_effect_hidden:
  assumes "user_effect False d d'" and "iam_wf d"
  shows "hidden_rows d' = hidden_rows d"
  using assms
proof (induction rule: user_effect.induct)
  case (create row d row' d1 m m' d2 r)
  note i = insert_user_Inr [OF create(1)] and j = insert_utr_Inr [OF create(2)]
  have "\<not> role_is_global d (Some r)"
    by (rule role_allowed_not_global) (use create(6,7) in \<open>auto simp: iam_wf_def\<close>)
  moreover have "roles d2 = roles d" "utrs d2 = utrs d @ [m]" using i j by simp_all
  ultimately show ?case using create(5) by (simp add: hidden_rows_def role_is_global_same [of d2 d])
next
  case (modify f d hit)
  then show ?case by (simp add: hidden_rows_def role_is_global_same [of "d\<lparr>users := update_where hit f (users d)\<rparr>" d])
next
  case (status t d d')
  then show ?case by (intro utr_step_hidden) (auto simp: iam_wf_def)
qed simp

section \<open>Properties\<close>

lemma found_by_id_hidden: "found_by_id d t u c False = []"
  by (simp add: found_by_id_def)

lemma user_GetByID_hidden:
  "role_is_global (tables w) (role_name_of (resolved_membership (tables w) t u c)) \<Longrightarrow> calm w \<Longrightarrow>
     user_GetByID t u c False w = (Inl ErrUserNotFound, w\<lparr>nstmts := Suc (nstmts w)\<rparr>)"
  by (simp add: user_GetByID_def Let_def found_by_id_hidden)


text \<open>Creating a user is all or nothing, whatever statement fails: on an error the tables are as they
  were; on success there is one new user of the tenant, and one active membership of it with the role
  asked for, a role the caller may assign in this tenant.\<close>

theorem CreateUser_atomic:
  "(case CreateUser mail_ok now newID newUtrID t cmd g w of
      (Inl e, w') \<Rightarrow> tables w' = tables w
    | (Inr x, w') \<Rightarrow> (\<exists>row m. tables w' = (tables w)\<lparr>users := users (tables w) @ [row], utrs := utrs (tables w) @ [m]\<rparr> \<and>
         us_id row = newID \<and> us_tenant_id row = Some t \<and> us_email row = cu_Email cmd \<and>
         active_of newID t m \<and> ut_RoleID m = Some (cu_Role cmd) \<and> role_allowed (tables w) (cu_Role cmd) t g \<and>
         du_ID x = newID))"
proof -
  obtain r w' where e: "CreateUser mail_ok now newID newUtrID t cmd g w = (r, w')" by fastforce
  then show ?thesis
  proof (cases rule: CreateUser_cases)
    case (err f)
    then show ?thesis by (simp add: e)
  next
    case (ok x row m d1)
    have "tables w' = (tables w)\<lparr>users := users (tables w) @ [row], utrs := utrs (tables w) @ [m]\<rparr>"
      using insert_user_Inr [OF ok(2)] insert_utr_Inr [OF ok(3)] by simp
    moreover have "du_ID x = newID" using ok by (simp add: scan_user_def)
    moreover have "active_of newID t m" using ok by (simp add: active_of_def)
    ultimately show ?thesis using ok
      by (simp only: e prod.case sum.case) (intro exI [of _ row] exI [of _ m]; simp)
  qed
qed

text \<open>A change of status is contained: it reaches the memberships of one user in one tenant, the ones
  the caller sees and that are not pending, and sets all of them; every other row of every table stays.\<close>

theorem UpdateUserStatus_contained:
  assumes "UpdateUserStatus parse now t ut ct s c g w = (Inr x, w')"
  shows "\<exists>u st. parse ut = Some u \<and> status_of_text s = Some st \<and> du_ID x = u \<and>
    (\<forall>v \<in> set (utrs (tables w')). ut_UserID v = u \<and> ut_TenantID v = du_TenantID x \<and>
       ut_Status v \<noteq> UTRPending \<and> utr_visible (tables w) g v \<longrightarrow> ut_Status v = st) \<and>
    filter (\<lambda>v. ut_UserID v \<noteq> u \<or> ut_TenantID v \<noteq> du_TenantID x) (utrs (tables w')) =
      filter (\<lambda>v. ut_UserID v \<noteq> u \<or> ut_TenantID v \<noteq> du_TenantID x) (utrs (tables w)) \<and>
    (tables w')\<lparr>utrs := utrs (tables w)\<rparr> = tables w"
  using assms
proof (cases rule: UpdateUserStatus_cases)
  case (ok u st y)
  then have y: "y = x" by simp
  let ?hit = "\<lambda>v. ut_UserID v = u \<and> ut_TenantID v = du_TenantID x \<and> ut_Status v \<noteq> UTRPending \<and> utr_visible (tables w) g v"
  let ?f = "\<lambda>v. v\<lparr>ut_Status := st, ut_UpdatedAt := now\<rparr>"
  have new: "tables w' = (tables w)\<lparr>utrs := update_where ?hit ?f (utrs (tables w))\<rparr>" using ok(6) y by simp
  have hits: "ut_Status v = st" if v: "v \<in> set (utrs (tables w'))" "?hit v" for v
  proof -
    from v(1) obtain v0 where "v = (if ?hit v0 then ?f v0 else v0)" by (auto simp: new in_update_where)
    with v(2) show ?thesis by (cases "?hit v0") simp_all
  qed
  have "filter (\<lambda>v. ut_UserID v \<noteq> u \<or> ut_TenantID v \<noteq> du_TenantID x) (utrs (tables w')) =
      filter (\<lambda>v. ut_UserID v \<noteq> u \<or> ut_TenantID v \<noteq> du_TenantID x) (utrs (tables w))"
    unfolding new by (auto intro!: filter_update_where_cong)
  moreover have "(tables w')\<lparr>utrs := utrs (tables w)\<rparr> = tables w" by (simp add: new)
  ultimately show ?thesis using ok(2,3) hits finds_ID [OF ok(4)] y by blast
qed simp

text \<open>Deleting a user does not end his access: no decision of TenantFromHeader depends on the table of
  users, so that after a successful DeleteUser every tenant admits or refuses him as before.\<close>

theorem deleted_user_keeps_access:
  assumes "DeleteUser now t u c g (live d) = (Inr (), w')"
  shows "fst (TenantFromHeader header (Some u) (live (tables w'))) = fst (TenantFromHeader header (Some u) (live d)) \<and>
    (\<exists>y \<in> set (users (tables w')). us_id y = u \<and> us_deleted_at y = Some now)"
  using assms
proof (cases rule: DeleteUser_cases)
  case (ok x)
  then obtain us where us: "tables w' = d\<lparr>users := us\<rparr>"
    "us = update_where (in_tenant d (du_TenantID x) u) (\<lambda>y. y\<lparr>us_deleted_at := Some now, us_updated_at := now\<rparr>) (users d)"
    by simp
  have q: "membership_query v h (d\<lparr>users := us\<rparr>) = membership_query v h d"
    "operator_query v (d\<lparr>users := us\<rparr>) = operator_query v d" for v h
    by (simp_all add: membership_query_def operator_query_def)
  have same: "fst (TenantFromHeader header (Some u) (live (d\<lparr>users := us\<rparr>))) = fst (TenantFromHeader header (Some u) (live d))"
    by (simp add: TenantFromHeader_def q resolvePlatformOperator_def op_bind_def finish_context_def
        loadRolePermissions_def split: option.splits sum.splits prod.splits)
  obtain y where y: "y \<in> set (users d)" "in_tenant d (du_TenantID x) u y" using ok(4) by auto
  then have "y\<lparr>us_deleted_at := Some now, us_updated_at := now\<rparr> \<in> set us"
    unfolding us(2) in_update_where by (intro bexI [of _ y]) simp_all
  moreover have "us_id y = u" using y(2) by (simp add: in_tenant_def)
  ultimately have "\<exists>z \<in> set us. us_id z = u \<and> us_deleted_at z = Some now"
    by (intro bexI [of _ "y\<lparr>us_deleted_at := Some now, us_updated_at := now\<rparr>"]) simp_all
  with same us(1) show ?thesis by simp
qed simp

text \<open>The run of a change of status that takes memberships out of the active ones.\<close>

lemma active_rows_unique:
  assumes "active_unique us" and "m \<in> set us" and "active_of u t m"
  shows "filter (active_of u t) us = [m]"
proof -
  let ?k = "\<lambda>x. (ut_UserID x, ut_TenantID x)"
  have m: "m \<in> set (filter (\<lambda>x. ut_Status x = UTRActive) us)" "?k m = (u, t)"
    using assms(2,3) by (auto simp: active_of_def)
  have "filter (\<lambda>y. ?k y = ?k m \<and> True) (filter (\<lambda>x. ut_Status x = UTRActive) us) = [m]"
    by (rule filter_key_unique [where P = "\<lambda>_. True", OF assms(1) [unfolded active_unique_def] m(1)]) simp
  then have "filter (\<lambda>x. (ut_UserID x = u \<and> ut_TenantID x = t) \<and> ut_Status x = UTRActive) us = [m]"
    using m(2) by (simp add: conj_ac)
  then show ?thesis by (simp add: active_of_def [abs_def] conj_assoc)
qed

lemma resolved_own:
  assumes "active_unique (utrs d)" and "m \<in> set (utrs d)" and "active_of u t m"
  shows "resolved_membership d t u False = Some m"
  using active_rows_unique [OF assms]
  by (simp add: resolved_membership_def latest_first_def sort_desc_def split: list.split)

lemma UpdateUserStatus_run:
  assumes wf: "iam_wf d" and row: "row \<in> set (users d)" "us_id row = u" "us_deleted_at row = None"
    and m: "m \<in> set (utrs d)" "active_of u t m" "\<not> role_is_global d (ut_RoleID m)"
    and h: "h \<in> set (utrs d)" "active_of u home h" "\<not> role_is_global d (ut_RoleID h)"
    and home: "home = opt_or (us_tenant_id row) t"
    and args: "parse ut = Some u" "ut \<noteq> ct" "status_of_text s = Some st" "st \<noteq> UTRActive"
  shows "\<exists>x w'. UpdateUserStatus parse now t ut ct s False False (live d) = (Inr x, w') \<and>
    tables w' = d\<lparr>utrs := update_where (\<lambda>v. ut_UserID v = u \<and> ut_TenantID v = home \<and> ut_Status v \<noteq> UTRPending \<and>
      utr_visible d False v) (\<lambda>v. v\<lparr>ut_Status := st, ut_UpdatedAt := now\<rparr>) (utrs d)\<rparr>"
proof -
  let ?hit = "\<lambda>v. ut_UserID v = u \<and> ut_TenantID v = home \<and> ut_Status v \<noteq> UTRPending \<and> utr_visible d False v"
  have au: "active_unique (utrs d)" and ids: "distinct (map us_id (users d))" using wf by (simp_all add: iam_wf_def)
  note res = resolved_own [OF au m(1,2)]
  have "filter (\<lambda>y. us_id y = us_id row \<and> us_deleted_at y = None) (users d) = [row]"
    using filter_key_unique [OF ids row(1), of "\<lambda>y. us_deleted_at y = None"] row(3) by simp
  then have f: "found_by_id d t u False True = [row]"
    by (simp add: found_by_id_def res row(2))
  have g: "user_GetByID t u False False (live d) = (Inr (scan_user t (Some m) row), (live d)\<lparr>nstmts := 1\<rparr>)"
    using m(3) f by (simp add: user_GetByID_def Let_def res role_name_of_def)
  have tn: "du_TenantID (scan_user t (Some m) row) = home"
    using m(2) home by (cases "us_tenant_id row") (simp_all add: scan_user_def active_of_def)
  have "h \<in> set (filter ?hit (utrs d))" using h by (simp add: active_of_def utr_visible_def)
  then obtain v vs where v: "filter ?hit (utrs d) = v # vs" by (cases "filter ?hit (utrs d)") auto
  have ok: "active_unique (update_where ?hit (\<lambda>v. v\<lparr>ut_Status := st, ut_UpdatedAt := now\<rparr>) (utrs d))"
    by (rule active_unique_inactive) (use au args(4) in simp_all)
  have "\<exists>z w'. utr_UpdateStatus now u home st False ((live d)\<lparr>nstmts := 1\<rparr>) = (Inr z, w') \<and>
      tables w' = d\<lparr>utrs := update_where ?hit (\<lambda>v. v\<lparr>ut_Status := st, ut_UpdatedAt := now\<rparr>) (utrs d)\<rparr>"
    using v ok by (simp add: utr_UpdateStatus_def stmt_def Let_def)
  then obtain z w' where z: "utr_UpdateStatus now u home st False ((live d)\<lparr>nstmts := 1\<rparr>) = (Inr z, w')"
    "tables w' = d\<lparr>utrs := update_where ?hit (\<lambda>v. v\<lparr>ut_Status := st, ut_UpdatedAt := now\<rparr>) (utrs d)\<rparr>" by blast
  have "UpdateUserStatus parse now t ut ct s False False (live d) = (Inr (scan_user t (Some m) row), w')"
    using args g z tn by (simp add: UpdateUserStatus_def op_bind_def)
  with z(2) show ?thesis by blast
qed

text \<open>A user who belongs to another tenant by his row and is a member of this one is suspended in the
  wrong one: the status change of an admin of this tenant acts on the tenant of the user's row, where the
  admin has no power, and leaves the membership of the admin's own tenant active.\<close>

theorem suspension_hits_home_tenant:
  assumes "iam_wf d" and "row \<in> set (users d)" "us_id row = u" "us_deleted_at row = None" "us_tenant_id row = Some home"
    and "m \<in> set (utrs d)" "active_of u t m" "\<not> role_is_global d (ut_RoleID m)" "home \<noteq> t"
    and "h \<in> set (utrs d)" "active_of u home h" "\<not> role_is_global d (ut_RoleID h)"
    and "parse ut = Some u" "ut \<noteq> ct"
  shows "\<exists>x w'. UpdateUserStatus parse now t ut ct ''suspended'' False False (live d) = (Inr x, w') \<and>
    m \<in> set (utrs (tables w')) \<and> h\<lparr>ut_Status := UTRSuspended, ut_UpdatedAt := now\<rparr> \<in> set (utrs (tables w'))"
proof -
  let ?hit = "\<lambda>v. ut_UserID v = u \<and> ut_TenantID v = home \<and> ut_Status v \<noteq> UTRPending \<and> utr_visible d False v"
  have "\<exists>x w'. UpdateUserStatus parse now t ut ct ''suspended'' False False (live d) = (Inr x, w') \<and>
    tables w' = d\<lparr>utrs := update_where ?hit (\<lambda>v. v\<lparr>ut_Status := UTRSuspended, ut_UpdatedAt := now\<rparr>) (utrs d)\<rparr>"
    by (rule UpdateUserStatus_run [OF assms(1-4,6-8,10-12)]) (use assms in \<open>simp_all add: status_of_text_def\<close>)
  then obtain x w' where w': "UpdateUserStatus parse now t ut ct ''suspended'' False False (live d) = (Inr x, w')"
    "utrs (tables w') = update_where ?hit (\<lambda>v. v\<lparr>ut_Status := UTRSuspended, ut_UpdatedAt := now\<rparr>) (utrs d)" by auto
  have m: "\<not> ?hit m" and h: "?hit h" using assms(7,9,11,12) by (auto simp: active_of_def utr_visible_def)
  have "m = (if ?hit m then m\<lparr>ut_Status := UTRSuspended, ut_UpdatedAt := now\<rparr> else m)"
    by (rule if_not_P [OF m, symmetric])
  then have "m \<in> set (utrs (tables w'))" unfolding w'(2) in_update_where by (rule bexI [OF _ assms(6)])
  moreover have "h\<lparr>ut_Status := UTRSuspended, ut_UpdatedAt := now\<rparr> =
      (if ?hit h then h\<lparr>ut_Status := UTRSuspended, ut_UpdatedAt := now\<rparr> else h)"
    by (rule if_P [OF h, symmetric])
  then have "h\<lparr>ut_Status := UTRSuspended, ut_UpdatedAt := now\<rparr> \<in> set (utrs (tables w'))"
    unfolding w'(2) in_update_where by (rule bexI [OF _ assms(10)])
  ultimately show ?thesis using w'(1) by blast
qed

text \<open>The guard against deactivating oneself compares texts: an id that uuid.Parse reads as the caller's
  but that is written differently, in capitals say, passes it, and the caller's own membership is
  revoked.\<close>

theorem self_guard_is_textual:
  assumes "iam_wf d" and "row \<in> set (users d)" "us_id row = caller" "us_deleted_at row = None"
    and "us_tenant_id row = None \<or> us_tenant_id row = Some t"
    and "m \<in> set (utrs d)" "active_of caller t m" "\<not> role_is_global d (ut_RoleID m)"
    and "parse ut = Some caller" "ut \<noteq> text_of caller"
  shows "\<exists>x w'. UpdateUserStatus parse now t ut (text_of caller) ''inactive'' False False (live d) = (Inr x, w') \<and>
    m\<lparr>ut_Status := UTRRevoked, ut_UpdatedAt := now\<rparr> \<in> set (utrs (tables w'))"
proof -
  let ?hit = "\<lambda>v. ut_UserID v = caller \<and> ut_TenantID v = t \<and> ut_Status v \<noteq> UTRPending \<and> utr_visible d False v"
  have "\<exists>x w'. UpdateUserStatus parse now t ut (text_of caller) ''inactive'' False False (live d) = (Inr x, w') \<and>
    tables w' = d\<lparr>utrs := update_where ?hit (\<lambda>v. v\<lparr>ut_Status := UTRRevoked, ut_UpdatedAt := now\<rparr>) (utrs d)\<rparr>"
    by (rule UpdateUserStatus_run [OF assms(1-4,6-8,6-8)]) (use assms in \<open>auto simp: status_of_text_def\<close>)
  then obtain x w' where
      w': "UpdateUserStatus parse now t ut (text_of caller) ''inactive'' False False (live d) = (Inr x, w')"
    "utrs (tables w') = update_where ?hit (\<lambda>v. v\<lparr>ut_Status := UTRRevoked, ut_UpdatedAt := now\<rparr>) (utrs d)" by auto
  have "?hit m" using assms(7,8) by (auto simp: active_of_def utr_visible_def)
  then have "m\<lparr>ut_Status := UTRRevoked, ut_UpdatedAt := now\<rparr> =
      (if ?hit m then m\<lparr>ut_Status := UTRRevoked, ut_UpdatedAt := now\<rparr> else m)"
    by (rule if_P [symmetric])
  then have "m\<lparr>ut_Status := UTRRevoked, ut_UpdatedAt := now\<rparr> \<in> set (utrs (tables w'))"
    unfolding w'(2) in_update_where by (rule bexI [OF _ assms(6)])
  with w'(1) show ?thesis by blast
qed

lemma set_latest_first [simp]: "set (latest_first us) = set us"
  by (auto simp: latest_first_def)

lemma resolved_own_Some:
  assumes "resolved_membership d t u False = Some m"
  shows "m \<in> set (utrs d) \<and> active_of u t m"
proof -
  obtain ms where "latest_first (filter (active_of u t) (utrs d)) = m # ms"
    using assms by (auto simp: resolved_membership_def split: list.splits)
  then have "m \<in> set (latest_first (filter (active_of u t) (utrs d)))" by simp
  then show ?thesis by simp
qed

lemma resolved_own_None:
  "(\<forall>v \<in> set (utrs d). \<not> active_of u t v) \<Longrightarrow> resolved_membership d t u False = None"
  by (simp add: resolved_membership_def latest_first_def sort_desc_def filter_empty_conv)

text \<open>A suspension cannot be lifted by the one who imposed it: a user whose row names no tenant, as
  the login provisions it, is only found through an active membership, so that after suspending him the
  tenant's administration no longer finds him to reactivate him.\<close>

theorem suspension_is_final:
  assumes "iam_wf (tables w)" and "UpdateUserStatus parse now t ut ct ''suspended'' False g w = (Inr x, w')"
    and "parse ut = Some u" and "\<forall>row \<in> set (users (tables w)). us_id row = u \<longrightarrow> us_tenant_id row = None"
    and "ut \<noteq> ct'"
  shows "fst (UpdateUserStatus parse now' t ut ct' ''active'' False g' (live (tables w'))) = Inl ErrUserNotFound"
  using assms(2)
proof (cases rule: UpdateUserStatus_cases)
  case (ok u' st y)
  then have u: "u' = u" "y = x" and st: "st = UTRSuspended" using assms(3) by (auto simp: status_of_text_def)
  let ?d = "tables w"
  obtain row where row: "row \<in> set (users ?d)" "us_id row = u" "x = scan_user t (resolved_membership ?d t u False) row"
    and vis: "\<not> role_is_global ?d (role_name_of (resolved_membership ?d t u False)) \<or> g"
    using ok(4) u by (auto simp: finds_def)
  have "du_TenantID x = t"
  proof (cases "resolved_membership ?d t u False")
    case None
    then show ?thesis using row assms(4) by (simp add: scan_user_def)
  next
    case (Some m)
    then have "active_of u t m" using resolved_own_Some by blast
    then show ?thesis using row assms(4) Some by (simp add: scan_user_def active_of_def)
  qed
  let ?hit = "\<lambda>v. ut_UserID v = u \<and> ut_TenantID v = t \<and> ut_Status v \<noteq> UTRPending \<and> utr_visible ?d g v"
  let ?f = "\<lambda>v. v\<lparr>ut_Status := UTRSuspended, ut_UpdatedAt := now\<rparr>"
  have new: "tables w' = ?d\<lparr>utrs := update_where ?hit ?f (utrs ?d)\<rparr>"
    using ok(6) u st \<open>du_TenantID x = t\<close> by simp
  have "\<not> active_of u t v" if v: "v \<in> set (utrs (tables w'))" for v
  proof
    assume a: "active_of u t v"
    from v obtain v0 where v0: "v0 \<in> set (utrs ?d)" "v = (if ?hit v0 then ?f v0 else v0)"
      by (auto simp: new in_update_where)
    with a have "\<not> ?hit v0" "v = v0" by (auto simp: active_of_def split: if_splits)
    moreover have "resolved_membership ?d t u False = Some v0"
      using resolved_own [of ?d v0 u t] assms(1) v0(1) a \<open>v = v0\<close> by (simp add: iam_wf_def)
    then have "utr_visible ?d g v0" using vis by (simp add: role_name_of_def utr_visible_def)
    ultimately show False using a by (simp add: active_of_def)
  qed
  then have res: "resolved_membership (tables w') t u False = None" by (intro resolved_own_None) simp
  have "us_tenant_id row' \<noteq> Some t" if "row' \<in> set (users ?d)" "us_id row' = u" for row'
    using assms(4) that by simp
  moreover have "users (tables w') = users ?d" by (simp add: new)
  ultimately have "found_by_id (tables w') t u False True = []"
    by (simp add: found_by_id_def filter_empty_conv res)
  then show ?thesis using assms(3,5) res
    by (simp add: UpdateUserStatus_def status_of_text_def op_bind_def user_GetByID_def Let_def role_name_of_def
        role_is_global_def)
qed simp

section \<open>Instances\<close>

text \<open>
  User 50 belongs to tenant 2 by its row and is a member of tenants 2 and 3; user 30 holds a platform
  role. \<open>read_id\<close> reads two spellings of the id of user 20.
\<close>

definition shared_member :: iam_db where
  "shared_member = hidden_member\<lparr>tenants := tenants hidden_member @ [tenant_sample 3 ''beta'' False],
     users := users hidden_member @ [(user_sample 50 ''e'')\<lparr>us_tenant_id := Some 2\<rparr>],
     utrs := utrs hidden_member @ [membership_sample 500 50 2 ''cliente_admin'', membership_sample 501 50 3 ''cliente_admin'']\<rparr>"

definition read_id :: "string \<Rightarrow> uuid option" where
  "read_id s = (if s = ''aa'' \<or> s = ''AA'' then Some 20 else if s = ''50'' then Some 50
     else if s = ''30'' then Some 30 else None)"

definition no_change :: update_user_command where
  "no_change = \<lparr>uu_FirstName = None, uu_LastName = None, uu_Role = None, uu_Image = None\<rparr>"

lemmas shared_defs = shared_member_def hidden_member_def two_tenants_def samples

lemma shared_member_wf: "iam_wf shared_member"
  by (simp add: iam_wf_defs shared_defs tenant_can_use_role_def role_is_global_def is_platform_def)

lemma cliente_admin_local: "\<not> role_is_global shared_member (Some ''cliente_admin'')"
  by (simp add: shared_defs role_is_global_def)


theorem suspension_hits_home_tenant_instance:
  "\<exists>x w'. UpdateUserStatus read_id 5 3 ''50'' ''aa'' ''suspended'' False False (live shared_member) = (Inr x, w') \<and>
     membership_sample 501 50 3 ''cliente_admin'' \<in> set (utrs (tables w')) \<and>
     (membership_sample 500 50 2 ''cliente_admin'')\<lparr>ut_Status := UTRSuspended, ut_UpdatedAt := 5\<rparr> \<in> set (utrs (tables w'))"
  by (rule suspension_hits_home_tenant [OF shared_member_wf,
        where row = "(user_sample 50 ''e'')\<lparr>us_tenant_id := Some 2\<rparr>" and home = 2 and u = 50])
    (use cliente_admin_local in \<open>simp_all add: shared_defs active_of_def read_id_def\<close>)

theorem self_guard_is_textual_instance:
  "\<exists>x w'. UpdateUserStatus read_id 5 2 ''AA'' ''aa'' ''inactive'' False False (live shared_member) = (Inr x, w') \<and>
     (membership_sample 200 20 2 ''cliente_admin'')\<lparr>ut_Status := UTRRevoked, ut_UpdatedAt := 5\<rparr> \<in> set (utrs (tables w'))"
  by (rule self_guard_is_textual [OF shared_member_wf, where row = "user_sample 20 ''b''" and caller = 20 and text_of = "\<lambda>_. ''aa''"])
    (use cliente_admin_local in \<open>simp_all add: shared_defs active_of_def read_id_def\<close>)

lemma suspend_20:
  "\<exists>x w'. UpdateUserStatus read_id 5 2 ''aa'' ''50'' ''suspended'' False False (live shared_member) = (Inr x, w') \<and>
     users (tables w') = users shared_member"
proof -
  have "\<exists>x w'. UpdateUserStatus read_id 5 2 ''aa'' ''50'' ''suspended'' False False (live shared_member) = (Inr x, w') \<and>
    tables w' = shared_member\<lparr>utrs := update_where (\<lambda>v. ut_UserID v = 20 \<and> ut_TenantID v = 2 \<and> ut_Status v \<noteq> UTRPending \<and>
      utr_visible shared_member False v) (\<lambda>v. v\<lparr>ut_Status := UTRSuspended, ut_UpdatedAt := 5\<rparr>) (utrs shared_member)\<rparr>"
    by (rule UpdateUserStatus_run [OF shared_member_wf, where row = "user_sample 20 ''b''"
          and m = "membership_sample 200 20 2 ''cliente_admin''" and h = "membership_sample 200 20 2 ''cliente_admin''"])
      (use cliente_admin_local in \<open>simp_all add: shared_defs active_of_def read_id_def status_of_text_def\<close>)
  then show ?thesis by auto
qed

theorem UpdateUserStatus_contained_instance:
  "\<exists>x w'. UpdateUserStatus read_id 5 2 ''aa'' ''50'' ''suspended'' False False (live shared_member) = (Inr x, w') \<and>
     (tables w')\<lparr>utrs := utrs shared_member\<rparr> = shared_member"
proof -
  obtain x w' where r: "UpdateUserStatus read_id 5 2 ''aa'' ''50'' ''suspended'' False False (live shared_member) = (Inr x, w')"
    using suspend_20 by blast
  from UpdateUserStatus_contained [OF r] r show ?thesis by auto
qed

theorem suspension_is_final_instance:
  "\<exists>x w'. UpdateUserStatus read_id 5 2 ''aa'' ''50'' ''suspended'' False False (live shared_member) = (Inr x, w') \<and>
     fst (UpdateUserStatus read_id 6 2 ''aa'' ''50'' ''active'' False False (live (tables w'))) = Inl ErrUserNotFound"
proof -
  obtain x w' where r: "UpdateUserStatus read_id 5 2 ''aa'' ''50'' ''suspended'' False False (live shared_member) = (Inr x, w')"
    using suspend_20 by blast
  have "fst (UpdateUserStatus read_id 6 2 ''aa'' ''50'' ''active'' False False (live (tables w'))) = Inl ErrUserNotFound"
    by (rule suspension_is_final [OF _ r, where u = 20])
      (simp_all add: shared_member_wf read_id_def, simp add: shared_defs)
  with r show ?thesis by blast
qed

theorem deleted_user_keeps_access_instance:
  "\<exists>w'. DeleteUser 5 2 20 False False (live two_tenants) = (Inr (), w') \<and>
     fst (TenantFromHeader (Some (Some 2)) (Some 20) (live (tables w'))) =
     fst (TenantFromHeader (Some (Some 2)) (Some 20) (live two_tenants))"
proof -
  have "fst (DeleteUser 5 2 20 False False (live two_tenants)) = Inr ()"
    by (simp add: DeleteUser_def op_bind_def user_GetByID_def Let_def found_by_id_def resolved_membership_def
        latest_first_def sort_desc_def two_tenants_def samples active_of_def role_name_of_def role_is_global_def
        scan_user_def user_Delete_def stmt_def update_users_def in_tenant_def)
  then obtain w' where r: "DeleteUser 5 2 20 False False (live two_tenants) = (Inr (), w')" by (metis prod.collapse)
  from deleted_user_keeps_access [OF r, of "Some (Some 2)"] r show ?thesis by blast
qed

end
