(* ===== verification/Tenants.thy ===== *)
theory Tenants
  imports Users
begin

text \<open>
  The tenants: \<open>internal/repo/pg/tenants\<close>, the use cases of \<open>internal/api/usecases/tenants\<close> and
  the handlers of \<open>internal/api/handler/tenants\<close> from the parsed request on. \<open>parse\<close> stands for
  \<open>uuid.Parse\<close>, \<open>mail_parses\<close> for \<open>net/mail.ParseAddress\<close> without an error, \<open>uri_parses\<close> for
  \<open>url.ParseRequestURI\<close> and \<open>to_lower\<close> for \<open>strings.ToLower\<close>.
\<close>

section \<open>Requests\<close>

record theme_update =
  thu_PrimaryColor :: "string option"
  thu_SecondaryColor :: "string option"
  thu_AccentColor :: "string option"
  thu_TextColor :: "string option"
  thu_BackgroundColor :: "string option"
  thu_LogoUrl :: "string option"
  thu_FaviconUrl :: "string option"

record address_update =
  adu_Street :: "string option"
  adu_City :: "string option"
  adu_State :: "string option"
  adu_PostalCode :: "string option"
  adu_Country :: "string option"

record settings_update =
  tsu_Locale :: "string option"
  tsu_Timezone :: "string option"
  tsu_DateFormat :: "string option"
  tsu_TimeFormat :: "string option"
  tsu_Currency :: "string option"

record update_tenant_request =
  ut_r_Name :: "string option"
  ut_r_CompanyName :: "string option"
  ut_r_Subdomain :: "string option"
  ut_r_Description :: "string option"
  ut_r_IsActive :: "bool option"
  ut_r_ContactEmail :: "string option"
  ut_r_CompanyWebsite :: "string option"
  ut_r_Theme :: "theme_update option"
  ut_r_Address :: "address_update option"
  ut_r_Settings :: "settings_update option"

record admin_user =
  au_Email :: string
  au_FirstName :: string
  au_LastName :: string
  au_Password :: string

record tenant_request =
  tq_Name :: string
  tq_CompanyName :: string
  tq_Subdomain :: string
  tq_Description :: string
  tq_AdminUser :: admin_user
  tq_PrimaryColor :: string
  tq_SecondaryColor :: string
  tq_AccentColor :: string
  tq_TextColor :: string
  tq_BackgroundColor :: string
  tq_Address :: address

section \<open>Repository\<close>

definition validLocales :: "string list" where
  "validLocales = [''es-AR'', ''es-ES'', ''en-US'', ''pt-BR'']"

definition validTimezones :: "string list" where
  "validTimezones = [''America/Argentina/Buenos_Aires'', ''America/Sao_Paulo'', ''America/Santiago'',
     ''America/Lima'', ''America/Bogota'', ''America/Mexico_City'', ''UTC'']"

definition validDateFormats :: "string list" where
  "validDateFormats = [''dd/MM/yyyy'', ''MM/dd/yyyy'', ''yyyy-MM-dd'']"

definition validTimeFormats :: "string list" where
  "validTimeFormats = [''HH:mm'', ''hh:mm a'']"

definition validCurrencies :: "string list" where
  "validCurrencies = [''ARS'', ''USD'', ''EUR'', ''BRL'', ''CLP'', ''MXN'']"

text \<open>The column types and CHECK constraints of the table.\<close>

definition settings_valid :: "tenant_settings \<Rightarrow> bool" where
  "settings_valid s \<longleftrightarrow>
     ts_Locale s \<in> set validLocales \<and> ts_Timezone s \<in> set validTimezones \<and>
     ts_DateFormat s \<in> set validDateFormats \<and> ts_TimeFormat s \<in> set validTimeFormats \<and>
     ts_Currency s \<in> set validCurrencies"

definition tenant_checks :: "tenant \<Rightarrow> bool" where
  "tenant_checks t \<longleftrightarrow>
     char_length (tn_Name t) \<le> 255 \<and> char_length (tn_CompanyName t) \<le> 255 \<and> char_length (tn_Subdomain t) \<le> 100 \<and>
     list_all (\<lambda>c. char_length c \<le> 7)
       [th_PrimaryColor (tn_Theme t), th_SecondaryColor (tn_Theme t), th_AccentColor (tn_Theme t),
        th_TextColor (tn_Theme t), th_BackgroundColor (tn_Theme t)] \<and>
     char_length (th_LogoUrl (tn_Theme t)) \<le> 500 \<and> char_length (th_FaviconUrl (tn_Theme t)) \<le> 500 \<and>
     char_length (ad_Street (tn_Address t)) \<le> 255 \<and> char_length (ad_City (tn_Address t)) \<le> 100 \<and>
     char_length (ad_State (tn_Address t)) \<le> 100 \<and> char_length (ad_PostalCode (tn_Address t)) \<le> 20 \<and>
     char_length (ad_Country (tn_Address t)) \<le> 100 \<and>
     char_length (ts_ContactEmail (tn_Settings t)) \<le> 255 \<and> char_length (ts_CompanyWebsite (tn_Settings t)) \<le> 255 \<and>
     settings_valid (tn_Settings t)"

definition FindByID :: "uuid \<Rightarrow> tenant option iam_op" where
  "FindByID i = query Internal (\<lambda>d. Inr (map_option tr_tenant (find (\<lambda>t. tr_id t = i) (tenants d))))"

definition FindBySubdomain :: "string \<Rightarrow> tenant option iam_op" where
  "FindBySubdomain sub =
     query Internal (\<lambda>d. Inr (map_option tr_tenant (find (\<lambda>t. tn_Subdomain (tr_tenant t) = sub) (tenants d))))"

definition FindAll :: "tenant list iam_op" where
  "FindAll = query Internal (\<lambda>d. Inr (map tr_tenant (sort_desc (\<lambda>t. tn_CreatedAt (tr_tenant t)) (tenants d))))"

definition tenant_Create :: "tenant \<Rightarrow> unit iam_op" where
  "tenant_Create t = stmt Internal (\<lambda>d.
     if \<not> tenant_checks t \<or> (\<exists>x \<in> set (tenants d). tr_id x = tn_ID t \<or> tn_Subdomain (tr_tenant x) = tn_Subdomain t)
     then (Inl Internal, d)
     else (Inr (), d\<lparr>tenants := tenants d @ [\<lparr>tr_tenant = t, tr_is_platform_tenant = False\<rparr>]\<rparr>))"

text \<open>An UPDATE without a row is no error; \<open>created_at\<close> and the platform flag are not in its SET.\<close>

definition tenant_Update :: "tenant \<Rightarrow> unit iam_op" where
  "tenant_Update t = stmt Internal (\<lambda>d.
     let hit = (\<lambda>x. tr_id x = tn_ID t);
         f = (\<lambda>x. x\<lparr>tr_tenant := t\<lparr>tn_CreatedAt := tn_CreatedAt (tr_tenant x)\<rparr>\<rparr>)
     in if filter hit (tenants d) \<noteq> [] \<and>
           (\<not> tenant_checks t \<or> (\<exists>x \<in> set (tenants d). tr_id x \<noteq> tn_ID t \<and> tn_Subdomain (tr_tenant x) = tn_Subdomain t))
        then (Inl Internal, d)
        else (Inr (), d\<lparr>tenants := update_where hit f (tenants d)\<rparr>))"

text \<open>
  \<open>DELETE FROM tenants\<close>: users, roles, permissions, memberships and invitations of the tenant go
  with it (\<open>ON DELETE CASCADE\<close>); the other foreign keys are checked on what remains, and a row that
  would dangle makes the statement fail.
\<close>

definition cascade_tenant :: "uuid \<Rightarrow> iam_db \<Rightarrow> iam_db" where
  "cascade_tenant i d =
     d\<lparr>tenants := filter (\<lambda>t. tr_id t \<noteq> i) (tenants d),
       roles := filter (\<lambda>r. ro_TenantID r \<noteq> Some i) (roles d),
       permissions := filter (\<lambda>p. pm_TenantID p \<noteq> Some i) (permissions d),
       users := filter (\<lambda>u. us_tenant_id u \<noteq> Some i) (users d),
       utrs := filter (\<lambda>u. ut_TenantID u \<noteq> i) (utrs d),
       invitations := filter (\<lambda>v. iv_TenantID v \<noteq> i) (invitations d)\<rparr>"

definition references_hold :: "iam_db \<Rightarrow> bool" where
  "references_hold d \<longleftrightarrow>
     (\<forall>u \<in> set (utrs d). ut_UserID u \<in> us_id ` set (users d) \<and>
        (case ut_RoleID u of None \<Rightarrow> True | Some r \<Rightarrow> r \<in> ro_ID ` set (roles d)) \<and>
        (case ut_AssignedBy u of None \<Rightarrow> True | Some a \<Rightarrow> a \<in> us_id ` set (users d))) \<and>
     (\<forall>v \<in> set (invitations d). iv_InvitedBy v \<in> us_id ` set (users d) \<and> iv_RoleID v \<in> ro_ID ` set (roles d))"

definition tenant_Delete :: "uuid \<Rightarrow> unit iam_op" where
  "tenant_Delete i = stmt Internal (\<lambda>d.
     if filter (\<lambda>t. tr_id t = i) (tenants d) = [] then (Inl ErrNotFound, d)
     else if references_hold (cascade_tenant i d) then (Inr (), cascade_tenant i d)
     else (Inl Internal, d))"

section \<open>Use cases\<close>

definition tenant_of_request :: "time \<Rightarrow> uuid \<Rightarrow> tenant_request \<Rightarrow> tenant" where
  "tenant_of_request now newID req =
     \<lparr>tn_ID = newID, tn_Name = tq_Name req, tn_CompanyName = tq_CompanyName req, tn_Subdomain = tq_Subdomain req,
      tn_Description = tq_Description req, tn_IsActive = True,
      tn_Theme = \<lparr>th_PrimaryColor = tq_PrimaryColor req, th_SecondaryColor = tq_SecondaryColor req,
        th_AccentColor = tq_AccentColor req, th_TextColor = tq_TextColor req,
        th_BackgroundColor = tq_BackgroundColor req, th_LogoUrl = [], th_FaviconUrl = ''/favicon.ico''\<rparr>,
      tn_Address = tq_Address req,
      tn_Settings = \<lparr>ts_ContactEmail = [], ts_CompanyWebsite = [], ts_Locale = ''es-AR'',
        ts_Timezone = ''America/Argentina/Buenos_Aires'', ts_DateFormat = ''dd/MM/yyyy'',
        ts_TimeFormat = ''HH:mm'', ts_Currency = ''ARS''\<rparr>,
      tn_CreatedAt = now, tn_UpdatedAt = now\<rparr>"

definition CreateTenant :: "tenant \<Rightarrow> unit iam_op" where
  "CreateTenant t = tenant_Create t"

definition apply_theme :: "theme_update \<Rightarrow> theme \<Rightarrow> theme" where
  "apply_theme u t =
     t\<lparr>th_PrimaryColor := opt_or (thu_PrimaryColor u) (th_PrimaryColor t),
        th_SecondaryColor := opt_or (thu_SecondaryColor u) (th_SecondaryColor t),
        th_AccentColor := opt_or (thu_AccentColor u) (th_AccentColor t),
        th_TextColor := opt_or (thu_TextColor u) (th_TextColor t),
        th_BackgroundColor := opt_or (thu_BackgroundColor u) (th_BackgroundColor t),
        th_LogoUrl := opt_or (thu_LogoUrl u) (th_LogoUrl t),
        th_FaviconUrl := opt_or (thu_FaviconUrl u) (th_FaviconUrl t)\<rparr>"

definition apply_address :: "address_update \<Rightarrow> address \<Rightarrow> address" where
  "apply_address u a =
     a\<lparr>ad_Street := opt_or (adu_Street u) (ad_Street a), ad_City := opt_or (adu_City u) (ad_City a),
        ad_State := opt_or (adu_State u) (ad_State a),
        ad_PostalCode := opt_or (adu_PostalCode u) (ad_PostalCode a),
        ad_Country := opt_or (adu_Country u) (ad_Country a)\<rparr>"

definition apply_settings :: "settings_update \<Rightarrow> tenant_settings \<Rightarrow> tenant_settings" where
  "apply_settings u s =
     s\<lparr>ts_Locale := opt_or (tsu_Locale u) (ts_Locale s), ts_Timezone := opt_or (tsu_Timezone u) (ts_Timezone s),
        ts_DateFormat := opt_or (tsu_DateFormat u) (ts_DateFormat s),
        ts_TimeFormat := opt_or (tsu_TimeFormat u) (ts_TimeFormat s),
        ts_Currency := opt_or (tsu_Currency u) (ts_Currency s)\<rparr>"

definition apply_tenant_update :: "update_tenant_request \<Rightarrow> tenant \<Rightarrow> tenant" where
  "apply_tenant_update req t =
     (let settings = (tn_Settings t)
            \<lparr>ts_ContactEmail := opt_or (ut_r_ContactEmail req) (ts_ContactEmail (tn_Settings t)),
             ts_CompanyWebsite := opt_or (ut_r_CompanyWebsite req) (ts_CompanyWebsite (tn_Settings t))\<rparr>
      in t\<lparr>tn_Name := opt_or (ut_r_Name req) (tn_Name t),
           tn_CompanyName := opt_or (ut_r_CompanyName req) (tn_CompanyName t),
           tn_Subdomain := opt_or (ut_r_Subdomain req) (tn_Subdomain t),
           tn_Description := opt_or (ut_r_Description req) (tn_Description t),
           tn_IsActive := opt_or (ut_r_IsActive req) (tn_IsActive t),
           tn_Theme := (case ut_r_Theme req of None \<Rightarrow> tn_Theme t | Some u \<Rightarrow> apply_theme u (tn_Theme t)),
           tn_Address := (case ut_r_Address req of None \<Rightarrow> tn_Address t | Some u \<Rightarrow> apply_address u (tn_Address t)),
           tn_Settings := (case ut_r_Settings req of None \<Rightarrow> settings | Some u \<Rightarrow> apply_settings u settings)\<rparr>)"

definition UpdateTenant :: "time \<Rightarrow> uuid \<Rightarrow> update_tenant_request \<Rightarrow> tenant iam_op" where
  "UpdateTenant now i req =
     op_bind (FindByID i) (\<lambda>tenant.
     case tenant of
       None \<Rightarrow> op_fail ErrTenantNotFound
     | Some t \<Rightarrow>
         let t' = (apply_tenant_update req t)\<lparr>tn_UpdatedAt := now\<rparr>
         in op_bind (tenant_Update t') (\<lambda>_. op_ret t'))"

definition DeleteTenant :: "uuid \<Rightarrow> unit iam_op" where
  "DeleteTenant i =
     op_try (tenant_Delete i) (\<lambda>e. op_fail (if e = ErrNotFound then ErrTenantNotFound else e)) op_ret"

definition GetTenant :: "uuid \<Rightarrow> tenant iam_op" where
  "GetTenant i =
     op_bind (FindByID i) (\<lambda>t. case t of None \<Rightarrow> op_fail ErrTenantNotFound | Some x \<Rightarrow> op_ret x)"

definition GetAllTenants :: "uuid option \<Rightarrow> tenant list iam_op" where
  "GetAllTenants scope =
     (case scope of
        None \<Rightarrow> FindAll
      | Some i \<Rightarrow> op_bind (FindByID i) (\<lambda>t. op_ret (case t of None \<Rightarrow> [] | Some x \<Rightarrow> [x])))"

definition GetPublicTenant :: "(string \<Rightarrow> uuid option) \<Rightarrow> (string \<Rightarrow> string) \<Rightarrow> string \<Rightarrow> tenant iam_op" where
  "GetPublicTenant parse to_lower idOrSubdomain =
     op_bind (case parse idOrSubdomain of
                Some i \<Rightarrow> FindByID i
              | None \<Rightarrow> FindBySubdomain (to_lower idOrSubdomain)) (\<lambda>t.
     case t of
       None \<Rightarrow> op_fail ErrTenantNotFound
     | Some x \<Rightarrow> if tn_IsActive x then op_ret x else op_fail ErrTenantNotFound)"

section \<open>Handlers\<close>

text \<open>The guard that every handler on a tenant repeats; \<open>ctxTenant\<close> is the tenant of the request.\<close>

definition TenantMatches :: "uuid option \<Rightarrow> uuid \<Rightarrow> bool" where
  "TenantMatches ctxTenant i \<longleftrightarrow> ctxTenant = Some i"

definition may_touch :: "role_context option \<Rightarrow> uuid option \<Rightarrow> uuid \<Rightarrow> bool" where
  "may_touch ctx ctxTenant i \<longleftrightarrow> IsCrossTenantRole ctx \<or> TenantMatches ctxTenant i"

definition tenant_status :: "iam_err \<Rightarrow> nat" where
  "tenant_status e = (if e = ErrTenantNotFound then 404 else 500)"

definition given_in :: "string option \<Rightarrow> string list \<Rightarrow> bool" where
  "given_in v allowed \<longleftrightarrow> (case v of None \<Rightarrow> True | Some x \<Rightarrow> x \<in> set allowed)"

definition update_request_ok :: "(string \<Rightarrow> bool) \<Rightarrow> (string \<Rightarrow> bool) \<Rightarrow> update_tenant_request \<Rightarrow> bool" where
  "update_request_ok mail_parses uri_parses req \<longleftrightarrow>
     (case ut_r_ContactEmail req of None \<Rightarrow> True | Some e \<Rightarrow> mail_parses e) \<and>
     (case ut_r_CompanyWebsite req of None \<Rightarrow> True | Some s \<Rightarrow> s = [] \<or> uri_parses s) \<and>
     (case ut_r_Settings req of None \<Rightarrow> True
      | Some s \<Rightarrow> given_in (tsu_Locale s) validLocales \<and> given_in (tsu_Timezone s) validTimezones \<and>
          given_in (tsu_DateFormat s) validDateFormats \<and> given_in (tsu_TimeFormat s) validTimeFormats \<and>
          given_in (tsu_Currency s) validCurrencies)"

definition UpdateTenant_handler ::
  "(string \<Rightarrow> uuid option) \<Rightarrow> (string \<Rightarrow> bool) \<Rightarrow> (string \<Rightarrow> bool) \<Rightarrow> time \<Rightarrow> role_context option \<Rightarrow> uuid option \<Rightarrow>
     string \<Rightarrow> update_tenant_request \<Rightarrow> (iam_db world, nat, tenant) oper"
where
  "UpdateTenant_handler parse mail_parses uri_parses now ctx ctxTenant text req =
     (case parse text of
        None \<Rightarrow> op_fail 400
      | Some i \<Rightarrow>
          if \<not> may_touch ctx ctxTenant i then op_fail 403
          else if \<not> update_request_ok mail_parses uri_parses req then op_fail 400
          else op_try (UpdateTenant now i req) (\<lambda>e. op_fail (tenant_status e)) op_ret)"

definition DeleteTenant_handler ::
  "(string \<Rightarrow> uuid option) \<Rightarrow> role_context option \<Rightarrow> uuid option \<Rightarrow> string \<Rightarrow> (iam_db world, nat, unit) oper" where
  "DeleteTenant_handler parse ctx ctxTenant text =
     (case parse text of
        None \<Rightarrow> op_fail 400
      | Some i \<Rightarrow>
          if \<not> may_touch ctx ctxTenant i then op_fail 403
          else op_try (DeleteTenant i) (\<lambda>e. op_fail (tenant_status e)) op_ret)"

definition GetTenant_handler ::
  "(string \<Rightarrow> uuid option) \<Rightarrow> role_context option \<Rightarrow> uuid option \<Rightarrow> string \<Rightarrow> (iam_db world, nat, tenant) oper" where
  "GetTenant_handler parse ctx ctxTenant text =
     (case parse text of
        None \<Rightarrow> op_fail 400
      | Some i \<Rightarrow>
          if \<not> may_touch ctx ctxTenant i then op_fail 403
          else op_try (GetTenant i) (\<lambda>e. op_fail (tenant_status e)) op_ret)"

definition GetAllTenants_handler :: "role_context option \<Rightarrow> uuid option \<Rightarrow> (iam_db world, nat, tenant list) oper" where
  "GetAllTenants_handler ctx ctxTenant =
     (if IsCrossTenantRole ctx then op_try (GetAllTenants None) (\<lambda>_. op_fail 500) op_ret
      else case ctxTenant of
             None \<Rightarrow> op_fail 500
           | Some i \<Rightarrow> op_try (GetAllTenants (Some i)) (\<lambda>_. op_fail 500) op_ret)"

text \<open>The binding tags of the request: \<open>required\<close> is a non-empty text, \<open>email\<close> the address check of
  the validator, \<open>min=8\<close> counts characters.\<close>

definition tenant_request_ok :: "(string \<Rightarrow> bool) \<Rightarrow> tenant_request \<Rightarrow> bool" where
  "tenant_request_ok is_email req \<longleftrightarrow>
     list_all (\<lambda>s. s \<noteq> [])
       [tq_Name req, tq_CompanyName req, tq_Subdomain req, tq_PrimaryColor req,
        ad_Street (tq_Address req), ad_City (tq_Address req), ad_State (tq_Address req),
        ad_PostalCode (tq_Address req), ad_Country (tq_Address req),
        au_Email (tq_AdminUser req), au_FirstName (tq_AdminUser req), au_LastName (tq_AdminUser req)] \<and>
     is_email (au_Email (tq_AdminUser req)) \<and> 8 \<le> char_length (au_Password (tq_AdminUser req))"

definition GetPublicTenant_handler ::
  "(string \<Rightarrow> uuid option) \<Rightarrow> (string \<Rightarrow> string) \<Rightarrow> string \<Rightarrow> (iam_db world, nat, tenant) oper" where
  "GetPublicTenant_handler parse to_lower idOrSubdomain =
     op_try (GetPublicTenant parse to_lower idOrSubdomain) (\<lambda>e. op_fail (tenant_status e)) op_ret"

definition CreateTenant_handler ::
  "(string \<Rightarrow> bool) \<Rightarrow> time \<Rightarrow> uuid \<Rightarrow> tenant_request \<Rightarrow> (iam_db world, nat, tenant) oper" where
  "CreateTenant_handler is_email now newID req =
     (if \<not> tenant_request_ok is_email req then op_fail 400
      else let t = tenant_of_request now newID req
           in op_try (CreateTenant t) (\<lambda>_. op_fail 500) (\<lambda>_. op_ret t))"

section \<open>Histories\<close>

datatype tenant_req =
    ReqNewTenant uuid tenant_request
  | ReqUpdateTenant string update_tenant_request
  | ReqDeleteTenant string

fun tenant_exec ::
  "(string \<Rightarrow> uuid option) \<Rightarrow> (string \<Rightarrow> bool) \<Rightarrow> (string \<Rightarrow> bool) \<Rightarrow> (string \<Rightarrow> bool) \<Rightarrow> time \<Rightarrow>
     role_context option \<Rightarrow> uuid option \<Rightarrow> tenant_req \<Rightarrow> iam_db world \<Rightarrow> iam_db world" where
  "tenant_exec parse em mp up now ctx t (ReqNewTenant i req) w = snd (CreateTenant_handler em now i req w)"
| "tenant_exec parse em mp up now ctx t (ReqUpdateTenant text req) w =
     snd (UpdateTenant_handler parse mp up now ctx t text req w)"
| "tenant_exec parse em mp up now ctx t (ReqDeleteTenant text) w = snd (DeleteTenant_handler parse ctx t text w)"

type_synonym tenant_event = "time \<times> role_context option \<times> uuid option \<times> tenant_req"

fun tenant_run ::
  "(string \<Rightarrow> uuid option) \<Rightarrow> (string \<Rightarrow> bool) \<Rightarrow> (string \<Rightarrow> bool) \<Rightarrow> (string \<Rightarrow> bool) \<Rightarrow> tenant_event list \<Rightarrow> iam_db world \<Rightarrow> iam_db world" where
  "tenant_run parse em mp up [] w = w"
| "tenant_run parse em mp up ((now, ctx, t, q) # es) w =
     tenant_run parse em mp up es (tenant_exec parse em mp up now ctx t q w)"

text \<open>What a request does to the tables; \<open>may\<close> are the tenants the caller may touch.\<close>

inductive tenant_effect :: "(uuid \<Rightarrow> bool) \<Rightarrow> iam_db \<Rightarrow> iam_db \<Rightarrow> bool" for may :: "uuid \<Rightarrow> bool" where
  none: "tenant_effect may d d"
| create: "tenant_effect may d (d\<lparr>tenants := tenants d @ [\<lparr>tr_tenant = t, tr_is_platform_tenant = False\<rparr>]\<rparr>)"
    if "tenant_checks t" "\<forall>x \<in> set (tenants d). tr_id x \<noteq> tn_ID t \<and> tn_Subdomain (tr_tenant x) \<noteq> tn_Subdomain t"
| update: "tenant_effect may d (d\<lparr>tenants := update_where (\<lambda>x. tr_id x = tn_ID t)
             (\<lambda>x. x\<lparr>tr_tenant := t\<lparr>tn_CreatedAt := tn_CreatedAt (tr_tenant x)\<rparr>\<rparr>) (tenants d)\<rparr>)"
    if "may (tn_ID t)" "\<exists>x \<in> set (tenants d). tr_id x = tn_ID t" "tenant_checks t"
       "\<forall>x \<in> set (tenants d). tr_id x \<noteq> tn_ID t \<longrightarrow> tn_Subdomain (tr_tenant x) \<noteq> tn_Subdomain t"
| delete: "tenant_effect may d (cascade_tenant i d)" if "may i" "references_hold (cascade_tenant i d)"

lemma FindByID_read_only [simp]: "read_only (FindByID i)"
  by (simp add: FindByID_def)

lemma find_tenant:
  "FindByID i w = (Inr (Some t), w') \<Longrightarrow> tn_ID t = i \<and> (\<exists>x \<in> set (tenants (tables w)). tr_id x = i)"
  by (auto simp: FindByID_def query_Inr find_Some_iff)

lemma tenant_Create_effect: "tenant_effect may (tables w) (tables (snd (tenant_Create t w)))"
proof -
  obtain r w' where e: "tenant_Create t w = (r, w')" by fastforce
  show ?thesis
  proof (cases r)
    case (Inl x)
    then have "tables w' = tables w" using e by (auto simp: tenant_Create_def stmt_Inl)
    then show ?thesis by (simp add: e tenant_effect.none)
  next
    case (Inr x)
    then have "tables w' = (tables w)\<lparr>tenants := tenants (tables w) @ [\<lparr>tr_tenant = t, tr_is_platform_tenant = False\<rparr>]\<rparr>"
      "tenant_checks t" "\<forall>x \<in> set (tenants (tables w)). tr_id x \<noteq> tn_ID t \<and> tn_Subdomain (tr_tenant x) \<noteq> tn_Subdomain t"
      using e by (auto simp: tenant_Create_def stmt_Inr split: if_splits)
    then show ?thesis by (simp add: e tenant_effect.create)
  qed
qed

lemma UpdateTenant_effect:
  assumes "may i"
  shows "tenant_effect may (tables w) (tables (snd (UpdateTenant now i req w)))"
proof -
  obtain r w' where e: "UpdateTenant now i req w = (r, w')" by fastforce
  from e [unfolded UpdateTenant_def] show ?thesis
  proof (cases rule: op_bindE)
    case (1 f)
    with read_onlyD [OF FindByID_read_only 1(1)] e show ?thesis by (simp add: tenant_effect.none)
  next
    case (2 x w1)
    note w1 = read_onlyD [OF FindByID_read_only 2(1)]
    show ?thesis
    proof (cases x)
      case None
      with 2(2) w1 e show ?thesis by (auto intro: tenant_effect.none)
    next
      case (Some t)
      let ?t = "(apply_tenant_update req t)\<lparr>tn_UpdatedAt := now\<rparr>"
      have t: "tn_ID ?t = i" "\<exists>y \<in> set (tenants (tables w)). tr_id y = i"
        using find_tenant [OF 2(1) [unfolded Some]] by (simp_all add: apply_tenant_update_def Let_def)
      then have ne: "filter (\<lambda>x. tr_id x = i) (tenants (tables w)) \<noteq> []" by (auto simp: filter_empty_conv)
      obtain r2 w2 where u: "tenant_Update ?t w1 = (r2, w2)" by fastforce
      have w': "tables w' = tables w2"
        using 2(2) u by (auto simp: Some op_bind_def Let_def split: sum.splits)
      show ?thesis
      proof (cases r2)
        case (Inl f)
        then have "tables w2 = tables w" using u w1 by (auto simp: tenant_Update_def stmt_Inl)
        with w' e show ?thesis by (simp add: tenant_effect.none)
      next
        case (Inr y)
        then have new: "tables w2 = (tables w)\<lparr>tenants := update_where (\<lambda>x. tr_id x = tn_ID ?t)
             (\<lambda>x. x\<lparr>tr_tenant := ?t\<lparr>tn_CreatedAt := tn_CreatedAt (tr_tenant x)\<rparr>\<rparr>) (tenants (tables w))\<rparr>"
          and ok: "tenant_checks ?t"
          "\<forall>x \<in> set (tenants (tables w)). tr_id x \<noteq> tn_ID ?t \<longrightarrow> tn_Subdomain (tr_tenant x) \<noteq> tn_Subdomain ?t"
          using u w1 ne t(1) by (auto simp: tenant_Update_def stmt_Inr Let_def split: if_splits)
        have "tenant_effect may (tables w) (tables w2)"
          unfolding new by (rule tenant_effect.update [OF _ _ ok]) (use t assms in simp_all)
        with w' e show ?thesis by simp
      qed
    qed
  qed
qed

lemma DeleteTenant_effect:
  assumes "may i"
  shows "tenant_effect may (tables w) (tables (snd (DeleteTenant i w)))"
proof -
  have "snd (DeleteTenant i w) = snd (tenant_Delete i w)"
    by (simp add: DeleteTenant_def op_try_def split: prod.splits sum.splits)
  moreover have "tables (snd (tenant_Delete i w)) = tables w \<or>
      references_hold (cascade_tenant i (tables w)) \<and> tables (snd (tenant_Delete i w)) = cascade_tenant i (tables w)"
    by (auto simp: tenant_Delete_def stmt_def split: if_splits)
  ultimately show ?thesis using assms by (auto intro: tenant_effect.none tenant_effect.delete)
qed

lemma snd_op_try_ret: "(\<And>x. f x = op_ret (g x)) \<Longrightarrow> snd (op_try m (\<lambda>e. op_fail (h e)) f w) = snd (m w)"
  by (simp add: op_try_def split: prod.splits sum.splits)

lemma tenant_exec_effect:
  "tenant_effect (may_touch ctx t) (tables w) (tables (tenant_exec parse em mp up now ctx t q w))"
proof (cases q)
  case (ReqNewTenant i req)
  have "snd (op_try (tenant_Create t) (\<lambda>_. op_fail (500 :: nat)) (\<lambda>_. op_ret t) w) = snd (tenant_Create t w)" for t
    by (rule snd_op_try_ret) (rule refl)
  with ReqNewTenant show ?thesis
    by (auto simp: CreateTenant_handler_def Let_def CreateTenant_def tenant_Create_effect intro: tenant_effect.none)
next
  case (ReqUpdateTenant tx req)
  then show ?thesis
    by (auto simp: UpdateTenant_handler_def snd_op_try_ret [where g = id] UpdateTenant_effect
        intro: tenant_effect.none split: option.splits)
next
  case (ReqDeleteTenant tx)
  then show ?thesis
    by (auto simp: DeleteTenant_handler_def snd_op_try_ret [where g = id] DeleteTenant_effect
        intro: tenant_effect.none split: option.splits)
qed

section \<open>Invariants\<close>

definition tenants_wf :: "iam_db \<Rightarrow> bool" where
  "tenants_wf d \<longleftrightarrow> iam_wf d \<and> distinct (map (\<lambda>t. tn_Subdomain (tr_tenant t)) (tenants d)) \<and>
     (\<forall>t \<in> set (tenants d). tenant_checks (tr_tenant t))"

lemma iam_wf_tenants:
  assumes "iam_wf d" and "distinct (map tr_id ts)" and "tr_id ` set (tenants d) \<subseteq> tr_id ` set ts"
    and "\<And>t. is_platform d t \<Longrightarrow> is_platform (d\<lparr>tenants := ts\<rparr>) t"
  shows "iam_wf (d\<lparr>tenants := ts\<rparr>)"
proof -
  have "tenant_can_use_role (d\<lparr>tenants := ts\<rparr>) t r" if "tenant_can_use_role d t r" for t r
    using that assms(4) by (auto simp: tenant_can_use_role_def role_is_global_def)
  then show ?thesis using assms by (fastforce simp: iam_wf_def platform_rule_def utr_refs_def roles_wf_def)
qed

lemma active_unique_filter: "active_unique us \<Longrightarrow> active_unique (filter P us)"
proof -
  assume a: "active_unique us"
  have "filter (\<lambda>u. ut_Status u = UTRActive) (filter P us) = filter P (filter (\<lambda>u. ut_Status u = UTRActive) us)"
    by (simp add: conj_commute)
  then show ?thesis using a unfolding active_unique_def by (simp only: distinct_map_filter)
qed

lemma cascade_wf:
  assumes "iam_wf d" and "references_hold (cascade_tenant i d)"
  shows "iam_wf (cascade_tenant i d)"
proof -
  let ?d = "cascade_tenant i d"
  have rule: "tenant_can_use_role ?d t r" if "tenant_can_use_role d t r" "t \<noteq> i" for t r
    using that by (auto simp: tenant_can_use_role_def role_is_global_def is_platform_def cascade_tenant_def)
  have "platform_rule ?d" unfolding platform_rule_def
  proof (intro ballI allI impI)
    fix u r assume u: "u \<in> set (utrs ?d)" "ut_RoleID u = Some r"
    then have "u \<in> set (utrs d)" "ut_TenantID u \<noteq> i" by (auto simp: cascade_tenant_def)
    with u assms(1) show "tenant_can_use_role ?d (ut_TenantID u) r"
      by (intro rule) (auto simp: iam_wf_def platform_rule_def)
  qed
  moreover have "utr_refs ?d" unfolding utr_refs_def
  proof
    fix u assume u: "u \<in> set (utrs ?d)"
    then have "u \<in> set (utrs d)" "ut_TenantID u \<noteq> i" by (auto simp: cascade_tenant_def)
    with assms(1) have "ut_TenantID u \<in> tr_id ` set (tenants ?d)"
      by (auto simp: iam_wf_def utr_refs_def cascade_tenant_def)
    moreover have "ut_UserID u \<in> us_id ` set (users ?d)"
      and "case ut_RoleID u of None \<Rightarrow> True | Some r \<Rightarrow> r \<in> ro_ID ` set (roles ?d)"
      using u assms(2) by (simp_all add: references_hold_def)
    ultimately show "ut_UserID u \<in> us_id ` set (users ?d) \<and> ut_TenantID u \<in> tr_id ` set (tenants ?d) \<and>
        (\<forall>r. ut_RoleID u = Some r \<longrightarrow> r \<in> ro_ID ` set (roles ?d))"
      by (cases "ut_RoleID u") simp_all
  qed
  moreover have "active_unique (utrs ?d)" "roles_wf ?d" "distinct (map tr_id (tenants ?d))"
    "distinct (map us_id (users ?d))" "distinct (map ut_ID (utrs ?d))"
    using assms(1) by (auto simp: iam_wf_def cascade_tenant_def active_unique_filter roles_wf_def distinct_map_filter)
  ultimately show ?thesis by (simp add: iam_wf_def)
qed

lemma update_tenant_keys:
  "map tr_id (update_where (\<lambda>x. tr_id x = tn_ID t) (\<lambda>x. x\<lparr>tr_tenant := t\<lparr>tn_CreatedAt := tn_CreatedAt (tr_tenant x)\<rparr>\<rparr>) ts) =
     map tr_id ts"
  by (induction ts) auto

lemma is_platform_keys: "is_platform d i \<longleftrightarrow> (i, True) \<in> set (map (\<lambda>x. (tr_id x, tr_is_platform_tenant x)) (tenants d))"
  by (auto simp: is_platform_def image_iff)

lemma update_tenant_flags:
  "map (\<lambda>x. (tr_id x, tr_is_platform_tenant x)) (update_where (\<lambda>x. tr_id x = tn_ID t)
      (\<lambda>x. x\<lparr>tr_tenant := t\<lparr>tn_CreatedAt := tn_CreatedAt (tr_tenant x)\<rparr>\<rparr>) ts) =
   map (\<lambda>x. (tr_id x, tr_is_platform_tenant x)) ts"
  by (induction ts) auto

lemma distinct_replaced:
  assumes "distinct (map k xs)" and "distinct (map g xs)" and "\<forall>x \<in> set xs. k x \<noteq> a \<longrightarrow> g x \<noteq> b"
  shows "distinct (map (\<lambda>x. if k x = a then b else g x) xs)"
  using assms
proof (induction xs)
  case (Cons x xs)
  let ?f = "\<lambda>x. if k x = a then b else g x"
  have "?f x \<noteq> ?f y" if "y \<in> set xs" for y
    using Cons(2-4) that by (auto simp: image_iff)
  then have "?f x \<notin> ?f ` set xs" by blast
  with Cons show ?case by simp
qed simp

lemma update_tenant_subdomains:
  assumes "distinct (map tr_id ts)" and "distinct (map (\<lambda>x. tn_Subdomain (tr_tenant x)) ts)"
    and "\<forall>x \<in> set ts. tr_id x \<noteq> tn_ID t \<longrightarrow> tn_Subdomain (tr_tenant x) \<noteq> tn_Subdomain t"
  shows "distinct (map (\<lambda>x. tn_Subdomain (tr_tenant x)) (update_where (\<lambda>x. tr_id x = tn_ID t)
           (\<lambda>x. x\<lparr>tr_tenant := t\<lparr>tn_CreatedAt := tn_CreatedAt (tr_tenant x)\<rparr>\<rparr>) ts))"
proof -
  have "map (\<lambda>x. tn_Subdomain (tr_tenant x)) (update_where (\<lambda>x. tr_id x = tn_ID t)
      (\<lambda>x. x\<lparr>tr_tenant := t\<lparr>tn_CreatedAt := tn_CreatedAt (tr_tenant x)\<rparr>\<rparr>) ts) =
    map (\<lambda>x. if tr_id x = tn_ID t then tn_Subdomain t else tn_Subdomain (tr_tenant x)) ts"
    by (simp add: update_where_def)
  with distinct_replaced [OF assms] show ?thesis by simp
qed

lemma update_tenant_platform:
  "is_platform (d\<lparr>tenants := update_where (\<lambda>x. tr_id x = tn_ID t)
      (\<lambda>x. x\<lparr>tr_tenant := t\<lparr>tn_CreatedAt := tn_CreatedAt (tr_tenant x)\<rparr>\<rparr>) (tenants d)\<rparr>) i = is_platform d i"
  unfolding is_platform_keys by (simp add: update_tenant_flags del: set_map)

lemma tenant_effect_wf: "tenant_effect may d d' \<Longrightarrow> tenants_wf d \<Longrightarrow> tenants_wf d'"
proof (induction rule: tenant_effect.induct)
  case (create t d)
  then have "iam_wf (d\<lparr>tenants := tenants d @ [\<lparr>tr_tenant = t, tr_is_platform_tenant = False\<rparr>]\<rparr>)"
    by (intro iam_wf_tenants) (auto simp: tenants_wf_def iam_wf_def is_platform_def)
  with create show ?case by (auto simp: tenants_wf_def)
next
  case (update t d)
  let ?ts = "update_where (\<lambda>x. tr_id x = tn_ID t)
      (\<lambda>x. x\<lparr>tr_tenant := t\<lparr>tn_CreatedAt := tn_CreatedAt (tr_tenant x)\<rparr>\<rparr>) (tenants d)"
  have ids: "distinct (map tr_id (tenants d))" using update(5) by (simp add: tenants_wf_def iam_wf_def)
  have "is_platform (d\<lparr>tenants := ?ts\<rparr>) i" if "is_platform d i" for i
    using that by (simp only: update_tenant_platform)
  moreover have "tr_id ` set ?ts = tr_id ` set (tenants d)"
    by (simp only: list.set_map [symmetric] update_tenant_keys)
  ultimately have "iam_wf (d\<lparr>tenants := ?ts\<rparr>)"
    using update(5) by (intro iam_wf_tenants) (simp_all add: tenants_wf_def ids update_tenant_keys)
  moreover have "distinct (map (\<lambda>x. tn_Subdomain (tr_tenant x)) ?ts)"
    by (rule update_tenant_subdomains [OF ids]) (use update(4,5) in \<open>simp_all add: tenants_wf_def\<close>)
  moreover have "\<forall>x \<in> set ?ts. tenant_checks (tr_tenant x)"
    using update(3,5) by (auto simp: in_update_where tenants_wf_def tenant_checks_def)
  ultimately show ?case by (simp add: tenants_wf_def)
next
  case (delete i d)
  then have "iam_wf (cascade_tenant i d)" by (intro cascade_wf) (simp_all add: tenants_wf_def)
  with delete(3) show ?case by (auto simp: tenants_wf_def cascade_tenant_def distinct_map_filter)
qed simp

text \<open>A tenant row that a request may not touch stays, and the platform flag is never gained.\<close>

lemma tenant_effect_foreign:
  "tenant_effect may d d' \<Longrightarrow> x \<in> set (tenants d) \<Longrightarrow> \<not> may (tr_id x) \<Longrightarrow> x \<in> set (tenants d')"
proof (induction rule: tenant_effect.induct)
  case (update t d)
  then have "tr_id x \<noteq> tn_ID t" by auto
  with update(5) show ?case by (auto simp: in_update_where intro!: bexI [of _ x])
next
  case (delete i d)
  then show ?case by (auto simp: cascade_tenant_def)
qed simp_all

lemma tenant_effect_platform: "tenant_effect may d d' \<Longrightarrow> is_platform d' i \<Longrightarrow> is_platform d i"
proof (induction rule: tenant_effect.induct)
  case (create t d)
  then show ?case by (auto simp: is_platform_def)
next
  case (update t d)
  from update(5) show ?case by (simp only: update_tenant_platform)
next
  case (delete j d)
  then show ?case by (auto simp: cascade_tenant_def is_platform_def)
qed simp

lemma absent_or_inactive:
  assumes "distinct (map f ts)" and "x \<in> set ts"
  shows "find (\<lambda>t. f t = k) (filter (\<lambda>t. t \<noteq> x) ts) = find (\<lambda>t. f t = k) ts \<or>
    find (\<lambda>t. f t = k) ts = Some x \<and> find (\<lambda>t. f t = k) (filter (\<lambda>t. t \<noteq> x) ts) = None"
  using assms
proof (induction ts)
  case (Cons t ts)
  show ?case
  proof (cases "t = x")
    case True
    with Cons(2) have "filter (\<lambda>t. t \<noteq> x) ts = ts" by (auto simp: filter_id_conv)
    with True Cons(2) show ?thesis by (auto simp: find_None_iff image_iff)
  next
    case False
    with Cons show ?thesis by auto
  qed
qed simp

definition public_result :: "tenant_row option \<Rightarrow> nat + tenant" where
  "public_result r = (case r of None \<Rightarrow> Inl 404 | Some x \<Rightarrow>
     if tn_IsActive (tr_tenant x) then Inr (tr_tenant x) else Inl 404)"

lemma public_answer:
  "fst (GetPublicTenant_handler parse to_lower text (live d)) = public_result
     (case parse text of Some i \<Rightarrow> find (\<lambda>t. tr_id t = i) (tenants d)
      | None \<Rightarrow> find (\<lambda>t. tn_Subdomain (tr_tenant t) = to_lower text) (tenants d))"
  by (simp add: GetPublicTenant_handler_def GetPublicTenant_def FindByID_def FindBySubdomain_def op_try_def
      op_bind_def tenant_status_def public_result_def split: option.split)

section \<open>Properties\<close>

text \<open>C14. Every history of requests on tenants, of any callers and with any outages, keeps ids and
  subdomains unique, the rows within the constraints, and every membership pointing to a user, a tenant
  and a role that exist; and no request ever makes a tenant a platform tenant.\<close>

theorem tenant_histories_wf:
  assumes "tenants_wf (tables w)"
  shows "tenants_wf (tables (tenant_run parse em mp up es w)) \<and>
    (\<forall>i. is_platform (tables (tenant_run parse em mp up es w)) i \<longrightarrow> is_platform (tables w) i)"
  using assms
proof (induction parse em mp up es w rule: tenant_run.induct)
  case (2 parse em mp up now ctx t q es w)
  note e = tenant_exec_effect [of ctx t w parse em mp up now q]
  show ?case using 2(1) [OF tenant_effect_wf [OF e 2(2)]] tenant_effect_platform [OF e] by auto
qed simp

text \<open>A tenant is out of reach of the others: through any history of requests in which every caller
  without a cross-tenant role acts in another tenant, its row is the same afterwards.\<close>

theorem tenant_histories_isolated:
  assumes "\<forall>(now, ctx, ctxTenant, q) \<in> set es. \<not> IsCrossTenantRole ctx \<and> ctxTenant \<noteq> Some (tr_id x)"
    and "x \<in> set (tenants (tables w))"
  shows "x \<in> set (tenants (tables (tenant_run parse em mp up es w)))"
  using assms
proof (induction parse em mp up es w rule: tenant_run.induct)
  case (2 parse em mp up now ctx t q es w)
  have "\<not> may_touch ctx t (tr_id x)" using 2(2) by (simp add: may_touch_def TenantMatches_def)
  from 2(1) [OF _ tenant_effect_foreign [OF tenant_exec_effect 2(3) this]] 2(2) show ?case by simp
qed simp

text \<open>The public lookup of a tenant that is not active is answered like the one of a tenant that
  does not exist, by id and by subdomain.\<close>

theorem inactive_tenant_is_absent:
  assumes "tenants_wf d" and "x \<in> set (tenants d)" and "\<not> tn_IsActive (tr_tenant x)"
  shows "fst (GetPublicTenant_handler parse to_lower text (live d)) =
    fst (GetPublicTenant_handler parse to_lower text (live (d\<lparr>tenants := filter (\<lambda>t. t \<noteq> x) (tenants d)\<rparr>)))"
proof -
  have "distinct (map tr_id (tenants d))" "distinct (map (\<lambda>t. tn_Subdomain (tr_tenant t)) (tenants d))"
    using assms(1) by (simp_all add: tenants_wf_def iam_wf_def)
  note absent = absent_or_inactive [OF this(1) assms(2)] absent_or_inactive [OF this(2) assms(2)]
  show ?thesis
  proof (cases "parse text")
    case None
    with absent(2) [of "to_lower text"] assms(3) show ?thesis by (auto simp: public_answer public_result_def)
  next
    case (Some i)
    with absent(1) [of i] assms(3) show ?thesis by (auto simp: public_answer public_result_def)
  qed
qed

text \<open>A tenant whose subdomain is not in lower case cannot be found by it: the public lookup lowers
  the text, the creation stores it as it came.\<close>

theorem mixed_case_subdomain_lost:
  assumes "tn_Subdomain (tr_tenant x) \<noteq> to_lower (tn_Subdomain (tr_tenant x))" and "x \<in> set (tenants d)"
    and "parse (tn_Subdomain (tr_tenant x)) = None"
  shows "fst (GetPublicTenant parse to_lower (tn_Subdomain (tr_tenant x)) (live d)) \<noteq> Inr (tr_tenant x)"
  using assms by (auto simp: GetPublicTenant_def FindBySubdomain_def op_bind_def find_Some_iff split: option.splits if_splits)

text \<open>The administrator a request for a tenant has to name, with a password, is thrown away: any other
  one gives the same answer and the same tables, and neither a user nor a membership comes into being.\<close>

theorem admin_user_discarded:
  assumes "tenant_request_ok em req" and "tenant_request_ok em (req\<lparr>tq_AdminUser := admin\<rparr>)"
  shows "CreateTenant_handler em now i (req\<lparr>tq_AdminUser := admin\<rparr>) w = CreateTenant_handler em now i req w \<and>
    users (tables (snd (CreateTenant_handler em now i req w))) = users (tables w) \<and>
    utrs (tables (snd (CreateTenant_handler em now i req w))) = utrs (tables w)"
proof -
  have "CreateTenant_handler em now i req w =
      op_try (tenant_Create (tenant_of_request now i req)) (\<lambda>_. op_fail 500) (\<lambda>_. op_ret (tenant_of_request now i req)) w"
    using assms(1) by (simp add: CreateTenant_handler_def CreateTenant_def Let_def)
  moreover have "CreateTenant_handler em now i (req\<lparr>tq_AdminUser := admin\<rparr>) w = CreateTenant_handler em now i req w"
    using assms by (simp add: CreateTenant_handler_def tenant_of_request_def)
  moreover have "users (tables (snd (tenant_Create t w))) = users (tables w) \<and>
      utrs (tables (snd (tenant_Create t w))) = utrs (tables w)" for t
    by (simp add: tenant_Create_def stmt_def)
  ultimately show ?thesis by (simp add: snd_op_try_ret [where g = "\<lambda>_. tenant_of_request now i req"])
qed

section \<open>Instances\<close>

text \<open>The two tenants, with the settings the creation gives.\<close>

definition two_configured :: iam_db where
  "two_configured = two_tenants\<lparr>tenants := map (\<lambda>t. t\<lparr>tr_tenant := (tr_tenant t)\<lparr>tn_Settings :=
     \<lparr>ts_ContactEmail = [], ts_CompanyWebsite = [], ts_Locale = ''es-AR'', ts_Timezone = ''UTC'',
      ts_DateFormat = ''dd/MM/yyyy'', ts_TimeFormat = ''HH:mm'', ts_Currency = ''ARS''\<rparr>\<rparr>\<rparr>) (tenants two_tenants)\<rparr>"

definition acme_request :: tenant_request where
  "acme_request = \<lparr>tq_Name = ''Acme'', tq_CompanyName = ''Acme'', tq_Subdomain = ''Acme'', tq_Description = [],
     tq_AdminUser = \<lparr>au_Email = ''ana@acme'', au_FirstName = ''Ana'', au_LastName = ''Paz'', au_Password = ''longenough''\<rparr>,
     tq_PrimaryColor = ''#fff'', tq_SecondaryColor = [], tq_AccentColor = [], tq_TextColor = [], tq_BackgroundColor = [],
     tq_Address = \<lparr>ad_Street = ''A'', ad_City = ''B'', ad_State = ''C'', ad_PostalCode = ''1'', ad_Country = ''AR''\<rparr>\<rparr>"

lemma two_configured_wf: "tenants_wf two_configured"
proof -
  have "iam_wf two_configured"
    by (simp add: iam_wf_defs two_configured_def two_tenants_def samples tenant_can_use_role_def role_is_global_def
        is_platform_def)
  moreover have "\<forall>t \<in> set (tenants two_configured). tenant_checks (tr_tenant t)"
    by (simp add: two_configured_def two_tenants_def tenant_sample_def tenant_checks_def settings_valid_def
        validLocales_def validTimezones_def validDateFormats_def validTimeFormats_def validCurrencies_def char_length_def)
  ultimately show ?thesis
    by (simp add: tenants_wf_def) (simp add: two_configured_def two_tenants_def tenant_sample_def)
qed

theorem tenant_histories_wf_instance:
  "tenants_wf (tables (tenant_run (\<lambda>_. Some 2) (\<lambda>_. True) (\<lambda>_. True) (\<lambda>_. True)
     [(5, None, Some 1, ReqNewTenant 9 acme_request), (6, None, Some 2, ReqDeleteTenant ''2'')] (live two_configured)))"
  by (rule conjunct1 [OF tenant_histories_wf]) (simp add: two_configured_wf)

theorem tenant_histories_isolated_instance:
  "tenant_sample 1 ''mrg'' True \<in> set (tenants (tables (tenant_run (\<lambda>_. Some 1) (\<lambda>_. True) (\<lambda>_. True) (\<lambda>_. True)
     [(5, None, Some 2, ReqDeleteTenant ''1'')] (live two_tenants))))"
  by (rule tenant_histories_isolated)
    (simp_all add: IsCrossTenantRole_def RoleContextFromContext_def two_tenants_def tenant_sample_def)

theorem mixed_case_subdomain_lost_instance:
  "fst (GetPublicTenant (\<lambda>_. None) (\<lambda>_. ''acme'') ''Acme''
     (live (two_tenants\<lparr>tenants := [tenant_sample 3 ''Acme'' False]\<rparr>))) \<noteq> Inr (tr_tenant (tenant_sample 3 ''Acme'' False))"
  using mixed_case_subdomain_lost [of "tenant_sample 3 ''Acme'' False" "\<lambda>_. ''acme''"
      "two_tenants\<lparr>tenants := [tenant_sample 3 ''Acme'' False]\<rparr>" "\<lambda>_. None"]
  by (simp add: tenant_sample_def)

theorem admin_user_discarded_instance:
  "users (tables (snd (CreateTenant_handler (\<lambda>_. True) 5 9 acme_request (live two_configured)))) = users two_configured"
  using admin_user_discarded [of "\<lambda>_. True" acme_request "tq_AdminUser acme_request" 5 9 "live two_configured"]
  by (simp add: acme_request_def tenant_request_ok_def char_length_def)

definition one_closed :: iam_db where
  "one_closed = two_configured\<lparr>tenants := map (\<lambda>t. t\<lparr>tr_tenant := (tr_tenant t)\<lparr>tn_IsActive := tr_id t = 1\<rparr>\<rparr>)
     (tenants two_configured)\<rparr>"

lemma one_closed_wf: "tenants_wf one_closed"
proof -
  have "iam_wf one_closed"
    by (simp add: iam_wf_defs one_closed_def two_configured_def two_tenants_def samples tenant_can_use_role_def
        role_is_global_def is_platform_def)
  moreover have "\<forall>t \<in> set (tenants two_configured). tenant_checks (tr_tenant t)"
    using two_configured_wf by (simp add: tenants_wf_def)
  then have "\<forall>t \<in> set (tenants one_closed). tenant_checks (tr_tenant t)"
    by (simp add: one_closed_def tenant_checks_def)
  ultimately show ?thesis
    by (simp add: tenants_wf_def) (simp add: one_closed_def two_configured_def two_tenants_def tenant_sample_def)
qed

theorem inactive_tenant_is_absent_instance:
  "fst (GetPublicTenant_handler (\<lambda>_. Some 2) id ''2'' (live one_closed)) = Inl 404"
proof -
  let ?x = "tenants one_closed ! 1"
  have "?x \<in> set (tenants one_closed)" "\<not> tn_IsActive (tr_tenant ?x)" "tr_id ?x = 2"
    "filter (\<lambda>t. t \<noteq> ?x) (tenants one_closed) = [tenants one_closed ! 0]" "tr_id (tenants one_closed ! 0) = 1"
    by (simp_all add: one_closed_def two_configured_def two_tenants_def tenant_sample_def)
  with inactive_tenant_is_absent [OF one_closed_wf this(1,2), of "\<lambda>_. Some 2" id "''2''"] show ?thesis
    by (simp add: public_answer public_result_def)
qed

end
