(* ===== verification/Accounts.thy ===== *)
theory Accounts
  imports Tenants
begin

text \<open>
  The accounts of the people who log in: the repository of \<open>internal/repo/pg/users/users_repo.go\<close>,
  the client of Supabase's admin API (\<open>internal/platform/supabase\<close>), the profile of \<open>GET /me\<close>
  and the forced change of a password (\<open>internal/api/usecases\<close>). What Supabase answers to the n-th
  attempt of a call is an argument; the requests it is sent are part of the state.
\<close>

section \<open>Domain\<close>

definition UserStatusInvited :: string where "UserStatusInvited = ''invited''"
definition UserStatusActive :: string where "UserStatusActive = ''active''"
definition UserStatusRevoked :: string where "UserStatusRevoked = ''revoked''"
definition UserStatusDisabled :: string where "UserStatusDisabled = ''disabled''"

lemmas user_statuses = UserStatusInvited_def UserStatusActive_def UserStatusRevoked_def UserStatusDisabled_def

record domain_user =
  dm_ID :: uuid
  dm_SupabaseUserID :: string
  dm_Email :: string
  dm_Name :: string
  dm_Status :: string
  dm_AuthProvider :: string
  dm_EmailVerifiedAt :: "time option"
  dm_LastLoginAt :: "time option"
  dm_PasswordChangeRequired :: bool
  dm_CreatedAt :: time
  dm_UpdatedAt :: time

section \<open>Repository\<close>

text \<open>\<open>TRIM\<close> and \<open>CONCAT_WS(' ', ...)\<close>, which skips NULLs, and \<open>NULLIF(..., '')\<close>.\<close>

definition sql_trim :: "string \<Rightarrow> string" where
  "sql_trim s = rev (dropWhile (\<lambda>c. c = CHR '' '') (rev (dropWhile (\<lambda>c. c = CHR '' '') s)))"

fun concat_ws :: "string option list \<Rightarrow> string" where
  "concat_ws [] = []"
| "concat_ws (None # xs) = concat_ws xs"
| "concat_ws (Some s # xs) = s @ (if \<exists>x \<in> set xs. x \<noteq> None then CHR '' '' # concat_ws xs else [])"

definition display_name :: "user_row \<Rightarrow> string option" where
  "display_name u =
     (let full = sql_trim (concat_ws [us_first_name u, us_last_name u])
      in coalesce [if full = [] then None else Some full, us_name u])"

text \<open>\<open>scanAuthUser\<close>: a NULL \<open>supabase_user_id\<close> does not scan into a string.\<close>

definition scanAuthUser :: "user_row \<Rightarrow> iam_err + domain_user" where
  "scanAuthUser u =
     (case us_supabase_user_id u of
        None \<Rightarrow> Inl Internal
      | Some sub \<Rightarrow> Inr
          \<lparr>dm_ID = us_id u, dm_SupabaseUserID = sub, dm_Email = us_email u, dm_Name = opt_or (display_name u) [],
           dm_Status = us_status u, dm_AuthProvider = opt_or (us_auth_provider u) [],
           dm_EmailVerifiedAt = us_email_verified_at u, dm_LastLoginAt = us_last_login_at u,
           dm_PasswordChangeRequired = us_password_change_required u,
           dm_CreatedAt = us_created_at u, dm_UpdatedAt = us_updated_at u\<rparr>)"

definition provisioned_row :: "time \<Rightarrow> uuid \<Rightarrow> string \<Rightarrow> string \<Rightarrow> user_row" where
  "provisioned_row now newID sub email =
     \<lparr>us_id = newID, us_supabase_user_id = Some sub, us_email = email, us_name = None, us_first_name = None,
      us_last_name = None, us_image = None, us_tenant_id = None, us_role = ''user'',
      us_status = UserStatusInvited, us_password_change_required = False, us_auth_provider = None,
      us_email_verified_at = None, us_last_login_at = Some now, us_created_at = now, us_updated_at = now,
      us_deleted_at = None\<rparr>"

definition UpsertBySupabaseID :: "time \<Rightarrow> uuid \<Rightarrow> string \<Rightarrow> string \<Rightarrow> domain_user iam_op" where
  "UpsertBySupabaseID now newID sub email = stmt Internal (\<lambda>d.
     let hit = (\<lambda>u. us_supabase_user_id u = Some sub);
         f = (\<lambda>u. u\<lparr>us_email := email, us_last_login_at := Some now, us_updated_at := now\<rparr>)
     in case find hit (users d) of
          Some u \<Rightarrow>
            if \<exists>x \<in> set (users d). us_id x \<noteq> us_id u \<and> same_email (f u) x then (Inl Internal, d)
            else (scanAuthUser (f u), d\<lparr>users := update_where hit f (users d)\<rparr>)
        | None \<Rightarrow>
            (case insert_user (provisioned_row now newID sub email) d of
               (Inl _, _) \<Rightarrow> (Inl Internal, d)
             | (Inr u, d') \<Rightarrow> (scanAuthUser u, d')))"

definition auth_GetBySupabaseID :: "string \<Rightarrow> domain_user iam_op" where
  "auth_GetBySupabaseID sub = query Internal (\<lambda>d.
     case find (\<lambda>u. us_supabase_user_id u = Some sub) (users d) of
       None \<Rightarrow> Inl ErrNotFound | Some u \<Rightarrow> scanAuthUser u)"

definition auth_GetByID :: "uuid \<Rightarrow> domain_user iam_op" where
  "auth_GetByID i = query Internal (\<lambda>d.
     case find (\<lambda>u. us_id u = i) (users d) of None \<Rightarrow> Inl ErrNotFound | Some u \<Rightarrow> scanAuthUser u)"

text \<open>An UPDATE that hits no row is no error.\<close>

definition SetStatus :: "time \<Rightarrow> uuid \<Rightarrow> string \<Rightarrow> unit iam_op" where
  "SetStatus now userID status = stmt Internal (\<lambda>d.
     (Inr (), d\<lparr>users := update_where (\<lambda>u. us_id u = userID)
        (\<lambda>u. u\<lparr>us_status := status, us_updated_at := now\<rparr>) (users d)\<rparr>))"

definition SetPasswordChangeRequired :: "time \<Rightarrow> uuid \<Rightarrow> bool \<Rightarrow> unit iam_op" where
  "SetPasswordChangeRequired now userID v = stmt Internal (\<lambda>d.
     (Inr (), d\<lparr>users := update_where (\<lambda>u. us_id u = userID)
        (\<lambda>u. u\<lparr>us_password_change_required := v, us_updated_at := now\<rparr>) (users d)\<rparr>))"

definition IsActiveMemberOfTenant :: "uuid \<Rightarrow> uuid \<Rightarrow> bool iam_op" where
  "IsActiveMemberOfTenant userID tenantID = query Internal (\<lambda>d. Inr (\<exists>u \<in> set (utrs d). active_of userID tenantID u))"

text \<open>\<open>AuthUsecase.ProvisionUser\<close>.\<close>

definition ProvisionUser :: "time \<Rightarrow> uuid \<Rightarrow> string \<Rightarrow> string \<Rightarrow> domain_user iam_op" where
  "ProvisionUser now newID sub email = UpsertBySupabaseID now newID sub email"

section \<open>Supabase\<close>

datatype mail =
    InviteMail string string "(string \<times> string) list"
  | RecoverMail string string

datatype http_answer = NoAnswer | Status nat

record services =
  sv_db :: "iam_db world"
  sv_mails :: "mail list"
  sv_counters :: "uuid \<times> int \<Rightarrow> int"

type_synonym 'a service_op = "(services, iam_err, 'a) oper"

definition in_db :: "'a iam_op \<Rightarrow> 'a service_op" where
  "in_db m sv = (case m (sv_db sv) of (r, w) \<Rightarrow> (r, sv\<lparr>sv_db := w\<rparr>))"

text \<open>The loop of \<open>doWithRetry\<close>, with the attempts that are left.\<close>

fun retry_loop :: "nat \<Rightarrow> nat \<Rightarrow> (nat \<Rightarrow> http_answer) \<Rightarrow> mail \<Rightarrow> unit service_op" where
  "retry_loop attempt 0 answers m sv = (Inl Internal, sv)"
| "retry_loop attempt (Suc left) answers m sv =
     (let sv' = sv\<lparr>sv_mails := sv_mails sv @ [m]\<rparr>
      in case answers attempt of
           NoAnswer \<Rightarrow> retry_loop (Suc attempt) left answers m sv'
         | Status code \<Rightarrow>
             if 200 \<le> code \<and> code < 300 then (Inr (), sv')
             else if 400 \<le> code \<and> code < 500 then (Inl Internal, sv')
             else retry_loop (Suc attempt) left answers m sv')"

definition doWithRetry :: "(nat \<Rightarrow> http_answer) \<Rightarrow> mail \<Rightarrow> unit service_op" where
  "doWithRetry answers m = retry_loop 0 2 answers m"

record invite_params =
  ip_Email :: string
  ip_RedirectTo :: string
  ip_TenantName :: string
  ip_InviterName :: string
  ip_RoleName :: string

definition InviteUserByEmail :: "(nat \<Rightarrow> http_answer) \<Rightarrow> invite_params \<Rightarrow> unit service_op" where
  "InviteUserByEmail answers p =
     doWithRetry answers (InviteMail (ip_Email p) (ip_RedirectTo p)
       (filter (\<lambda>(_, v). v \<noteq> []) [(''tenant_name'', ip_TenantName p), (''inviter_name'', ip_InviterName p),
          (''role_name'', ip_RoleName p)]))"

definition SendPasswordResetEmail :: "(nat \<Rightarrow> http_answer) \<Rightarrow> string \<Rightarrow> string \<Rightarrow> unit service_op" where
  "SendPasswordResetEmail answers email redirectTo = doWithRetry answers (RecoverMail email redirectTo)"

text \<open>A request as the use cases see it, and the configuration.\<close>

datatype redis_mode = NoRedis | RedisFails | RedisAnswers

record call =
  ca_now :: time
  ca_newID :: uuid
  ca_http :: "nat \<Rightarrow> http_answer"
  ca_redis :: redis_mode
  ca_tenant :: "uuid option"
  ca_user :: "domain_user option"
  ca_role :: "role_context option"
  ca_baseURL :: string

record mail_config =
  mc_appBaseURL :: string
  mc_rateLimitHour :: int
  mc_uuid_text :: "uuid \<Rightarrow> string"

definition callbackURL :: "mail_config \<Rightarrow> call \<Rightarrow> uuid \<Rightarrow> string" where
  "callbackURL cfg ca tenantID =
     (let base = (if ca_baseURL ca = [] then mc_appBaseURL cfg else ca_baseURL ca)
      in base @ ''/s/'' @ mc_uuid_text cfg tenantID @ ''/auth/callback'')"

section \<open>The profile\<close>

record me_response =
  me_ID :: uuid
  me_Email :: "string option"
  me_Name :: "string option"
  me_PasswordChangeRequired :: bool
  me_Tenant :: "(uuid \<times> string \<times> string \<times> bool) option"
  me_Role :: "(string \<times> string) option"
  me_Permissions :: "string list"
  me_CanCrossTenant :: bool

definition strPtr :: "string \<Rightarrow> string option" where
  "strPtr s = (if s = [] then None else Some s)"

text \<open>Without an ORDER BY any active membership may be returned; the model takes the first in table order.\<close>

definition me_query :: "uuid \<Rightarrow> iam_db \<Rightarrow> (tenant_row \<times> role) option" where
  "me_query userID d =
     (case [(t, r). u \<leftarrow> utrs d, t \<leftarrow> tenants d, r \<leftarrow> roles d,
              tr_id t = ut_TenantID u \<and> Some (ro_ID r) = ut_RoleID u \<and> ut_UserID u = userID \<and>
              ut_Status u = UTRActive] of
        [] \<Rightarrow> None | x # _ \<Rightarrow> Some x)"

definition role_of_me :: "string \<Rightarrow> (string \<times> string list \<times> bool) iam_op" where
  "role_of_me roleID = query Internal (\<lambda>d. first_row Internal
     [(ro_Name r, ro_Permissions r, ro_IsGlobal r). r \<leftarrow> roles d, ro_ID r = roleID \<and> ro_DeletedAt r = None])"

definition GetMe :: "domain_user option \<Rightarrow> me_response iam_op" where
  "GetMe user =
     (case user of
        None \<Rightarrow> op_fail ErrForbidden
      | Some u \<Rightarrow>
     let resp = \<lparr>me_ID = dm_ID u, me_Email = strPtr (dm_Email u), me_Name = strPtr (dm_Name u),
                 me_PasswordChangeRequired = dm_PasswordChangeRequired u, me_Tenant = None, me_Role = None,
                 me_Permissions = [], me_CanCrossTenant = False\<rparr>
     in op_bind (query Internal (\<lambda>d. Inr (me_query (dm_ID u) d))) (\<lambda>row.
        case row of
          None \<Rightarrow> op_ret resp
        | Some (t, r) \<Rightarrow>
            let effectiveRole = EffectiveRole (ro_ID r) (tr_is_platform_tenant t)
            in op_bind (if effectiveRole \<noteq> ro_ID r then role_of_me effectiveRole
                        else op_ret (ro_Name r, ro_Permissions r, ro_IsGlobal r))
                 (\<lambda>(roleName, perms, isGlobal).
               op_ret (resp\<lparr>me_Tenant := Some (tr_id t, tn_Name (tr_tenant t), tn_Subdomain (tr_tenant t),
                              tr_is_platform_tenant t),
                            me_Role := Some (effectiveRole, roleName), me_Permissions := perms,
                            me_CanCrossTenant := isGlobal\<rparr>))))"

section \<open>Passwords\<close>

definition ForcePasswordChange :: "mail_config \<Rightarrow> call \<Rightarrow> uuid \<Rightarrow> bool \<Rightarrow> unit service_op" where
  "ForcePasswordChange cfg ca targetUserID includeGlobal =
     (case ca_tenant ca of
        None \<Rightarrow> op_fail ErrForbidden
      | Some tenantID \<Rightarrow>
     op_bind (in_db (auth_GetByID targetUserID)) (\<lambda>target.
     op_bind (in_db (IsActiveMemberOfTenant targetUserID tenantID)) (\<lambda>member.
     if \<not> member then op_fail ErrForbidden
     else
     op_bind (in_db (op_try (user_GetByID tenantID targetUserID False includeGlobal)
                (\<lambda>e. op_fail (if e = ErrUserNotFound then ErrNotFound else e)) op_ret)) (\<lambda>_.
     op_bind (in_db (SetPasswordChangeRequired (ca_now ca) targetUserID True)) (\<lambda>_.
     SendPasswordResetEmail (ca_http ca) (dm_Email target) (callbackURL cfg ca tenantID))))))"

definition ClearPasswordChangeRequired :: "call \<Rightarrow> unit service_op" where
  "ClearPasswordChangeRequired ca =
     (case ca_user ca of
        None \<Rightarrow> op_fail ErrForbidden
      | Some u \<Rightarrow> in_db (SetPasswordChangeRequired (ca_now ca) (dm_ID u) False))"

definition ForcePasswordChange_handler ::
  "(string \<Rightarrow> uuid option) \<Rightarrow> mail_config \<Rightarrow> call \<Rightarrow> string \<Rightarrow> (services, nat, unit) oper" where
  "ForcePasswordChange_handler parse cfg ca text =
     (case parse text of
        None \<Rightarrow> op_fail 400
      | Some i \<Rightarrow>
          op_try (ForcePasswordChange cfg ca i (CanSeePlatformInternals (ca_role ca)))
            (\<lambda>e. op_fail (if e = ErrNotFound then 404 else if e = ErrForbidden then 403 else 500)) op_ret)"

definition ChangePassword_handler :: "call \<Rightarrow> (services, nat, unit) oper" where
  "ChangePassword_handler ca =
     op_try (ClearPasswordChangeRequired ca) (\<lambda>e. op_fail (if e = ErrForbidden then 401 else 500)) op_ret"

definition GetMe_handler :: "domain_user option \<Rightarrow> (iam_db world, nat, me_response) oper" where
  "GetMe_handler user =
     op_try (GetMe user) (\<lambda>e. op_fail (if e = ErrForbidden then 403 else 500)) op_ret"

section \<open>Lemmas\<close>

lemma in_db_cases:
  assumes "in_db m sv = (r, sv')"
  obtains w where "m (sv_db sv) = (r, w)" and "sv' = sv\<lparr>sv_db := w\<rparr>"
  using assms by (auto simp: in_db_def split: prod.splits)

definition accepted :: "http_answer \<Rightarrow> bool" where
  "accepted a \<longleftrightarrow> (\<exists>c. a = Status c \<and> 200 \<le> c \<and> c < 300)"

definition refused :: "http_answer \<Rightarrow> bool" where
  "refused a \<longleftrightarrow> (\<exists>c. a = Status c \<and> 400 \<le> c \<and> c < 500)"

lemma retry_step:
  "retry_loop n (Suc l) answers m sv =
     (let sv' = sv\<lparr>sv_mails := sv_mails sv @ [m]\<rparr>
      in if accepted (answers n) then (Inr (), sv') else if refused (answers n) then (Inl Internal, sv')
         else retry_loop (Suc n) l answers m sv')"
  by (auto simp: accepted_def refused_def Let_def split: http_answer.splits)

lemma doWithRetry_eq:
  "doWithRetry answers m sv =
     (let once = sv\<lparr>sv_mails := sv_mails sv @ [m]\<rparr>; twice = sv\<lparr>sv_mails := sv_mails sv @ [m, m]\<rparr>
      in if accepted (answers 0) then (Inr (), once) else if refused (answers 0) then (Inl Internal, once)
         else if accepted (answers 1) then (Inr (), twice) else (Inl Internal, twice))"
proof -
  have two: "2 = Suc (Suc 0)" by simp
  show ?thesis unfolding doWithRetry_def two by (simp only: retry_step) (simp add: Let_def)
qed

lemma doWithRetry_db:
  "doWithRetry answers m sv = (r, sv') \<Longrightarrow> sv_db sv' = sv_db sv \<and> sv_counters sv' = sv_counters sv"
  by (auto simp: doWithRetry_eq Let_def split: if_splits)

lemma InviteUserByEmail_db:
  "InviteUserByEmail answers p sv = (r, sv') \<Longrightarrow> sv_db sv' = sv_db sv \<and> sv_counters sv' = sv_counters sv"
  unfolding InviteUserByEmail_def by (rule doWithRetry_db)

lemma distinct_key: "distinct (map k xs) \<Longrightarrow> x \<in> set xs \<Longrightarrow> y \<in> set xs \<Longrightarrow> k x = k y \<Longrightarrow> x = y"
  by (auto simp: distinct_map dest: inj_onD)

lemma first_row_only: "x \<in> set xs \<Longrightarrow> \<forall>y \<in> set xs. y = x \<Longrightarrow> first_row e xs = Inr x"
  by (cases xs) auto

lemma only_case: "x \<in> set xs \<Longrightarrow> \<forall>y \<in> set xs. y = x \<Longrightarrow> (case xs of [] \<Rightarrow> n | y # _ \<Rightarrow> f y) = f x"
  by (cases xs) auto

lemma me_query_only:
  assumes "iam_wf d" and "filter (\<lambda>v. ut_UserID v = u \<and> ut_Status v = UTRActive) (utrs d) = [x]"
    and "t \<in> set (tenants d)" "tr_id t = ut_TenantID x" and "r \<in> set (roles d)" "ut_RoleID x = Some (ro_ID r)"
  shows "me_query u d = Some (t, r)"
proof -
  let ?xs = "[(t, r). v \<leftarrow> utrs d, t \<leftarrow> tenants d, r \<leftarrow> roles d,
     tr_id t = ut_TenantID v \<and> Some (ro_ID r) = ut_RoleID v \<and> ut_UserID v = u \<and> ut_Status v = UTRActive]"
  have x: "x \<in> set (utrs d)" "ut_UserID x = u" "ut_Status x = UTRActive"
    using arg_cong [OF assms(2), of set] by auto
  have only: "v = x" if "v \<in> set (utrs d)" "ut_UserID v = u" "ut_Status v = UTRActive" for v
    using arg_cong [OF assms(2), of set] that by auto
  have dist: "distinct (map tr_id (tenants d))" "distinct (map ro_ID (roles d))"
    using assms(1) by (simp_all add: iam_wf_def roles_wf_def)
  have "(t, r) \<in> set ?xs" using x assms(3-6) by force
  moreover have "\<forall>p \<in> set ?xs. p = (t, r)"
  proof
    fix p assume "p \<in> set ?xs"
    then obtain v t' r' where p: "p = (t', r')" "v \<in> set (utrs d)" "t' \<in> set (tenants d)" "r' \<in> set (roles d)"
      "tr_id t' = ut_TenantID v" "Some (ro_ID r') = ut_RoleID v" "ut_UserID v = u" "ut_Status v = UTRActive"
      by (auto split: if_splits)
    from only [OF p(2,7,8)] p assms(4,6) have k: "tr_id t' = tr_id t" "ro_ID r' = ro_ID r" by simp_all
    show "p = (t, r)"
      using p(1) distinct_key [OF dist(1) p(3) assms(3) k(1)] distinct_key [OF dist(2) p(4) assms(5) k(2)] by simp
  qed
  ultimately show ?thesis unfolding me_query_def by (rule only_case)
qed

lemma TenantFromHeader_member:
  assumes "iam_wf d" and "filter (active_of u (tr_id t)) (utrs d) = x # xs" and "t \<in> set (tenants d)"
    and "ut_RoleID x = Some r"
  shows "fst (TenantFromHeader (Some (Some (tr_id t))) (Some u) (live d)) =
    fst (finish_context (tr_id t) (EffectiveRole r (tr_is_platform_tenant t)) (live d))"
proof -
  have "membership_query u (tr_id t) d = Inr (r, tr_is_platform_tenant t)"
    using membership_join [of d t u "utrs d"] assms by (simp add: membership_query_def iam_wf_def)
  then show ?thesis by (simp add: TenantFromHeader_def) (rule finish_context_calm, simp_all)
qed

lemma user_hidden_get:
  assumes "calm w" and "role_is_global (tables w) (role_name_of (resolved_membership (tables w) t u False))"
  shows "fst (user_GetByID t u False False w) = Inl ErrUserNotFound"
  using user_GetByID_hidden [of w t u False] assms by simp

section \<open>Properties\<close>


text \<open>A call of the mail service is tried at most twice: it succeeds exactly when the first attempt is
  accepted, or the first one was neither accepted nor refused and the second is accepted; a refusal is not
  repeated, and no more requests leave than attempts are made.\<close>

theorem doWithRetry_spec:
  "case doWithRetry answers m sv of (r, sv') \<Rightarrow>
     (r = Inr () \<longleftrightarrow> accepted (answers 0) \<or> \<not> refused (answers 0) \<and> accepted (answers 1)) \<and>
     sv' = sv\<lparr>sv_mails := sv_mails sv @ replicate (if accepted (answers 0) \<or> refused (answers 0) then 1 else 2) m\<rparr>"
  by (simp add: doWithRetry_eq Let_def numeral_2_eq_2)

text \<open>A member whose role the caller may not see cannot be made to change his password: the request is
  answered like one for a user who does not exist, no mail leaves and no row changes.\<close>

theorem hidden_password_target:
  assumes "outage (sv_db sv) = (\<lambda>_. False)" and "ca_tenant ca = Some t"
    and "find (\<lambda>u. us_id u = i) (users (tables (sv_db sv))) = Some row" "us_supabase_user_id row = Some sub"
    and "active_of i t v" "v \<in> set (utrs (tables (sv_db sv)))"
    and "role_is_global (tables (sv_db sv)) (role_name_of (resolved_membership (tables (sv_db sv)) t i False))"
  shows "case ForcePasswordChange cfg ca i False sv of (r, sv') \<Rightarrow>
    r = Inl ErrNotFound \<and> sv_mails sv' = sv_mails sv \<and> tables (sv_db sv') = tables (sv_db sv)"
proof -
  let ?w = "sv_db sv"
  have c: "calm ?w" "calm (?w\<lparr>nstmts := n\<rparr>)" for n using assms(1) by (simp_all add: calm_def)
  have "fst (user_GetByID t i False False (?w\<lparr>nstmts := n\<rparr>)) = Inl ErrUserNotFound" for n
    by (rule user_hidden_get) (use assms(7) c in simp_all)
  then obtain w2 where g: "user_GetByID t i False False (?w\<lparr>nstmts := Suc (Suc (nstmts ?w))\<rparr>) = (Inl ErrUserNotFound, w2)"
    by (metis prod.collapse)
  have "tables w2 = tables ?w" using g by (auto simp: user_GetByID_def dest!: query_dbD)
  moreover have "\<exists>x \<in> set (utrs (tables ?w)). active_of i t x" using assms(5,6) by blast
  ultimately show ?thesis using assms(2-4) c g
    by (simp add: ForcePasswordChange_def op_bind_def op_try_def in_db_def auth_GetByID_def scanAuthUser_def
        IsActiveMemberOfTenant_def)
qed

text \<open>A member who was created by an administrator and has not logged in yet cannot be asked to change his
  password: his row has no Supabase id, the lookup fails on the NULL and the request is an internal error.\<close>

theorem unlinked_member_reset_fails:
  assumes "ca_tenant ca = Some t" and "find (\<lambda>u. us_id u = i) (users (tables (sv_db sv))) = Some row"
    and "us_supabase_user_id row = None" and "parse text = Some i"
  shows "fst (ForcePasswordChange_handler parse cfg ca text sv) = Inl 500"
proof -
  have "fst (auth_GetByID i (sv_db sv)) = Inl Internal"
    using assms(2,3) by (simp add: auth_GetByID_def query_def stmt_def scanAuthUser_def)
  then obtain w where "auth_GetByID i (sv_db sv) = (Inl Internal, w)" by (metis prod.collapse)
  with assms(1,4) show ?thesis
    by (simp add: ForcePasswordChange_handler_def ForcePasswordChange_def op_bind_def op_try_def in_db_def)
qed

section \<open>Instances\<close>

definition me_sample :: domain_user where
  "me_sample = \<lparr>dm_ID = 10, dm_SupabaseUserID = ''s'', dm_Email = ''a'', dm_Name = ''Ana'', dm_Status = ''active'',
     dm_AuthProvider = [], dm_EmailVerifiedAt = None, dm_LastLoginAt = None, dm_PasswordChangeRequired = False,
     dm_CreatedAt = 0, dm_UpdatedAt = 0\<rparr>"

definition call_sample :: call where
  "call_sample = \<lparr>ca_now = 5, ca_newID = 900, ca_http = (\<lambda>_. Status 200), ca_redis = RedisAnswers, ca_tenant = Some 1,
     ca_user = Some me_sample, ca_role = None, ca_baseURL = []\<rparr>"

definition config_sample :: mail_config where
  "config_sample = \<lparr>mc_appBaseURL = ''https://app'', mc_rateLimitHour = 2, mc_uuid_text = (\<lambda>_. ''id'')\<rparr>"

definition services_on :: "iam_db \<Rightarrow> services" where
  "services_on d = \<lparr>sv_db = live d, sv_mails = [], sv_counters = (\<lambda>_. 0)\<rparr>"

lemma services_on_simps [simp]:
  "sv_db (services_on d) = live d" "sv_mails (services_on d) = []" "sv_counters (services_on d) k = 0"
  by (simp_all add: services_on_def)


definition linked_member :: iam_db where
  "linked_member = shared_member\<lparr>users := map (\<lambda>u. u\<lparr>us_supabase_user_id := Some (''s'' @ us_email u)\<rparr>) (users shared_member)\<rparr>"

theorem hidden_password_target_instance:
  "fst (ForcePasswordChange config_sample call_sample 30 False (services_on linked_member)) = Inl ErrNotFound"
proof -
  have "role_is_global linked_member (role_name_of (resolved_membership linked_member 1 30 False))"
    by (simp add: linked_member_def shared_defs active_of_def resolved_membership_def latest_first_def sort_desc_def
        role_name_of_def role_is_global_def)
  moreover have "find (\<lambda>u. us_id u = 30) (users linked_member) = Some ((user_sample 30 ''c'')\<lparr>us_supabase_user_id := Some ''sc''\<rparr>)"
    by (simp add: linked_member_def shared_defs)
  moreover have "active_of 30 1 (membership_sample 300 30 1 ''platform_admin'')"
    "membership_sample 300 30 1 ''platform_admin'' \<in> set (utrs linked_member)"
    by (simp_all add: linked_member_def shared_defs active_of_def)
  ultimately show ?thesis
    using hidden_password_target [of "services_on linked_member" call_sample 1 30
        "(user_sample 30 ''c'')\<lparr>us_supabase_user_id := Some ''sc''\<rparr>" "''sc''"
        "membership_sample 300 30 1 ''platform_admin''" config_sample]
    by (simp add: call_sample_def user_sample_def live_def split: prod.splits)
qed

theorem unlinked_member_reset_fails_instance:
  "fst (ForcePasswordChange_handler (\<lambda>_. Some 20) config_sample call_sample ''20'' (services_on two_tenants)) = Inl 500"
  by (rule unlinked_member_reset_fails [where t = 1 and i = 20 and row = "user_sample 20 ''b''"])
    (simp_all add: call_sample_def two_tenants_def samples)

end
