(* ===== verification/Invitations.thy ===== *)
theory Invitations
  imports Accounts
begin

text \<open>
  Invitations and the authentication that turns them into memberships:
  \<open>internal/repo/pg/invitations\<close>, \<open>invitation_usecase.go\<close> with the Redis rate limit, its
  handlers, and the middleware \<open>JWTAuth\<close>. The verification of a token, with its keys, is an
  argument: it gives the claims \<open>sub\<close> and \<open>email\<close> as texts, empty where they are missing.
\<close>

section \<open>Repository\<close>

definition IsExpired :: "time \<Rightarrow> invitation \<Rightarrow> bool" where
  "IsExpired now v \<longleftrightarrow> now > iv_ExpiresAt v"

definition inv_visible :: "iam_db \<Rightarrow> bool \<Rightarrow> invitation \<Rightarrow> bool" where
  "inv_visible d includeGlobal v \<longleftrightarrow> \<not> role_is_global d (Some (iv_RoleID v)) \<or> includeGlobal"

definition pending_for :: "uuid \<Rightarrow> string \<Rightarrow> invitation \<Rightarrow> bool" where
  "pending_for tenantID email v \<longleftrightarrow>
     iv_TenantID v = tenantID \<and> iv_Email v = email \<and> iv_Status v = InvPending"

text \<open>The primary key, the partial unique index \<open>idx_user_invitations_pending\<close> and the foreign keys.\<close>

definition insert_invitation :: "invitation \<Rightarrow> iam_db \<Rightarrow> (pg_err + invitation) \<times> iam_db" where
  "insert_invitation v d =
     (if iv_ID v \<in> iv_ID ` set (invitations d) then (Inl (UniqueViolation ''user_invitations_pkey''), d)
      else if iv_Status v = InvPending \<and>
           (\<exists>x \<in> set (invitations d). pending_for (iv_TenantID v) (iv_Email v) x)
      then (Inl (UniqueViolation ''idx_user_invitations_pending''), d)
      else if iv_InvitedBy v \<notin> us_id ` set (users d)
      then (Inl (ForeignKeyViolation ''user_invitations_invited_by_fkey''), d)
      else if iv_RoleID v \<notin> ro_ID ` set (roles d)
      then (Inl (ForeignKeyViolation ''user_invitations_role_id_fkey''), d)
      else if iv_TenantID v \<notin> tr_id ` set (tenants d)
      then (Inl (ForeignKeyViolation ''user_invitations_tenant_id_fkey''), d)
      else (Inr v, d\<lparr>invitations := invitations d @ [v]\<rparr>))"

definition new_invitation :: "time \<Rightarrow> uuid \<Rightarrow> uuid \<Rightarrow> string \<Rightarrow> string \<Rightarrow> uuid \<Rightarrow> invitation" where
  "new_invitation now newID tenantID email roleID invitedBy =
     \<lparr>iv_ID = newID, iv_TenantID = tenantID, iv_Email = email, iv_RoleID = roleID, iv_Status = InvPending,
      iv_InvitedBy = invitedBy, iv_CreatedAt = now, iv_UpdatedAt = now, iv_ExpiresAt = now + 7 * 24 * hour\<rparr>"

definition inv_Create :: "time \<Rightarrow> uuid \<Rightarrow> uuid \<Rightarrow> string \<Rightarrow> string \<Rightarrow> uuid \<Rightarrow> invitation iam_op" where
  "inv_Create now newID tenantID email roleID invitedBy =
     op_try (stmt PgOther (insert_invitation (new_invitation now newID tenantID email roleID invitedBy)))
       (\<lambda>e. op_fail (if e = UniqueViolation ''idx_user_invitations_pending'' then ErrInvitationAlreadyPending
                     else Internal))
       op_ret"

definition GetPendingByEmailAndTenant :: "string \<Rightarrow> uuid \<Rightarrow> bool \<Rightarrow> invitation iam_op" where
  "GetPendingByEmailAndTenant email tenantID includeGlobal =
     query Internal (\<lambda>d. first_row ErrNotFound
       (filter (\<lambda>i. pending_for tenantID email i \<and> inv_visible d includeGlobal i) (invitations d)))"

definition ListPendingByEmail :: "string \<Rightarrow> invitation list iam_op" where
  "ListPendingByEmail email =
     query Internal (\<lambda>d. Inr (sort_key iv_CreatedAt
       (filter (\<lambda>i. iv_Email i = email \<and> iv_Status i = InvPending) (invitations d))))"

definition inv_GetByID :: "uuid \<Rightarrow> uuid \<Rightarrow> bool \<Rightarrow> invitation iam_op" where
  "inv_GetByID i tenantID includeGlobal =
     query Internal (\<lambda>d. first_row ErrNotFound
       (filter (\<lambda>x. iv_ID x = i \<and> iv_TenantID x = tenantID \<and> inv_visible d includeGlobal x) (invitations d)))"

fun status_text :: "invitation_status \<Rightarrow> string" where
  "status_text InvPending = ''pending''"
| "status_text InvAccepted = ''accepted''"
| "status_text InvRevoked = ''revoked''"
| "status_text InvExpired = ''expired''"

definition inv_ListByTenant :: "uuid \<Rightarrow> string option \<Rightarrow> bool \<Rightarrow> invitation list iam_op" where
  "inv_ListByTenant tenantID status includeGlobal =
     query Internal (\<lambda>d. Inr (sort_desc iv_CreatedAt
       (filter (\<lambda>x. iv_TenantID x = tenantID \<and> inv_visible d includeGlobal x \<and>
          (case status of None \<Rightarrow> True | Some s \<Rightarrow> status_text (iv_Status x) = s)) (invitations d))))"

text \<open>
  An UPDATE of the status; back to pending it would meet the partial index, which no caller does.
\<close>

definition inv_UpdateStatus :: "time \<Rightarrow> uuid \<Rightarrow> invitation_status \<Rightarrow> unit iam_op" where
  "inv_UpdateStatus now i status = stmt Internal (\<lambda>d.
     let hit = (\<lambda>x. iv_ID x = i); f = (\<lambda>x. x\<lparr>iv_Status := status, iv_UpdatedAt := now\<rparr>)
     in if status = InvPending \<and>
           (\<exists>x \<in> set (invitations d). hit x \<and>
              (\<exists>y \<in> set (invitations d). \<not> hit y \<and> pending_for (iv_TenantID x) (iv_Email x) y))
        then (Inl Internal, d)
        else (Inr (), d\<lparr>invitations := update_where hit f (invitations d)\<rparr>))"

section \<open>Use case\<close>

text \<open>
  \<open>checkRateLimit\<close>: the counter of the tenant and the clock hour. Its expiry, one hour after the
  first increment, comes after the end of that hour and is not modelled. An increment that Redis
  does not answer fails open.
\<close>

definition checkRateLimit :: "mail_config \<Rightarrow> call \<Rightarrow> uuid \<Rightarrow> unit service_op" where
  "checkRateLimit cfg ca tenantID sv =
     (case ca_redis ca of
        NoRedis \<Rightarrow> (Inr (), sv)
      | RedisFails \<Rightarrow> (Inr (), sv)
      | RedisAnswers \<Rightarrow>
          let k = (tenantID, ca_now ca div hour);
              count = sv_counters sv k + 1;
              sv' = sv\<lparr>sv_counters := (sv_counters sv)(k := count)\<rparr>
          in if count > mc_rateLimitHour cfg then (Inl ErrInvitationRateLimitExceeded, sv') else (Inr (), sv'))"

text \<open>\<open>resolveInviteDisplayNames\<close> never fails: a name it cannot read is empty.\<close>

definition resolveInviteDisplayNames :: "uuid \<Rightarrow> string \<Rightarrow> bool \<Rightarrow> (string \<times> string) service_op" where
  "resolveInviteDisplayNames tenantID roleID includeGlobal =
     op_bind (op_try (in_db (FindByID tenantID)) (\<lambda>_. op_ret [])
                (\<lambda>t. op_ret (case t of None \<Rightarrow> [] | Some x \<Rightarrow> tn_Name x))) (\<lambda>tenantName.
     op_bind (if roleID = [] then op_ret []
              else op_try (in_db (GetByIDForTenant roleID tenantID includeGlobal)) (\<lambda>_. op_ret [])
                     (\<lambda>r. op_ret (ro_Name r))) (\<lambda>roleName.
     op_ret (tenantName, roleName)))"

definition send_invite :: "mail_config \<Rightarrow> call \<Rightarrow> uuid \<Rightarrow> string \<Rightarrow> string \<Rightarrow> string \<Rightarrow> bool \<Rightarrow> unit service_op" where
  "send_invite cfg ca tenantID email roleID inviter includeGlobal =
     op_bind (resolveInviteDisplayNames tenantID roleID includeGlobal) (\<lambda>(tenantName, roleName).
     InviteUserByEmail (ca_http ca)
       \<lparr>ip_Email = email, ip_RedirectTo = callbackURL cfg ca tenantID, ip_TenantName = tenantName,
        ip_InviterName = inviter, ip_RoleName = roleName\<rparr>)"

definition CreateInvitation :: "mail_config \<Rightarrow> call \<Rightarrow> string \<Rightarrow> string \<Rightarrow> invitation service_op" where
  "CreateInvitation cfg ca email roleID =
     (case (ca_tenant ca, ca_user ca) of
        (Some tenantID, Some caller) \<Rightarrow>
     let includeGlobal = CanSeePlatformInternals (ca_role ca)
     in
     op_bind (in_db (GetByIDForTenant roleID tenantID includeGlobal)) (\<lambda>_.
     op_bind (checkRateLimit cfg ca tenantID) (\<lambda>_.
     op_bind (op_try (in_db (GetPendingByEmailAndTenant email tenantID includeGlobal))
                (\<lambda>e. if e = ErrNotFound then op_ret None else op_fail e) (\<lambda>x. op_ret (Some x))) (\<lambda>existing.
     if existing \<noteq> None then op_fail ErrInvitationAlreadyPending
     else
     op_bind (in_db (inv_Create (ca_now ca) (ca_newID ca) tenantID email roleID (dm_ID caller))) (\<lambda>created.
     op_try (send_invite cfg ca tenantID email roleID (dm_Name caller) includeGlobal)
       (\<lambda>e. op_try (in_db (inv_UpdateStatus (ca_now ca) (iv_ID created) InvRevoked))
              (\<lambda>_. op_fail e) (\<lambda>_. op_fail e))
       (\<lambda>_. op_ret created)))))
      | _ \<Rightarrow> op_fail ErrForbidden)"

text \<open>
  The tenant of the request: the middleware has set it before these handlers run. The lookup of a
  request without one would fail on the empty id.
\<close>

definition ResendInvitation :: "mail_config \<Rightarrow> call \<Rightarrow> uuid \<Rightarrow> bool \<Rightarrow> unit service_op" where
  "ResendInvitation cfg ca invID includeGlobal =
     (case ca_tenant ca of
        None \<Rightarrow> op_fail Internal
      | Some tenantID \<Rightarrow>
     op_bind (in_db (inv_GetByID invID tenantID includeGlobal)) (\<lambda>v.
     if iv_Status v \<noteq> InvPending then op_fail ErrInvitationNotPending
     else send_invite cfg ca tenantID (iv_Email v) (iv_RoleID v)
            (case ca_user ca of None \<Rightarrow> [] | Some u \<Rightarrow> dm_Name u) includeGlobal))"

definition RevokeInvitation :: "call \<Rightarrow> uuid \<Rightarrow> bool \<Rightarrow> invitation service_op" where
  "RevokeInvitation ca invID includeGlobal =
     (case ca_tenant ca of
        None \<Rightarrow> op_fail Internal
      | Some tenantID \<Rightarrow>
     op_bind (in_db (inv_GetByID invID tenantID includeGlobal)) (\<lambda>v.
     op_bind (in_db (inv_UpdateStatus (ca_now ca) invID InvRevoked)) (\<lambda>_.
     op_ret (v\<lparr>iv_Status := InvRevoked\<rparr>))))"

definition ListInvitations :: "call \<Rightarrow> string option \<Rightarrow> bool \<Rightarrow> invitation list service_op" where
  "ListInvitations ca status includeGlobal =
     (case ca_tenant ca of
        None \<Rightarrow> op_fail Internal
      | Some tenantID \<Rightarrow> in_db (inv_ListByTenant tenantID status includeGlobal))"

section \<open>Activation\<close>

definition membership_of :: "time \<Rightarrow> uuid \<Rightarrow> uuid \<Rightarrow> invitation \<Rightarrow> user_tenant_role" where
  "membership_of now newID userID v =
     \<lparr>ut_ID = newID, ut_UserID = userID, ut_TenantID = iv_TenantID v, ut_RoleID = Some (iv_RoleID v),
      ut_Status = UTRActive, ut_AssignedBy = Some (iv_InvitedBy v), ut_AssignedAt = Some now,
      ut_CreatedAt = now, ut_UpdatedAt = now\<rparr>"

text \<open>One turn of the loop: whether the invitation counts as activated. No failure ends the loop.\<close>

definition activate_one :: "time \<Rightarrow> uuid \<Rightarrow> uuid \<Rightarrow> invitation \<Rightarrow> iam_db world \<Rightarrow> bool \<times> iam_db world" where
  "activate_one now newID userID v w =
     (if IsExpired now v then (False, snd (inv_UpdateStatus now (iv_ID v) InvExpired w))
      else
        (case utr_Create now (membership_of now newID userID v) True w of
           (Inl e, w1) \<Rightarrow>
             if e = ErrUserAlreadyHasActiveRole
             then (True, snd (inv_UpdateStatus now (iv_ID v) InvAccepted w1)) else (False, w1)
         | (Inr _, w1) \<Rightarrow> (True, snd (inv_UpdateStatus now (iv_ID v) InvAccepted w1))))"

text \<open>\<open>fresh\<close> gives the id \<open>uuid.New\<close> draws in the n-th turn.\<close>

fun activate_loop :: "time \<Rightarrow> (nat \<Rightarrow> uuid) \<Rightarrow> uuid \<Rightarrow> invitation list \<Rightarrow> iam_db world \<Rightarrow> nat \<times> iam_db world" where
  "activate_loop now fresh userID [] w = (0, w)"
| "activate_loop now fresh userID (v # invs) w =
     (case activate_one now (fresh (length invs)) userID v w of (b, w1) \<Rightarrow>
      case activate_loop now fresh userID invs w1 of (n, w2) \<Rightarrow> (n + (if b then 1 else 0), w2))"

definition ActivatePendingInvitations :: "time \<Rightarrow> (nat \<Rightarrow> uuid) \<Rightarrow> string \<Rightarrow> uuid \<Rightarrow> unit iam_op" where
  "ActivatePendingInvitations now fresh email userID =
     op_bind (ListPendingByEmail email) (\<lambda>invs w.
     if invs = [] then (Inr (), w)
     else
       (case activate_loop now fresh userID invs w of (activated, w1) \<Rightarrow>
          if activated = 0 then (Inr (), w1)
          else op_bind (SetPasswordChangeRequired now userID True)
                 (\<lambda>_. SetStatus now userID UserStatusActive) w1))"

section \<open>JWTAuth\<close>

datatype token_err = JWKSUnavailable | TokenInvalid

definition JWTAuth ::
  "(string \<Rightarrow> token_err + (string \<times> string) option) \<Rightarrow> time \<Rightarrow> uuid \<Rightarrow> (nat \<Rightarrow> uuid) \<Rightarrow> string \<Rightarrow>
     iam_db world \<Rightarrow> domain_user gate \<times> iam_db world"
where
  "JWTAuth verify now newID fresh header w =
     (if header = [] \<or> \<not> prefix ''Bearer '' header then (Abort 401 ''No autorizado'', w)
      else case verify (drop (length ''Bearer '') header) of
        Inl JWKSUnavailable \<Rightarrow> (Abort 503 ''auth service unavailable'', w)
      | Inl TokenInvalid \<Rightarrow> (Abort 401 ''No autorizado'', w)
      | Inr None \<Rightarrow> (Abort 401 ''No autorizado'', w)
      | Inr (Some (sub, email)) \<Rightarrow>
     if sub = [] then (Abort 401 ''No autorizado'', w)
     else case ProvisionUser now newID sub email w of
        (Inl _, w1) \<Rightarrow> (Abort 500 ''provisioning failed'', w1)
      | (Inr user, w1) \<Rightarrow>
     if dm_Status user = UserStatusRevoked \<or> dm_Status user = UserStatusDisabled
     then (Abort 403 ''account suspended'', w1)
     else if dm_Status user = UserStatusInvited \<and> email \<noteq> [] then
       (case ActivatePendingInvitations now fresh email (dm_ID user) w1 of
          (Inl _, w2) \<Rightarrow> (Abort 500 ''activation failed'', w2)
        | (Inr _, w2) \<Rightarrow>
            (case ProvisionUser now newID sub email w2 of
               (Inl _, w3) \<Rightarrow> (Pass user, w3)
             | (Inr refreshed, w3) \<Rightarrow> (Pass refreshed, w3)))
     else (Pass user, w1))"

section \<open>Handlers\<close>

definition CreateInvitation_handler ::
  "(string \<Rightarrow> bool) \<Rightarrow> mail_config \<Rightarrow> call \<Rightarrow> string \<Rightarrow> string \<Rightarrow> (services, nat, invitation) oper" where
  "CreateInvitation_handler is_email cfg ca email roleID =
     (if email = [] \<or> \<not> is_email email \<or> roleID = [] then op_fail 400
      else op_try (CreateInvitation cfg ca email roleID)
             (\<lambda>e. op_fail (if e = ErrRoleNotFound then 404 else if e = ErrInvitationAlreadyPending then 409
                           else if e = ErrInvitationRateLimitExceeded then 429
                           else if e = ErrForbidden then 403 else 500)) op_ret)"

definition ResendInvitation_handler ::
  "(string \<Rightarrow> uuid option) \<Rightarrow> mail_config \<Rightarrow> call \<Rightarrow> string \<Rightarrow> (services, nat, unit) oper" where
  "ResendInvitation_handler parse cfg ca text =
     (case parse text of
        None \<Rightarrow> op_fail 400
      | Some i \<Rightarrow>
          op_try (ResendInvitation cfg ca i (CanSeePlatformInternals (ca_role ca)))
            (\<lambda>e. op_fail (if e = ErrNotFound then 404 else if e = ErrInvitationNotPending then 409 else 500)) op_ret)"

definition RevokeInvitation_handler ::
  "(string \<Rightarrow> uuid option) \<Rightarrow> call \<Rightarrow> string \<Rightarrow> (services, nat, invitation) oper" where
  "RevokeInvitation_handler parse ca text =
     (case parse text of
        None \<Rightarrow> op_fail 400
      | Some i \<Rightarrow>
          op_try (RevokeInvitation ca i (CanSeePlatformInternals (ca_role ca)))
            (\<lambda>e. op_fail (if e = ErrNotFound then 404 else 500)) op_ret)"

definition ListInvitations_handler :: "call \<Rightarrow> string \<Rightarrow> (services, nat, invitation list) oper" where
  "ListInvitations_handler ca statusFilter =
     op_try (ListInvitations ca (strPtr statusFilter) (CanSeePlatformInternals (ca_role ca)))
       (\<lambda>_. op_fail 500) op_ret"

end
