(* ===== verification/Logins.thy ===== *)
theory Logins
  imports Invitations
begin

text \<open>
  What a login and the operations on invitations do to the tables, whichever statements fail; the
  invariant of the accounts over histories; the properties of \<open>Accounts\<close> and \<open>Invitations\<close> that
  span both.
\<close>

section \<open>Invariant of the accounts\<close>

definition invitations_wf :: "iam_db \<Rightarrow> bool" where
  "invitations_wf d \<longleftrightarrow>
     distinct (map iv_ID (invitations d)) \<and>
     distinct (map (\<lambda>v. (iv_TenantID v, iv_Email v)) (filter (\<lambda>v. iv_Status v = InvPending) (invitations d))) \<and>
     (\<forall>v \<in> set (invitations d). iv_InvitedBy v \<in> us_id ` set (users d) \<and> iv_RoleID v \<in> ro_ID ` set (roles d) \<and>
        iv_TenantID v \<in> tr_id ` set (tenants d))"

definition account_wf :: "iam_db \<Rightarrow> bool" where
  "account_wf d \<longleftrightarrow> iam_wf d \<and> users_wf d \<and> invitations_wf d"

lemma invitations_wf_same:
  "invitations d' = invitations d \<Longrightarrow> us_id ` set (users d) \<subseteq> us_id ` set (users d') \<Longrightarrow> roles d' = roles d \<Longrightarrow>
     tenants d' = tenants d \<Longrightarrow> invitations_wf d \<Longrightarrow> invitations_wf d'"
  by (auto simp: invitations_wf_def)

lemma modify_users_account_wf:
  assumes "same_refs f" and "account_wf d"
  shows "account_wf (d\<lparr>users := update_where p f (users d)\<rparr>)"
  using assms modify_users_wf [OF assms(1), of d p] keys_update_where(5) [OF assms(1), of p "users d"]
  by (auto simp: account_wf_def intro: invitations_wf_same)

lemma insert_utr_account_wf:
  assumes "insert_utr u d = (Inr x, d')" and "account_wf d"
  shows "account_wf d'"
proof -
  have d': "d' = d\<lparr>utrs := utrs d @ [u]\<rparr>" using insert_utr_Inr [OF assms(1)] by simp
  have "iam_wf d'" using insert_utr_wf assms by (auto simp: account_wf_def)
  moreover have "users_wf d' = users_wf d" unfolding d' by (rule users_wf_same) simp_all
  moreover have "invitations_wf d' = invitations_wf d" by (simp add: d' invitations_wf_def)
  ultimately show ?thesis using assms(2) by (simp add: account_wf_def)
qed

definition marked :: "time \<Rightarrow> uuid \<Rightarrow> invitation_status \<Rightarrow> iam_db \<Rightarrow> iam_db" where
  "marked now i s d = d\<lparr>invitations := update_where (\<lambda>x. iv_ID x = i)
     (\<lambda>x. x\<lparr>iv_Status := s, iv_UpdatedAt := now\<rparr>) (invitations d)\<rparr>"

lemma marked_simps [simp]:
  "users (marked now i s d) = users d" "utrs (marked now i s d) = utrs d" "roles (marked now i s d) = roles d"
  "tenants (marked now i s d) = tenants d" "permissions (marked now i s d) = permissions d"
  by (simp_all add: marked_def)

lemma filter_marked:
  assumes "s \<noteq> InvPending"
  shows "filter (\<lambda>v. iv_Status v = InvPending) (update_where (\<lambda>x. iv_ID x = i)
      (\<lambda>x. x\<lparr>iv_Status := s, iv_UpdatedAt := now\<rparr>) vs) =
    filter (\<lambda>v. iv_ID v \<noteq> i) (filter (\<lambda>v. iv_Status v = InvPending) vs)"
  using assms by (induction vs) auto

lemma marked_account_wf:
  assumes "s \<noteq> InvPending" and "account_wf d"
  shows "account_wf (marked now i s d)"
proof -
  have ids: "map iv_ID (invitations (marked now i s d)) = map iv_ID (invitations d)"
    by (simp add: marked_def map_update_where_inv)
  have refs: "\<forall>v \<in> set (invitations (marked now i s d)). \<exists>x \<in> set (invitations d).
      iv_InvitedBy v = iv_InvitedBy x \<and> iv_RoleID v = iv_RoleID x \<and> iv_TenantID v = iv_TenantID x"
    by (auto simp: marked_def update_where_def intro: bexI)
  have "invitations_wf (marked now i s d)"
    unfolding invitations_wf_def ids
  proof (intro conjI)
    show "distinct (map (\<lambda>v. (iv_TenantID v, iv_Email v))
        (filter (\<lambda>v. iv_Status v = InvPending) (invitations (marked now i s d))))"
      using assms(2) unfolding marked_def by (simp add: filter_marked [OF assms(1)] account_wf_def invitations_wf_def
          distinct_map_filter del: filter_filter)
    show "\<forall>v \<in> set (invitations (marked now i s d)). iv_InvitedBy v \<in> us_id ` set (users (marked now i s d)) \<and>
        iv_RoleID v \<in> ro_ID ` set (roles (marked now i s d)) \<and> iv_TenantID v \<in> tr_id ` set (tenants (marked now i s d))"
      using refs assms(2) by (fastforce simp: account_wf_def invitations_wf_def)
  qed (use assms(2) in \<open>simp add: account_wf_def invitations_wf_def\<close>)
  moreover have "iam_wf (marked now i s d) = iam_wf d"
    using same_roles_tenants [of "marked now i s d" d] by (simp add: iam_wf_def platform_rule_def utr_refs_def roles_wf_def)
  moreover have "users_wf (marked now i s d) = users_wf d" by (rule users_wf_same) simp_all
  ultimately show ?thesis using assms(2) by (simp add: account_wf_def)
qed

lemma insert_invitation_Inr:
  "insert_invitation v d = (Inr x, d') \<Longrightarrow> x = v \<and> d' = d\<lparr>invitations := invitations d @ [v]\<rparr> \<and>
     iv_ID v \<notin> iv_ID ` set (invitations d) \<and> iv_InvitedBy v \<in> us_id ` set (users d) \<and>
     iv_RoleID v \<in> ro_ID ` set (roles d) \<and> iv_TenantID v \<in> tr_id ` set (tenants d) \<and>
     (iv_Status v = InvPending \<longrightarrow> \<not> (\<exists>x \<in> set (invitations d). pending_for (iv_TenantID v) (iv_Email v) x))"
  by (auto simp: insert_invitation_def split: if_splits)

lemma insert_invitation_Inl: "insert_invitation v d = (Inl e, d') \<Longrightarrow> d' = d"
  by (auto simp: insert_invitation_def split: if_splits)

lemma insert_invitation_wf:
  assumes "insert_invitation v d = (Inr x, d')" and "account_wf d"
  shows "account_wf d'"
proof -
  note i = insert_invitation_Inr [OF assms(1)]
  have "iam_wf d' = iam_wf d"
    using i same_roles_tenants [of d' d] by (auto simp: iam_wf_def platform_rule_def utr_refs_def roles_wf_def)
  moreover have "users_wf d' = users_wf d" by (rule users_wf_same) (use i in simp_all)
  moreover have "invitations_wf d'"
    using assms(2) i by (auto simp: account_wf_def invitations_wf_def pending_for_def)
  ultimately show ?thesis using assms(2) by (simp add: account_wf_def)
qed

section \<open>The operations keep it\<close>

lemma keeps_SetStatus: "keeps account_wf (SetStatus now i s)"
  unfolding SetStatus_def by (rule keeps_stmt) (auto intro!: modify_users_account_wf simp: same_refs_def)

lemma keeps_SetPasswordChangeRequired: "keeps account_wf (SetPasswordChangeRequired now i b)"
  unfolding SetPasswordChangeRequired_def
  by (rule keeps_stmt) (auto intro!: modify_users_account_wf simp: same_refs_def)

lemma keeps_inv_UpdateStatus: "s \<noteq> InvPending \<Longrightarrow> keeps account_wf (inv_UpdateStatus now i s)"
  unfolding inv_UpdateStatus_def
  by (rule keeps_stmt) (auto simp: Let_def marked_def [symmetric] intro: marked_account_wf)

lemma keeps_inv_Create: "keeps account_wf (inv_Create now newID t email r caller)"
  unfolding inv_Create_def
  by (intro keeps_try keeps_stmt keeps_fail keeps_ret) (rule insert_invitation_wf)

lemma keeps_utr_Create: "keeps account_wf (utr_Create now u g)"
proof (rule keepsI)
  fix w r w' assume "utr_Create now u g w = (r, w')" "account_wf (tables w)"
  then show "account_wf (tables w')"
    by (cases rule: utr_Create_cases) (auto intro: insert_utr_account_wf)
qed

text \<open>The row an upsert hits is the only one of its Supabase id.\<close>

lemma only_sub:
  assumes "distinct (map us_supabase_user_id (filter (\<lambda>u. us_supabase_user_id u \<noteq> None) us))"
    and "x \<in> set us" "y \<in> set us" "us_supabase_user_id x = Some sub" "us_supabase_user_id y = Some sub"
  shows "x = y"
  by (rule distinct_key [OF assms(1)]) (use assms(2-) in simp_all)

lemma upsert_split:
  assumes "find (\<lambda>u. us_supabase_user_id u = Some sub) us = Some u" and "distinct us"
    and "distinct (map us_supabase_user_id (filter (\<lambda>u. us_supabase_user_id u \<noteq> None) us))"
  obtains as bs where "us = as @ u # bs" and "us_supabase_user_id u = Some sub"
    and "\<And>f. update_where (\<lambda>u. us_supabase_user_id u = Some sub) f us = as @ f u # bs"
proof -
  have u: "u \<in> set us" "us_supabase_user_id u = Some sub" using assms(1) by (auto simp: find_Some_iff)
  then obtain as bs where us: "us = as @ u # bs" by (meson split_list)
  have other: "us_supabase_user_id x \<noteq> Some sub" if "x \<in> set as \<union> set bs" for x
  proof
    assume "us_supabase_user_id x = Some sub"
    with only_sub [OF assms(3) _ u(1) _ u(2), of x] that us have "x = u" by auto
    with that assms(2) us show False by auto
  qed
  have "update_where (\<lambda>u. us_supabase_user_id u = Some sub) f us = as @ f u # bs" for f
    using other u(2) unfolding us update_where_def by (auto intro: map_idI)
  with us u(2) show thesis by (rule that)
qed

lemma upsert_seen_wf:
  fixes email :: string and now :: time
  defines "f \<equiv> \<lambda>u. u\<lparr>us_email := email, us_last_login_at := Some now, us_updated_at := now\<rparr>"
  assumes wf: "account_wf d" and u: "find (\<lambda>u. us_supabase_user_id u = Some sub) (users d) = Some u"
    and free: "\<not> (\<exists>x \<in> set (users d). us_id x \<noteq> us_id u \<and> same_email (f u) x)"
  shows "account_wf (d\<lparr>users := update_where (\<lambda>u. us_supabase_user_id u = Some sub) f (users d)\<rparr>)" (is "account_wf ?d")
proof -
  have dist: "distinct (map us_id (users d))" "distinct (users d)"
    using wf by (auto simp: account_wf_def iam_wf_def distinct_map)
  obtain as bs where us: "users d = as @ u # bs"
    and upd: "update_where (\<lambda>u. us_supabase_user_id u = Some sub) f (users d) = as @ f u # bs"
    by (rule upsert_split [OF u dist(2)]) (use wf in \<open>auto simp: account_wf_def users_wf_def\<close>)
  have f: "us_id (f u) = us_id u" "us_tenant_id (f u) = us_tenant_id u"
    "us_supabase_user_id (f u) = us_supabase_user_id u" by (simp_all add: f_def)
  have ids: "us_id ` set (users ?d) = us_id ` set (users d)" "map us_id (users ?d) = map us_id (users d)"
    by (simp_all add: upd [unfolded us] us f)
  have "iam_wf ?d = iam_wf d"
    using same_roles_tenants [of ?d d] by (simp add: iam_wf_def platform_rule_def utr_refs_def roles_wf_def upd [unfolded us] us f)
  moreover have "invitations_wf ?d"
    using wf ids(1) by (intro invitations_wf_same [of ?d d]) (auto simp: account_wf_def)
  moreover have "users_wf ?d"
  proof -
    have "(us_tenant_id u, email) \<notin> (\<lambda>u. (us_tenant_id u, us_email u)) ` (set as \<union> set bs)" if "us_tenant_id u \<noteq> None"
    proof (rule notI, erule imageE)
      fix x assume x: "(us_tenant_id u, email) = (us_tenant_id x, us_email x)" "x \<in> set as \<union> set bs"
      then have "us_id x \<noteq> us_id u" using dist(1) us by (auto simp: image_iff)
      with free x that us show False by (force simp: same_email_def f_def)
    qed
    note fresh = this
    have key: "us_email (f u) = email" by (simp add: f_def)
    have old: "users_wf d" using wf by (simp add: account_wf_def)
    have U: "users ?d = as @ f u # bs" using upd by simp
    show ?thesis unfolding users_wf_def U
    proof (intro conjI)
      show "distinct (map (\<lambda>u. (us_tenant_id u, us_email u)) (filter (\<lambda>u. us_tenant_id u \<noteq> None) (as @ f u # bs)))"
        using old fresh unfolding users_wf_def us
        by (cases "us_tenant_id u = None") (auto simp: f key simp del: not_None_eq)
      have "map us_supabase_user_id (filter (\<lambda>u. us_supabase_user_id u \<noteq> None) (as @ f u # bs)) =
          map us_supabase_user_id (filter (\<lambda>u. us_supabase_user_id u \<noteq> None) (users d))"
        unfolding us by (simp add: f)
      then show "distinct (map us_supabase_user_id (filter (\<lambda>u. us_supabase_user_id u \<noteq> None) (as @ f u # bs)))"
        using old unfolding users_wf_def by simp
    qed (use old in \<open>auto simp: users_wf_def us f\<close>)
  qed
  ultimately show ?thesis using wf by (simp add: account_wf_def)
qed

lemma keeps_Upsert: "keeps account_wf (UpsertBySupabaseID now newID sub email)"
  unfolding UpsertBySupabaseID_def
proof (rule keeps_stmt)
  fix d x d'
  assume wf: "account_wf d"
    and r: "(let hit = \<lambda>u. us_supabase_user_id u = Some sub;
        f = \<lambda>u. u\<lparr>us_email := email, us_last_login_at := Some now, us_updated_at := now\<rparr>
      in case find hit (users d) of
           None \<Rightarrow> (case insert_user (provisioned_row now newID sub email) d of
              (Inl _, _) \<Rightarrow> (Inl Internal, d) | (Inr u, d') \<Rightarrow> (scanAuthUser u, d'))
         | Some u \<Rightarrow> if \<exists>x\<in>set (users d). us_id x \<noteq> us_id u \<and> same_email (f u) x then (Inl Internal, d)
             else (scanAuthUser (f u), d\<lparr>users := update_where hit f (users d)\<rparr>)) = (Inr x, d')"
  show "account_wf d'"
  proof (cases "find (\<lambda>u. us_supabase_user_id u = Some sub) (users d)")
    case None
    with r obtain u where i: "insert_user (provisioned_row now newID sub email) d = (Inr u, d')"
      by (auto simp: Let_def split: prod.splits sum.splits)
    note n = insert_user_Inr [OF i]
    have "invitations_wf d'" by (rule invitations_wf_same [of d' d]) (use n wf in \<open>auto simp: account_wf_def\<close>)
    with insert_user_wf [OF i] wf show ?thesis by (simp add: account_wf_def)
  next
    case (Some u)
    with r have "d' = d\<lparr>users := update_where (\<lambda>u. us_supabase_user_id u = Some sub)
        (\<lambda>u. u\<lparr>us_email := email, us_last_login_at := Some now, us_updated_at := now\<rparr>) (users d)\<rparr>"
      "\<not> (\<exists>x \<in> set (users d). us_id x \<noteq> us_id u \<and>
         same_email (u\<lparr>us_email := email, us_last_login_at := Some now, us_updated_at := now\<rparr>) x)"
      by (auto simp: Let_def split: if_splits)
    with upsert_seen_wf [OF wf Some] show ?thesis by simp
  qed
qed

lemma activate_one_wf:
  assumes "activate_one now i uid v w = (b, w')" and "account_wf (tables w)"
  shows "account_wf (tables w')"
proof -
  note mark = keeps_snd [OF keeps_inv_UpdateStatus]
  obtain r w1 where c: "utr_Create now (membership_of now i uid v) True w = (r, w1)" by fastforce
  have "account_wf (tables w1)" by (rule keepsD [OF keeps_utr_Create c assms(2)])
  then show ?thesis using assms c
    by (auto simp: activate_one_def intro: mark split: if_splits sum.splits)
qed

lemma activate_loop_wf:
  "activate_loop now fresh uid vs w = (n, w') \<Longrightarrow> account_wf (tables w) \<Longrightarrow> account_wf (tables w')"
proof (induction vs arbitrary: w n)
  case (Cons v vs)
  from Cons(2) obtain b w1 m where "activate_one now (fresh (length vs)) uid v w = (b, w1)"
    "activate_loop now fresh uid vs w1 = (m, w')" by (auto split: prod.splits)
  with Cons(1,3) activate_one_wf show ?case by blast
qed simp

lemma keeps_Activate: "keeps account_wf (ActivatePendingInvitations now fresh email uid)"
  unfolding ActivatePendingInvitations_def
proof (rule keeps_bind)
  show "keeps account_wf (ListPendingByEmail email)" by (simp add: ListPendingByEmail_def keeps_query)
  fix vs
  have "keeps account_wf (op_bind (SetPasswordChangeRequired now uid True) (\<lambda>_. SetStatus now uid UserStatusActive))"
    by (intro keeps_bind keeps_SetPasswordChangeRequired keeps_SetStatus)
  then show "keeps account_wf (\<lambda>w. if vs = [] then (Inr (), w)
      else case activate_loop now fresh uid vs w of (activated, w1) \<Rightarrow>
        if activated = 0 then (Inr (), w1)
        else op_bind (SetPasswordChangeRequired now uid True) (\<lambda>_. SetStatus now uid UserStatusActive) w1)"
    by (intro keepsI) (auto dest: activate_loop_wf keepsD split: if_splits prod.splits)
qed

lemma JWTAuth_wf:
  assumes "account_wf (tables w)"
  shows "account_wf (tables (snd (JWTAuth verify now newID fresh header w)))"
proof -
  note up = keepsD [OF keeps_Upsert [of now newID]]
  note act = keepsD [OF keeps_Activate]
  show ?thesis using assms
    by (auto simp: JWTAuth_def ProvisionUser_def dest: up act
        split: prod.splits sum.splits token_err.splits option.splits if_splits)
qed

section \<open>What an activation does\<close>

inductive activation_step :: "time \<Rightarrow> uuid \<Rightarrow> invitation list \<Rightarrow> iam_db \<Rightarrow> iam_db \<Rightarrow> bool"
  for now :: time and uid :: uuid and vs :: "invitation list" where
  grant: "activation_step now uid vs d d'"
    if "v \<in> set vs" "\<not> IsExpired now v" "insert_utr (membership_of now i uid v) d = (Inr x, d')"
| expire: "activation_step now uid vs d (marked now (iv_ID v) InvExpired d)"
    if "v \<in> set vs" "IsExpired now v"
| accept: "activation_step now uid vs d (marked now (iv_ID v) InvAccepted d)"
    if "v \<in> set vs" "\<not> IsExpired now v" "\<exists>u \<in> set (utrs d). active_of uid (iv_TenantID v) u"

abbreviation activation_steps :: "time \<Rightarrow> uuid \<Rightarrow> invitation list \<Rightarrow> iam_db \<Rightarrow> iam_db \<Rightarrow> bool" where
  "activation_steps now uid vs \<equiv> (activation_step now uid vs)\<^sup>*\<^sup>*"

lemma inv_UpdateStatus_cases:
  "s \<noteq> InvPending \<Longrightarrow> tables (snd (inv_UpdateStatus now i s w)) = tables w \<or>
     tables (snd (inv_UpdateStatus now i s w)) = marked now i s (tables w)"
  by (auto simp: inv_UpdateStatus_def stmt_def marked_def Let_def)

lemma already_active:
  assumes "utr_Create now u True w = (Inl ErrUserAlreadyHasActiveRole, w')"
  shows "\<exists>x \<in> set (utrs (tables w)). active_of (ut_UserID u) (ut_TenantID u) x"
proof -
  let ?chk = "case ut_RoleID u of None \<Rightarrow> op_ret () | Some r \<Rightarrow> checkRoleAllowedForTenant r (ut_TenantID u) True"
  from assms [unfolded utr_Create_def] show ?thesis
  proof (cases rule: op_bindE)
    case (1 e)
    then show ?thesis
      by (auto simp: checkRoleAllowedForTenant_def op_iffs stmt_iffs first_row_Inl split: option.splits if_splits)
  next
    case (2 y w1)
    have "read_only ?chk" by (simp split: option.splits)
    from read_onlyD [OF this 2(1)] have w1: "tables w1 = tables w" .
    from 2(2) show ?thesis
    proof (cases rule: op_tryE)
      case (1 e w2)
      have w2: "tables w2 = tables w" using CreateQuery_cases [OF 1(1)] w1 by auto
      from 1(2) have "(resolveActiveUniqueViolation (ut_UserID u) (ut_TenantID u) True :: user_tenant_role iam_op) w2 =
          (Inl ErrUserAlreadyHasActiveRole, w')"
        by (auto simp: mapForeignKeyViolation_def resolveActiveUniqueViolation_def
            split: pg_err.splits option.splits if_splits)
      with w2 show ?thesis
        by (auto simp: resolveActiveUniqueViolation_def hasVisibleActiveAssignment_def op_iffs stmt_iffs split: if_splits)
    qed simp
  qed
qed

lemma activate_one_steps:
  assumes "activate_one now i uid v w = (b, w')" and "v \<in> set vs"
  shows "activation_steps now uid vs (tables w) (tables w')"
proof (cases "IsExpired now v")
  case True
  with assms(1) have "w' = snd (inv_UpdateStatus now (iv_ID v) InvExpired w)" by (simp add: activate_one_def)
  then show ?thesis
    using inv_UpdateStatus_cases [of InvExpired now "iv_ID v" w] activation_step.expire [OF assms(2) True] by auto
next
  case False
  obtain r w1 where c: "utr_Create now (membership_of now i uid v) True w = (r, w1)" by fastforce
  have accept: "activation_steps now uid vs (tables w) (tables (snd (inv_UpdateStatus now (iv_ID v) InvAccepted w1)))"
    if "activation_steps now uid vs (tables w) (tables w1)" "\<exists>u \<in> set (utrs (tables w1)). active_of uid (iv_TenantID v) u"
    using inv_UpdateStatus_cases [of InvAccepted now "iv_ID v" w1] that
      activation_step.accept [OF assms(2) False that(2)] by (auto intro: rtranclp.rtrancl_into_rtrancl)
  from c show ?thesis
  proof (cases rule: utr_Create_cases)
    case (err e)
    show ?thesis
    proof (cases "e = ErrUserAlreadyHasActiveRole")
      case True
      with already_active [of now "membership_of now i uid v" w w1] c err
      have "\<exists>u \<in> set (utrs (tables w1)). active_of uid (iv_TenantID v) u" by (auto simp: membership_of_def)
      with accept err(2) True assms(1) False c err(1) show ?thesis by (simp add: activate_one_def)
    next
      case F: False
      with assms(1) False c err show ?thesis by (simp add: activate_one_def)
    qed
  next
    case (ok x)
    have "insert_utr (membership_of now i uid v) (tables w) = (Inr x, tables w1)"
      using ok(3) by (simp add: membership_of_def)
    from activation_step.grant [OF assms(2) False this] insert_utr_Inr [OF this] accept assms(1) False c ok(1)
    show ?thesis by (auto simp: activate_one_def membership_of_def active_of_def)
  qed
qed

lemma activate_loop_steps:
  "activate_loop now fresh uid vs w = (n, w') \<Longrightarrow> set vs \<subseteq> set us \<Longrightarrow>
     activation_steps now uid us (tables w) (tables w')"
proof (induction vs arbitrary: w n)
  case (Cons v vs)
  from Cons(2) obtain b w1 m where "activate_one now (fresh (length vs)) uid v w = (b, w1)"
    "activate_loop now fresh uid vs w1 = (m, w')" by (auto split: prod.splits)
  with Cons(1,3) activate_one_steps show ?case by (meson list.set_intros(1) rtranclp_trans set_subset_Cons subset_iff)
qed simp

lemma activation_frame:
  "activation_steps now uid vs d d' \<Longrightarrow> users d' = users d \<and> roles d' = roles d \<and> tenants d' = tenants d \<and>
     permissions d' = permissions d \<and> set (utrs d) \<subseteq> set (utrs d')"
  by (induction rule: rtranclp_induct) (auto elim!: activation_step.cases dest!: insert_utr_Inr)

lemma activation_grants:
  "activation_steps now uid vs d d' \<Longrightarrow> u \<in> set (utrs d') \<Longrightarrow>
     u \<in> set (utrs d) \<or> (\<exists>v \<in> set vs. \<exists>i. \<not> IsExpired now v \<and> u = membership_of now i uid v)"
proof (induction rule: rtranclp_induct)
  case (step d1 d2)
  from step(2) show ?case
  proof (cases rule: activation_step.cases)
    case (grant v i x)
    have "utrs d2 = utrs d1 @ [membership_of now i uid v]" using insert_utr_Inr [OF grant(3)] by simp
    with step(3,4) grant(1,2) show ?thesis by auto
  qed (use step(3,4) in simp_all)
qed simp

lemma activation_accepts:
  "activation_steps now uid vs d d' \<Longrightarrow> x \<in> set (invitations d') \<Longrightarrow> iv_Status x = InvAccepted \<Longrightarrow>
     (\<exists>y \<in> set (invitations d). iv_ID y = iv_ID x \<and> iv_Status y = InvAccepted) \<or>
     (\<exists>v \<in> set vs. iv_ID v = iv_ID x \<and> \<not> IsExpired now v \<and> (\<exists>u \<in> set (utrs d'). active_of uid (iv_TenantID v) u))"
proof (induction arbitrary: x rule: rtranclp_induct)
  case (step d1 d2)
  from step(2) have sub: "set (utrs d1) \<subseteq> set (utrs d2)"
    by (auto elim!: activation_step.cases dest!: insert_utr_Inr)
  from step(2) have "(\<exists>y \<in> set (invitations d1). iv_ID y = iv_ID x \<and> iv_Status y = InvAccepted) \<or>
      (\<exists>v \<in> set vs. iv_ID v = iv_ID x \<and> \<not> IsExpired now v \<and> (\<exists>u \<in> set (utrs d2). active_of uid (iv_TenantID v) u))"
  proof (cases rule: activation_step.cases)
    case (grant v i y)
    with step(4,5) show ?thesis by (auto dest: insert_utr_Inr)
  next
    case (expire v)
    with step(4,5) show ?thesis by (auto simp: marked_def in_update_where split: if_splits)
  next
    case (accept v)
    with step(4,5) show ?thesis by (auto simp: marked_def in_update_where split: if_splits)
  qed
  then show ?case
  proof
    assume "\<exists>y \<in> set (invitations d1). iv_ID y = iv_ID x \<and> iv_Status y = InvAccepted"
    then obtain y where y: "y \<in> set (invitations d1)" "iv_ID y = iv_ID x" "iv_Status y = InvAccepted" by blast
    from step(3) [OF y(1,3)] sub y(2) show ?thesis by (auto 4 4)
  qed blast
qed blast

section \<open>What a login does\<close>

lemma Activate_cases:
  assumes "ActivatePendingInvitations now fresh email uid w = (r, w')"
  obtains d where "activation_steps now uid (filter (\<lambda>v. iv_Email v = email \<and> iv_Status v = InvPending)
      (invitations (tables w))) (tables w) d"
    and "tables w' = d \<or>
      tables w' = d\<lparr>users := update_where (\<lambda>u. us_id u = uid)
        (\<lambda>u. u\<lparr>us_password_change_required := True, us_updated_at := now\<rparr>) (users d)\<rparr> \<or>
      tables w' = d\<lparr>users := update_where (\<lambda>u. us_id u = uid) (\<lambda>u. u\<lparr>us_status := UserStatusActive, us_updated_at := now\<rparr>)
        (update_where (\<lambda>u. us_id u = uid) (\<lambda>u. u\<lparr>us_password_change_required := True, us_updated_at := now\<rparr>) (users d))\<rparr>"
proof -
  let ?vs = "filter (\<lambda>v. iv_Email v = email \<and> iv_Status v = InvPending) (invitations (tables w))"
  from assms [unfolded ActivatePendingInvitations_def] show thesis
  proof (cases rule: op_bindE)
    case (1 e)
    then show thesis by (intro that [of "tables w"]) (auto simp: ListPendingByEmail_def dest: query_dbD)
  next
    case (2 vs w1)
    then have w1: "tables w1 = tables w" and vs: "set vs = set ?vs"
      by (auto simp: ListPendingByEmail_def query_Inr)
    show thesis
    proof (cases "vs = []")
      case True
      with 2(2) w1 show thesis by (intro that [of "tables w"]) auto
    next
      case False
      obtain n w2 where loop: "activate_loop now fresh uid vs w1 = (n, w2)" by fastforce
      have steps: "activation_steps now uid ?vs (tables w) (tables w2)"
        using activate_loop_steps [OF loop, of ?vs] vs w1 by simp
      show thesis
        by (rule that [OF steps])
          (use 2(2) loop False in \<open>auto simp: SetPasswordChangeRequired_def SetStatus_def op_bind_def stmt_def
             split: if_splits\<close>)
    qed
  qed
qed

lemma JWTAuth_cases:
  assumes "JWTAuth verify now newID fresh header w = (g, w')"
  obtains (idle) "w' = w" and "\<forall>u. g \<noteq> Pass u"
  | (provisioned) token sub email r where "header = ''Bearer '' @ token" and "verify token = Inr (Some (sub, email))"
      and "sub \<noteq> []" and "UpsertBySupabaseID now newID sub email w = (r, w')"
      and "\<forall>u. g = Pass u \<longrightarrow> r = Inr u \<and> dm_Status u \<noteq> UserStatusRevoked \<and> dm_Status u \<noteq> UserStatusDisabled"
  | (activated) token sub email usr w1 r w2 where "header = ''Bearer '' @ token"
      and "verify token = Inr (Some (sub, email))" and "sub \<noteq> []"
      and "UpsertBySupabaseID now newID sub email w = (Inr usr, w1)" and "dm_Status usr = UserStatusInvited"
      and "ActivatePendingInvitations now fresh email (dm_ID usr) w1 = (r, w2)"
      and "w' = w2 \<and> (\<forall>u. g \<noteq> Pass u) \<or>
         (\<exists>r3. UpsertBySupabaseID now newID sub email w2 = (r3, w') \<and> (\<forall>u. g = Pass u \<longrightarrow> u = usr \<or> r3 = Inr u))"
proof (cases "header = [] \<or> \<not> prefix ''Bearer '' header")
  case True
  with assms show thesis by (intro idle) (auto simp: JWTAuth_def)
next
  case False
  then obtain token where h: "header = ''Bearer '' @ token" by (auto elim: prefixE)
  show thesis
  proof (cases "\<exists>sub email. verify token = Inr (Some (sub, email)) \<and> sub \<noteq> []")
    case no: False
    with assms h show thesis
      by (intro idle) (auto simp: JWTAuth_def split: sum.splits token_err.splits option.splits if_splits)
  next
    case True
    then obtain sub email where v: "verify token = Inr (Some (sub, email))" "sub \<noteq> []" by blast
    obtain r w1 where up: "UpsertBySupabaseID now newID sub email w = (r, w1)" by fastforce
    show thesis
    proof (cases "\<exists>usr. r = Inr usr \<and> dm_Status usr = UserStatusInvited \<and> email \<noteq> []")
      case no: False
      with assms h v up show thesis
        by (intro provisioned [OF h v, of r]) (auto simp: JWTAuth_def ProvisionUser_def user_statuses split: sum.splits if_splits)
    next
      case True
      then obtain usr where usr: "r = Inr usr" "dm_Status usr = UserStatusInvited" "email \<noteq> []" by blast
      obtain ra w2 where act: "ActivatePendingInvitations now fresh email (dm_ID usr) w1 = (ra, w2)" by fastforce
      obtain r3 w3 where up3: "UpsertBySupabaseID now newID sub email w2 = (r3, w3)" by fastforce
      show thesis
        by (rule activated [OF h v up [unfolded usr(1)] usr(2) act])
          (use assms h v up usr act up3 in \<open>auto simp: JWTAuth_def ProvisionUser_def user_statuses split: sum.splits\<close>)
    qed
  qed
qed

text \<open>The rows an upsert leaves: the linked one, and the others as they were.\<close>

lemma Upsert_cases:
  assumes "UpsertBySupabaseID now newID sub email w = (r, w')"
  obtains (failed) "tables w' = tables w" and "\<forall>u. r \<noteq> Inr u"
  | (new) "find (\<lambda>u. us_supabase_user_id u = Some sub) (users (tables w)) = None"
      and "tables w' = (tables w)\<lparr>users := users (tables w) @ [provisioned_row now newID sub email]\<rparr>"
      and "r = scanAuthUser (provisioned_row now newID sub email)"
  | (seen) u f where "find (\<lambda>u. us_supabase_user_id u = Some sub) (users (tables w)) = Some u"
      and "f = (\<lambda>u. u\<lparr>us_email := email, us_last_login_at := Some now, us_updated_at := now\<rparr>)"
      and "tables w' = (tables w)\<lparr>users := update_where (\<lambda>u. us_supabase_user_id u = Some sub) f (users (tables w))\<rparr>"
      and "r = scanAuthUser (f u)"
proof (cases "\<exists>u. r = Inr u")
  case no: False
  then obtain e where "r = Inl e" by (cases r) auto
  with assms have "tables w' = tables w" by (auto simp: UpsertBySupabaseID_def stmt_Inl)
  with no show thesis by (intro failed) auto
next
  case True
  then obtain usr where r: "r = Inr usr" by blast
  show thesis
  proof (cases "find (\<lambda>u. us_supabase_user_id u = Some sub) (users (tables w))")
    case None
    with assms r obtain u d where i: "insert_user (provisioned_row now newID sub email) (tables w) = (Inr u, d)"
      and "scanAuthUser u = Inr usr" "tables w' = d"
      by (auto simp: UpsertBySupabaseID_def stmt_Inr Let_def split: prod.splits sum.splits)
    with insert_user_Inr [OF i] None r show thesis by (intro new) auto
  next
    case (Some u)
    with assms r show thesis
      by (intro seen [OF Some refl]) (auto simp: UpsertBySupabaseID_def stmt_Inr Let_def split: if_splits)
  qed
qed

lemma Upsert_frame:
  assumes "UpsertBySupabaseID now newID sub email w = (r, w')"
  shows "utrs (tables w') = utrs (tables w) \<and> invitations (tables w') = invitations (tables w) \<and>
    roles (tables w') = roles (tables w) \<and> tenants (tables w') = tenants (tables w)"
  using assms by (cases rule: Upsert_cases) auto

lemma hit_row: "x \<in> set xs \<Longrightarrow> p x \<Longrightarrow> f x \<in> set (update_where p f xs)"
  by (force simp: update_where_def)

lemma Upsert_linked:
  assumes "UpsertBySupabaseID now newID sub email w = (Inr usr, w')"
  shows "dm_SupabaseUserID usr = sub \<and> (\<exists>row \<in> set (users (tables w')). us_id row = dm_ID usr \<and> us_supabase_user_id row = Some sub)"
  using assms
proof (cases rule: Upsert_cases)
  case (seen u f)
  from seen(1) have u: "u \<in> set (users (tables w))" "us_supabase_user_id u = Some sub" by (auto simp: find_Some_iff)
  from hit_row [of u "users (tables w)" "\<lambda>u. us_supabase_user_id u = Some sub" f, OF u] seen(2-4) u(2)
  show ?thesis by (intro conjI bexI [of _ "f u"]) (auto simp: scanAuthUser_def)
qed (auto simp: scanAuthUser_def provisioned_row_def)

definition linked :: "uuid \<Rightarrow> string \<Rightarrow> user_row list \<Rightarrow> bool" where
  "linked i sub us \<longleftrightarrow> (\<exists>row \<in> set us. us_id row = i \<and> us_supabase_user_id row = Some sub)"

lemma linked_update:
  assumes "linked i sub us" and "\<And>u. us_id (f u) = us_id u \<and> us_supabase_user_id (f u) = us_supabase_user_id u"
  shows "linked i sub (update_where p f us)"
proof -
  from assms(1) obtain row where row: "row \<in> set us" "us_id row = i" "us_supabase_user_id row = Some sub"
    by (auto simp: linked_def)
  then have "(if p row then f row else row) \<in> set (update_where p f us)" by (simp add: update_where_def)
  moreover have "us_id (if p row then f row else row) = i"
    "us_supabase_user_id (if p row then f row else row) = Some sub"
    using row assms(2) [of row] by simp_all
  ultimately show ?thesis unfolding linked_def by blast
qed

lemma Upsert_keeps_linked:
  assumes "UpsertBySupabaseID now newID sub email w = (r, w')" and "linked i s (users (tables w))"
  shows "linked i s (users (tables w'))"
  using assms(1)
proof (cases rule: Upsert_cases)
  case (seen u f)
  with assms(2) show ?thesis by (simp add: linked_update)
qed (use assms(2) in \<open>auto simp: linked_def\<close>)

lemma Activate_keeps_linked:
  assumes "ActivatePendingInvitations now fresh email uid w = (r, w')" and "linked i s (users (tables w))"
  shows "linked i s (users (tables w'))"
  using assms(1)
proof (cases rule: Activate_cases)
  case (1 d)
  have "users d = users (tables w)" using activation_frame [OF 1(1)] by simp
  with 1(2) assms(2) show ?thesis by (elim disjE) (simp_all add: linked_update)
qed

text \<open>The rows of an account after a step: new ones are invited, and no row becomes active unflagged.\<close>

definition careful :: "iam_db \<Rightarrow> iam_db \<Rightarrow> bool" where
  "careful d d' \<longleftrightarrow> (\<forall>u' \<in> set (users d'). us_status u' = UserStatusInvited \<or> us_password_change_required u' \<or>
     (\<exists>u \<in> set (users d). us_id u = us_id u' \<and> us_status u' = us_status u \<and>
        (us_password_change_required u \<longrightarrow> us_password_change_required u')))"

lemma careful_same: "users d' = users d \<Longrightarrow> careful d d'"
  by (auto simp: careful_def)

lemma careful_trans: "careful d d1 \<Longrightarrow> careful d1 d2 \<Longrightarrow> careful d d2"
  unfolding careful_def by (metis (no_types, lifting))

lemma careful_update:
  assumes "users d' = update_where p f (users d)"
    and "\<And>u. u \<in> set (users d) \<Longrightarrow> p u \<Longrightarrow> us_password_change_required (f u) \<or>
      us_id (f u) = us_id u \<and> us_status (f u) = us_status u \<and>
      (us_password_change_required u \<longrightarrow> us_password_change_required (f u))"
  shows "careful d d'"
  unfolding careful_def
proof
  fix u' assume "u' \<in> set (users d')"
  then obtain u where u: "u \<in> set (users d)" "u' = (if p u then f u else u)"
    by (auto simp: assms(1) update_where_def)
  show "us_status u' = UserStatusInvited \<or> us_password_change_required u' \<or>
      (\<exists>u \<in> set (users d). us_id u = us_id u' \<and> us_status u' = us_status u \<and>
         (us_password_change_required u \<longrightarrow> us_password_change_required u'))"
  proof (cases "p u")
    case True
    with assms(2) [OF u(1)] u show ?thesis by (auto intro: bexI [of _ u])
  next
    case False
    with u show ?thesis by (auto intro: bexI [of _ u])
  qed
qed

lemma update_where_hit:
  assumes "u \<in> set (update_where p f xs)" and "p u" and "\<And>x. p x \<Longrightarrow> q (f x)"
  shows "q u"
proof -
  from assms(1) [unfolded in_update_where] obtain x where x: "u = (if p x then f x else x)" ..
  show ?thesis by (cases "p x") (use x assms(2,3) in simp_all)
qed

lemma careful_Upsert:
  assumes "UpsertBySupabaseID now newID sub email w = (r, w')"
  shows "careful (tables w) (tables w')"
  using assms
proof (cases rule: Upsert_cases)
  case (seen u f)
  show ?thesis
    by (rule careful_update [of _ "\<lambda>u. us_supabase_user_id u = Some sub" f]) (simp_all add: seen(2,3))
qed (auto simp: careful_def provisioned_row_def)

lemma careful_Activate:
  assumes "ActivatePendingInvitations now fresh email uid w = (r, w')"
  shows "careful (tables w) (tables w')"
  using assms
proof (cases rule: Activate_cases)
  case (1 d)
  let ?flag = "\<lambda>u. u\<lparr>us_password_change_required := True, us_updated_at := now\<rparr>"
  let ?d = "d\<lparr>users := update_where (\<lambda>u. us_id u = uid) ?flag (users d)\<rparr>"
  let ?d2 = "?d\<lparr>users := update_where (\<lambda>u. us_id u = uid)
      (\<lambda>u. u\<lparr>us_status := UserStatusActive, us_updated_at := now\<rparr>) (users ?d)\<rparr>"
  have c: "careful (tables w) d" using activation_frame [OF 1(1)] by (simp add: careful_same)
  have "careful d ?d" by (rule careful_update [of _ "\<lambda>u. us_id u = uid" ?flag]) simp_all
  note flagged = careful_trans [OF c this]
  have "careful ?d ?d2"
  proof (rule careful_update [of _ "\<lambda>u. us_id u = uid" "\<lambda>u. u\<lparr>us_status := UserStatusActive, us_updated_at := now\<rparr>"])
    fix u assume "u \<in> set (users ?d)" "us_id u = uid"
    then have "us_password_change_required u"
      using update_where_hit [of u "\<lambda>u. us_id u = uid" ?flag "users d" us_password_change_required] by simp
    then show "us_password_change_required (u\<lparr>us_status := UserStatusActive, us_updated_at := now\<rparr>) \<or>
        us_id (u\<lparr>us_status := UserStatusActive, us_updated_at := now\<rparr>) = us_id u \<and>
        us_status (u\<lparr>us_status := UserStatusActive, us_updated_at := now\<rparr>) = us_status u \<and>
        (us_password_change_required u \<longrightarrow>
           us_password_change_required (u\<lparr>us_status := UserStatusActive, us_updated_at := now\<rparr>))"
      by simp
  qed simp
  note active = careful_trans [OF flagged this]
  from 1(2) show ?thesis using c flagged active by (elim disjE) simp_all
qed

section \<open>Properties\<close>

text \<open>Who gets past the authentication: a request passes JWTAuth only with a bearer token that the verifier
  accepts and that names a subject, as the user linked to that subject; and never when the account of the
  subject is revoked or disabled.\<close>

theorem JWTAuth_sound:
  assumes "JWTAuth verify now newID fresh header w = (Pass usr, w')"
  shows "\<exists>token sub email. header = ''Bearer '' @ token \<and> verify token = Inr (Some (sub, email)) \<and> sub \<noteq> [] \<and>
    dm_SupabaseUserID usr = sub \<and>
    (\<forall>row. find (\<lambda>u. us_supabase_user_id u = Some sub) (users (tables w)) = Some row \<longrightarrow>
       us_status row \<noteq> UserStatusRevoked \<and> us_status row \<noteq> UserStatusDisabled)"
proof -
  have status: "us_status row = dm_Status u"
    if "UpsertBySupabaseID now newID sub email w = (Inr u, w1)"
      and "find (\<lambda>u. us_supabase_user_id u = Some sub) (users (tables w)) = Some row" for sub email u w1 row
    using that(1)
  proof (cases rule: Upsert_cases)
    case (seen x f)
    with that(2) show ?thesis by (auto simp: scanAuthUser_def split: option.splits)
  qed (use that(2) in auto)
  from assms show ?thesis
  proof (cases rule: JWTAuth_cases)
    case (provisioned token sub email r)
    from provisioned(5) have r: "r = Inr usr" "dm_Status usr \<noteq> UserStatusRevoked" "dm_Status usr \<noteq> UserStatusDisabled"
      by simp_all
    with status provisioned(4) have "\<forall>row. find (\<lambda>u. us_supabase_user_id u = Some sub) (users (tables w)) = Some row \<longrightarrow>
       us_status row \<noteq> UserStatusRevoked \<and> us_status row \<noteq> UserStatusDisabled" by auto
    with provisioned(1-3) conjunct1 [OF Upsert_linked [OF provisioned(4) [unfolded r(1)]]] show ?thesis by blast
  next
    case (activated token sub email u1 w1 r w2)
    have "dm_SupabaseUserID usr = sub"
      using activated(7) conjunct1 [OF Upsert_linked [OF activated(4)]] Upsert_linked by fastforce
    moreover have "\<forall>row. find (\<lambda>u. us_supabase_user_id u = Some sub) (users (tables w)) = Some row \<longrightarrow>
       us_status row \<noteq> UserStatusRevoked \<and> us_status row \<noteq> UserStatusDisabled"
      using status [OF activated(4)] activated(5) by (simp add: user_statuses)
    ultimately show ?thesis using activated(1-3) by blast
  qed simp
qed

text \<open>C16. A login gives nothing that was not offered: whatever statements fail, every membership that exists
  after a request and did not exist before is the one of a pending, unexpired invitation for the email of
  the verified token, in its tenant, with its role and by its inviter, for the user linked to the subject.\<close>

theorem login_grants_only_invited:
  assumes "JWTAuth verify now newID fresh header w = (g, w')" and "u \<in> set (utrs (tables w'))" and "u \<notin> set (utrs (tables w))"
  shows "\<exists>token sub v. header = ''Bearer '' @ token \<and> verify token = Inr (Some (sub, iv_Email v)) \<and>
    v \<in> set (invitations (tables w)) \<and> iv_Status v = InvPending \<and> now \<le> iv_ExpiresAt v \<and>
    ut_TenantID u = iv_TenantID v \<and> ut_RoleID u = Some (iv_RoleID v) \<and> ut_AssignedBy u = Some (iv_InvitedBy v) \<and>
    (\<exists>row \<in> set (users (tables w')). us_id row = ut_UserID u \<and> us_supabase_user_id row = Some sub)"
  using assms(1)
proof (cases rule: JWTAuth_cases)
  case idle
  with assms(2,3) show ?thesis by simp
next
  case (provisioned token sub email r)
  with Upsert_frame [OF provisioned(4)] assms(2,3) show ?thesis by simp
next
  case (activated token sub email usr w1 r w2)
  note f1 = Upsert_frame [OF activated(4)] and l1 = Upsert_linked [OF activated(4)]
  from activated(6) show ?thesis
  proof (cases rule: Activate_cases)
    case (1 d)
    have "utrs (tables w2) = utrs d" using 1(2) by (elim disjE) simp_all
    moreover have "utrs (tables w') = utrs (tables w2)"
      using activated(7) by (auto dest: Upsert_frame)
    ultimately have "u \<in> set (utrs d)" "u \<notin> set (utrs (tables w1))" using assms(2,3) f1 by simp_all
    with activation_grants [OF 1(1), of u] obtain v i where v: "v \<in> set (invitations (tables w1))" "iv_Email v = email"
      "iv_Status v = InvPending" "\<not> IsExpired now v" "u = membership_of now i (dm_ID usr) v" by auto
    have "linked (dm_ID usr) sub (users (tables w2))"
      using Activate_keeps_linked [OF activated(6)] l1 by (auto simp: linked_def)
    then have "linked (dm_ID usr) sub (users (tables w'))"
      using activated(7) Upsert_keeps_linked by auto
    with activated(1,2) v f1 show ?thesis
      by (intro exI [of _ token] exI [of _ sub] exI [of _ v]) (auto simp: membership_of_def IsExpired_def linked_def)
  qed
qed

text \<open>Nobody is let into the application without a password by an activation that was cut short: whatever
  statements fail during a request, an account that is active afterwards was active before, or has the
  flag that asks for a new password.\<close>

theorem activation_flag_first:
  assumes "JWTAuth verify now newID fresh header w = (g, w')" and "u' \<in> set (users (tables w'))"
    and "us_status u' = UserStatusActive"
  shows "us_password_change_required u' \<or>
    (\<exists>u \<in> set (users (tables w)). us_id u = us_id u' \<and> us_status u = UserStatusActive)"
proof -
  have "careful (tables w) (tables w')"
    using assms(1)
  proof (cases rule: JWTAuth_cases)
    case idle
    then show ?thesis by (simp add: careful_same)
  next
    case (provisioned token sub email r)
    from careful_Upsert [OF provisioned(4)] show ?thesis .
  next
    case (activated token sub email usr w1 r w2)
    note c = careful_trans [OF careful_Upsert [OF activated(4)] careful_Activate [OF activated(6)]]
    from activated(7) show ?thesis
      using c by (elim disjE exE conjE) (auto intro: careful_trans dest: careful_Upsert)
  qed
  with assms(2,3) show ?thesis by (auto simp: careful_def user_statuses)
qed

text \<open>An invitation of an account that is active already is never turned into a membership by a login: the
  activation runs only while the account is invited.\<close>

theorem active_account_keeps_invitation:
  assumes "find (\<lambda>u. us_supabase_user_id u = Some sub) (users (tables w)) = Some row"
    and "us_status row = UserStatusActive" and "verify token = Inr (Some (sub, email))"
    and "JWTAuth verify now newID fresh (''Bearer '' @ token) w = (g, w')"
  shows "utrs (tables w') = utrs (tables w) \<and> invitations (tables w') = invitations (tables w)"
  using assms(4)
proof (cases rule: JWTAuth_cases)
  case (provisioned token' sub' email' r)
  from Upsert_frame [OF provisioned(4)] show ?thesis by simp
next
  case (activated token' sub' email' usr w1 r w2)
  with assms(3) have s: "sub' = sub" by simp
  from activated(4) have "dm_Status usr = us_status row"
  proof (cases rule: Upsert_cases)
    case (seen x f)
    with assms(1) s show ?thesis by (auto simp: scanAuthUser_def split: option.splits)
  qed (use assms(1) s in auto)
  with assms(2) activated(5) show ?thesis by (simp add: user_statuses)
qed simp

end
