(* ===== verification/InvitationFlow.thy ===== *)
theory InvitationFlow
  imports Logins
begin

text \<open>
  The way of an invitation: creating it with its mail and its rate limit, what a caller who may not
  see its role learns of it, and the login that ends in a membership; and the histories of all these
  operations, with their invariant.
\<close>

section \<open>Operations on the services\<close>

definition svc_keeps :: "(iam_db \<Rightarrow> bool) \<Rightarrow> (services, 'e, 'a) oper \<Rightarrow> bool" where
  "svc_keeps I m \<longleftrightarrow> (\<forall>sv. I (tables (sv_db sv)) \<longrightarrow> I (tables (sv_db (snd (m sv)))))"

lemma svc_keepsI:
  "(\<And>sv r sv'. m sv = (r, sv') \<Longrightarrow> I (tables (sv_db sv)) \<Longrightarrow> I (tables (sv_db sv'))) \<Longrightarrow> svc_keeps I m"
  unfolding svc_keeps_def by (metis prod.collapse)

lemma svc_keepsD: "svc_keeps I m \<Longrightarrow> m sv = (r, sv') \<Longrightarrow> I (tables (sv_db sv)) \<Longrightarrow> I (tables (sv_db sv'))"
  unfolding svc_keeps_def by (metis snd_conv)

lemma svc_keeps_in_db [intro]: "keeps I m \<Longrightarrow> svc_keeps I (in_db m)"
  by (rule svc_keepsI) (auto elim!: in_db_cases dest: keepsD)

lemma svc_keeps_ret [intro]: "svc_keeps I (op_ret x)" "svc_keeps I (op_fail e)"
  by (simp_all add: svc_keeps_def)

lemma svc_keeps_bind [intro]: "svc_keeps I m \<Longrightarrow> (\<And>x. svc_keeps I (f x)) \<Longrightarrow> svc_keeps I (op_bind m f)"
  by (rule svc_keepsI) (auto elim!: op_bindE dest: svc_keepsD)

lemma svc_keeps_try [intro]:
  "svc_keeps I m \<Longrightarrow> (\<And>e. svc_keeps I (h e)) \<Longrightarrow> (\<And>x. svc_keeps I (f x)) \<Longrightarrow> svc_keeps I (op_try m h f)"
  by (rule svc_keepsI, erule op_tryE) (meson svc_keepsD)+

lemma svc_keeps_if [intro]: "svc_keeps I m \<Longrightarrow> svc_keeps I n \<Longrightarrow> svc_keeps I (if b then m else n)"
  by simp

lemma svc_keeps_mail [intro]: "svc_keeps I (InviteUserByEmail answers p)" "svc_keeps I (SendPasswordResetEmail answers e u)"
  by (auto intro!: svc_keepsI dest!: InviteUserByEmail_db doWithRetry_db simp: SendPasswordResetEmail_def)

lemma svc_keeps_rate [intro]: "svc_keeps I (checkRateLimit cfg ca t)"
  by (rule svc_keepsI) (auto simp: checkRateLimit_def Let_def split: redis_mode.splits if_splits)

lemma keeps_lookups [intro]:
  "keeps I (FindByID i)" "keeps I (GetByIDForTenant r t g)" "keeps I (GetPendingByEmailAndTenant e t g)"
  "keeps I (inv_GetByID i t g)" "keeps I (auth_GetByID i)" "keeps I (IsActiveMemberOfTenant u t)"
  "keeps I (user_GetByID t u c g)"
  by (auto simp: FindByID_def GetByIDForTenant_def GetPendingByEmailAndTenant_def inv_GetByID_def auth_GetByID_def
      IsActiveMemberOfTenant_def user_GetByID_def)

lemma svc_keeps_send_invite [intro]: "svc_keeps I (send_invite cfg ca t email r inviter g)"
  unfolding send_invite_def resolveInviteDisplayNames_def
  by (intro svc_keeps_bind svc_keeps_try svc_keeps_if svc_keeps_in_db svc_keeps_ret keeps_lookups)
    (auto split: prod.split)

lemmas svc_rules = svc_keeps_bind svc_keeps_try svc_keeps_if svc_keeps_in_db svc_keeps_ret svc_keeps_mail svc_keeps_rate
  svc_keeps_send_invite keeps_lookups keeps_try keeps_ret keeps_fail keeps_inv_Create keeps_inv_UpdateStatus
  keeps_SetPasswordChangeRequired

lemma CreateInvitation_wf: "svc_keeps account_wf (CreateInvitation cfg ca email r)"
  unfolding CreateInvitation_def Let_def
  by (cases "ca_tenant ca"; cases "ca_user ca"; simp only: option.case prod.case; intro svc_rules) simp_all

lemma ResendInvitation_wf: "svc_keeps account_wf (ResendInvitation cfg ca i g)"
  unfolding ResendInvitation_def by (cases "ca_tenant ca"; simp only: option.case; intro svc_rules)

lemma RevokeInvitation_wf: "svc_keeps account_wf (RevokeInvitation ca i g)"
  unfolding RevokeInvitation_def by (cases "ca_tenant ca"; simp only: option.case; intro svc_rules) simp_all

lemma ForcePasswordChange_wf: "svc_keeps account_wf (ForcePasswordChange cfg ca i g)"
  unfolding ForcePasswordChange_def by (cases "ca_tenant ca"; simp only: option.case; intro svc_rules)

lemma ClearPasswordChangeRequired_wf: "svc_keeps account_wf (ClearPasswordChangeRequired ca)"
  unfolding ClearPasswordChangeRequired_def by (cases "ca_user ca"; simp only: option.case; intro svc_rules)

section \<open>Histories\<close>

datatype account_req =
    Login string uuid "nat \<Rightarrow> uuid"
  | Invite call string string
  | Resend call uuid bool
  | RevokeInv call uuid bool
  | ForceReset call uuid bool
  | ClearReset call

fun account_exec ::
  "(string \<Rightarrow> token_err + (string \<times> string) option) \<Rightarrow> mail_config \<Rightarrow> time \<Rightarrow> account_req \<Rightarrow> services \<Rightarrow> services" where
  "account_exec verify cfg now (Login header newID fresh) sv =
     sv\<lparr>sv_db := snd (JWTAuth verify now newID fresh header (sv_db sv))\<rparr>"
| "account_exec verify cfg now (Invite ca email r) sv = snd (CreateInvitation cfg (ca\<lparr>ca_now := now\<rparr>) email r sv)"
| "account_exec verify cfg now (Resend ca i g) sv = snd (ResendInvitation cfg (ca\<lparr>ca_now := now\<rparr>) i g sv)"
| "account_exec verify cfg now (RevokeInv ca i g) sv = snd (RevokeInvitation (ca\<lparr>ca_now := now\<rparr>) i g sv)"
| "account_exec verify cfg now (ForceReset ca i g) sv = snd (ForcePasswordChange cfg (ca\<lparr>ca_now := now\<rparr>) i g sv)"
| "account_exec verify cfg now (ClearReset ca) sv = snd (ClearPasswordChangeRequired (ca\<lparr>ca_now := now\<rparr>) sv)"

fun account_run ::
  "(string \<Rightarrow> token_err + (string \<times> string) option) \<Rightarrow> mail_config \<Rightarrow> (time \<times> account_req) list \<Rightarrow> services \<Rightarrow> services" where
  "account_run verify cfg [] sv = sv"
| "account_run verify cfg ((now, q) # es) sv = account_run verify cfg es (account_exec verify cfg now q sv)"

lemma account_exec_wf:
  "account_wf (tables (sv_db sv)) \<Longrightarrow> account_wf (tables (sv_db (account_exec verify cfg now q sv)))"
  using CreateInvitation_wf ResendInvitation_wf RevokeInvitation_wf ForcePasswordChange_wf ClearPasswordChangeRequired_wf
  by (cases q) (simp_all add: JWTAuth_wf svc_keeps_def)

section \<open>Creating an invitation\<close>

text \<open>Operations that read: they leave tables and mails as they are.\<close>

definition same :: "services \<Rightarrow> services \<Rightarrow> bool" where
  "same sv sv' \<longleftrightarrow> tables (sv_db sv') = tables (sv_db sv) \<and> outage (sv_db sv') = outage (sv_db sv) \<and>
     sv_mails sv' = sv_mails sv"

definition quiet :: "(services, 'e, 'a) oper \<Rightarrow> bool" where
  "quiet m \<longleftrightarrow> (\<forall>sv r sv'. m sv = (r, sv') \<longrightarrow> same sv sv')"

lemma quiet_query [intro]: "quiet (in_db (query e f))"
  by (auto simp: quiet_def same_def elim!: in_db_cases dest: query_cases)

lemma quiet_ret [intro]: "quiet (op_ret x)" "quiet (op_fail e)"
  by (simp_all add: quiet_def same_def)

lemma quiet_try [intro]: "quiet m \<Longrightarrow> (\<And>e. quiet (h e)) \<Longrightarrow> (\<And>x. quiet (f x)) \<Longrightarrow> quiet (op_try m h f)"
  unfolding quiet_def same_def by (intro allI impI, erule op_tryE) metis+

lemma quiet_bind [intro]: "quiet m \<Longrightarrow> (\<And>x. quiet (f x)) \<Longrightarrow> quiet (op_bind m f)"
  unfolding quiet_def same_def by (intro allI impI, erule op_bindE) metis+

lemma quiet_if [intro]: "quiet m \<Longrightarrow> quiet n \<Longrightarrow> quiet (if b then m else n)"
  by simp

lemma quiet_rate [intro]: "quiet (checkRateLimit cfg ca t)"
  by (auto simp: quiet_def same_def checkRateLimit_def Let_def split: redis_mode.splits if_splits)

lemma quiet_names [intro]: "quiet (resolveInviteDisplayNames t r g)"
  unfolding resolveInviteDisplayNames_def FindByID_def GetByIDForTenant_def
  by (intro quiet_bind quiet_try quiet_if quiet_query quiet_ret)

lemma same_trans: "same s1 s2 \<Longrightarrow> same s2 s3 \<Longrightarrow> same s1 s3"
  by (simp add: same_def)

lemma quiet_bindE:
  assumes "op_bind m f s = (r, s'')" and "quiet m"
  obtains (stop) e where "r = Inl e" and "same s s''"
    | (go) x s' where "m s = (Inr x, s')" and "f x s' = (r, s'')" and "same s s'"
  using assms(1)
proof (cases rule: op_bindE)
  case (1 e)
  with assms(2) show thesis by (intro stop) (auto simp: quiet_def)
next
  case (2 x s')
  with assms(2) show thesis by (intro go) (auto simp: quiet_def)
qed

lemma send_invite_frame:
  assumes "send_invite cfg ca t email r inviter g sv = (x, sv')"
  shows "tables (sv_db sv') = tables (sv_db sv) \<and> outage (sv_db sv') = outage (sv_db sv)"
  using quiet_bindE [OF assms [unfolded send_invite_def] quiet_names]
  by (cases) (auto simp: same_def split: prod.splits dest!: InviteUserByEmail_db)

text \<open>The insertion and the mail, when all checks have passed.\<close>

definition issue_invitation :: "mail_config \<Rightarrow> call \<Rightarrow> uuid \<Rightarrow> domain_user \<Rightarrow> string \<Rightarrow> string \<Rightarrow> bool \<Rightarrow> invitation service_op" where
  "issue_invitation cfg ca t caller email roleID g =
     op_bind (in_db (inv_Create (ca_now ca) (ca_newID ca) t email roleID (dm_ID caller))) (\<lambda>created.
     op_try (send_invite cfg ca t email roleID (dm_Name caller) g)
       (\<lambda>e. op_try (in_db (inv_UpdateStatus (ca_now ca) (iv_ID created) InvRevoked))
              (\<lambda>_. op_fail e) (\<lambda>_. op_fail e))
       (\<lambda>_. op_ret created))"

lemma issue_cases:
  assumes "issue_invitation cfg ca t caller email roleID g sv = (r, sv')"
    and "v = new_invitation (ca_now ca) (ca_newID ca) t email roleID (dm_ID caller)"
  obtains (early) e where "r = Inl e" and "tables (sv_db sv') = tables (sv_db sv)" and "sv_mails sv' = sv_mails sv"
  | (created) sv1 x sv2 where "insert_invitation v (tables (sv_db sv)) = (Inr v, tables (sv_db sv1))"
      and "outage (sv_db sv1) = outage (sv_db sv)" and "sv_mails sv1 = sv_mails sv"
      and "send_invite cfg ca t email roleID (dm_Name caller) g sv1 = (x, sv2)"
      and "(x = Inr () \<and> r = Inr v \<and> sv' = sv2) \<or>
           (\<exists>e y w. x = Inl e \<and> r = Inl e \<and> inv_UpdateStatus (ca_now ca) (iv_ID v) InvRevoked (sv_db sv2) = (y, w) \<and>
              sv' = sv2\<lparr>sv_db := w\<rparr>)"
  using assms(1) [unfolded issue_invitation_def]
proof (cases rule: op_bindE)
  case (1 e)
  then show thesis
    by (intro early) (auto simp: inv_Create_def stmt_iffs elim!: op_tryE in_db_cases dest!: insert_invitation_Inl)
next
  case (2 y sv1)
  then have i: "insert_invitation v (tables (sv_db sv)) = (Inr y, tables (sv_db sv1))"
    and o1: "outage (sv_db sv1) = outage (sv_db sv)" "sv_mails sv1 = sv_mails sv"
    by (auto simp: inv_Create_def stmt_iffs assms(2) elim!: op_tryE in_db_cases)
  have y: "y = v" using insert_invitation_Inr [OF i] by simp
  obtain x sv2 where m: "send_invite cfg ca t email roleID (dm_Name caller) g sv1 = (x, sv2)" by fastforce
  show thesis
    by (rule created [OF i [unfolded y] o1 m])
      (use y 2(2) m in \<open>auto simp: op_try_def in_db_def split: sum.splits prod.splits\<close>)
qed

lemma CreateInvitation_checks:
  assumes "CreateInvitation cfg ca email roleID sv = (r, sv')"
  obtains (early) e where "r = Inl e" and "same sv sv'"
  | (passed) t caller sv1 where "ca_tenant ca = Some t" and "ca_user ca = Some caller" and "same sv sv1"
      and "\<exists>ro \<in> set (roles (tables (sv_db sv))). ro_ID ro = roleID \<and>
             role_visible (tables (sv_db sv)) t (CanSeePlatformInternals (ca_role ca)) ro"
      and "issue_invitation cfg ca t caller email roleID (CanSeePlatformInternals (ca_role ca)) sv1 = (r, sv')"
proof (cases "\<exists>t caller. ca_tenant ca = Some t \<and> ca_user ca = Some caller")
  case False
  with assms show thesis by (intro early) (auto simp: CreateInvitation_def same_def split: option.splits)
next
  case True
  then obtain t caller where tc: "ca_tenant ca = Some t" "ca_user ca = Some caller" by blast
  let ?g = "CanSeePlatformInternals (ca_role ca)"
  let ?dup = "op_try (in_db (GetPendingByEmailAndTenant email t ?g))
    (\<lambda>e. if e = ErrNotFound then op_ret None else op_fail e) (\<lambda>x. op_ret (Some x))"
  from assms tc have run: "op_bind (in_db (GetByIDForTenant roleID t ?g)) (\<lambda>_.
     op_bind (checkRateLimit cfg ca t) (\<lambda>_. op_bind ?dup (\<lambda>existing.
     if existing \<noteq> None then op_fail ErrInvitationAlreadyPending
     else issue_invitation cfg ca t caller email roleID ?g))) sv = (r, sv')"
    unfolding CreateInvitation_def issue_invitation_def Let_def by simp
  have dup: "quiet ?dup" unfolding GetPendingByEmailAndTenant_def
    by (intro quiet_try quiet_if quiet_query quiet_ret)
  have "quiet (in_db (GetByIDForTenant roleID t ?g))" unfolding GetByIDForTenant_def by (rule quiet_query)
  from run this show thesis
  proof (cases rule: quiet_bindE)
    case (go x s1)
    have role: "\<exists>ro \<in> set (roles (tables (sv_db sv))). ro_ID ro = roleID \<and> role_visible (tables (sv_db sv)) t ?g ro"
      using go(1) by (auto simp: GetByIDForTenant_def query_Inr elim!: in_db_cases dest!: first_row_mem intro!: bexI [of _ x])
    note sv1 = go(3)
    from go(2) quiet_rate show thesis
    proof (cases rule: quiet_bindE)
      case (go y s2)
      note sv2 = same_trans [OF sv1 go(3)]
      from go(2) dup show thesis
      proof (cases rule: quiet_bindE)
        case (go existing s3)
        note sv3 = same_trans [OF sv2 go(3)]
        show thesis
        proof (cases "existing = None")
          case True
          with go(2) show thesis by (intro passed [OF tc sv3 role]) simp
        next
          case False
          with go(2) sv3 show thesis by (intro early) auto
        qed
      qed (use sv2 early same_trans in blast)
    qed (use sv1 early same_trans in blast)
  qed (use early in blast)
qed

section \<open>Properties\<close>



text \<open>The answers of a sequence of requests to invite.\<close>

fun invite_all :: "mail_config \<Rightarrow> (call \<times> string \<times> string) list \<Rightarrow> services \<Rightarrow> (iam_err + invitation) list" where
  "invite_all cfg [] sv = []"
| "invite_all cfg ((ca, email, roleID) # cs) sv =
     (case CreateInvitation cfg ca email roleID sv of (r, sv') \<Rightarrow> r # invite_all cfg cs sv')"

definition won_in :: "uuid \<Rightarrow> int \<Rightarrow> call \<times> (iam_err + invitation) \<Rightarrow> bool" where
  "won_in t h p \<longleftrightarrow> (case p of (ca, r) \<Rightarrow> \<not> isl r \<and> ca_tenant ca = Some t \<and> ca_now ca div hour = h)"

lemma CreateInvitation_count:
  assumes "CreateInvitation cfg ca email roleID sv = (r, sv')" and "ca_redis ca = RedisAnswers"
  shows "sv_counters sv (t, h) \<le> sv_counters sv' (t, h) \<and>
    (won_in t h (ca, r) \<longrightarrow> sv_counters sv' (t, h) = sv_counters sv (t, h) + 1 \<and> sv_counters sv' (t, h) \<le> mc_rateLimitHour cfg)"
proof (cases "\<exists>t caller. ca_tenant ca = Some t \<and> ca_user ca = Some caller")
  case False
  with assms show ?thesis by (auto simp: CreateInvitation_def won_in_def split: option.splits)
next
  case True
  then obtain t' caller where tc: "ca_tenant ca = Some t'" "ca_user ca = Some caller" by blast
  have db: "sv_counters s' = sv_counters s" if "in_db m s = (y, s')" for m s y s'
    using that by (auto elim!: in_db_cases)
  have send: "sv_counters s' = sv_counters s" if "send_invite cfg ca tt e ro i g s = (y, s')" for tt e ro i g s y s'
    using that unfolding send_invite_def resolveInviteDisplayNames_def
    by (auto elim!: op_bindE op_tryE dest!: db InviteUserByEmail_db split: if_splits prod.splits)
  have rate: "sv_counters s (t, h) \<le> sv_counters s' (t, h) \<and> (y = Inr () \<and> t' = t \<and> ca_now ca div hour = h \<longrightarrow>
      sv_counters s' (t, h) = sv_counters s (t, h) + 1 \<and> sv_counters s' (t, h) \<le> mc_rateLimitHour cfg)"
    if "checkRateLimit cfg ca t' s = (y, s')" for s y s'
    using that assms(2) by (auto simp: checkRateLimit_def Let_def split: if_splits)
  show ?thesis
    using assms(1) tc unfolding CreateInvitation_def Let_def
    by (auto simp: won_in_def elim!: op_bindE op_tryE dest!: db send rate split: if_splits)
qed

text \<open>C26. While Redis answers, a tenant creates no more invitations in a clock hour than the limit, less what its
  counter stood at: however many requests are made, for any emails and roles, by any callers.\<close>

theorem invitation_rate_bounded:
  assumes "\<forall>(ca, email, roleID) \<in> set cs. ca_redis ca = RedisAnswers"
  shows "int (length (filter (won_in t h) (zip (map fst cs) (invite_all cfg cs sv)))) \<le>
    max 0 (mc_rateLimitHour cfg - sv_counters sv (t, h))"
  using assms
proof (induction cfg cs sv rule: invite_all.induct)
  case (2 cfg ca email roleID cs sv)
  obtain r sv' where c: "CreateInvitation cfg ca email roleID sv = (r, sv')" by fastforce
  have "ca_redis ca = RedisAnswers" using 2(2) by simp
  note n = CreateInvitation_count [OF c this, of t h]
  from 2(1) [OF c [symmetric]] 2(2)
  have "int (length (filter (won_in t h) (zip (map fst cs) (invite_all cfg cs sv')))) \<le>
      max 0 (mc_rateLimitHour cfg - sv_counters sv' (t, h))" by simp
  with n c show ?case by auto
qed simp

text \<open>An invitation to a role the caller may not see is answered like one that does not exist: sending it
  again and revoking it are both 404, no mail leaves and nothing changes.\<close>

theorem hidden_invitation_is_absent:
  assumes "outage (sv_db sv) = (\<lambda>_. False)" and "ca_tenant ca = Some t" and "parse text = Some i"
    and "\<not> CanSeePlatformInternals (ca_role ca)"
    and "\<forall>v \<in> set (invitations (tables (sv_db sv))). iv_ID v = i \<longrightarrow>
      role_is_global (tables (sv_db sv)) (Some (iv_RoleID v))"
  shows "(case ResendInvitation_handler parse cfg ca text sv of (r, sv') \<Rightarrow> r = Inl 404 \<and> same sv sv') \<and>
    (case RevokeInvitation_handler parse ca text sv of (r, sv') \<Rightarrow> r = Inl 404 \<and> same sv sv')"
proof -
  have "filter (\<lambda>x. iv_ID x = i \<and> iv_TenantID x = t \<and> inv_visible (tables (sv_db sv)) False x)
      (invitations (tables (sv_db sv))) = []"
    using assms(5) by (auto simp: filter_empty_conv inv_visible_def)
  moreover have "calm (sv_db sv)" using assms(1) by (simp add: calm_def)
  ultimately show ?thesis using assms(2-4)
    by (simp add: ResendInvitation_handler_def ResendInvitation_def RevokeInvitation_handler_def RevokeInvitation_def
        op_try_def op_bind_def in_db_def inv_GetByID_def same_def)
qed

text \<open>A second invitation of an email is refused in the same way whatever the first one is: seen or hidden,
  still running or long expired.\<close>

theorem duplicate_invitation_uniform:
  assumes "outage (sv_db sv) = (\<lambda>_. False)" and "ca_tenant ca = Some t" "ca_user ca = Some caller"
    and "ca_redis ca = NoRedis" and "ca_newID ca \<notin> iv_ID ` set (invitations (tables (sv_db sv)))"
    and "ro \<in> set (roles (tables (sv_db sv)))" "ro_ID ro = roleID"
      "role_visible (tables (sv_db sv)) t (CanSeePlatformInternals (ca_role ca)) ro"
    and "v \<in> set (invitations (tables (sv_db sv)))" "pending_for t email v"
  shows "case CreateInvitation cfg ca email roleID sv of (r, sv') \<Rightarrow>
    r = Inl ErrInvitationAlreadyPending \<and> same sv sv'"
proof -
  let ?g = "CanSeePlatformInternals (ca_role ca)" and ?d = "tables (sv_db sv)"
  have c: "calm (sv_db sv)" using assms(1) by (simp add: calm_def)
  obtain x xs where role: "filter (\<lambda>r. ro_ID r = roleID \<and> role_visible ?d t ?g r) (roles ?d) = x # xs"
    using assms(6-8) by (cases "filter (\<lambda>r. ro_ID r = roleID \<and> role_visible ?d t ?g r) (roles ?d)")
      (auto simp: filter_empty_conv)
  have ins: "insert_invitation (new_invitation (ca_now ca) (ca_newID ca) t email roleID (dm_ID caller)) ?d =
      (Inl (UniqueViolation ''idx_user_invitations_pending''), ?d)"
    using assms(5,9,10) by (auto simp: insert_invitation_def new_invitation_def)
  show ?thesis
    using c role ins assms(2-4)
    by (cases "filter (\<lambda>i. pending_for t email i \<and> inv_visible ?d ?g i) (invitations ?d)")
      (simp_all add: CreateInvitation_def Let_def op_bind_def op_try_def in_db_def GetByIDForTenant_def
        checkRateLimit_def GetPendingByEmailAndTenant_def inv_Create_def stmt_def same_def calm_def)
qed

text \<open>Revoking takes an invitation in any state: one that was accepted is revoked, and its membership stays.\<close>

theorem revoke_accepted_keeps_membership:
  assumes "outage (sv_db sv) = (\<lambda>_. False)" and "ca_tenant ca = Some t"
    and "distinct (map iv_ID (invitations (tables (sv_db sv))))" and "v \<in> set (invitations (tables (sv_db sv)))"
    and "iv_TenantID v = t" and "inv_visible (tables (sv_db sv)) g v"
  shows "case RevokeInvitation ca (iv_ID v) g sv of (r, sv') \<Rightarrow>
    r = Inr (v\<lparr>iv_Status := InvRevoked\<rparr>) \<and> utrs (tables (sv_db sv')) = utrs (tables (sv_db sv))"
proof -
  have "filter (\<lambda>x. iv_ID x = iv_ID v \<and> iv_TenantID x = t \<and> inv_visible (tables (sv_db sv)) g x)
      (invitations (tables (sv_db sv))) = [v]"
    using filter_key_unique [of iv_ID "invitations (tables (sv_db sv))" v
        "\<lambda>x. iv_TenantID x = t \<and> inv_visible (tables (sv_db sv)) g x"] assms(3-6) by simp
  then show ?thesis using assms(1,2)
    by (simp add: RevokeInvitation_def op_bind_def in_db_def inv_GetByID_def inv_UpdateStatus_def stmt_def query_def Let_def)
qed

section \<open>From the invitation to the tenant\<close>

definition at :: "'d \<Rightarrow> nat \<Rightarrow> 'd world" where
  "at d n = \<lparr>tables = d, outage = (\<lambda>_. False), nstmts = n\<rparr>"

lemma at_simps [simp]:
  "tables (at d n) = d" "live d = at d 0" "calm (at d n)" "outage (at d n) = (\<lambda>_. False)" "nstmts (at d n) = n"
  by (simp_all add: at_def live_def calm_def)

lemma stmt_at [simp]:
  "stmt e q (at d n) = (case q d of (Inl f, _) \<Rightarrow> (Inl f, at d (Suc n)) | (Inr x, d') \<Rightarrow> (Inr x, at d' (Suc n)))"
  by (simp add: stmt_def at_def split: prod.split sum.split)

lemma query_at [simp]: "query e f (at d n) = (f d, at d (Suc n))"
  by (simp add: query_def split: sum.split)

lemma find_update_where:
  assumes "\<And>x. p (f x) = p x"
  shows "find p (update_where q f xs) = map_option (\<lambda>x. if q x then f x else x) (find p xs)"
  using assms by (induction xs) auto

lemma utr_Create_at:
  assumes "role_allowed d r (ut_TenantID u) True" and "ut_RoleID u = Some r" and "distinct (map ro_ID (roles d))"
    and "insert_utr (u\<lparr>ut_CreatedAt := now, ut_UpdatedAt := now\<rparr>) d = (Inr x, d')"
  shows "utr_Create now u True (at d n) = (Inr x, at d' (Suc (Suc n)))"
proof -
  let ?xs = "[tenant_can_use_role d (ut_TenantID u) (ro_ID y). y \<leftarrow> roles d, ro_ID y = r \<and> ro_DeletedAt y = None \<and>
     (ro_TenantID y = Some (ut_TenantID u) \<or> ro_TenantID y = None) \<and> (\<not> ro_IsGlobal y \<or> True)]"
  have "first_row ErrInvalidRoleID ?xs = Inr True"
    by (rule first_row_only) (use assms(1) in \<open>auto simp: role_allowed_def split: if_splits\<close>)
  then have "checkRoleAllowedForTenant r (ut_TenantID u) True (at d n) = (Inr (), at d (Suc n))"
    by (simp add: checkRoleAllowedForTenant_def op_bind_def)
  with assms(2,4) show ?thesis by (simp add: utr_Create_def op_bind_def op_try_def CreateQuery_def)
qed

lemma Upsert_at:
  assumes "find (\<lambda>u. us_supabase_user_id u = Some sub) (users d) = Some row" and "us_tenant_id row = None"
  shows "UpsertBySupabaseID now newID sub email (at d n) =
    (scanAuthUser (row\<lparr>us_email := email, us_last_login_at := Some now, us_updated_at := now\<rparr>),
     at (d\<lparr>users := update_where (\<lambda>u. us_supabase_user_id u = Some sub)
       (\<lambda>u. u\<lparr>us_email := email, us_last_login_at := Some now, us_updated_at := now\<rparr>) (users d)\<rparr>) (Suc n))"
proof -
  have "us_supabase_user_id row = Some sub" using assms(1) by (auto simp: find_Some_iff)
  with assms show ?thesis
    by (simp add: UpsertBySupabaseID_def Let_def same_email_def scanAuthUser_def)
qed

definition activated_db :: "time \<Rightarrow> uuid \<Rightarrow> uuid \<Rightarrow> invitation \<Rightarrow> iam_db \<Rightarrow> iam_db" where
  "activated_db now i uid v d =
     d\<lparr>utrs := utrs d @ [membership_of now i uid v],
       invitations := update_where (\<lambda>x. iv_ID x = iv_ID v)
         (\<lambda>x. x\<lparr>iv_Status := InvAccepted, iv_UpdatedAt := now\<rparr>) (invitations d),
       users := update_where (\<lambda>u. us_id u = uid) (\<lambda>u. u\<lparr>us_status := UserStatusActive, us_updated_at := now\<rparr>)
         (update_where (\<lambda>u. us_id u = uid) (\<lambda>u. u\<lparr>us_password_change_required := True, us_updated_at := now\<rparr>) (users d))\<rparr>"

lemma Activate_at:
  assumes "filter (\<lambda>x. iv_Email x = email \<and> iv_Status x = InvPending) (invitations d) = [v]" and "\<not> IsExpired now v"
    and "role_allowed d (iv_RoleID v) (iv_TenantID v) True" and "distinct (map ro_ID (roles d))"
    and "insert_utr (membership_of now (fresh 0) uid v) d = (Inr x, d')"
  shows "ActivatePendingInvitations now fresh email uid (at d n) =
    (Inr (), at (activated_db now (fresh 0) uid v d) (Suc (Suc (Suc (Suc (Suc (Suc n)))))))"
proof -
  have "utr_Create now (membership_of now (fresh 0) uid v) True (at d (Suc n)) = (Inr x, at d' (Suc (Suc (Suc n))))"
    by (rule utr_Create_at [of d "iv_RoleID v"]) (use assms(3-5) in \<open>simp_all add: membership_of_def\<close>)
  moreover have "d' = d\<lparr>utrs := utrs d @ [membership_of now (fresh 0) uid v]\<rparr>" using insert_utr_Inr [OF assms(5)] by simp
  ultimately show ?thesis using assms(1,2)
    by (simp add: ActivatePendingInvitations_def ListPendingByEmail_def op_bind_def activate_one_def inv_UpdateStatus_def
        Let_def SetPasswordChangeRequired_def SetStatus_def activated_db_def)
qed

lemma tenant_role_Pass:
  assumes "distinct (map ro_ID (roles d))" and "r \<in> set (roles d)" "ro_DeletedAt r = None"
  shows "fst (finish_context t (ro_ID r) (at d n)) =
    Pass (t, \<lparr>rc_Name = ro_ID r, rc_Permissions = ro_Permissions r, rc_IsGlobal = ro_IsGlobal r\<rparr>)"
proof -
  have "first_row NoRows [(ro_Permissions y, ro_IsGlobal y). y \<leftarrow> roles d, ro_ID y = ro_ID r \<and> ro_DeletedAt y = None] =
      Inr (ro_Permissions r, ro_IsGlobal r)"
    by (rule first_row_only) (use assms distinct_key [OF assms(1) _ assms(2)] in \<open>force split: if_splits\<close>)+
  then show ?thesis by (simp add: finish_context_def loadRolePermissions_def)
qed

text \<open>The first request of an invited user, up to the tables it leaves.\<close>

abbreviation seen_row :: "time \<Rightarrow> string \<Rightarrow> user_row \<Rightarrow> user_row" where
  "seen_row now email u \<equiv> u\<lparr>us_email := email, us_last_login_at := Some now, us_updated_at := now\<rparr>"

abbreviation seen_db :: "time \<Rightarrow> string \<Rightarrow> string \<Rightarrow> iam_db \<Rightarrow> iam_db" where
  "seen_db now sub email d \<equiv>
     d\<lparr>users := update_where (\<lambda>u. us_supabase_user_id u = Some sub) (seen_row now email) (users d)\<rparr>"

abbreviation entered_db :: "time \<Rightarrow> uuid \<Rightarrow> string \<Rightarrow> string \<Rightarrow> uuid \<Rightarrow> invitation \<Rightarrow> iam_db \<Rightarrow> iam_db" where
  "entered_db now newID sub email uid v d \<equiv>
     seen_db now sub email (activated_db now newID uid v (seen_db now sub email d))"

lemma invited_login:
  assumes wf: "account_wf d" and v: "verify token = Inr (Some (sub, email))" "sub \<noteq> []" "email \<noteq> []"
    and row: "find (\<lambda>u. us_supabase_user_id u = Some sub) (users d) = Some row" "us_tenant_id row = None"
      "us_status row = UserStatusInvited"
    and inv: "filter (\<lambda>x. iv_Email x = email \<and> iv_Status x = InvPending) (invitations d) = [i]" "now \<le> iv_ExpiresAt i"
    and role: "role_allowed d (iv_RoleID i) (iv_TenantID i) True"
    and free: "\<forall>u \<in> set (utrs d). \<not> active_of (us_id row) (iv_TenantID i) u" "fresh 0 \<notin> ut_ID ` set (utrs d)"
  obtains usr n where "JWTAuth verify now newID fresh (''Bearer '' @ token) (live d) =
      (Pass usr, at (entered_db now (fresh 0) sub email (us_id row) i d) n)"
    and "dm_ID usr = us_id row" "dm_Status usr = UserStatusActive" "dm_PasswordChangeRequired usr"
proof -
  let ?seen = "seen_row now email"
  let ?d1 = "seen_db now sub email d"
  let ?d2 = "activated_db now (fresh 0) (us_id row) i ?d1"
  have sub: "us_supabase_user_id row = Some sub" using row(1) by (auto simp: find_Some_iff)
  have i: "i \<in> set (invitations d)" using arg_cong [OF inv(1), of set] by auto
  have refs: "iv_InvitedBy i \<in> us_id ` set (users d)" "iv_RoleID i \<in> ro_ID ` set (roles d)"
    "iv_TenantID i \<in> tr_id ` set (tenants d)"
    using wf i by (auto simp: account_wf_def invitations_wf_def)
  have row_in: "row \<in> set (users d)" using row(1) by (auto simp: find_Some_iff)
  have ids: "us_id ` set (users ?d1) = us_id ` set (users d)"
    by (simp only: list.set_map [symmetric]) (simp add: map_update_where_inv)
  have dist: "distinct (map ro_ID (roles d))" using wf by (simp add: account_wf_def iam_wf_def roles_wf_def)
  have al: "role_allowed ?d1 (iv_RoleID i) (iv_TenantID i) True" using role role_allowed_roles [of ?d1 d] by simp
  have ins: "insert_utr (membership_of now (fresh 0) (us_id row) i) ?d1 =
      (Inr (membership_of now (fresh 0) (us_id row) i), ?d1\<lparr>utrs := utrs d @ [membership_of now (fresh 0) (us_id row) i]\<rparr>)"
    using free refs row_in ids al
    by (simp add: insert_utr_def enforce_platform_role_tenant_def role_allowed_def utr_fkeys_def membership_of_def)
  obtain u1 where u1: "scanAuthUser (?seen row) = Inr u1" "dm_ID u1 = us_id row" "dm_Status u1 = UserStatusInvited"
    using sub row(3) by (simp add: scanAuthUser_def)
  have act: "ActivatePendingInvitations now fresh email (us_id row) (at ?d1 (Suc 0)) =
      (Inr (), at ?d2 (Suc (Suc (Suc (Suc (Suc (Suc (Suc 0))))))))"
    by (rule Activate_at [of _ "?d1" _ _ fresh]) (use inv dist al ins in \<open>simp_all add: IsExpired_def\<close>)
  let ?row2 = "(?seen row)\<lparr>us_password_change_required := True, us_updated_at := now,
    us_status := UserStatusActive, us_updated_at := now\<rparr>"
  have f2: "find (\<lambda>u. us_supabase_user_id u = Some sub) (users ?d2) = Some ?row2"
    using row(1) sub by (simp add: activated_db_def find_update_where)
  obtain u2 where u2: "scanAuthUser (?seen ?row2) = Inr u2" "dm_ID u2 = us_id row" "dm_Status u2 = UserStatusActive"
    "dm_PasswordChangeRequired u2"
    using sub by (simp add: scanAuthUser_def)
  let ?d3 = "seen_db now sub email ?d2"
  have run: "JWTAuth verify now newID fresh (''Bearer '' @ token) (live d) =
      (Pass u2, at ?d3 (Suc (Suc (Suc (Suc (Suc (Suc (Suc (Suc 0)))))))))"
    using v Upsert_at [OF row(1,2), of now newID email 0] Upsert_at [OF f2, of now newID email "Suc (Suc (Suc (Suc (Suc (Suc (Suc 0))))))"]
      row(2) u1 u2 act
    by (simp add: JWTAuth_def ProvisionUser_def user_statuses)
  show thesis by (rule that [OF run u2(2-4)])
qed



section \<open>Instances\<close>

text \<open>
  User 40 is invited to tenant 2 by invitation 700; invitation 701 is for a role of the platform and
  702 was accepted.
\<close>

definition invitation_sample :: "uuid \<Rightarrow> uuid \<Rightarrow> string \<Rightarrow> string \<Rightarrow> invitation_status \<Rightarrow> invitation" where
  "invitation_sample i t email r st = \<lparr>iv_ID = i, iv_TenantID = t, iv_Email = email, iv_RoleID = r, iv_Status = st,
     iv_InvitedBy = 20, iv_CreatedAt = 0, iv_UpdatedAt = 0, iv_ExpiresAt = 100\<rparr>"

definition invited_row :: user_row where
  "invited_row = (user_sample 40 ''d'')\<lparr>us_supabase_user_id := Some ''s1'', us_status := ''invited''\<rparr>"

definition invited_case :: iam_db where
  "invited_case = two_tenants\<lparr>users := users two_tenants @ [invited_row],
     invitations := [invitation_sample 700 2 ''d'' ''cliente_admin'' InvPending,
       invitation_sample 701 1 ''x'' ''platform_admin'' InvPending,
       invitation_sample 702 2 ''y'' ''cliente_admin'' InvAccepted]\<rparr>"

definition verify_sample :: "string \<Rightarrow> token_err + (string \<times> string) option" where
  "verify_sample token = (if token = ''t1'' then Inr (Some (''s1'', ''d'')) else Inl TokenInvalid)"

lemmas invited_defs = invited_case_def invitation_sample_def invited_row_def two_tenants_def samples

lemma invited_case_wf: "account_wf invited_case"
  by (simp add: account_wf_def invitations_wf_def users_wf_def iam_wf_defs invited_defs tenant_can_use_role_def
      role_is_global_def is_platform_def)

lemma invited_case_facts:
  "find (\<lambda>u. us_supabase_user_id u = Some ''s1'') (users invited_case) = Some invited_row"
  "us_tenant_id invited_row = None" "us_status invited_row = UserStatusInvited" "us_id invited_row = 40"
  "filter (\<lambda>x. iv_Email x = ''d'' \<and> iv_Status x = InvPending) (invitations invited_case) =
     [invitation_sample 700 2 ''d'' ''cliente_admin'' InvPending]"
  "role_sample ''cliente_admin'' True False [''perm_users_manage''] \<in> set (roles invited_case)"
  "role_allowed invited_case ''cliente_admin'' 2 True"
  "\<forall>u \<in> set (utrs invited_case). \<not> active_of 40 2 u" "300 \<notin> ut_ID ` set (utrs invited_case)"
  by (simp_all add: invited_defs user_statuses active_of_def role_allowed_def tenant_can_use_role_def role_is_global_def)

lemma invited_login_sample:
  obtains usr w' where "JWTAuth verify_sample 5 41 (\<lambda>_. 300) ''Bearer t1'' (live invited_case) = (Pass usr, w')"
    and "membership_of 5 300 40 (invitation_sample 700 2 ''d'' ''cliente_admin'' InvPending) \<in> set (utrs (tables w'))"
    and "\<exists>u \<in> set (users (tables w')). us_id u = 40 \<and> us_status u = UserStatusActive"
proof -
  let ?i = "invitation_sample 700 2 ''d'' ''cliente_admin'' InvPending"
  have l: "verify_sample ''t1'' = Inr (Some (''s1'', ''d''))" "(5::time) \<le> iv_ExpiresAt ?i"
    "role_allowed invited_case (iv_RoleID ?i) (iv_TenantID ?i) True"
    "\<forall>u \<in> set (utrs invited_case). \<not> active_of (us_id invited_row) (iv_TenantID ?i) u"
    using invited_case_facts by (simp_all add: verify_sample_def invitation_sample_def)
  obtain usr n where run: "JWTAuth verify_sample 5 41 (\<lambda>_. 300) (''Bearer '' @ ''t1'') (live invited_case) =
      (Pass usr, at (entered_db 5 300 ''s1'' ''d'' (us_id invited_row) ?i invited_case) n)"
    by (rule invited_login [where verify = verify_sample and fresh = "\<lambda>_. 300" and newID = 41,
          OF invited_case_wf l(1) _ _ invited_case_facts(1-3,5) l(2,3,4) invited_case_facts(9)]) auto
  show thesis
    by (rule that [OF run [unfolded append.simps]])
      (simp_all add: activated_db_def invited_defs update_where_def membership_of_def user_statuses)
qed

theorem JWTAuth_sound_instance:
  "\<exists>usr w'. JWTAuth verify_sample 5 41 (\<lambda>_. 300) ''Bearer t1'' (live invited_case) = (Pass usr, w') \<and>
     dm_SupabaseUserID usr = ''s1''"
proof (rule invited_login_sample)
  fix usr w' assume run: "JWTAuth verify_sample 5 41 (\<lambda>_. 300) ''Bearer t1'' (live invited_case) = (Pass usr, w')"
  from JWTAuth_sound [OF run] run show ?thesis by (auto simp: verify_sample_def split: if_splits)
qed

theorem login_grants_only_invited_instance:
  "\<exists>v \<in> set (invitations invited_case). iv_Status v = InvPending \<and> iv_TenantID v = 2 \<and> iv_RoleID v = ''cliente_admin''"
proof (rule invited_login_sample)
  let ?u = "membership_of 5 300 40 (invitation_sample 700 2 ''d'' ''cliente_admin'' InvPending)"
  fix usr w' assume run: "JWTAuth verify_sample 5 41 (\<lambda>_. 300) ''Bearer t1'' (live invited_case) = (Pass usr, w')"
    and u: "?u \<in> set (utrs (tables w'))"
  have "?u \<notin> set (utrs (tables (live invited_case)))" by (simp add: invited_defs membership_of_def)
  from login_grants_only_invited [OF run u this] show ?thesis by (auto simp: membership_of_def invitation_sample_def)
qed

theorem activation_flag_first_instance:
  "\<exists>usr w' u. JWTAuth verify_sample 5 41 (\<lambda>_. 300) ''Bearer t1'' (live invited_case) = (Pass usr, w') \<and>
     u \<in> set (users (tables w')) \<and> us_id u = 40 \<and> us_status u = UserStatusActive \<and> us_password_change_required u"
proof (rule invited_login_sample)
  fix usr w' assume run: "JWTAuth verify_sample 5 41 (\<lambda>_. 300) ''Bearer t1'' (live invited_case) = (Pass usr, w')"
    and "\<exists>u \<in> set (users (tables w')). us_id u = 40 \<and> us_status u = UserStatusActive"
  then obtain u where u: "u \<in> set (users (tables w'))" "us_id u = 40" "us_status u = UserStatusActive" by blast
  from activation_flag_first [OF run u(1,3)] u have "us_password_change_required u"
    by (auto simp: invited_defs user_statuses)
  with run u show ?thesis by blast
qed

theorem active_account_keeps_invitation_instance:
  "invitations (tables (snd (JWTAuth (\<lambda>_. Inr (Some (''sb'', ''d''))) 5 41 (\<lambda>_. 300) ''Bearer t1''
     (live (invited_case\<lparr>users := map (\<lambda>u. u\<lparr>us_supabase_user_id := Some (''s'' @ us_email u)\<rparr>) (users two_tenants)\<rparr>))))) =
   invitations invited_case"
  using active_account_keeps_invitation [where sub = "''sb''" and token = "''t1''" and email = "''d''"
      and w = "live (invited_case\<lparr>users := map (\<lambda>u. u\<lparr>us_supabase_user_id := Some (''s'' @ us_email u)\<rparr>) (users two_tenants)\<rparr>)"
      and verify = "\<lambda>_. Inr (Some (''sb'', ''d''))" and row = "(user_sample 20 ''b'')\<lparr>us_supabase_user_id := Some ''sb''\<rparr>"
      and now = 5 and newID = 41 and fresh = "\<lambda>_. 300"]
  by (simp add: prod_eq_iff) (simp add: invited_defs user_statuses)



lemma invite_sample:
  obtains v sv' where "CreateInvitation config_sample call_sample ''z'' ''cliente_admin'' (services_on invited_case) = (Inr v, sv')"
proof -
  have "\<exists>v. fst (CreateInvitation config_sample call_sample ''z'' ''cliente_admin'' (services_on invited_case)) = Inr v"
    by (simp add: CreateInvitation_def call_sample_def config_sample_def me_sample_def Let_def op_bind_def op_try_def
        in_db_def GetByIDForTenant_def role_visible_def services_on_def checkRateLimit_def GetPendingByEmailAndTenant_def
        pending_for_def inv_visible_def inv_Create_def insert_invitation_def new_invitation_def send_invite_def
        resolveInviteDisplayNames_def FindByID_def InviteUserByEmail_def doWithRetry_eq accepted_def invited_defs
        CanSeePlatformInternals_def role_is_global_def tenant_can_use_role_def is_platform_def)
  then show thesis using that by (metis prod.collapse)
qed


theorem invitation_rate_bounded_instance:
  "int (length (filter (won_in 1 0) (zip [call_sample, call_sample, call_sample]
     (invite_all config_sample [(call_sample, ''p'', ''cliente_admin''), (call_sample, ''q'', ''cliente_admin''),
        (call_sample, ''r'', ''cliente_admin'')] (services_on invited_case))))) \<le> 2"
  using invitation_rate_bounded [of "[(call_sample, ''p'', ''cliente_admin''), (call_sample, ''q'', ''cliente_admin''),
      (call_sample, ''r'', ''cliente_admin'')]" 1 0 config_sample "services_on invited_case"]
  by (simp add: call_sample_def config_sample_def)

theorem hidden_invitation_is_absent_instance:
  "fst (RevokeInvitation_handler (\<lambda>_. Some 701) call_sample ''701'' (services_on invited_case)) = Inl 404"
proof -
  have c: "ca_tenant call_sample = Some 1" "\<not> CanSeePlatformInternals (ca_role call_sample)"
    by (simp_all add: call_sample_def CanSeePlatformInternals_def RoleFromContext_def RoleContextFromContext_def)
  have "\<forall>v \<in> set (invitations (tables (sv_db (services_on invited_case)))). iv_ID v = 701 \<longrightarrow>
      role_is_global (tables (sv_db (services_on invited_case))) (Some (iv_RoleID v))"
    by (simp add: invited_defs role_is_global_def)
  with hidden_invitation_is_absent [of "services_on invited_case" call_sample 1 "\<lambda>_. Some 701" "''701''" 701 config_sample,
      OF _ c(1) _ c(2)]
  show ?thesis by (simp split: prod.splits)
qed

theorem duplicate_invitation_uniform_instance:
  "fst (CreateInvitation config_sample (call_sample\<lparr>ca_redis := NoRedis\<rparr>) ''x'' ''cliente_admin'' (services_on invited_case)) =
     Inl ErrInvitationAlreadyPending"
  using duplicate_invitation_uniform [of "services_on invited_case" "call_sample\<lparr>ca_redis := NoRedis\<rparr>" 1 me_sample
      "role_sample ''cliente_admin'' True False [''perm_users_manage'']" "''cliente_admin''"
      "invitation_sample 701 1 ''x'' ''platform_admin'' InvPending" "''x''" config_sample]
  by (simp add: live_def call_sample_def)
    (simp add: invited_defs role_visible_def tenant_can_use_role_def role_is_global_def is_platform_def pending_for_def
      split: prod.splits)

theorem revoke_accepted_keeps_membership_instance:
  "fst (RevokeInvitation (call_sample\<lparr>ca_tenant := Some 2\<rparr>) 702 True (services_on invited_case)) =
     Inr (invitation_sample 702 2 ''y'' ''cliente_admin'' InvRevoked)"
  using revoke_accepted_keeps_membership [of "services_on invited_case" "call_sample\<lparr>ca_tenant := Some 2\<rparr>" 2
      "invitation_sample 702 2 ''y'' ''cliente_admin'' InvAccepted" True]
  by (simp add: live_def) (simp add: invited_defs inv_visible_def split: prod.splits)

end
