(* ===== verification/Metrics.thy ===== *)
theory Metrics
  imports GoStd Complex_Main
begin

text \<open>
  The query engine of the dashboards: the domain (\<open>internal/domain/metrics\<close>) with its guardrails, and the
  repository (\<open>internal/repo/mongo/metrics\<close>), which builds the aggregation pipelines. A pipeline is a value
  of \<open>bson\<close>; what MongoDB and its driver make of it is the parameter \<open>aggregate\<close>. A float64 is a rational
  number, and where the code's result hangs on the rounding, in \<open>decimateUniform\<close>, the rounding is a
  parameter. The texts of the errors are left out, and so is the second, best-effort aggregate that only
  counts discarded values for the telemetry.
\<close>

section \<open>Domain\<close>

definition AggAvg :: string where "AggAvg = ''avg''"
definition AggSum :: string where "AggSum = ''sum''"
definition AggMin :: string where "AggMin = ''min''"
definition AggMax :: string where "AggMax = ''max''"
definition AggLast :: string where "AggLast = ''last''"
definition AggCount :: string where "AggCount = ''count''"
definition AggDelta :: string where "AggDelta = ''delta''"
definition AggRaw :: string where "AggRaw = ''raw''"

lemmas aggs = AggAvg_def AggSum_def AggMin_def AggMax_def AggLast_def AggCount_def AggDelta_def AggRaw_def

definition agg_Valid :: "string \<Rightarrow> bool" where
  "agg_Valid a \<longleftrightarrow> a \<in> {AggAvg, AggSum, AggMin, AggMax, AggLast, AggCount, AggDelta, AggRaw}"

definition bucket_duration :: "string \<Rightarrow> time option" where
  "bucket_duration b =
     (if b = ''1m'' then Some minute else if b = ''5m'' then Some (5 * minute) else if b = ''15m'' then Some (15 * minute)
      else if b = ''1h'' then Some hour else if b = ''6h'' then Some (6 * hour) else if b = ''1d'' then Some (24 * hour)
      else None)"

definition bucket_valid :: "string \<Rightarrow> bool" where
  "bucket_valid b \<longleftrightarrow> bucket_duration b \<noteq> None"

definition rangeDurations :: "(string \<times> time) list" where
  "rangeDurations =
     [(''15m'', 15 * minute), (''30m'', 30 * minute), (''1h'', hour), (''8h'', 8 * hour), (''24h'', 24 * hour),
      (''7d'', 7 * 24 * hour), (''30d'', 30 * 24 * hour)]"

datatype query_mode = ModeScalar | ModeSeries | ModeRaw | ModeGrouped

record metric_spec =
  mp_AasPath :: string
  mp_Agg :: string

text \<open>\<open>mq_Filter\<close> is None for a nil filter, \<open>Some JNull\<close> for a filter without a value.\<close>

record metric_query =
  mq_MachineID :: string
  mq_Range :: string
  mq_From :: "time option"
  mq_To :: "time option"
  mq_Bucket :: string
  mq_Metrics :: "metric_spec list"
  mq_GroupBy :: string
  mq_Filter :: "json option"
  mq_MaxPoints :: int

record guardrails =
  MaxSpecs :: int
  MaxBuckets :: int
  MaxRawPoints :: int
  MaxGroups :: int
  MaxBatchQueries :: int

definition DefaultLimits :: guardrails where
  "DefaultLimits = \<lparr>MaxSpecs = 10, MaxBuckets = 1000, MaxRawPoints = 5000, MaxGroups = 200, MaxBatchQueries = 50\<rparr>"

datatype metric_code =
    InvalidParams | TooManyMetrics | RawModeConflict | GroupByConflict | RangeTooWide | TooManyGroups
  | TooManyQueries | QueryTimeout

text \<open>A \<open>ValidationError\<close>, an aggregation the repository has no pipeline for, or an error of MongoDB.\<close>

datatype 'e metric_err = Refuse metric_code | Unsupported string | Mongo 'e

text \<open>\<open>ResolveWindow\<close>.\<close>

definition ResolveWindow :: "metric_query \<Rightarrow> time \<Rightarrow> 'e metric_err + time \<times> time" where
  "ResolveWindow q now =
     (let hasRange = mq_Range q \<noteq> [];
          hasAbsolute = mq_From q \<noteq> None \<and> mq_To q \<noteq> None;
          hasPartialAbsolute = ((mq_From q \<noteq> None) \<noteq> (mq_To q \<noteq> None))
      in if hasRange \<and> (hasAbsolute \<or> hasPartialAbsolute) then Inl (Refuse InvalidParams)
         else if hasRange then
           (case map_of rangeDurations (mq_Range q) of
              None \<Rightarrow> Inl (Refuse InvalidParams)
            | Some dur \<Rightarrow> Inr (now - dur, now))
         else case (mq_From q, mq_To q) of
             (Some lo, Some hi) \<Rightarrow> if \<not> hi > lo then Inl (Refuse InvalidParams) else Inr (lo, hi)
           | _ \<Rightarrow> Inl (Refuse InvalidParams))"

text \<open>\<open>groupByFieldPattern\<close>: payload, then one or more segments of letters, digits and underscores.\<close>

definition word_char :: "char \<Rightarrow> bool" where
  "word_char c \<longleftrightarrow> (let n = of_char c :: nat in
     97 \<le> n \<and> n \<le> 122 \<or> 65 \<le> n \<and> n \<le> 90 \<or> 48 \<le> n \<and> n \<le> 57 \<or> n = 95)"

fun segments_ok :: "bool \<Rightarrow> string \<Rightarrow> bool" where
  "segments_ok started [] = started"
| "segments_ok started (c # cs) =
     (if c = CHR ''.'' then started \<and> segments_ok False cs else word_char c \<and> segments_ok True cs)"

definition groupByFieldPattern :: "string \<Rightarrow> bool" where
  "groupByFieldPattern s \<longleftrightarrow> prefix ''payload.'' s \<and> segments_ok False (drop (length ''payload.'') s)"

definition hasRawAmongMultiple :: "metric_spec list \<Rightarrow> bool" where
  "hasRawAmongMultiple specs \<longleftrightarrow> \<not> length specs < 2 \<and> (\<exists>s \<in> set specs. mp_Agg s = AggRaw)"

text \<open>\<open>time.Time.Sub\<close> saturates, and the division of Go truncates.\<close>

definition time_sub :: "time \<Rightarrow> time \<Rightarrow> int" where
  "time_sub a b = max (- (2 ^ 63)) (min (2 ^ 63 - 1) (a - b))"

definition go_div :: "int \<Rightarrow> int \<Rightarrow> int" where
  "go_div a b = sgn a * sgn b * (\<bar>a\<bar> div \<bar>b\<bar>)"

definition checkBucketCount :: "time \<Rightarrow> time \<Rightarrow> string \<Rightarrow> int \<Rightarrow> bool" where
  "checkBucketCount lo hi bucket maxBuckets \<longleftrightarrow>
     (case bucket_duration bucket of
        None \<Rightarrow> False
      | Some dur \<Rightarrow> go_div (time_sub hi lo) dur + 1 \<le> maxBuckets)"

fun filter_value_ok :: "json option \<Rightarrow> bool" where
  "filter_value_ok None = True"
| "filter_value_ok (Some (JArr _)) = False"
| "filter_value_ok (Some (JObj _)) = False"
| "filter_value_ok (Some _) = True"

definition bad_spec :: "metric_spec \<Rightarrow> bool" where
  "bad_spec m \<longleftrightarrow> mp_AasPath m = [] \<or> \<not> agg_Valid (mp_Agg m)"

definition Validate :: "metric_query \<Rightarrow> time \<Rightarrow> time \<Rightarrow> guardrails \<Rightarrow> 'e metric_err + query_mode" where
  "Validate q lo hi limits =
     (if mq_MachineID q = [] then Inl (Refuse InvalidParams)
      else if mq_Metrics q = [] then Inl (Refuse InvalidParams)
      else if int (length (mq_Metrics q)) > MaxSpecs limits then Inl (Refuse TooManyMetrics)
      else if \<exists>m \<in> set (mq_Metrics q). bad_spec m then Inl (Refuse InvalidParams)
      else if mq_Bucket q \<noteq> [] \<and> \<not> bucket_valid (mq_Bucket q) then Inl (Refuse InvalidParams)
      else if mq_GroupBy q \<noteq> [] \<and> \<not> groupByFieldPattern (mq_GroupBy q) then Inl (Refuse InvalidParams)
      else if \<not> filter_value_ok (mq_Filter q) then Inl (Refuse InvalidParams)
      else if mq_MaxPoints q < 0 \<or> mq_MaxPoints q > MaxRawPoints limits then Inl (Refuse InvalidParams)
      else
        let isRaw = (length (mq_Metrics q) = 1 \<and> mp_Agg (hd (mq_Metrics q)) = AggRaw);
            isGrouped = (mq_GroupBy q \<noteq> [])
        in if hasRawAmongMultiple (mq_Metrics q) then Inl (Refuse RawModeConflict)
           else if isRaw then
             (if mq_Bucket q \<noteq> [] \<or> isGrouped then Inl (Refuse RawModeConflict) else Inr ModeRaw)
           else if isGrouped then
             (if mq_Bucket q \<noteq> [] \<or> length (mq_Metrics q) \<noteq> 1 then Inl (Refuse GroupByConflict)
              else if mp_Agg (hd (mq_Metrics q)) \<in> {AggLast, AggDelta} then Inl (Refuse InvalidParams)
              else Inr ModeGrouped)
           else if mq_Bucket q \<noteq> [] then
             (if \<not> checkBucketCount lo hi (mq_Bucket q) (MaxBuckets limits) then Inl (Refuse RangeTooWide)
              else if \<exists>m \<in> set (mq_Metrics q). mp_Agg m \<in> {AggLast, AggDelta} then Inl (Refuse InvalidParams)
              else Inr ModeSeries)
           else Inr ModeScalar)"

text \<open>\<open>ValidateBatchIDs\<close>, with the ids seen so far.\<close>

fun check_ids :: "string list \<Rightarrow> string list \<Rightarrow> metric_code option" where
  "check_ids seen [] = None"
| "check_ids seen (i # ids) =
     (if i = [] then Some InvalidParams
      else if i \<in> set seen then Some InvalidParams else check_ids (i # seen) ids)"

definition ValidateBatchIDs :: "string list \<Rightarrow> guardrails \<Rightarrow> metric_code option" where
  "ValidateBatchIDs ids limits =
     (if ids = [] then Some InvalidParams
      else if int (length ids) > MaxBatchQueries limits then Some TooManyQueries
      else check_ids [] ids)"

section \<open>Results\<close>

record metric_result =
  me_AasPath :: string
  me_Agg :: string
  me_Value :: rat
  me_SampleCount :: int

record bucket_point =
  bp_Ts :: time
  bp_Value :: rat
  bp_SampleCount :: int

datatype bson =
    BNull | BBool bool | BInt int | BNum string | BStr string | BDate time
  | BArr "bson list" | BDoc "(string \<times> bson) list"

type_synonym stage = "(string \<times> bson) list"

record raw_point =
  rp_Ts :: time
  rp_Value :: bson

record group_result =
  gr_Key :: string
  gr_Value :: rat

section \<open>Pipelines\<close>

definition baseMatch :: "string \<Rightarrow> string \<Rightarrow> time \<Rightarrow> time \<Rightarrow> string \<Rightarrow> stage" where
  "baseMatch tenantID machineID lo hi aasPath =
     [(''$match'', BDoc [(''tenantId'', BStr tenantID), (''machineId'', BStr machineID), (''payload.aasPath'', BStr aasPath),
        (''ts'', BDoc [(''$gte'', BDate lo), (''$lte'', BDate hi)])])]"

text \<open>The driver encodes the value of the filter; the code only lets primitive values pass.\<close>

fun bson_of :: "json \<Rightarrow> bson" where
  "bson_of JNull = BNull"
| "bson_of (JBool b) = BBool b"
| "bson_of (JNum lit) = BNum lit"
| "bson_of (JStr s) = BStr s"
| "bson_of (JArr xs) = BArr (map bson_of xs)"
| "bson_of (JObj kvs) = BDoc (map (\<lambda>(k, v). (k, bson_of v)) kvs)"

fun applyValueFilter :: "stage \<Rightarrow> json option \<Rightarrow> stage" where
  "applyValueFilter m None = m"
| "applyValueFilter m (Some JNull) = m"
| "applyValueFilter ((k, BDoc conds) # rest) (Some v) = (k, BDoc (conds @ [(''payload.value'', bson_of v)])) # rest"
| "applyValueFilter m (Some v) = m"

definition isNumberMatch :: stage where
  "isNumberMatch = [(''$match'', BDoc [(''$expr'', BDoc [(''$isNumber'', BStr ''$payload.value'')])])]"

definition numericAccumulator :: "string \<Rightarrow> string option" where
  "numericAccumulator agg =
     (if agg = AggAvg then Some ''$avg'' else if agg = AggSum then Some ''$sum'' else if agg = AggMin then Some ''$min''
      else if agg = AggMax then Some ''$max'' else None)"

abbreviation count_of :: "string \<times> bson" where "count_of \<equiv> (''sampleCount'', BDoc [(''$sum'', BInt 1)])"
abbreviation as_of :: "string \<times> bson" where "as_of \<equiv> (''dataAsOf'', BDoc [(''$max'', BStr ''$ts'')])"
abbreviation by_ts :: stage where "by_ts \<equiv> [(''$sort'', BDoc [(''ts'', BInt 1)])]"

definition group_stage :: "bson \<Rightarrow> (string \<times> bson) list \<Rightarrow> stage" where
  "group_stage i fs = [(''$group'', BDoc ((''_id'', i) # fs))]"

definition dateTruncUnit :: "string \<Rightarrow> (string \<times> int) option" where
  "dateTruncUnit b =
     (if b = ''1m'' then Some (''minute'', 1) else if b = ''5m'' then Some (''minute'', 5)
      else if b = ''15m'' then Some (''minute'', 15) else if b = ''1h'' then Some (''hour'', 1)
      else if b = ''6h'' then Some (''hour'', 6) else if b = ''1d'' then Some (''day'', 1) else None)"

section \<open>Repository\<close>

text \<open>What the driver decodes of a document of the answer: the fields the code names, zero where they are
  missing. \<open>aggregate\<close> sends a pipeline and reads all of the answer.\<close>

record row =
  rw_id :: bson
  rw_id_time :: time
  rw_value :: rat
  rw_value_int :: int
  rw_first :: rat
  rw_last :: rat
  rw_sampleCount :: int
  rw_dataAsOf :: time
  rw_ts :: time
  rw_payload_value :: bson

datatype 'e driver_err = DeadlineExceeded | DriverError 'e

fun wrapTimeoutErr :: "'e driver_err \<Rightarrow> 'e metric_err" where
  "wrapTimeoutErr DeadlineExceeded = Refuse QueryTimeout"
| "wrapTimeoutErr (DriverError e) = Mongo e"

type_synonym 'e aggregation = "stage list \<Rightarrow> 'e driver_err + row list"

definition scalar_answer ::
  "metric_spec \<Rightarrow> (row \<Rightarrow> rat \<times> int) \<Rightarrow> 'e driver_err + row list \<Rightarrow> 'e metric_err + metric_result \<times> time option" where
  "scalar_answer spec read answer =
     (case answer of
        Inl e \<Rightarrow> Inl (wrapTimeoutErr e)
      | Inr [] \<Rightarrow> Inr (\<lparr>me_AasPath = mp_AasPath spec, me_Agg = mp_Agg spec, me_Value = 0, me_SampleCount = 0\<rparr>, None)
      | Inr (g # _) \<Rightarrow>
          Inr (\<lparr>me_AasPath = mp_AasPath spec, me_Agg = mp_Agg spec, me_Value = fst (read g), me_SampleCount = snd (read g)\<rparr>,
               Some (rw_dataAsOf g)))"

definition scalarNumeric ::
  "'e aggregation \<Rightarrow> string \<Rightarrow> string \<Rightarrow> time \<Rightarrow> time \<Rightarrow> metric_spec \<Rightarrow> json option \<Rightarrow> 'e metric_err + metric_result \<times> time option" where
  "scalarNumeric aggregate tenantID machineID lo hi spec flt =
     (case numericAccumulator (mp_Agg spec) of
        None \<Rightarrow> Inl (Unsupported (mp_Agg spec))
      | Some accumulator \<Rightarrow>
          scalar_answer spec (\<lambda>g. (rw_value g, rw_sampleCount g)) (aggregate
            [applyValueFilter (baseMatch tenantID machineID lo hi (mp_AasPath spec)) flt, isNumberMatch,
             group_stage BNull [(''value'', BDoc [(accumulator, BStr ''$payload.value'')]), count_of, as_of]]))"

definition scalarLast ::
  "'e aggregation \<Rightarrow> string \<Rightarrow> string \<Rightarrow> time \<Rightarrow> time \<Rightarrow> metric_spec \<Rightarrow> json option \<Rightarrow> 'e metric_err + metric_result \<times> time option" where
  "scalarLast aggregate tenantID machineID lo hi spec flt =
     scalar_answer spec (\<lambda>g. (rw_value g, rw_sampleCount g)) (aggregate
       [applyValueFilter (baseMatch tenantID machineID lo hi (mp_AasPath spec)) flt, isNumberMatch, by_ts,
        group_stage BNull [(''value'', BDoc [(''$last'', BStr ''$payload.value'')]), count_of, as_of]])"

definition scalarDelta ::
  "'e aggregation \<Rightarrow> string \<Rightarrow> string \<Rightarrow> time \<Rightarrow> time \<Rightarrow> metric_spec \<Rightarrow> json option \<Rightarrow> 'e metric_err + metric_result \<times> time option" where
  "scalarDelta aggregate tenantID machineID lo hi spec flt =
     scalar_answer spec (\<lambda>g. (rw_last g - rw_first g, rw_sampleCount g)) (aggregate
       [applyValueFilter (baseMatch tenantID machineID lo hi (mp_AasPath spec)) flt, isNumberMatch, by_ts,
        group_stage BNull [(''first'', BDoc [(''$first'', BStr ''$payload.value'')]),
          (''last'', BDoc [(''$last'', BStr ''$payload.value'')]), count_of, as_of]])"

text \<open>Here the value is decoded into an int64.\<close>

definition scalarCount ::
  "'e aggregation \<Rightarrow> string \<Rightarrow> string \<Rightarrow> time \<Rightarrow> time \<Rightarrow> metric_spec \<Rightarrow> json option \<Rightarrow> 'e metric_err + metric_result \<times> time option" where
  "scalarCount aggregate tenantID machineID lo hi spec flt =
     scalar_answer spec (\<lambda>g. (of_int (rw_value_int g), rw_value_int g)) (aggregate
       [applyValueFilter (baseMatch tenantID machineID lo hi (mp_AasPath spec)) flt,
        group_stage BNull [(''value'', BDoc [(''$sum'', BInt 1)]), as_of]])"

definition Scalar ::
  "'e aggregation \<Rightarrow> string \<Rightarrow> string \<Rightarrow> time \<Rightarrow> time \<Rightarrow> metric_spec \<Rightarrow> json option \<Rightarrow> 'e metric_err + metric_result \<times> time option" where
  "Scalar aggregate tenantID machineID lo hi spec flt =
     (if mp_Agg spec \<in> {AggAvg, AggSum, AggMin, AggMax}
      then scalarNumeric aggregate tenantID machineID lo hi spec flt
      else if mp_Agg spec = AggLast then scalarLast aggregate tenantID machineID lo hi spec flt
      else if mp_Agg spec = AggDelta then scalarDelta aggregate tenantID machineID lo hi spec flt
      else if mp_Agg spec = AggCount then scalarCount aggregate tenantID machineID lo hi spec flt
      else Inl (Unsupported (mp_Agg spec)))"

text \<open>The latest instant of a list, None for none.\<close>

definition newest :: "time list \<Rightarrow> time option" where
  "newest ts = fold (\<lambda>t m. case m of None \<Rightarrow> Some t | Some x \<Rightarrow> if t > x then Some t else Some x) ts None"

definition runSeriesPipeline :: "'e aggregation \<Rightarrow> stage list \<Rightarrow> 'e metric_err + bucket_point list \<times> time option" where
  "runSeriesPipeline aggregate pipeline =
     (case aggregate (pipeline @ [[(''$sort'', BDoc [(''_id'', BInt 1)])]]) of
        Inl e \<Rightarrow> Inl (wrapTimeoutErr e)
      | Inr rows \<Rightarrow>
          Inr (map (\<lambda>r. \<lparr>bp_Ts = rw_id_time r, bp_Value = rw_value r, bp_SampleCount = rw_sampleCount r\<rparr>) rows,
               newest (map rw_dataAsOf rows)))"

definition Series ::
  "'e aggregation \<Rightarrow> string \<Rightarrow> string \<Rightarrow> time \<Rightarrow> time \<Rightarrow> string \<Rightarrow> metric_spec \<Rightarrow> json option \<Rightarrow> 'e metric_err + bucket_point list \<times> time option" where
  "Series aggregate tenantID machineID lo hi bucket spec flt =
     (case dateTruncUnit bucket of
        None \<Rightarrow> Inl (Unsupported bucket)
      | Some (unt, binSize) \<Rightarrow>
     (let truncExpr = BDoc [(''$dateTrunc'', BDoc [(''date'', BStr ''$ts''), (''unit'', BStr unt), (''binSize'', BInt binSize)])];
          matchStage = applyValueFilter (baseMatch tenantID machineID lo hi (mp_AasPath spec)) flt
      in if mp_Agg spec = AggCount
         then runSeriesPipeline aggregate
                [matchStage, group_stage truncExpr [(''value'', BDoc [(''$sum'', BInt 1)]), count_of, as_of]]
         else case numericAccumulator (mp_Agg spec) of
             None \<Rightarrow> Inl (Unsupported (mp_Agg spec))
           | Some accumulator \<Rightarrow> runSeriesPipeline aggregate
                [matchStage, isNumberMatch,
                 group_stage truncExpr [(''value'', BDoc [(accumulator, BStr ''$payload.value'')]), count_of, as_of]]))"

text \<open>\<open>fl\<close> rounds to a float64.\<close>

definition decimateUniform :: "(rat \<Rightarrow> rat) \<Rightarrow> 'a list \<Rightarrow> int \<Rightarrow> 'a list" where
  "decimateUniform fl points maxPoints =
     (let n = length points in
      if int n \<le> maxPoints then points
      else if maxPoints < 1 then points
      else if maxPoints = 1 then drop (n - 1) points
      else
        let step = fl (of_nat (n - 1) / of_int (maxPoints - 1))
        in map (\<lambda>i. if i = nat maxPoints - 1 then points ! (n - 1)
                    else let idx = nat \<lfloor>fl (of_nat i * step)\<rfloor> in points ! (if idx \<ge> n then n - 1 else idx))
             [0..<nat maxPoints])"

definition RawQuery ::
  "(rat \<Rightarrow> rat) \<Rightarrow> 'e aggregation \<Rightarrow> string \<Rightarrow> string \<Rightarrow> time \<Rightarrow> time \<Rightarrow> string \<Rightarrow> json option \<Rightarrow> int \<Rightarrow> int \<Rightarrow>
     'e metric_err + raw_point list \<times> time option" where
  "RawQuery fl aggregate tenantID machineID lo hi aasPath flt limit maxPoints =
     (case aggregate [applyValueFilter (baseMatch tenantID machineID lo hi aasPath) flt, by_ts, [(''$limit'', BInt limit)]] of
        Inl e \<Rightarrow> Inl (wrapTimeoutErr e)
      | Inr rows \<Rightarrow>
          let points = map (\<lambda>r. \<lparr>rp_Ts = rw_ts r, rp_Value = rw_payload_value r\<rparr>) rows;
              dataAsOf = newest (map rw_ts rows)
          in Inr (if maxPoints > 0 \<and> int (length points) > maxPoints \<and> int (length points) < limit
                  then decimateUniform fl points maxPoints else points, dataAsOf))"

definition Grouped ::
  "(bson \<Rightarrow> string) \<Rightarrow> 'e aggregation \<Rightarrow> string \<Rightarrow> string \<Rightarrow> time \<Rightarrow> time \<Rightarrow> string \<Rightarrow> metric_spec \<Rightarrow> json option \<Rightarrow> int \<Rightarrow>
     'e metric_err + group_result list \<times> time option" where
  "Grouped show_key aggregate tenantID machineID lo hi groupBy spec flt limit =
     (let fieldRef = BStr (''$'' @ groupBy);
          matchStage = applyValueFilter (baseMatch tenantID machineID lo hi (mp_AasPath spec)) flt;
          top = [[(''$sort'', BDoc [(''value'', BInt (- 1))])], [(''$limit'', BInt limit)]];
          run = (\<lambda>pipeline. case aggregate pipeline of
                    Inl e \<Rightarrow> Inl (wrapTimeoutErr e)
                  | Inr rows \<Rightarrow> Inr (map (\<lambda>r. \<lparr>gr_Key = show_key (rw_id r), gr_Value = rw_value r\<rparr>) rows,
                                   newest (map rw_dataAsOf rows)))
      in if mp_Agg spec = AggCount
         then run ([matchStage, group_stage fieldRef [(''value'', BDoc [(''$sum'', BInt 1)]), as_of]] @ top)
         else case numericAccumulator (mp_Agg spec) of
             None \<Rightarrow> Inl (Unsupported (mp_Agg spec))
           | Some accumulator \<Rightarrow>
               run ([matchStage, isNumberMatch,
                     group_stage fieldRef [(''value'', BDoc [(accumulator, BStr ''$payload.value'')]), as_of]] @ top))"

text \<open>\<open>Catalog\<close>: a native distinct; None is the answer ErrNoDocuments. Values that are no text are skipped.\<close>

definition Catalog ::
  "(string \<Rightarrow> stage \<Rightarrow> 'e driver_err + bson list option) \<Rightarrow> string \<Rightarrow> string \<Rightarrow> 'e metric_err + string list" where
  "Catalog distinct_values tenantID machineID =
     (case distinct_values ''payload.aasPath'' [(''tenantId'', BStr tenantID), (''machineId'', BStr machineID)] of
        Inl e \<Rightarrow> Inl (wrapTimeoutErr e)
      | Inr None \<Rightarrow> Inr []
      | Inr (Some vs) \<Rightarrow> Inr [s. BStr s \<leftarrow> vs])"

text \<open>The repository when MongoDB was not there at the start: every operation is this error.\<close>

definition unavailable_metrics :: "'e \<Rightarrow> 'e metric_err + 'a" where
  "unavailable_metrics e = Inl (Mongo e)"

end
