(* ===== verification/Dashboards.thy ===== *)
theory Dashboards
  imports Metrics
begin

text \<open>
  The dashboards' service (\<open>internal/app/dashboards\<close>) and its handlers. The goroutines of an \<open>errgroup\<close> each
  write their own place of the result; the order they end in only picks the error that is returned, and is
  the argument \<open>sched\<close>. The repository is an interface, the locale \<open>metrics_repository\<close>, with MongoDB's and the
  unavailable one as its interpretations.
\<close>

section \<open>The interface\<close>

record 'e metrics_repo =
  mr_Scalar :: "string \<Rightarrow> string \<Rightarrow> time \<Rightarrow> time \<Rightarrow> metric_spec \<Rightarrow> json option \<Rightarrow> 'e metric_err + metric_result \<times> time option"
  mr_Series :: "string \<Rightarrow> string \<Rightarrow> time \<Rightarrow> time \<Rightarrow> string \<Rightarrow> metric_spec \<Rightarrow> json option \<Rightarrow>
     'e metric_err + bucket_point list \<times> time option"
  mr_Raw :: "string \<Rightarrow> string \<Rightarrow> time \<Rightarrow> time \<Rightarrow> string \<Rightarrow> json option \<Rightarrow> int \<Rightarrow> int \<Rightarrow> 'e metric_err + raw_point list \<times> time option"
  mr_Grouped :: "string \<Rightarrow> string \<Rightarrow> time \<Rightarrow> time \<Rightarrow> string \<Rightarrow> metric_spec \<Rightarrow> json option \<Rightarrow> int \<Rightarrow>
     'e metric_err + group_result list \<times> time option"
  mr_Catalog :: "string \<Rightarrow> string \<Rightarrow> 'e metric_err + string list"

definition mongo_metrics ::
  "(rat \<Rightarrow> rat) \<Rightarrow> (bson \<Rightarrow> string) \<Rightarrow> 'e aggregation \<Rightarrow> (string \<Rightarrow> stage \<Rightarrow> 'e driver_err + bson list option) \<Rightarrow> 'e metrics_repo" where
  "mongo_metrics fl show_key aggregate distinct_values =
     \<lparr>mr_Scalar = Scalar aggregate, mr_Series = Series aggregate, mr_Raw = RawQuery fl aggregate,
      mr_Grouped = Grouped show_key aggregate, mr_Catalog = Catalog distinct_values\<rparr>"

definition unavailable_repo :: "'e \<Rightarrow> 'e metrics_repo" where
  "unavailable_repo e =
     \<lparr>mr_Scalar = (\<lambda>_ _ _ _ _ _. unavailable_metrics e), mr_Series = (\<lambda>_ _ _ _ _ _ _. unavailable_metrics e),
      mr_Raw = (\<lambda>_ _ _ _ _ _ _ _. unavailable_metrics e), mr_Grouped = (\<lambda>_ _ _ _ _ _ _ _. unavailable_metrics e),
      mr_Catalog = (\<lambda>_ _. unavailable_metrics e)\<rparr>"

section \<open>Service\<close>

record series_point =
  sp_Ts :: time
  sp_Results :: "metric_result list"

record query_result =
  qr_Mode :: query_mode
  qr_MachineID :: string
  qr_From :: time
  qr_To :: time
  qr_DataAsOf :: "time option"
  qr_Bucket :: string
  qr_Results :: "metric_result list"
  qr_Series :: "series_point list"
  qr_AasPath :: string
  qr_Points :: "raw_point list"
  qr_Agg :: string
  qr_GroupBy :: string
  qr_Groups :: "group_result list"

fun first_error :: "nat list \<Rightarrow> ('e + 'a) list \<Rightarrow> 'e option" where
  "first_error [] outcomes = None"
| "first_error (i # order) outcomes =
     (if i < length outcomes
      then case outcomes ! i of Inl e \<Rightarrow> Some e | Inr _ \<Rightarrow> first_error order outcomes
      else first_error order outcomes)"

text \<open>\<open>g.Wait\<close>: the error of the goroutine that failed first; those \<open>sched\<close> does not name end last.\<close>

definition fan_out :: "nat list \<Rightarrow> ('e + 'a) list \<Rightarrow> 'e + 'a list" where
  "fan_out sched outcomes =
     (case first_error (sched @ [0..<length outcomes]) outcomes of
        Some e \<Rightarrow> Inl e
      | None \<Rightarrow> Inr (map projr outcomes))"

definition maxDataAsOf :: "time option list \<Rightarrow> time option" where
  "maxDataAsOf ts =
     fold (\<lambda>t m. case t of None \<Rightarrow> m
                 | Some x \<Rightarrow> (case m of None \<Rightarrow> Some x | Some y \<Rightarrow> if x > y then Some x else Some y)) ts None"

definition queryScalar ::
  "nat list \<Rightarrow> 'e metrics_repo \<Rightarrow> string \<Rightarrow> metric_query \<Rightarrow> time \<Rightarrow> time \<Rightarrow> query_result \<Rightarrow> 'e metric_err + query_result" where
  "queryScalar sched repo tenantID q lo hi result =
     (case fan_out sched (map (\<lambda>spec. mr_Scalar repo tenantID (mq_MachineID q) lo hi spec (mq_Filter q)) (mq_Metrics q)) of
        Inl e \<Rightarrow> Inl e
      | Inr rs \<Rightarrow> Inr (result\<lparr>qr_Results := map fst rs, qr_DataAsOf := maxDataAsOf (map snd rs)\<rparr>))"

text \<open>\<open>mergeSeries\<close>: the map \<open>byTs\<close> and the instants in the order they are met.\<close>

definition note_point ::
  "metric_spec \<Rightarrow> bucket_point \<Rightarrow> (time \<Rightarrow> metric_result list) \<times> time list \<Rightarrow> (time \<Rightarrow> metric_result list) \<times> time list" where
  "note_point spec p acc =
     (case acc of (byTs, order) \<Rightarrow>
        (byTs(bp_Ts p := byTs (bp_Ts p) @
           [\<lparr>me_AasPath = mp_AasPath spec, me_Agg = mp_Agg spec, me_Value = bp_Value p, me_SampleCount = bp_SampleCount p\<rparr>]),
         if bp_Ts p \<in> set order then order else order @ [bp_Ts p]))"

definition mergeSeries :: "metric_spec list \<Rightarrow> bucket_point list list \<Rightarrow> series_point list" where
  "mergeSeries specs perMetric =
     (case fold (\<lambda>(spec, points). fold (note_point spec) points) (zip specs perMetric) (\<lambda>_. [], []) of
        (byTs, order) \<Rightarrow> map (\<lambda>ts. \<lparr>sp_Ts = ts, sp_Results = byTs ts\<rparr>) (sort order))"

definition querySeries ::
  "nat list \<Rightarrow> 'e metrics_repo \<Rightarrow> string \<Rightarrow> metric_query \<Rightarrow> time \<Rightarrow> time \<Rightarrow> query_result \<Rightarrow> 'e metric_err + query_result" where
  "querySeries sched repo tenantID q lo hi result =
     (case fan_out sched
             (map (\<lambda>spec. mr_Series repo tenantID (mq_MachineID q) lo hi (mq_Bucket q) spec (mq_Filter q)) (mq_Metrics q)) of
        Inl e \<Rightarrow> Inl e
      | Inr rs \<Rightarrow> Inr (result\<lparr>qr_Bucket := mq_Bucket q, qr_Series := mergeSeries (mq_Metrics q) (map fst rs),
                          qr_DataAsOf := maxDataAsOf (map snd rs)\<rparr>))"

definition queryRaw ::
  "guardrails \<Rightarrow> 'e metrics_repo \<Rightarrow> string \<Rightarrow> metric_query \<Rightarrow> time \<Rightarrow> time \<Rightarrow> query_result \<Rightarrow> 'e metric_err + query_result" where
  "queryRaw limits repo tenantID q lo hi result =
     (let spec = hd (mq_Metrics q); limit = MaxRawPoints limits + 1
      in case mr_Raw repo tenantID (mq_MachineID q) lo hi (mp_AasPath spec) (mq_Filter q) limit (mq_MaxPoints q) of
           Inl e \<Rightarrow> Inl e
         | Inr (points, dataAsOf) \<Rightarrow>
             if int (length points) \<ge> limit then Inl (Refuse RangeTooWide)
             else Inr (result\<lparr>qr_AasPath := mp_AasPath spec, qr_Points := points, qr_DataAsOf := dataAsOf\<rparr>))"

definition queryGrouped ::
  "guardrails \<Rightarrow> 'e metrics_repo \<Rightarrow> string \<Rightarrow> metric_query \<Rightarrow> time \<Rightarrow> time \<Rightarrow> query_result \<Rightarrow> 'e metric_err + query_result" where
  "queryGrouped limits repo tenantID q lo hi result =
     (let spec = hd (mq_Metrics q); limit = MaxGroups limits + 1
      in case mr_Grouped repo tenantID (mq_MachineID q) lo hi (mq_GroupBy q) spec (mq_Filter q) limit of
           Inl e \<Rightarrow> Inl e
         | Inr (groups, dataAsOf) \<Rightarrow>
             if int (length groups) \<ge> limit then Inl (Refuse TooManyGroups)
             else Inr (result\<lparr>qr_AasPath := mp_AasPath spec, qr_Agg := mp_Agg spec, qr_GroupBy := mq_GroupBy q,
                         qr_Groups := groups, qr_DataAsOf := dataAsOf\<rparr>))"

definition empty_result :: "query_mode \<Rightarrow> string \<Rightarrow> time \<Rightarrow> time \<Rightarrow> query_result" where
  "empty_result mode machineID lo hi =
     \<lparr>qr_Mode = mode, qr_MachineID = machineID, qr_From = lo, qr_To = hi, qr_DataAsOf = None, qr_Bucket = [],
      qr_Results = [], qr_Series = [], qr_AasPath = [], qr_Points = [], qr_Agg = [], qr_GroupBy = [], qr_Groups = []\<rparr>"

definition Query ::
  "nat list \<Rightarrow> guardrails \<Rightarrow> 'e metrics_repo \<Rightarrow> string \<Rightarrow> metric_query \<Rightarrow> time \<Rightarrow> 'e metric_err + query_result" where
  "Query sched limits repo tenantID q now =
     (case ResolveWindow q now of
        Inl e \<Rightarrow> Inl e
      | Inr (lo, hi) \<Rightarrow>
     (case Validate q lo hi limits of
        Inl e \<Rightarrow> Inl e
      | Inr mode \<Rightarrow>
          let result = empty_result mode (mq_MachineID q) lo hi
          in case mode of
               ModeRaw \<Rightarrow> queryRaw limits repo tenantID q lo hi result
             | ModeGrouped \<Rightarrow> queryGrouped limits repo tenantID q lo hi result
             | ModeSeries \<Rightarrow> querySeries sched repo tenantID q lo hi result
             | ModeScalar \<Rightarrow> queryScalar sched repo tenantID q lo hi result))"

definition svc_Catalog :: "'e metrics_repo \<Rightarrow> string \<Rightarrow> string \<Rightarrow> 'e metric_err + string list" where
  "svc_Catalog repo tenantID machineID =
     (if machineID = [] then Inl (Refuse InvalidParams) else mr_Catalog repo tenantID machineID)"

text \<open>\<open>Batch\<close>: the goroutines hand no error on.\<close>

definition Batch ::
  "(nat \<Rightarrow> nat list) \<Rightarrow> guardrails \<Rightarrow> 'e metrics_repo \<Rightarrow> string \<Rightarrow> (string \<times> metric_query) list \<Rightarrow> time \<Rightarrow>
     'e metric_err + (string \<times> ('e metric_err + query_result)) list" where
  "Batch sched limits repo tenantID items now =
     (case ValidateBatchIDs (map fst items) limits of
        Some c \<Rightarrow> Inl (Refuse c)
      | None \<Rightarrow> Inr (map (\<lambda>(i, ident, q). (ident, Query (sched i) limits repo tenantID q now)) (enumerate 0 items)))"

section \<open>Handlers\<close>

text \<open>\<open>tenant\<close> is the text of the context's tenant; the body is None when it does not bind. The records of the
  answers copy the fields of the results.\<close>

definition dash_HandleError :: "'e metric_err \<Rightarrow> nat" where
  "dash_HandleError e =
     (case e of Refuse c \<Rightarrow> if c = QueryTimeout then 504 else 400 | Unsupported _ \<Rightarrow> 500 | Mongo _ \<Rightarrow> 500)"

definition normalizedTenantID :: "(string \<Rightarrow> uuid option) \<Rightarrow> (uuid \<Rightarrow> string) \<Rightarrow> string \<Rightarrow> string option" where
  "normalizedTenantID parse txt raw = map_option txt (parse raw)"

definition QueryMetrics_handler ::
  "(string \<Rightarrow> uuid option) \<Rightarrow> (uuid \<Rightarrow> string) \<Rightarrow> nat list \<Rightarrow> guardrails \<Rightarrow> 'e metrics_repo \<Rightarrow> string \<Rightarrow> metric_query option \<Rightarrow>
     time \<Rightarrow> nat + query_result" where
  "QueryMetrics_handler parse txt sched limits repo tenant body now =
     (case normalizedTenantID parse txt tenant of
        None \<Rightarrow> Inl 400
      | Some tenantID \<Rightarrow>
     (case body of
        None \<Rightarrow> Inl 400
      | Some q \<Rightarrow>
     (case Query sched limits repo tenantID q now of Inl e \<Rightarrow> Inl (dash_HandleError e) | Inr r \<Rightarrow> Inr r)))"

datatype item_answer = ItemFailed string "metric_code option" | ItemDone string query_result

fun batchResultsToResponse :: "(string \<times> ('e metric_err + query_result)) list \<Rightarrow> item_answer list" where
  "batchResultsToResponse [] = []"
| "batchResultsToResponse ((i, r) # rs) =
     (case r of
        Inl (Refuse c) \<Rightarrow> ItemFailed i (Some c)
      | Inl _ \<Rightarrow> ItemFailed i None
      | Inr x \<Rightarrow> ItemDone i x) # batchResultsToResponse rs"

definition BatchQueryMetrics_handler ::
  "(string \<Rightarrow> uuid option) \<Rightarrow> (uuid \<Rightarrow> string) \<Rightarrow> (nat \<Rightarrow> nat list) \<Rightarrow> guardrails \<Rightarrow> 'e metrics_repo \<Rightarrow> string \<Rightarrow>
     (string \<times> metric_query) list option \<Rightarrow> time \<Rightarrow> nat + item_answer list" where
  "BatchQueryMetrics_handler parse txt sched limits repo tenant body now =
     (case normalizedTenantID parse txt tenant of
        None \<Rightarrow> Inl 400
      | Some tenantID \<Rightarrow>
     (case body of
        None \<Rightarrow> Inl 400
      | Some items \<Rightarrow>
     (case Batch sched limits repo tenantID items now of
        Inl e \<Rightarrow> Inl (dash_HandleError e)
      | Inr rs \<Rightarrow> Inr (batchResultsToResponse rs))))"

definition CatalogMetrics_handler ::
  "(string \<Rightarrow> uuid option) \<Rightarrow> (uuid \<Rightarrow> string) \<Rightarrow> 'e metrics_repo \<Rightarrow> string \<Rightarrow> string \<Rightarrow> nat + string list" where
  "CatalogMetrics_handler parse txt repo tenant machineID =
     (case normalizedTenantID parse txt tenant of
        None \<Rightarrow> Inl 400
      | Some tenantID \<Rightarrow>
     (case svc_Catalog repo tenantID machineID of Inl e \<Rightarrow> Inl (dash_HandleError e) | Inr ps \<Rightarrow> Inr ps))"

section \<open>The fan-out\<close>

lemma first_error_Some:
  "first_error order outs = Some e \<Longrightarrow> \<exists>i \<in> set order. i < length outs \<and> outs ! i = Inl e"
  by (induction order) (auto split: if_splits sum.splits)

lemma first_error_None:
  "first_error order outs = None \<longleftrightarrow> (\<forall>i \<in> set order. i < length outs \<longrightarrow> \<not> isl (outs ! i))"
  by (induction order) (auto split: if_splits sum.splits)

lemma fan_out_Inr: "fan_out sched outs = Inr xs \<longleftrightarrow> outs = map Inr xs"
proof
  assume "fan_out sched outs = Inr xs"
  then have n: "\<forall>i < length outs. \<not> isl (outs ! i)" and xs: "xs = map projr outs"
    by (auto simp: fan_out_def first_error_None split: option.splits)
  show "outs = map Inr xs"
    unfolding xs by (rule nth_equalityI) (use n in auto)
next
  assume "outs = map Inr xs"
  then have "first_error (sched @ [0..<length outs]) outs = None" "map projr outs = xs"
    by (auto simp: first_error_None comp_def)
  then show "fan_out sched outs = Inr xs" by (simp add: fan_out_def)
qed

lemma fan_out_Inl: "fan_out sched outs = Inl e \<Longrightarrow> Inl e \<in> set outs"
  by (auto simp: fan_out_def split: option.splits dest!: first_error_Some) (metis nth_mem)+

section \<open>What the service asks of its repository\<close>

definition scalar_agg :: "string \<Rightarrow> bool" where
  "scalar_agg a \<longleftrightarrow> a \<in> {AggAvg, AggSum, AggMin, AggMax, AggLast, AggCount, AggDelta}"

definition fold_agg :: "string \<Rightarrow> bool" where
  "fold_agg a \<longleftrightarrow> a \<in> {AggAvg, AggSum, AggMin, AggMax, AggCount}"

locale metrics_repository =
  fixes repo :: "'e metrics_repo"
  assumes scalar_supported: "scalar_agg (mp_Agg spec) \<Longrightarrow> mr_Scalar repo t m lo hi spec flt \<noteq> Inl (Unsupported x)"
    and series_supported: "fold_agg (mp_Agg spec) \<Longrightarrow> bucket_valid b \<Longrightarrow> mr_Series repo t m lo hi b spec flt \<noteq> Inl (Unsupported x)"
    and raw_supported: "mr_Raw repo t m lo hi path flt limit n \<noteq> Inl (Unsupported x)"
    and grouped_supported: "fold_agg (mp_Agg spec) \<Longrightarrow> mr_Grouped repo t m lo hi g spec flt limit \<noteq> Inl (Unsupported x)"
    and raw_thinned: "mr_Raw repo t m lo hi path flt limit n = Inr (ps, asof) \<Longrightarrow> 0 < n \<Longrightarrow> int (length ps) < limit \<Longrightarrow>
      int (length ps) \<le> n"

lemma Validate_modes:
  assumes "Validate q lo hi limits = Inr mode"
  shows "case mode of
      ModeScalar \<Rightarrow> \<forall>s \<in> set (mq_Metrics q). scalar_agg (mp_Agg s)
    | ModeSeries \<Rightarrow> bucket_valid (mq_Bucket q) \<and> checkBucketCount lo hi (mq_Bucket q) (MaxBuckets limits) \<and>
        (\<forall>s \<in> set (mq_Metrics q). fold_agg (mp_Agg s))
    | ModeRaw \<Rightarrow> length (mq_Metrics q) = 1
    | ModeGrouped \<Rightarrow> groupByFieldPattern (mq_GroupBy q) \<and> length (mq_Metrics q) = 1 \<and> fold_agg (mp_Agg (hd (mq_Metrics q)))"
    and "int (length (mq_Metrics q)) \<le> MaxSpecs limits" "mq_Metrics q \<noteq> []"
    "0 \<le> mq_MaxPoints q" "mq_MaxPoints q \<le> MaxRawPoints limits"
proof -
  have v: "agg_Valid (mp_Agg s)" if "s \<in> set (mq_Metrics q)" for s
    using assms that by (auto simp: Validate_def bad_spec_def split: if_splits)
  show "int (length (mq_Metrics q)) \<le> MaxSpecs limits" "mq_Metrics q \<noteq> []"
    "0 \<le> mq_MaxPoints q" "mq_MaxPoints q \<le> MaxRawPoints limits"
    using assms by (auto simp: Validate_def split: if_splits)
  have raw: "mp_Agg s \<noteq> AggRaw" if "s \<in> set (mq_Metrics q)" "mode \<noteq> ModeRaw" for s
  proof (cases "length (mq_Metrics q) < 2")
    case True
    with that(1) have "mq_Metrics q = [s]" by (cases "mq_Metrics q" rule: remdups_adj.cases) auto
    with assms that(2) show ?thesis by (auto simp: Validate_def Let_def split: if_splits)
  next
    case False
    with assms that show ?thesis by (auto simp: Validate_def Let_def hasRawAmongMultiple_def split: if_splits)
  qed
  have hd: "hd (mq_Metrics q) \<in> set (mq_Metrics q)" using \<open>mq_Metrics q \<noteq> []\<close> by simp
  show "case mode of
      ModeScalar \<Rightarrow> \<forall>s \<in> set (mq_Metrics q). scalar_agg (mp_Agg s)
    | ModeSeries \<Rightarrow> bucket_valid (mq_Bucket q) \<and> checkBucketCount lo hi (mq_Bucket q) (MaxBuckets limits) \<and>
        (\<forall>s \<in> set (mq_Metrics q). fold_agg (mp_Agg s))
    | ModeRaw \<Rightarrow> length (mq_Metrics q) = 1
    | ModeGrouped \<Rightarrow> groupByFieldPattern (mq_GroupBy q) \<and> length (mq_Metrics q) = 1 \<and> fold_agg (mp_Agg (hd (mq_Metrics q)))"
  proof (cases mode)
    case ModeScalar
    with v raw show ?thesis by (auto simp: agg_Valid_def scalar_agg_def)
  next
    case ModeSeries
    with assms have "bucket_valid (mq_Bucket q)" "checkBucketCount lo hi (mq_Bucket q) (MaxBuckets limits)"
      "\<forall>m \<in> set (mq_Metrics q). mp_Agg m \<notin> {AggLast, AggDelta}"
      by (auto simp: Validate_def Let_def split: if_splits)
    with ModeSeries v raw show ?thesis by (auto simp: agg_Valid_def fold_agg_def)
  next
    case ModeRaw
    with assms show ?thesis by (auto simp: Validate_def Let_def split: if_splits)
  next
    case ModeGrouped
    with assms have "groupByFieldPattern (mq_GroupBy q)" "length (mq_Metrics q) = 1"
      "mp_Agg (hd (mq_Metrics q)) \<notin> {AggLast, AggDelta}"
      by (auto simp: Validate_def Let_def split: if_splits)
    with ModeGrouped v [OF hd] raw [OF hd] show ?thesis by (auto simp: agg_Valid_def fold_agg_def)
  qed
qed

lemma Validate_refuses: "Validate q lo hi limits = Inl e \<Longrightarrow> \<exists>c. e = Refuse c"
  by (auto simp: Validate_def Let_def split: if_splits)

lemma ResolveWindow_refuses: "ResolveWindow q now = Inl e \<Longrightarrow> \<exists>c. e = Refuse c"
  by (auto simp: ResolveWindow_def Let_def split: if_splits option.splits)

lemma Query_cases:
  fixes repo :: "'e metrics_repo"
  assumes "Query sched limits repo t q now = r"
  obtains (refused) c where "r = Inl (Refuse c)"
  | (scalar) lo hi where "ResolveWindow q now = (Inr (lo, hi) :: 'e metric_err + time \<times> time)"
      and "Validate q lo hi limits = (Inr ModeScalar :: 'e metric_err + query_mode)"
      and "r = queryScalar sched repo t q lo hi (empty_result ModeScalar (mq_MachineID q) lo hi)"
  | (series) lo hi where "ResolveWindow q now = (Inr (lo, hi) :: 'e metric_err + time \<times> time)"
      and "Validate q lo hi limits = (Inr ModeSeries :: 'e metric_err + query_mode)"
      and "r = querySeries sched repo t q lo hi (empty_result ModeSeries (mq_MachineID q) lo hi)"
  | (raw) lo hi where "ResolveWindow q now = (Inr (lo, hi) :: 'e metric_err + time \<times> time)"
      and "Validate q lo hi limits = (Inr ModeRaw :: 'e metric_err + query_mode)"
      and "r = queryRaw limits repo t q lo hi (empty_result ModeRaw (mq_MachineID q) lo hi)"
  | (grouped) lo hi where "ResolveWindow q now = (Inr (lo, hi) :: 'e metric_err + time \<times> time)"
      and "Validate q lo hi limits = (Inr ModeGrouped :: 'e metric_err + query_mode)"
      and "r = queryGrouped limits repo t q lo hi (empty_result ModeGrouped (mq_MachineID q) lo hi)"
proof (cases "ResolveWindow q now :: 'e metric_err + time \<times> time")
  case (Inl e)
  then obtain c where "e = Refuse c" using ResolveWindow_refuses by blast
  with Inl assms have "r = Inl (Refuse c)" by (simp add: Query_def)
  then show thesis by (rule refused)
next
  case window: (Inr w)
  obtain lo hi where w: "w = (lo, hi)" by (cases w)
  show thesis
  proof (cases "Validate q lo hi limits :: 'e metric_err + query_mode")
    case (Inl e)
    then obtain c where "e = Refuse c" using Validate_refuses by blast
    with Inl window w assms have "r = Inl (Refuse c)" by (simp add: Query_def)
    then show thesis by (rule refused)
  next
    case mode: (Inr mode)
    note run = window [unfolded w] mode
    show thesis
    proof (cases mode)
      case ModeScalar
      with run assms show thesis by (intro scalar [of lo hi]) (simp_all add: Query_def)
    next
      case ModeSeries
      with run assms show thesis by (intro series [of lo hi]) (simp_all add: Query_def)
    next
      case ModeRaw
      with run assms show thesis by (intro raw [of lo hi]) (simp_all add: Query_def)
    next
      case ModeGrouped
      with run assms show thesis by (intro grouped [of lo hi]) (simp_all add: Query_def)
    qed
  qed
qed

context metrics_repository
begin

text \<open>A query that passes the guardrails never meets an aggregation without a pipeline.\<close>

lemma never_unsupported: "Query sched limits repo t q now \<noteq> Inl (Unsupported x)"
proof
  assume "Query sched limits repo t q now = Inl (Unsupported x)"
  then show False
  proof (cases rule: Query_cases)
    case (scalar lo hi)
    with Validate_modes(1) [OF scalar(2)] scalar_supported show False
      by (auto simp: queryScalar_def split: sum.splits dest!: fan_out_Inl)
        (metis (no_types, lifting))
  next
    case (series lo hi)
    with Validate_modes(1) [OF series(2)] series_supported show False
      by (auto simp: querySeries_def split: sum.splits dest!: fan_out_Inl)
        (metis (no_types, lifting))
  next
    case (raw lo hi)
    with raw_supported show False by (auto simp: queryRaw_def Let_def split: sum.splits prod.splits if_splits)
  next
    case (grouped lo hi)
    with Validate_modes(1) [OF grouped(2)] grouped_supported show False
      by (auto simp: queryGrouped_def Let_def split: sum.splits prod.splits if_splits)
  qed simp
qed

lemma bounded:
  assumes "Query sched limits repo t q now = Inr r"
  shows "int (length (qr_Points r)) \<le> (if 0 < mq_MaxPoints q then mq_MaxPoints q else max 0 (MaxRawPoints limits))"
    and "int (length (qr_Groups r)) \<le> max 0 (MaxGroups limits)"
    and "int (length (qr_Results r)) \<le> MaxSpecs limits"
proof -
  have "int (length (qr_Points r)) \<le> (if 0 < mq_MaxPoints q then mq_MaxPoints q else max 0 (MaxRawPoints limits)) \<and>
      int (length (qr_Groups r)) \<le> max 0 (MaxGroups limits) \<and> int (length (qr_Results r)) \<le> MaxSpecs limits"
    using assms
  proof (cases rule: Query_cases)
    case (scalar lo hi)
    then obtain rs where rs: "map (\<lambda>spec. mr_Scalar repo t (mq_MachineID q) lo hi spec (mq_Filter q)) (mq_Metrics q) = map Inr rs"
      and r: "qr_Results r = map fst rs" "qr_Points r = []" "qr_Groups r = []"
      by (auto simp: queryScalar_def empty_result_def fan_out_Inr split: sum.splits)
    have "length rs = length (mq_Metrics q)" using arg_cong [OF rs, of length] by simp
    with r Validate_modes(2) [OF scalar(2)] show ?thesis by simp
  next
    case (series lo hi)
    with Validate_modes(2) [OF series(2)] show ?thesis
      by (auto simp: querySeries_def empty_result_def split: sum.splits)
  next
    case (raw lo hi)
    with Validate_modes(2) [OF raw(2)] show ?thesis
      by (auto simp: queryRaw_def empty_result_def Let_def split: sum.splits prod.splits if_splits dest: raw_thinned)
  next
    case (grouped lo hi)
    with Validate_modes(2) [OF grouped(2)] show ?thesis
      by (auto simp: queryGrouped_def empty_result_def Let_def split: sum.splits prod.splits if_splits)
  qed simp
  then show "int (length (qr_Points r)) \<le> (if 0 < mq_MaxPoints q then mq_MaxPoints q else max 0 (MaxRawPoints limits))"
    "int (length (qr_Groups r)) \<le> max 0 (MaxGroups limits)" "int (length (qr_Results r)) \<le> MaxSpecs limits" by simp_all
qed

end

section \<open>The two repositories\<close>

lemma wrapTimeoutErr_supported [simp]: "wrapTimeoutErr e \<noteq> Unsupported x"
  by (cases e) simp_all

lemma numericAccumulator_fold: "fold_agg a \<Longrightarrow> a \<noteq> AggCount \<Longrightarrow> \<exists>acc. numericAccumulator a = Some acc"
  by (auto simp: fold_agg_def numericAccumulator_def)

lemma scalar_answer_supported [simp]: "scalar_answer spec read answer \<noteq> Inl (Unsupported x)"
  by (auto simp: scalar_answer_def split: sum.split list.split)

lemma length_decimateUniform:
  "0 < maxPoints \<Longrightarrow> int (length (decimateUniform fl points maxPoints)) \<le> maxPoints"
  by (auto simp: decimateUniform_def Let_def)

lemma runSeriesPipeline_supported [simp]: "runSeriesPipeline aggregate pipeline \<noteq> Inl (Unsupported x)"
  by (auto simp: runSeriesPipeline_def split: sum.split)

interpretation mongo: metrics_repository "mongo_metrics fl show_key aggregate distinct_values"
proof unfold_locales
  fix spec :: metric_spec and t m :: string and lo hi :: time and flt x
  assume "scalar_agg (mp_Agg spec)"
  then show "mr_Scalar (mongo_metrics fl show_key aggregate distinct_values) t m lo hi spec flt \<noteq> Inl (Unsupported x)"
    by (auto simp: mongo_metrics_def Scalar_def scalarNumeric_def scalarLast_def scalarDelta_def scalarCount_def
        scalar_agg_def numericAccumulator_def split: option.split)
next
  fix spec :: metric_spec and b t m :: string and lo hi :: time and flt x
  assume f: "fold_agg (mp_Agg spec)" and "bucket_valid b"
  then obtain u where "dateTruncUnit b = Some u"
    by (auto simp: bucket_valid_def bucket_duration_def dateTruncUnit_def split: if_splits)
  with f numericAccumulator_fold [OF f]
  show "mr_Series (mongo_metrics fl show_key aggregate distinct_values) t m lo hi b spec flt \<noteq> Inl (Unsupported x)"
    by (cases "mp_Agg spec = AggCount"; cases u)
      (auto simp: mongo_metrics_def Series_def Let_def)
next
  fix t m path :: string and lo hi :: time and flt limit n x
  show "mr_Raw (mongo_metrics fl show_key aggregate distinct_values) t m lo hi path flt limit n \<noteq> Inl (Unsupported x)"
    by (auto simp: mongo_metrics_def RawQuery_def Let_def split: sum.split)
next
  fix spec :: metric_spec and t m g :: string and lo hi :: time and flt limit x
  assume f: "fold_agg (mp_Agg spec)"
  with numericAccumulator_fold [OF f]
  show "mr_Grouped (mongo_metrics fl show_key aggregate distinct_values) t m lo hi g spec flt limit \<noteq> Inl (Unsupported x)"
    by (cases "mp_Agg spec = AggCount") (auto simp: mongo_metrics_def Grouped_def Let_def split: sum.splits)
next
  fix t m path :: string and lo hi :: time and flt limit n ps asof
  assume "mr_Raw (mongo_metrics fl show_key aggregate distinct_values) t m lo hi path flt limit n = Inr (ps, asof)"
    and "0 < n" and "int (length ps) < limit"
  then show "int (length ps) \<le> n"
    by (auto simp: mongo_metrics_def RawQuery_def Let_def length_decimateUniform split: sum.splits if_splits)
qed

interpretation unavailable: metrics_repository "unavailable_repo e"
  by unfold_locales (simp_all add: unavailable_repo_def unavailable_metrics_def)

section \<open>Tenants\<close>

text \<open>\<open>docs\<close> and \<open>docs'\<close> are two contents of the collection: a pipeline that begins with a match on the
  tenant cannot tell them apart.\<close>

definition sealed ::
  "('d \<Rightarrow> 'e aggregation) \<Rightarrow> ('d \<Rightarrow> string \<Rightarrow> stage \<Rightarrow> 'e driver_err + bson list option) \<Rightarrow> string \<Rightarrow> 'd \<Rightarrow> 'd \<Rightarrow> bool" where
  "sealed run dv t docs docs' \<longleftrightarrow>
     (\<forall>conds rest. (''tenantId'', BStr t) \<in> set conds \<longrightarrow>
        run docs ([(''$match'', BDoc conds)] # rest) = run docs' ([(''$match'', BDoc conds)] # rest)) \<and>
     (\<forall>field conds. (''tenantId'', BStr t) \<in> set conds \<longrightarrow> dv docs field conds = dv docs' field conds)"

lemma matched_tenant:
  "\<exists>conds. applyValueFilter (baseMatch t m lo hi path) flt = [(''$match'', BDoc conds)] \<and> (''tenantId'', BStr t) \<in> set conds"
  by (cases flt; (cases "the flt")?) (auto simp: baseMatch_def)

lemma sealed_run:
  assumes "sealed run dv t docs docs'"
  shows "run docs (applyValueFilter (baseMatch t m lo hi path) flt # rest) =
    run docs' (applyValueFilter (baseMatch t m lo hi path) flt # rest)"
proof -
  obtain conds where c: "applyValueFilter (baseMatch t m lo hi path) flt = [(''$match'', BDoc conds)]"
    "(''tenantId'', BStr t) \<in> set conds"
    using matched_tenant by blast
  with assms show ?thesis by (simp add: sealed_def)
qed

lemma sealed_Scalar: "sealed run dv t docs docs' \<Longrightarrow> Scalar (run docs) t = Scalar (run docs') t"
  by (intro ext) (simp add: Scalar_def scalarNumeric_def scalarLast_def scalarDelta_def scalarCount_def sealed_run
      split: option.split)

lemma sealed_Series: "sealed run dv t docs docs' \<Longrightarrow> Series (run docs) t = Series (run docs') t"
  by (intro ext) (simp add: Series_def runSeriesPipeline_def Let_def sealed_run split: option.split prod.split)

lemma sealed_Raw: "sealed run dv t docs docs' \<Longrightarrow> RawQuery fl (run docs) t = RawQuery fl (run docs') t"
  by (intro ext) (simp add: RawQuery_def sealed_run)

lemma sealed_Grouped: "sealed run dv t docs docs' \<Longrightarrow> Grouped show_key (run docs) t = Grouped show_key (run docs') t"
  by (intro ext) (simp add: Grouped_def Let_def sealed_run split: option.split)

lemma sealed_Catalog: "sealed run dv t docs docs' \<Longrightarrow> Catalog (dv docs) t = Catalog (dv docs') t"
  by (intro ext) (simp add: Catalog_def sealed_def)

lemma sealed_Query:
  assumes s: "sealed run dv t docs docs'"
  shows "Query sched limits (mongo_metrics fl show_key (run docs) (dv docs)) t q now =
   Query sched limits (mongo_metrics fl show_key (run docs') (dv docs')) t q now"
proof -
  let ?R = "mongo_metrics fl show_key (run docs) (dv docs)" and ?R' = "mongo_metrics fl show_key (run docs') (dv docs')"
  have ops: "mr_Scalar ?R t = mr_Scalar ?R' t" "mr_Series ?R t = mr_Series ?R' t" "mr_Raw ?R t = mr_Raw ?R' t"
    "mr_Grouped ?R t = mr_Grouped ?R' t"
    by (simp_all add: mongo_metrics_def sealed_Scalar [OF s] sealed_Series [OF s] sealed_Raw [OF s] sealed_Grouped [OF s])
  have queries: "queryScalar sched ?R t = queryScalar sched ?R' t" "querySeries sched ?R t = querySeries sched ?R' t"
    "queryRaw limits ?R t = queryRaw limits ?R' t" "queryGrouped limits ?R t = queryGrouped limits ?R' t"
    by (intro ext, simp add: queryScalar_def querySeries_def queryRaw_def queryGrouped_def ops)+
  show ?thesis unfolding Query_def queries ..
qed

section \<open>Merging series\<close>

definition results_at :: "(metric_spec \<times> bucket_point list) list \<Rightarrow> time \<Rightarrow> metric_result list" where
  "results_at zs ts =
     concat (map (\<lambda>(spec, points).
       map (\<lambda>p. \<lparr>me_AasPath = mp_AasPath spec, me_Agg = mp_Agg spec, me_Value = bp_Value p, me_SampleCount = bp_SampleCount p\<rparr>)
         (filter (\<lambda>p. bp_Ts p = ts) points)) zs)"

definition instants :: "(metric_spec \<times> bucket_point list) list \<Rightarrow> time set" where
  "instants zs = (\<Union>(spec, points) \<in> set zs. bp_Ts ` set points)"

lemma note_points:
  assumes "distinct order"
  shows "\<exists>order'. fold (note_point spec) points (byTs, order) = (\<lambda>ts. byTs ts @ results_at [(spec, points)] ts, order') \<and>
    distinct order' \<and> set order' = set order \<union> bp_Ts ` set points"
  using assms
proof (induction points arbitrary: byTs order)
  case Nil
  then show ?case by (simp add: results_at_def)
next
  case (Cons p points)
  let ?byTs = "fst (note_point spec p (byTs, order))" and ?order = "snd (note_point spec p (byTs, order))"
  have "distinct ?order" "set ?order = insert (bp_Ts p) (set order)"
    using Cons.prems by (auto simp: note_point_def)
  with Cons.IH [of ?order ?byTs] obtain order' where
    r: "fold (note_point spec) points (?byTs, ?order) = (\<lambda>ts. ?byTs ts @ results_at [(spec, points)] ts, order')"
      "distinct order'" "set order' = insert (bp_Ts p) (set order) \<union> bp_Ts ` set points"
    by auto
  have "(\<lambda>ts. ?byTs ts @ results_at [(spec, points)] ts) = (\<lambda>ts. byTs ts @ results_at [(spec, p # points)] ts)"
    by (auto simp: note_point_def results_at_def)
  with r show ?case by auto
qed

lemma merge_fold:
  assumes "distinct order"
  shows "\<exists>order'. fold (\<lambda>(spec, points). fold (note_point spec) points) zs (byTs, order) =
      (\<lambda>ts. byTs ts @ results_at zs ts, order') \<and> distinct order' \<and> set order' = set order \<union> instants zs"
  using assms
proof (induction zs arbitrary: byTs order)
  case Nil
  then show ?case by (simp add: results_at_def instants_def)
next
  case (Cons z zs)
  obtain spec points where z: "z = (spec, points)" by (cases z)
  obtain order' where r: "fold (note_point spec) points (byTs, order) = (\<lambda>ts. byTs ts @ results_at [z] ts, order')"
    "distinct order'" "set order' = set order \<union> bp_Ts ` set points"
    using note_points [OF Cons.prems] z by blast
  obtain order'' where
    "fold (\<lambda>(spec, points). fold (note_point spec) points) zs ((\<lambda>ts. byTs ts @ results_at [z] ts), order') =
       (\<lambda>ts. (byTs ts @ results_at [z] ts) @ results_at zs ts, order'')"
    "distinct order''" "set order'' = set order' \<union> instants zs"
    using Cons.IH [OF r(2)] by blast
  moreover have "(byTs ts @ results_at [z] ts) @ results_at zs ts = byTs ts @ results_at (z # zs) ts" for ts
    by (simp add: results_at_def)
  moreover have "set order \<union> bp_Ts ` set points \<union> instants zs = set order \<union> instants (z # zs)"
    by (auto simp: instants_def z)
  ultimately show ?case using r z by simp
qed

section \<open>Thinning\<close>

lemma clip: "(if n \<le> a then n - 1 else a) = min (n - 1) (a :: nat)"
  by auto

lemma decimate_nth:
  assumes "2 \<le> maxPoints" "maxPoints < int (length points)" "mono fl" "fl 0 = 0"
  obtains idx where "decimateUniform fl points maxPoints = map (\<lambda>i. points ! idx i) [0..<nat maxPoints]"
    "\<And>i. idx i < length points" "idx 0 = 0" "idx (nat maxPoints - 1) = length points - 1"
    "\<And>i j. i \<le> j \<Longrightarrow> j < nat maxPoints \<Longrightarrow> idx i \<le> idx j"
proof
  let ?n = "length points" and ?m = "nat maxPoints"
  let ?step = "fl (of_nat (?n - 1) / of_int (maxPoints - 1))"
  let ?at = "\<lambda>i. nat \<lfloor>fl (of_nat i * ?step)\<rfloor>"
  let ?idx = "\<lambda>i. if i = ?m - 1 then ?n - 1 else if ?at i \<ge> ?n then ?n - 1 else ?at i"
  show "decimateUniform fl points maxPoints = map (\<lambda>i. points ! ?idx i) [0..<?m]"
    using assms by (auto simp: decimateUniform_def Let_def)
  show "?idx i < ?n" for i using assms by auto
  show "?idx 0 = 0" using assms by auto
  show "?idx (?m - 1) = ?n - 1" by simp
  have "fl 0 \<le> ?step" using assms by (intro monoD [OF assms(3)]) simp
  then have pos: "0 \<le> ?step" using assms by simp
  have "?at i \<le> ?at j" if "i \<le> j" for i j
    using that pos by (intro nat_mono floor_mono monoD [OF assms(3)] mult_right_mono) simp_all
  then have at: "min (?n - 1) (?at i) \<le> min (?n - 1) (?at j)" if "i \<le> j" for i j
    using that by (intro min.mono) simp_all
  have idx: "?idx i = (if i = ?m - 1 then ?n - 1 else min (?n - 1) (?at i))" for i by (simp only: clip)
  show "?idx i \<le> ?idx j" if "i \<le> j" "j < ?m" for i j
  proof (cases "i = ?m - 1 \<or> j = ?m - 1")
    case True
    with that have "j = ?m - 1" by auto
    then show ?thesis by (simp only: idx) simp
  next
    case False
    with at [OF that(1)] show ?thesis by (simp only: idx) simp
  qed
qed

section \<open>Properties\<close>

text \<open>C31. What passes the guardrails can be run: no query, however it is composed, makes the repository answer
  that it has no pipeline for its aggregation or bucket, whatever MongoDB answers and in whatever order the
  goroutines end.\<close>

theorem Query_supported:
  "Query sched limits (mongo_metrics fl show_key aggregate distinct_values) t q now \<noteq> Inl (Unsupported x)"
  by (rule mongo.never_unsupported)

text \<open>C33. The size of an answer is bounded by the guardrails, and by the number of points the caller asks for.\<close>

theorem Query_bounded:
  assumes "Query sched limits (mongo_metrics fl show_key aggregate distinct_values) t q now = Inr r"
  shows "int (length (qr_Points r)) \<le> (if 0 < mq_MaxPoints q then mq_MaxPoints q else max 0 (MaxRawPoints limits)) \<and>
    int (length (qr_Groups r)) \<le> max 0 (MaxGroups limits) \<and> int (length (qr_Results r)) \<le> MaxSpecs limits"
  using mongo.bounded [OF assms] by simp

text \<open>C32. Tenants do not see each other's measurements: two collections with the same documents of a tenant give
  that tenant the same answers, to a query of any mode and to the catalog. What is used of MongoDB is
  that a pipeline that begins with a match runs on the documents that match, that a distinct runs on those its
  filter matches, and that a match on the tenant's id passes only documents with that id.\<close>

theorem Query_isolated:
  fixes run :: "'d list \<Rightarrow> 'e aggregation"
  assumes match_first: "\<And>ds conds rest. run ds ([(''$match'', BDoc conds)] # rest) =
      run (filter (holds conds) ds) ([(''$match'', BDoc conds)] # rest)"
    and distinct_filtered: "\<And>ds field conds. dv ds field conds = dv (filter (holds conds) ds) field conds"
    and by_tenant: "\<And>conds x d. (''tenantId'', BStr x) \<in> set conds \<Longrightarrow> holds conds d \<Longrightarrow> tenant_of d = x"
    and same: "filter (\<lambda>d. tenant_of d = t) docs = filter (\<lambda>d. tenant_of d = t) docs'"
  shows "Query sched limits (mongo_metrics fl show_key (run docs) (dv docs)) t q now =
      Query sched limits (mongo_metrics fl show_key (run docs') (dv docs')) t q now \<and>
    svc_Catalog (mongo_metrics fl show_key (run docs) (dv docs)) t m =
      svc_Catalog (mongo_metrics fl show_key (run docs') (dv docs')) t m"
proof -
  have f: "filter (holds conds) docs = filter (holds conds) docs'" if "(''tenantId'', BStr t) \<in> set conds" for conds
  proof -
    have "filter (holds conds) ds = filter (holds conds) (filter (\<lambda>d. tenant_of d = t) ds)" for ds
      using by_tenant [OF that] by (induction ds) auto
    from this [of docs] this [of docs'] same show ?thesis by simp
  qed
  have s: "sealed run dv t docs docs'"
    unfolding sealed_def
  proof (intro conjI allI impI)
    fix conds rest field
    assume c: "(''tenantId'', BStr t) \<in> set conds"
    show "run docs ([(''$match'', BDoc conds)] # rest) = run docs' ([(''$match'', BDoc conds)] # rest)"
      using match_first [of docs conds rest] match_first [of docs' conds rest] f [OF c] by simp
    show "dv docs field conds = dv docs' field conds"
      using distinct_filtered [of docs field conds] distinct_filtered [of docs' field conds] f [OF c] by simp
  qed
  from sealed_Query [OF s] sealed_Catalog [OF s] show ?thesis
    by (simp add: svc_Catalog_def mongo_metrics_def)
qed

text \<open>C34. The series of several metrics are merged without a loss and without a filler: one point for each
  instant a metric has a point at, in the order of time, with the results of the metrics in the order of the
  query.\<close>

theorem mergeSeries_spec:
  "mergeSeries specs perMetric =
     map (\<lambda>ts. \<lparr>sp_Ts = ts, sp_Results = results_at (zip specs perMetric) ts\<rparr>)
       (sorted_list_of_set (instants (zip specs perMetric)))"
proof -
  obtain order where o: "fold (\<lambda>(spec, points). fold (note_point spec) points) (zip specs perMetric) (\<lambda>_. [], []) =
      (\<lambda>ts. [] @ results_at (zip specs perMetric) ts, order)" "distinct order"
      "set order = instants (zip specs perMetric)"
    using merge_fold [of "[]" "zip specs perMetric" "\<lambda>_. []"] by auto
  then have "sort order = sorted_list_of_set (instants (zip specs perMetric))"
    by (metis sorted_list_of_set_sort_remdups distinct_remdups_id)
  with o show ?thesis by (simp add: mergeSeries_def)
qed

text \<open>The thinning of raw points, with any rounding of float64 that is monotone and exact at zero: it has the
  number of points asked for, all of them measured points, it begins and ends where the data do, and it keeps
  the order of time.\<close>

theorem decimateUniform_faithful:
  fixes points :: "raw_point list"
  assumes "2 \<le> maxPoints" "maxPoints < int (length points)" "mono fl" "fl 0 = 0"
    and "sorted (map rp_Ts points)"
  shows "int (length (decimateUniform fl points maxPoints)) = maxPoints \<and>
    set (decimateUniform fl points maxPoints) \<subseteq> set points \<and>
    hd (decimateUniform fl points maxPoints) = hd points \<and> last (decimateUniform fl points maxPoints) = last points \<and>
    sorted (map rp_Ts (decimateUniform fl points maxPoints))"
proof -
  obtain idx where d: "decimateUniform fl points maxPoints = map (\<lambda>i. points ! idx i) [0..<nat maxPoints]"
    and i: "\<And>i. idx i < length points" "idx 0 = 0" "idx (nat maxPoints - 1) = length points - 1"
      "\<And>i j. i \<le> j \<Longrightarrow> j < nat maxPoints \<Longrightarrow> idx i \<le> idx j"
    using decimate_nth [OF assms(1-4)] by metis
  have "points \<noteq> []" using assms by auto
  moreover have "0 < nat maxPoints" using assms by simp
  ultimately show ?thesis using assms i unfolding d
    by (auto simp: hd_map last_map hd_conv_nth last_conv_nth sorted_iff_nth_mono)
qed

text \<open>The window of a series: the buckets between its ends, the ones of the ends included, are one more than
  the guardrail at most. The one more is there, when the window does not begin on a bucket: the check counts
  the length of the window only.\<close>

theorem buckets_bounded:
  assumes "Validate q lo hi limits = (Inr ModeSeries :: 'e metric_err + query_mode)"
    and "bucket_duration (mq_Bucket q) = Some dur" "lo \<le> hi" "hi - lo < 2 ^ 63"
  shows "int (card ((\<lambda>t. t div dur) ` {lo..hi})) \<le> MaxBuckets limits + 1"
proof -
  have dur: "0 < dur" using assms(2) by (auto simp: bucket_duration_def duration_defs split: if_splits)
  have "(\<lambda>t. t div dur) ` {lo..hi} \<subseteq> {lo div dur..hi div dur}"
    using dur by (auto intro: zdiv_mono1)
  then have "card ((\<lambda>t. t div dur) ` {lo..hi}) \<le> card {lo div dur..hi div dur}"
    by (intro card_mono) simp_all
  also have "int \<dots> = hi div dur - lo div dur + 1" using zdiv_mono1 [OF assms(3) dur] by simp
  also have "\<dots> \<le> (hi - lo) div dur + 2"
  proof -
    have "2 * dur - 1 = (dur - 1) + 1 * dur" by simp
    then have bound: "(2 * dur - 1) div dur = 1" using dur by (simp only: div_mult_self1) simp
    have "(lo mod dur + (hi - lo) mod dur) div dur < 2"
      using zdiv_mono1 [OF _ dur, of "lo mod dur + (hi - lo) mod dur" "2 * dur - 1"]
        pos_mod_bound [OF dur, of lo] pos_mod_bound [OF dur, of "hi - lo"] bound by simp
    with div_add1_eq [of lo "hi - lo" dur] have "hi div dur \<le> lo div dur + (hi - lo) div dur + 1" by simp
    then show ?thesis by simp
  qed
  finally have "int (card ((\<lambda>t. t div dur) ` {lo..hi})) \<le> (hi - lo) div dur + 2" by simp
  moreover have "(hi - lo) div dur + 1 \<le> MaxBuckets limits"
  proof -
    have "checkBucketCount lo hi (mq_Bucket q) (MaxBuckets limits)" using Validate_modes(1) [OF assms(1)] by simp
    moreover have "time_sub hi lo = hi - lo" using assms(3,4) by (simp add: time_sub_def)
    moreover have "go_div (hi - lo) dur = (hi - lo) div dur" using assms(3) dur by (auto simp: go_div_def sgn_if)
    ultimately show ?thesis using assms(2) by (simp add: checkBucketCount_def)
  qed
  ultimately show ?thesis by simp
qed

section \<open>Instances\<close>

definition sample_query :: metric_query where
  "sample_query = \<lparr>mq_MachineID = ''m1'', mq_Range = [], mq_From = Some 0, mq_To = Some (3 * minute), mq_Bucket = [],
     mq_Metrics = [\<lparr>mp_AasPath = ''speed'', mp_Agg = AggRaw\<rparr>], mq_GroupBy = [], mq_Filter = None, mq_MaxPoints = 2\<rparr>"

definition sample_row :: "time \<Rightarrow> row" where
  "sample_row ts = \<lparr>rw_id = BNull, rw_id_time = ts, rw_value = 1, rw_value_int = 1, rw_first = 0, rw_last = 0,
     rw_sampleCount = 1, rw_dataAsOf = ts, rw_ts = ts, rw_payload_value = BInt ts\<rparr>"

definition sample_point :: "time \<Rightarrow> raw_point" where
  "sample_point ts = \<lparr>rp_Ts = ts, rp_Value = BInt ts\<rparr>"

text \<open>Three rows are thinned to the two the caller asks for.\<close>

lemma sample_answer:
  "\<exists>r. Query [] DefaultLimits (mongo_metrics id (\<lambda>_. []) (\<lambda>_. Inr [sample_row 0, sample_row 1, sample_row 2]) d) ''t'' sample_query 9 =
      (Inr r :: unit metric_err + query_result) \<and> length (qr_Points r) = 2"
  by (simp add: Query_def ResolveWindow_def sample_query_def Validate_def bad_spec_def agg_Valid_def aggs
      DefaultLimits_def duration_defs hasRawAmongMultiple_def queryRaw_def mongo_metrics_def RawQuery_def decimateUniform_def
      empty_result_def Let_def)

theorem Query_bounded_instance:
  "\<exists>r. Query [] DefaultLimits (mongo_metrics id (\<lambda>_. []) (\<lambda>_. Inr [sample_row 0, sample_row 1, sample_row 2]) (\<lambda>_ _. Inr None))
      ''t'' sample_query 9 = (Inr r :: unit metric_err + query_result) \<and> int (length (qr_Points r)) \<le> 2"
proof -
  obtain r where "Query [] DefaultLimits (mongo_metrics id (\<lambda>_. []) (\<lambda>_. Inr [sample_row 0, sample_row 1, sample_row 2]) (\<lambda>_ _. Inr None))
      ''t'' sample_query 9 = (Inr r :: unit metric_err + query_result)"
    using sample_answer by blast
  with Query_bounded [OF this] show ?thesis by (simp add: sample_query_def)
qed

text \<open>A collection of pairs of a tenant and an instant; a match is read for its tenant only.\<close>

definition sample_holds :: "stage \<Rightarrow> string \<times> time \<Rightarrow> bool" where
  "sample_holds conds d \<longleftrightarrow> (\<forall>(k, v) \<in> set conds. k = ''tenantId'' \<longrightarrow> v = BStr (fst d))"

fun sample_run :: "(string \<times> time) list \<Rightarrow> unit aggregation" where
  "sample_run ds ([(k, BDoc conds)] # rest) =
     Inr (map (\<lambda>d. sample_row (snd d)) (if k = ''$match'' then filter (sample_holds conds) ds else []))"
| "sample_run ds pipeline = Inr []"

definition sample_distinct :: "(string \<times> time) list \<Rightarrow> string \<Rightarrow> stage \<Rightarrow> unit driver_err + bson list option" where
  "sample_distinct ds field conds = Inr (Some (map (\<lambda>d. BDate (snd d)) (filter (sample_holds conds) ds)))"

theorem Query_isolated_instance:
  "Query [] DefaultLimits (mongo_metrics id (\<lambda>_. []) (sample_run [(''a'', 0), (''b'', 1)])
      (sample_distinct [(''a'', 0), (''b'', 1)])) ''a'' sample_query 9 =
   Query [] DefaultLimits (mongo_metrics id (\<lambda>_. []) (sample_run [(''a'', 0)]) (sample_distinct [(''a'', 0)])) ''a'' sample_query 9"
proof (rule conjunct1 [OF Query_isolated [where holds = sample_holds and tenant_of = fst]])
  show "sample_run ds ([(''$match'', BDoc conds)] # rest) =
      sample_run (filter (sample_holds conds) ds) ([(''$match'', BDoc conds)] # rest)" for ds conds rest
    by simp
  show "sample_distinct ds field conds = sample_distinct (filter (sample_holds conds) ds) field conds" for ds field conds
    by (simp add: sample_distinct_def)
  show "fst d = x" if "(''tenantId'', BStr x) \<in> set conds" "sample_holds conds d" for conds x d
    using that by (auto simp: sample_holds_def)
qed simp

theorem decimateUniform_faithful_instance:
  "last (decimateUniform id (map sample_point [0, 1, 2]) 2) = sample_point 2"
  using decimateUniform_faithful [of 2 "map sample_point [0, 1, 2]" id] by (simp add: sample_point_def mono_def)

definition sample_series :: metric_query where
  "sample_series = sample_query\<lparr>mq_Bucket := ''1m'', mq_Metrics := [\<lparr>mp_AasPath = ''speed'', mp_Agg = AggAvg\<rparr>]\<rparr>"

text \<open>999 minutes and 59 seconds from second 59 pass the check, and lie in 1001 buckets of a minute.\<close>

theorem buckets_bounded_instance:
  "int (card ((\<lambda>t. t div minute) ` {59 * second..59 * second + 999 * minute + 59 * second})) \<le> 1001"
proof -
  have "Validate sample_series (59 * second) (59 * second + 999 * minute + 59 * second) DefaultLimits =
      (Inr ModeSeries :: unit metric_err + query_mode)"
    by (simp add: sample_series_def sample_query_def Validate_def bad_spec_def agg_Valid_def aggs DefaultLimits_def
        duration_defs hasRawAmongMultiple_def checkBucketCount_def bucket_valid_def bucket_duration_def time_sub_def go_div_def Let_def)
  from buckets_bounded [OF this, of minute] show ?thesis
    by (simp add: sample_series_def sample_query_def bucket_duration_def duration_defs DefaultLimits_def)
qed

lemma one_bucket_over:
  "(59 * second + 999 * minute + 59 * second) div minute - (59 * second) div minute + 1 = 1001"
  by (simp add: duration_defs)

end
