(* ===== verification/Logs.thy ===== *)
theory Logs
  imports GoStd "HOL-Library.Product_Lexorder"
begin

text \<open>
  The log of a tenant: the domain (\<open>internal/domain/logs.go\<close>), the repository (\<open>internal/repo/pg/logs\<close>) with
  its cursors, the service (\<open>internal/app/logs\<close>) without its subscribers, which are in theory LogStream, and
  the handlers. The full-text search of Postgres is the parameter \<open>matches\<close>, the JSON text of a cursor the
  parameters \<open>marshal\<close> and \<open>unmarshal\<close>; its base64 is modelled. Log lines and metrics are left out.
\<close>

section \<open>Base64\<close>

text \<open>\<open>base64.StdEncoding\<close> over bytes: three bytes are four digits of six bits, the last group is padded.
  Decoding skips line breaks and does not look at the bits that are left over.\<close>

definition b64_digits :: string where
  "b64_digits = ''ABCDEFGHIJKLMNOPQRSTUVWXYZabcdefghijklmnopqrstuvwxyz0123456789+/''"

definition b64_digit :: "nat \<Rightarrow> char" where
  "b64_digit n = b64_digits ! n"

definition b64_value :: "char \<Rightarrow> nat option" where
  "b64_value c = (let n = length (takeWhile (\<lambda>d. d \<noteq> c) b64_digits) in if n < 64 then Some n else None)"

abbreviation byte :: "char \<Rightarrow> nat" where "byte c \<equiv> of_char c"

fun b64_encode :: "string \<Rightarrow> string" where
  "b64_encode [] = []"
| "b64_encode [a] = [b64_digit (byte a div 4), b64_digit (byte a mod 4 * 16), CHR ''='', CHR ''='']"
| "b64_encode [a, b] = [b64_digit (byte a div 4), b64_digit (byte a mod 4 * 16 + byte b div 16), b64_digit (byte b mod 16 * 4), CHR ''='']"
| "b64_encode (a # b # c # rest) =
     [b64_digit (byte a div 4), b64_digit (byte a mod 4 * 16 + byte b div 16), b64_digit (byte b mod 16 * 4 + byte c div 64),
      b64_digit (byte c mod 64)] @ b64_encode rest"

fun b64_groups :: "string \<Rightarrow> string option" where
  "b64_groups [] = Some []"
| "b64_groups (w # x # y # z # rest) =
     (case (b64_value w, b64_value x) of
        (Some p, Some q) \<Rightarrow>
          (let a = char_of (p * 4 + q div 16) in
           if y = CHR ''='' then (if z = CHR ''='' \<and> rest = [] then Some [a] else None)
           else case b64_value y of
               None \<Rightarrow> None
             | Some r \<Rightarrow>
               (let b = char_of (q mod 16 * 16 + r div 4) in
                if z = CHR ''='' then (if rest = [] then Some [a, b] else None)
                else case b64_value z of
                    None \<Rightarrow> None
                  | Some s \<Rightarrow> map_option (\<lambda>bs. a # b # char_of (r mod 4 * 64 + s) # bs) (b64_groups rest)))
      | _ \<Rightarrow> None)"
| "b64_groups _ = None"

definition b64_decode :: "string \<Rightarrow> string option" where
  "b64_decode s = b64_groups (filter (\<lambda>c. byte c \<noteq> 10 \<and> byte c \<noteq> 13) s)"

lemma b64_value_digit: "n < 64 \<Longrightarrow> b64_value (b64_digit n) = Some n"
proof -
  assume n: "n < 64"
  have "\<forall>n \<in> set [0..<64]. b64_value (b64_digits ! n) = Some n" by code_simp
  with n show ?thesis by (simp add: b64_digit_def)
qed

lemma b64_digit_plain: "n < 64 \<Longrightarrow> byte (b64_digit n) \<noteq> 10 \<and> byte (b64_digit n) \<noteq> 13 \<and> b64_digit n \<noteq> CHR ''=''"
proof -
  assume n: "n < 64"
  have "\<forall>n \<in> set [0..<64]. byte (b64_digits ! n) \<noteq> 10 \<and> byte (b64_digits ! n) \<noteq> 13 \<and> b64_digits ! n \<noteq> CHR ''=''" by code_simp
  with n show ?thesis by (simp add: b64_digit_def)
qed

lemma byte_less: "byte c < 256"
  by simp

lemma b64_bits:
  "byte a div 4 < 64" "byte a mod 4 * 16 < 64" "byte a mod 4 * 16 + byte b div 16 < 64" "byte b mod 16 * 4 < 64"
  "byte b mod 16 * 4 + byte c div 64 < 64" "byte c mod 64 < 64"
proof -
  have "byte b div 16 < 16" "byte c div 64 < 4" using byte_less [of b] byte_less [of c] by (simp_all add: less_mult_imp_div_less)
  moreover have "byte a mod 4 < 4" "byte b mod 16 < 16" by simp_all
  ultimately show "byte a mod 4 * 16 + byte b div 16 < 64" "byte b mod 16 * 4 + byte c div 64 < 64"
    "byte a mod 4 * 16 < 64" "byte b mod 16 * 4 < 64" by linarith+
  show "byte a div 4 < 64" "byte c mod 64 < 64" using byte_less [of a] by (simp_all add: less_mult_imp_div_less)
qed

lemma high_low:
  fixes y :: nat
  assumes "y < k"
  shows "(x * k + y) div k = x" and "(x * k + y) mod k = y"
  using assms by simp_all

lemma b64_joins:
  "byte a div 4 * 4 + (byte a mod 4 * 16 + byte b div 16) div 16 = byte a"
  "(byte a mod 4 * 16 + byte b div 16) mod 16 * 16 + (byte b mod 16 * 4 + byte c div 64) div 4 = byte b"
  "(byte a mod 4 * 16 + byte b div 16) mod 16 * 16 + (byte b mod 16 * 4) div 4 = byte b"
  "(byte b mod 16 * 4 + byte c div 64) mod 4 * 64 + byte c mod 64 = byte c"
  "byte a div 4 * 4 + (byte a mod 4 * 16) div 16 = byte a"
proof -
  have b: "byte b div 16 < 16" and c: "byte c div 64 < 4"
    using byte_less [of b] byte_less [of c] by (simp_all add: less_mult_imp_div_less)
  show "byte a div 4 * 4 + (byte a mod 4 * 16 + byte b div 16) div 16 = byte a"
    by (simp only: high_low [OF b]) simp
  show "(byte a mod 4 * 16 + byte b div 16) mod 16 * 16 + (byte b mod 16 * 4 + byte c div 64) div 4 = byte b"
    by (simp only: high_low [OF b] high_low [OF c]) simp
  show "(byte a mod 4 * 16 + byte b div 16) mod 16 * 16 + (byte b mod 16 * 4) div 4 = byte b"
    by (simp only: high_low [OF b]) simp
  show "(byte b mod 16 * 4 + byte c div 64) mod 4 * 64 + byte c mod 64 = byte c"
    by (simp only: high_low [OF c]) simp
qed simp

lemma char_of_byte: "char_of (byte c) = c"
  by simp

lemma b64_groups_encode: "b64_groups (b64_encode s) = Some s"
proof (induction s rule: b64_encode.induct)
  case (2 a)
  show ?case by (simp only: b64_encode.simps b64_groups.simps b64_value_digit b64_bits b64_joins char_of_byte) simp
next
  case (3 a b)
  show ?case
    by (simp only: b64_encode.simps b64_groups.simps b64_value_digit b64_bits b64_joins char_of_byte
        b64_digit_plain Let_def option.case if_False prod.case) simp
next
  case (4 a b c rest)
  then show ?case
    by (simp only: b64_encode.simps append_Cons append_Nil b64_groups.simps b64_value_digit b64_bits b64_joins char_of_byte
        b64_digit_plain Let_def option.case if_False prod.case) simp
qed simp

lemma b64_encode_lines: "filter (\<lambda>c. byte c \<noteq> 10 \<and> byte c \<noteq> 13) (b64_encode s) = b64_encode s"
  by (induction s rule: b64_encode.induct) (simp_all only: b64_encode.simps append_Cons append_Nil filter.simps b64_digit_plain b64_bits simp_thms if_True, simp_all)

lemma b64_roundtrip: "b64_decode (b64_encode s) = Some s"
  by (simp add: b64_decode_def b64_encode_lines b64_groups_encode)

section \<open>Domain and tables\<close>

datatype log_err = ErrLogNotFound | ErrRetentionNotFound | ErrInvalidCursor | ErrInvalidRetentionDays | LogInternal

record log_entry =
  lo_ID :: uuid
  lo_TenantID :: uuid
  lo_CreatedAt :: time
  lo_Severity :: string
  lo_EventType :: string
  lo_SourceID :: "uuid option"
  lo_MachineID :: "uuid option"
  lo_Message :: string
  lo_Metadata :: "(string \<times> json) list"

record retention_policy =
  rp_TenantID :: uuid
  rp_RetentionDays :: int
  rp_UpdatedAt :: time
  rp_NextPurgeAt :: time

record log_db =
  log_entries :: "log_entry list"
  retention_policies :: "retention_policy list"
  lg_tenants :: "uuid list"

type_synonym 'a log_op = "(log_db world, log_err, 'a) oper"

definition log_severities :: "string list" where
  "log_severities = [''info'', ''warning'', ''critical'', ''error'']"

definition log_event_types :: "string list" where
  "log_event_types =
     [''alarm_triggered'', ''alarm_resolved'', ''device_connected'', ''device_disconnected'', ''device_state_changed'',
      ''user_action'', ''system'']"

section \<open>Repository\<close>

text \<open>\<open>lp_Limit\<close> is the limit of a list and the \<open>MaxRows\<close> of an export, which has no cursor.\<close>

record list_params =
  lp_TenantID :: uuid
  lp_EventType :: string
  lp_Severity :: string
  lp_MachineID :: "uuid option"
  lp_From :: "time option"
  lp_To :: "time option"
  lp_Q :: string
  lp_Cursor :: string
  lp_Limit :: int

type_synonym cursor_data = "time \<times> uuid"

abbreviation log_key :: "log_entry \<Rightarrow> cursor_data" where
  "log_key e \<equiv> (lo_CreatedAt e, lo_ID e)"

definition encodeCursor :: "(cursor_data \<Rightarrow> string) \<Rightarrow> log_entry \<Rightarrow> string" where
  "encodeCursor marshal e = b64_encode (marshal (log_key e))"

definition decodeCursor :: "(string \<Rightarrow> cursor_data option) \<Rightarrow> string \<Rightarrow> log_err + cursor_data" where
  "decodeCursor unmarshal cursor =
     (case b64_decode cursor of
        None \<Rightarrow> Inl ErrInvalidCursor
      | Some raw \<Rightarrow> (case unmarshal raw of None \<Rightarrow> Inl ErrInvalidCursor | Some cd \<Rightarrow> Inr cd))"

text \<open>The clauses of \<open>buildFilterClauses\<close>, joined by AND; an empty or nil filter has no clause.\<close>

definition buildFilterClauses :: "(string \<Rightarrow> string \<Rightarrow> bool) \<Rightarrow> list_params \<Rightarrow> log_entry \<Rightarrow> bool" where
  "buildFilterClauses matches p e \<longleftrightarrow>
     lo_TenantID e = lp_TenantID p \<and>
     (lp_EventType p \<noteq> [] \<longrightarrow> lo_EventType e = lp_EventType p) \<and>
     (lp_Severity p \<noteq> [] \<longrightarrow> lo_Severity e = lp_Severity p) \<and>
     (\<forall>m \<in> set_option (lp_MachineID p). lo_MachineID e = Some m) \<and>
     (\<forall>t \<in> set_option (lp_From p). lo_CreatedAt e \<ge> t) \<and>
     (\<forall>t \<in> set_option (lp_To p). lo_CreatedAt e \<le> t) \<and>
     (lp_Q p \<noteq> [] \<longrightarrow> matches (lo_Message e) (lp_Q p))"

definition newest_first :: "log_entry list \<Rightarrow> log_entry list" where
  "newest_first es = rev (sort_key log_key es)"

text \<open>The count and the page are two statements with the same condition.\<close>

definition count_and_page :: "(log_entry \<Rightarrow> bool) \<Rightarrow> int \<Rightarrow> (log_entry list \<times> nat) log_op" where
  "count_and_page cond limit =
     op_bind (query LogInternal (\<lambda>d. Inr (length (filter cond (log_entries d))))) (\<lambda>total.
     op_bind (query LogInternal (\<lambda>d. Inr (take (nat limit) (newest_first (filter cond (log_entries d)))))) (\<lambda>es.
     op_ret (es, total)))"

definition log_List ::
  "(string \<Rightarrow> string \<Rightarrow> bool) \<Rightarrow> (string \<Rightarrow> cursor_data option) \<Rightarrow> list_params \<Rightarrow> (log_entry list \<times> nat) log_op" where
  "log_List matches unmarshal p =
     (let limit = (if lp_Limit p \<le> 0 \<or> lp_Limit p > 100 then 50 else lp_Limit p)
      in if lp_Cursor p \<noteq> []
         then op_bind (op_of (decodeCursor unmarshal (lp_Cursor p))) (\<lambda>cd.
              count_and_page (\<lambda>e. buildFilterClauses matches p e \<and> log_key e < cd) limit)
         else count_and_page (buildFilterClauses matches p) limit)"

definition log_Get :: "uuid \<Rightarrow> uuid \<Rightarrow> log_entry log_op" where
  "log_Get t i =
     query LogInternal (\<lambda>d. first_row ErrLogNotFound (filter (\<lambda>e. lo_TenantID e = t \<and> lo_ID e = i) (log_entries d)))"

definition log_GetContext :: "uuid \<Rightarrow> uuid \<Rightarrow> int \<Rightarrow> (log_entry list \<times> log_entry \<times> log_entry list) log_op" where
  "log_GetContext t i windowSize =
     op_bind (log_Get t i) (\<lambda>anchor.
     op_bind (query LogInternal (\<lambda>d. Inr (take (nat windowSize)
       (newest_first (filter (\<lambda>e. lo_TenantID e = t \<and> log_key e < log_key anchor) (log_entries d)))))) (\<lambda>before.
     op_bind (query LogInternal (\<lambda>d. Inr (take (nat windowSize)
       (sort_key log_key (filter (\<lambda>e. lo_TenantID e = t \<and> log_key e > log_key anchor) (log_entries d)))))) (\<lambda>after.
     op_ret (rev before, anchor, after))))"

definition log_Export :: "(string \<Rightarrow> string \<Rightarrow> bool) \<Rightarrow> list_params \<Rightarrow> (log_entry list \<times> nat) log_op" where
  "log_Export matches p =
     count_and_page (buildFilterClauses matches p) (if lp_Limit p \<le> 0 then 50000 else lp_Limit p)"

text \<open>The id is drawn by the database.\<close>

definition log_Write :: "time \<Rightarrow> uuid \<Rightarrow> log_entry \<Rightarrow> log_entry log_op" where
  "log_Write now newID e =
     stmt LogInternal (\<lambda>d.
       let row = e\<lparr>lo_ID := newID, lo_CreatedAt := now\<rparr>
       in if lo_Severity e \<notin> set log_severities \<or> lo_EventType e \<notin> set log_event_types \<or>
             lo_TenantID e \<notin> set (lg_tenants d) \<or> newID \<in> lo_ID ` set (log_entries d)
          then (Inl LogInternal, d)
          else (Inr row, d\<lparr>log_entries := log_entries d @ [row]\<rparr>))"

definition log_GetRetention :: "uuid \<Rightarrow> retention_policy log_op" where
  "log_GetRetention t =
     query LogInternal (\<lambda>d. first_row ErrRetentionNotFound (filter (\<lambda>p. rp_TenantID p = t) (retention_policies d)))"

definition UpsertRetention :: "time \<Rightarrow> uuid \<Rightarrow> int \<Rightarrow> retention_policy log_op" where
  "UpsertRetention now t days =
     stmt LogInternal (\<lambda>d.
       let row = \<lparr>rp_TenantID = t, rp_RetentionDays = days, rp_UpdatedAt = now, rp_NextPurgeAt = now + 24 * hour\<rparr>
       in if days \<le> 0 \<or> days \<ge> 2 ^ 31 \<or> t \<notin> set (lg_tenants d) then (Inl LogInternal, d)
          else if t \<in> rp_TenantID ` set (retention_policies d)
          then (Inr row, d\<lparr>retention_policies := update_where (\<lambda>p. rp_TenantID p = t) (\<lambda>_. row) (retention_policies d)\<rparr>)
          else (Inr row, d\<lparr>retention_policies := retention_policies d @ [row]\<rparr>))"

section \<open>Service\<close>

record list_result =
  lr_Entries :: "log_entry list"
  lr_Total :: nat
  lr_NextCursor :: "string option"

definition page_limit :: "list_params \<Rightarrow> int" where
  "page_limit p = (if lp_Limit p \<le> 0 \<or> lp_Limit p > 100 then 50 else lp_Limit p)"

definition ListLogs ::
  "(string \<Rightarrow> string \<Rightarrow> bool) \<Rightarrow> (cursor_data \<Rightarrow> string) \<Rightarrow> (string \<Rightarrow> cursor_data option) \<Rightarrow> list_params \<Rightarrow> list_result log_op"
where
  "ListLogs matches marshal unmarshal p =
     op_bind (log_List matches unmarshal (p\<lparr>lp_Limit := page_limit p\<rparr>)) (\<lambda>(entries, total).
     op_ret \<lparr>lr_Entries = entries, lr_Total = total,
       lr_NextCursor = (if int (length entries) = page_limit p then Some (encodeCursor marshal (last entries)) else None)\<rparr>)"

definition GetLog :: "uuid \<Rightarrow> uuid \<Rightarrow> log_entry log_op" where
  "GetLog t i = log_Get t i"

definition GetLogContext :: "uuid \<Rightarrow> uuid \<Rightarrow> int \<Rightarrow> (log_entry list \<times> log_entry \<times> log_entry list) log_op" where
  "GetLogContext t i windowSize =
     log_GetContext t i (if windowSize \<le> 0 \<or> windowSize > 50 then 10 else windowSize)"

record export_result =
  ex_Entries :: "log_entry list"
  ex_TotalAvailable :: nat
  ex_Truncated :: bool

definition maxExport :: nat where
  "maxExport = 50000"

definition ExportLogs :: "(string \<Rightarrow> string \<Rightarrow> bool) \<Rightarrow> list_params \<Rightarrow> export_result log_op" where
  "ExportLogs matches p =
     op_bind (log_Export matches (p\<lparr>lp_Limit := int maxExport + 1\<rparr>)) (\<lambda>(entries, total).
     let truncated = length entries > maxExport
     in op_ret \<lparr>ex_Entries = (if truncated then take maxExport entries else entries), ex_TotalAvailable = total,
          ex_Truncated = truncated\<rparr>)"

text \<open>The zero \<open>time.Time\<close> is 0 here.\<close>

definition GetRetention :: "uuid \<Rightarrow> retention_policy log_op" where
  "GetRetention t =
     op_try (log_GetRetention t)
       (\<lambda>e. if e = ErrRetentionNotFound
            then op_ret \<lparr>rp_TenantID = t, rp_RetentionDays = 90, rp_UpdatedAt = 0, rp_NextPurgeAt = 0\<rparr>
            else op_fail e)
       op_ret"

definition UpdateRetention :: "time \<Rightarrow> uuid \<Rightarrow> int \<Rightarrow> retention_policy log_op" where
  "UpdateRetention now t days =
     (if days < 1 \<or> days > 3650 then op_fail ErrInvalidRetentionDays else UpsertRetention now t days)"

section \<open>Handlers\<close>

text \<open>\<open>header\<close> is X-Tenant-ID. The query is None when it does not bind; its \<open>lp_TenantID\<close> and \<open>lp_MachineID\<close> are
  not read, the machine is the text \<open>machine\<close>. A bound body has days from 1 to 3650.\<close>

type_synonym 'a log_answer = "(log_db world, nat, 'a) oper"

definition parseTenantID :: "(string \<Rightarrow> uuid option) \<Rightarrow> string \<Rightarrow> nat + uuid" where
  "parseTenantID parse raw =
     (if raw = [] then Inl 401 else case parse raw of None \<Rightarrow> Inl 400 | Some i \<Rightarrow> Inr i)"

definition validateSeverity :: "string \<Rightarrow> bool" where
  "validateSeverity s \<longleftrightarrow> s = [] \<or> s \<in> set log_severities"

definition validateEventType :: "string \<Rightarrow> bool" where
  "validateEventType s \<longleftrightarrow> s = [] \<or> s \<in> set log_event_types"

definition filters_ok :: "list_params \<Rightarrow> bool" where
  "filters_ok p \<longleftrightarrow> validateSeverity (lp_Severity p) \<and> validateEventType (lp_EventType p) \<and>
     \<not> (case (lp_From p, lp_To p) of (Some a, Some b) \<Rightarrow> a > b | _ \<Rightarrow> False)"

definition repo_params :: "(string \<Rightarrow> uuid option) \<Rightarrow> uuid \<Rightarrow> string \<Rightarrow> list_params \<Rightarrow> list_params option" where
  "repo_params parse t machine p =
     (if machine = [] then Some (p\<lparr>lp_TenantID := t, lp_MachineID := None\<rparr>)
      else case parse machine of None \<Rightarrow> None | Some m \<Rightarrow> Some (p\<lparr>lp_TenantID := t, lp_MachineID := Some m\<rparr>))"

definition ListLogs_handler ::
  "(string \<Rightarrow> string \<Rightarrow> bool) \<Rightarrow> (cursor_data \<Rightarrow> string) \<Rightarrow> (string \<Rightarrow> cursor_data option) \<Rightarrow> (string \<Rightarrow> uuid option) \<Rightarrow>
     string \<Rightarrow> string \<Rightarrow> list_params option \<Rightarrow> list_result log_answer"
where
  "ListLogs_handler matches marshal unmarshal parse header machine qry =
     op_bind (op_of (parseTenantID parse header)) (\<lambda>t.
     case qry of
       None \<Rightarrow> op_fail 400
     | Some p \<Rightarrow>
         if \<not> filters_ok p then op_fail 400
         else case repo_params parse t machine p of
             None \<Rightarrow> op_fail 400
           | Some rp \<Rightarrow> op_try (ListLogs matches marshal unmarshal rp)
               (\<lambda>e. op_fail (if e = ErrInvalidCursor then 400 else 500)) op_ret)"

definition ExportLogs_handler ::
  "(string \<Rightarrow> string \<Rightarrow> bool) \<Rightarrow> (string \<Rightarrow> uuid option) \<Rightarrow> string \<Rightarrow> string \<Rightarrow> list_params option \<Rightarrow> export_result log_answer"
where
  "ExportLogs_handler matches parse header machine qry =
     op_bind (op_of (parseTenantID parse header)) (\<lambda>t.
     case qry of
       None \<Rightarrow> op_fail 400
     | Some p \<Rightarrow>
         if \<not> filters_ok p then op_fail 400
         else case repo_params parse t machine p of
             None \<Rightarrow> op_fail 400
           | Some rp \<Rightarrow> op_try (ExportLogs matches rp) (\<lambda>_. op_fail 500) op_ret)"

definition GetLog_handler :: "(string \<Rightarrow> uuid option) \<Rightarrow> string \<Rightarrow> string \<Rightarrow> log_entry log_answer" where
  "GetLog_handler parse header i =
     op_bind (op_of (parseTenantID parse header)) (\<lambda>t.
     case parse i of
       None \<Rightarrow> op_fail 400
     | Some i' \<Rightarrow> op_try (GetLog t i') (\<lambda>e. op_fail (if e = ErrLogNotFound then 404 else 500)) op_ret)"

definition GetLogContext_handler ::
  "(string \<Rightarrow> uuid option) \<Rightarrow> string \<Rightarrow> string \<Rightarrow> int option \<Rightarrow> (log_entry list \<times> log_entry \<times> log_entry list) log_answer" where
  "GetLogContext_handler parse header i windowSize =
     op_bind (op_of (parseTenantID parse header)) (\<lambda>t.
     case parse i of
       None \<Rightarrow> op_fail 400
     | Some i' \<Rightarrow> (case windowSize of
         None \<Rightarrow> op_fail 400
       | Some n \<Rightarrow> op_try (GetLogContext t i' n) (\<lambda>e. op_fail (if e = ErrLogNotFound then 404 else 500)) op_ret))"

definition GetRetention_handler :: "(string \<Rightarrow> uuid option) \<Rightarrow> string \<Rightarrow> retention_policy log_answer" where
  "GetRetention_handler parse header =
     op_bind (op_of (parseTenantID parse header)) (\<lambda>t. op_try (GetRetention t) (\<lambda>_. op_fail 500) op_ret)"

definition UpdateRetention_handler ::
  "(string \<Rightarrow> uuid option) \<Rightarrow> time \<Rightarrow> string \<Rightarrow> int option \<Rightarrow> retention_policy log_answer" where
  "UpdateRetention_handler parse now header body =
     op_bind (op_of (parseTenantID parse header)) (\<lambda>t.
     case body of
       None \<Rightarrow> op_fail 400
     | Some days \<Rightarrow> op_try (UpdateRetention now t days)
         (\<lambda>e. op_fail (if e = ErrInvalidRetentionDays then 400 else 500)) op_ret)"

section \<open>Order\<close>

declare less_prod_simp [simp del] less_eq_prod_simp [simp del]

lemma distinct_keys: "distinct (map lo_ID es) \<Longrightarrow> distinct (map log_key es)"
  by (induction es) auto

lemma chronology_strict:
  assumes "distinct (map lo_ID es)"
  shows "sorted_wrt (\<lambda>a b. log_key a < log_key b) (sort_key log_key es)"
proof -
  have "sorted (map log_key (sort_key log_key es))" by (rule sorted_sort_key)
  moreover have "distinct (map log_key (sort_key log_key es))"
    using distinct_keys [OF assms] by (simp add: distinct_map)
  ultimately have "sorted_wrt (<) (map log_key (sort_key log_key es))" by (simp only: strict_sorted_iff)
  then show ?thesis by (simp only: sorted_wrt_map)
qed

lemma newest_first_strict:
  "distinct (map lo_ID es) \<Longrightarrow> sorted_wrt (\<lambda>a b. log_key b < log_key a) (newest_first es)"
  unfolding newest_first_def sorted_wrt_rev by (rule chronology_strict)

lemma newest_first_filter: "newest_first (filter P es) = filter P (newest_first es)"
  by (simp only: newest_first_def filter_sort rev_filter [symmetric])

lemma length_newest_first [simp]: "length (newest_first es) = length es"
  by (simp add: newest_first_def)

lemma after_cursor:
  assumes "sorted_wrt (\<lambda>a b. log_key b < log_key a) (xs @ c # ys)"
  shows "filter (\<lambda>e. log_key e < log_key c) (xs @ c # ys) = ys"
proof -
  have "\<forall>x \<in> set xs. log_key c < log_key x" "\<forall>y \<in> set ys. log_key y < log_key c"
    using assms by (auto simp: sorted_wrt_append)
  then have "filter (\<lambda>e. log_key e < log_key c) xs = []" "filter (\<lambda>e. log_key e < log_key c) ys = ys"
    by (auto simp: filter_empty_conv filter_id_conv)
  then show ?thesis by simp
qed

section \<open>Pages\<close>

lemma page_limit_bounds: "0 < page_limit p" "page_limit p \<le> 100"
  by (auto simp: page_limit_def)

lemma page_limit_idem [simp]: "page_limit (p\<lparr>lp_Cursor := c\<rparr>) = page_limit p"
  by (simp add: page_limit_def)

lemma filter_clauses_cursor [simp]:
  "buildFilterClauses matches (p\<lparr>lp_Cursor := c\<rparr>) = buildFilterClauses matches p"
  "buildFilterClauses matches (p\<lparr>lp_Limit := n\<rparr>) = buildFilterClauses matches p"
  by (auto simp: buildFilterClauses_def)

lemma count_and_page_calm:
  assumes "\<And>n. \<not> outage w n"
  shows "\<exists>w'. count_and_page cond limit w =
      (Inr (take (nat limit) (newest_first (filter cond (log_entries (tables w)))), length (filter cond (log_entries (tables w)))), w') \<and>
    tables w' = tables w \<and> outage w' = outage w"
  using assms by (auto simp: count_and_page_def op_bind_def query_def stmt_def)

text \<open>What is left of the matching entries after a cursor.\<close>

definition rest_after :: "(string \<Rightarrow> string \<Rightarrow> bool) \<Rightarrow> list_params \<Rightarrow> cursor_data option \<Rightarrow> log_db \<Rightarrow> log_entry list" where
  "rest_after matches p cd d =
     newest_first (filter (\<lambda>e. buildFilterClauses matches p e \<and> (\<forall>c \<in> set_option cd. log_key e < c)) (log_entries d))"

lemma ListLogs_calm:
  assumes "\<And>n. \<not> outage w n"
    and cd: "case cd of None \<Rightarrow> lp_Cursor p = []
      | Some c \<Rightarrow> lp_Cursor p \<noteq> [] \<and> decodeCursor unmarshal (lp_Cursor p) = Inr c"
  shows "\<exists>w'. ListLogs matches marshal unmarshal p w =
      (Inr \<lparr>lr_Entries = take (nat (page_limit p)) (rest_after matches p cd (tables w)),
         lr_Total = length (rest_after matches p cd (tables w)),
         lr_NextCursor = (if nat (page_limit p) \<le> length (rest_after matches p cd (tables w))
            then Some (encodeCursor marshal (last (take (nat (page_limit p)) (rest_after matches p cd (tables w))))) else None)\<rparr>, w') \<and>
    tables w' = tables w \<and> outage w' = outage w"
proof -
  let ?p = "p\<lparr>lp_Limit := page_limit p\<rparr>"
  let ?cond = "\<lambda>e. buildFilterClauses matches p e \<and> (\<forall>c \<in> set_option cd. log_key e < c)"
  have limit: "\<not> page_limit p \<le> 0" "\<not> page_limit p > 100" using page_limit_bounds [of p] by simp_all
  have "log_List matches unmarshal ?p w = count_and_page ?cond (page_limit p) w"
    using cd limit by (cases cd) (simp_all add: log_List_def)
  with count_and_page_calm [OF assms(1), of ?cond "page_limit p"] limit show ?thesis
    by (auto simp: ListLogs_def op_bind_def rest_after_def min_def)
qed

text \<open>A client that follows the cursors.\<close>

fun log_pages ::
  "(string \<Rightarrow> string \<Rightarrow> bool) \<Rightarrow> (cursor_data \<Rightarrow> string) \<Rightarrow> (string \<Rightarrow> cursor_data option) \<Rightarrow> nat \<Rightarrow> list_params \<Rightarrow>
     log_db world \<Rightarrow> list_result list option"
where
  "log_pages matches marshal unmarshal 0 p w = None"
| "log_pages matches marshal unmarshal (Suc n) p w =
     (case ListLogs matches marshal unmarshal p w of
        (Inl e, w') \<Rightarrow> None
      | (Inr r, w') \<Rightarrow> (case lr_NextCursor r of
            None \<Rightarrow> Some [r]
          | Some c \<Rightarrow> map_option (Cons r) (log_pages matches marshal unmarshal n (p\<lparr>lp_Cursor := c\<rparr>) w')))"

lemma b64_encode_Nil: "b64_encode s = [] \<longleftrightarrow> s = []"
  by (cases s rule: b64_encode.cases) auto

lemma rest_after_last:
  assumes "distinct (map lo_ID (log_entries d))" and "xs \<noteq> []" and "rest_after matches p cd d = xs @ ys"
  shows "rest_after matches p (Some (log_key (last xs))) d = ys"
proof -
  have split: "xs @ ys = butlast xs @ last xs # ys" using assms(2) by simp
  have strict: "sorted_wrt (\<lambda>a b. log_key b < log_key a) (rest_after matches p cd d)"
    unfolding rest_after_def by (intro newest_first_strict distinct_map_filter assms(1))
  have below: "log_key (last xs) < c" if "c \<in> set_option cd" for c
  proof -
    have "last xs \<in> set (rest_after matches p cd d)" using assms(2,3) by simp
    with that show ?thesis by (auto simp: rest_after_def newest_first_def)
  qed
  have "rest_after matches p (Some (log_key (last xs))) d = filter (\<lambda>e. log_key e < log_key (last xs)) (rest_after matches p cd d)"
    unfolding rest_after_def newest_first_filter [symmetric] filter_filter
    by (intro arg_cong [where f = newest_first] filter_cong) (auto intro: less_trans [OF _ below])
  also have "\<dots> = ys"
    using after_cursor [of "butlast xs" "last xs" ys] strict unfolding assms(3) split by simp
  finally show ?thesis .
qed

lemma log_pages_from:
  assumes "\<And>c. unmarshal (marshal c) = Some c" and "unmarshal [] = None"
    and "\<And>n. \<not> outage w n" and "distinct (map lo_ID (log_entries (tables w)))"
    and "case cd of None \<Rightarrow> lp_Cursor p = []
      | Some c \<Rightarrow> lp_Cursor p \<noteq> [] \<and> decodeCursor unmarshal (lp_Cursor p) = Inr c"
    and "length (rest_after matches p cd (tables w)) < n"
  shows "\<exists>rs. log_pages matches marshal unmarshal n p w = Some rs \<and>
    concat (map lr_Entries rs) = rest_after matches p cd (tables w) \<and>
    (\<forall>r \<in> set rs. int (length (lr_Entries r)) \<le> page_limit p)"
  using assms(3-)
proof (induction n arbitrary: p cd w)
  case (Suc n)
  let ?rest = "rest_after matches p cd (tables w)" and ?k = "nat (page_limit p)"
  have k: "0 < ?k" using page_limit_bounds [of p] by simp
  obtain r w' where run: "ListLogs matches marshal unmarshal p w = (Inr r, w')" "tables w' = tables w" "outage w' = outage w"
    and r: "lr_Entries r = take ?k ?rest" "lr_NextCursor r =
      (if ?k \<le> length ?rest then Some (encodeCursor marshal (last (take ?k ?rest))) else None)"
    using ListLogs_calm [OF Suc.prems(1,3), of matches marshal] by (auto simp: fun_eq_iff)
  show ?case
  proof (cases "?k \<le> length ?rest")
    case False
    with run r k show ?thesis by simp
  next
    case True
    let ?page = "take ?k ?rest" and ?p = "p\<lparr>lp_Cursor := encodeCursor marshal (last (take ?k ?rest))\<rparr>"
    let ?cd = "Some (log_key (last ?page))"
    have page: "?page \<noteq> []" using True k by (metis length_0_conv length_take min.absorb2 less_irrefl)
    have "marshal c \<noteq> []" for c using assms(1) [of c] assms(2) by auto
    then have cd: "lp_Cursor ?p \<noteq> []" "decodeCursor unmarshal (lp_Cursor ?p) = Inr (log_key (last ?page))"
      by (simp_all add: encodeCursor_def b64_encode_Nil decodeCursor_def b64_roundtrip assms(1))
    have p: "rest_after matches ?p ?cd (tables w') = drop ?k ?rest"
      using rest_after_last [OF Suc.prems(2) page, of matches p cd "drop ?k ?rest"] run(2) by (simp add: rest_after_def)
    have "length (rest_after matches ?p ?cd (tables w')) < n" unfolding p using Suc.prems(4) k True by simp
    moreover have "\<not> outage w' m" for m using Suc.prems(1) run(3) by simp
    ultimately obtain rs where "log_pages matches marshal unmarshal n ?p w' = Some rs"
      "concat (map lr_Entries rs) = drop ?k ?rest" "\<forall>r \<in> set rs. int (length (lr_Entries r)) \<le> page_limit p"
      using Suc.IH [of w' ?p ?cd] cd Suc.prems(2) run(2) p by auto
    with run r True k show ?thesis by simp
  qed
qed simp

section \<open>Properties\<close>

text \<open>A cursor is read back as the position it was made from.\<close>

theorem decode_encode_cursor:
  assumes "\<And>c. unmarshal (marshal c) = Some c"
  shows "decodeCursor unmarshal (encodeCursor marshal e) = Inr (log_key e)"
  by (simp add: decodeCursor_def encodeCursor_def b64_roundtrip assms)

text \<open>C35. Following the cursors ends and lists every matching entry exactly once, the newest first, on pages no longer
  than the limit, as long as the log stays as it is and the database answers. Used of the JSON of a
  cursor: that it is read back, and that no cursor has an empty text.\<close>

theorem log_pages_complete:
  assumes "\<And>c. unmarshal (marshal c) = Some c" and "unmarshal [] = None"
    and "\<And>n. \<not> outage w n" and "distinct (map lo_ID (log_entries (tables w)))" and "lp_Cursor p = []"
  shows "\<exists>rs. log_pages matches marshal unmarshal (Suc (length (filter (buildFilterClauses matches p) (log_entries (tables w))))) p w = Some rs \<and>
    concat (map lr_Entries rs) = newest_first (filter (buildFilterClauses matches p) (log_entries (tables w))) \<and>
    (\<forall>r \<in> set rs. int (length (lr_Entries r)) \<le> page_limit p)"
  using log_pages_from [OF assms(1-4), where cd = None and p = p and matches = matches] assms(5)
  by (auto simp: rest_after_def simp del: log_pages.simps)

text \<open>The context of an entry is a window of the tenant's log in the order of time, the entry inside, as wide on
  both sides as asked for unless the log ends.\<close>

theorem log_context_window:
  assumes run: "GetLogContext t i n w = (Inr (before, anchor, after), w')" and "distinct (map lo_ID (log_entries (tables w)))"
    and "1 \<le> n" and "n \<le> 50"
  shows "\<exists>older newer. sort_key log_key (filter (\<lambda>e. lo_TenantID e = t) (log_entries (tables w))) =
      older @ before @ anchor # after @ newer \<and> lo_ID anchor = i \<and>
    int (length before) \<le> n \<and> int (length after) \<le> n \<and>
    (older = [] \<or> int (length before) = n) \<and> (newer = [] \<or> int (length after) = n)"
proof -
  let ?E = "log_entries (tables w)" and ?T = "\<lambda>e. lo_TenantID e = t"
  let ?C = "sort_key log_key (filter ?T ?E)"
  have n: "\<not> (n \<le> 0 \<or> 50 < n)" using assms(3,4) by simp
  obtain found where a: "first_row ErrLogNotFound (filter (\<lambda>e. lo_TenantID e = t \<and> lo_ID e = i) ?E) = Inr anchor"
    and before: "before = rev (take (nat n) (newest_first (filter (\<lambda>e. ?T e \<and> log_key e < log_key anchor) ?E)))"
    and after: "after = take (nat n) (sort_key log_key (filter (\<lambda>e. ?T e \<and> log_key e > log_key anchor) ?E))"
    and found: "found = anchor"
    using run n unfolding GetLogContext_def log_GetContext_def log_Get_def by (auto simp: op_bind_Inr_iff query_Inr)
  have anchor: "anchor \<in> set ?C" "lo_ID anchor = i"
    using first_row_mem [OF a] by simp_all
  then obtain xs ys where C: "?C = xs @ anchor # ys" by (meson split_list)
  have strict: "sorted_wrt (\<lambda>a b. log_key a < log_key b) (xs @ anchor # ys)"
    using chronology_strict [OF distinct_map_filter [OF assms(2), of ?T]] C by simp
  then have "\<forall>x \<in> set xs. log_key x < log_key anchor" "\<forall>y \<in> set ys. log_key anchor < log_key y"
    by (auto simp: sorted_wrt_append)
  then have "filter (\<lambda>e. log_key e < log_key anchor) (xs @ anchor # ys) = xs"
    "filter (\<lambda>e. log_key e > log_key anchor) (xs @ anchor # ys) = ys"
    by (fastforce simp: filter_empty_conv filter_id_conv)+
  then have "sort_key log_key (filter (\<lambda>e. ?T e \<and> log_key e < log_key anchor) ?E) = xs"
    "sort_key log_key (filter (\<lambda>e. ?T e \<and> log_key e > log_key anchor) ?E) = ys"
    unfolding C [symmetric] filter_sort filter_filter by (simp_all add: conj_commute)
  then have "before = rev (take (nat n) (rev xs))" "after = take (nat n) ys"
    using before after by (simp_all add: newest_first_def)
  then have b: "before = drop (length xs - nat n) xs" and a: "after = take (nat n) ys" by (simp_all add: rev_take)
  show ?thesis
  proof (intro exI conjI)
    show "?C = take (length xs - nat n) xs @ before @ anchor # after @ drop (nat n) ys" unfolding a b C by simp
    show "take (length xs - nat n) xs = [] \<or> int (length before) = n" unfolding b using assms(3) by auto
    show "drop (nat n) ys = [] \<or> int (length after) = n" unfolding a using assms(3) by auto
  qed (use anchor assms(3) in \<open>simp_all add: a b\<close>)
qed

text \<open>An export is the newest entries that match, and says whether some were left out.\<close>

theorem export_exact:
  assumes "ExportLogs matches p w = (Inr r, w')"
  shows "ex_Entries r = take maxExport (newest_first (filter (buildFilterClauses matches p) (log_entries (tables w)))) \<and>
    (ex_Truncated r \<longleftrightarrow> length (ex_Entries r) < ex_TotalAvailable r)"
  using assms
  by (auto simp: ExportLogs_def log_Export_def count_and_page_def op_bind_Inr_iff query_Inr Let_def maxExport_def min_def
      split: if_splits)

section \<open>Instances\<close>

definition sample_marshal :: "cursor_data \<Rightarrow> string" where
  "sample_marshal c = (if fst c < 0 then CHR ''-'' else CHR ''+'') # replicate (nat \<bar>fst c\<bar>) CHR ''a'' @ replicate (unat (snd c)) CHR ''b''"

fun sample_unmarshal :: "string \<Rightarrow> cursor_data option" where
  "sample_unmarshal [] = None"
| "sample_unmarshal (s # cs) =
     Some ((if s = CHR ''-'' then -1 else 1) * int (length (takeWhile (\<lambda>c. c = CHR ''a'') cs)),
       of_nat (length (dropWhile (\<lambda>c. c = CHR ''a'') cs)))"

lemma sample_cursor: "sample_unmarshal (sample_marshal c) = Some c"
proof -
  have "takeWhile (\<lambda>c. c = CHR ''a'') (replicate n CHR ''a'' @ replicate m CHR ''b'') = replicate n CHR ''a''"
    "dropWhile (\<lambda>c. c = CHR ''a'') (replicate n CHR ''a'' @ replicate m CHR ''b'') = replicate m CHR ''b''" for n m
    by (induction n; cases m; simp)+
  then show ?thesis by (cases c) (simp add: sample_marshal_def)
qed

definition sample_entry :: "uuid \<Rightarrow> time \<Rightarrow> log_entry" where
  "sample_entry i at = \<lparr>lo_ID = i, lo_TenantID = 1, lo_CreatedAt = at, lo_Severity = ''info'', lo_EventType = ''system'',
     lo_SourceID = None, lo_MachineID = None, lo_Message = ''m'', lo_Metadata = []\<rparr>"

definition sample_log :: log_db where
  "sample_log = \<lparr>log_entries = [sample_entry 1 5, sample_entry 2 5, sample_entry 3 4], retention_policies = [], lg_tenants = [1]\<rparr>"

definition sample_params :: list_params where
  "sample_params = \<lparr>lp_TenantID = 1, lp_EventType = [], lp_Severity = [], lp_MachineID = None, lp_From = None, lp_To = None,
     lp_Q = [], lp_Cursor = [], lp_Limit = 2\<rparr>"

lemma sample_match: "filter (buildFilterClauses matches sample_params) (log_entries sample_log) = log_entries sample_log"
  by (simp add: buildFilterClauses_def sample_params_def sample_log_def sample_entry_def)

lemma sample_order: "sort_key log_key (log_entries sample_log) = [sample_entry 3 4, sample_entry 1 5, sample_entry 2 5]"
  by (simp add: sample_log_def sample_entry_def less_prod_simp less_eq_prod_simp)

theorem decode_encode_cursor_instance:
  "decodeCursor sample_unmarshal (encodeCursor sample_marshal (sample_entry 3 4)) = Inr (4, 3)"
  using decode_encode_cursor [of sample_unmarshal sample_marshal, OF sample_cursor, of "sample_entry 3 4"]
  by (simp add: sample_entry_def)

theorem log_pages_complete_instance:
  "\<exists>rs. log_pages (\<lambda>_ _. True) sample_marshal sample_unmarshal 4 sample_params (live sample_log) = Some rs \<and>
     concat (map lr_Entries rs) = [sample_entry 2 5, sample_entry 1 5, sample_entry 3 4]"
proof -
  have "Suc (length (log_entries sample_log)) = 4" by (simp add: sample_log_def)
  moreover have "newest_first (log_entries sample_log) = [sample_entry 2 5, sample_entry 1 5, sample_entry 3 4]"
    by (simp add: newest_first_def sample_order)
  moreover have "distinct (map lo_ID (log_entries sample_log))" by (simp add: sample_log_def sample_entry_def)
  moreover have "lp_Cursor sample_params = []" by (simp add: sample_params_def)
  ultimately show ?thesis
    using log_pages_complete [of sample_unmarshal sample_marshal "live sample_log" sample_params "\<lambda>_ _. True"]
    by (auto simp: sample_cursor sample_match simp del: log_pages.simps)
qed

theorem log_context_window_instance:
  "\<exists>w'. GetLogContext 1 1 1 (live sample_log) = (Inr ([sample_entry 3 4], sample_entry 1 5, [sample_entry 2 5]), w') \<and>
     int (length [sample_entry 3 4]) \<le> 1"
proof -
  have "\<exists>w'. GetLogContext 1 1 1 (live sample_log) = (Inr ([sample_entry 3 4], sample_entry 1 5, [sample_entry 2 5]), w')"
    by (simp add: GetLogContext_def log_GetContext_def log_Get_def op_bind_def query_def stmt_def live_def newest_first_def
        sample_log_def sample_entry_def less_prod_simp less_eq_prod_simp)
  then obtain w' where run: "GetLogContext 1 1 1 (live sample_log) = (Inr ([sample_entry 3 4], sample_entry 1 5, [sample_entry 2 5]), w')"
    by blast
  have "distinct (map lo_ID (log_entries sample_log))" by (simp add: sample_log_def sample_entry_def)
  with log_context_window [OF run] run show ?thesis by auto
qed

end
