(* ===== verification/LogStream.thy ===== *)
theory LogStream
  imports Logs
begin

text \<open>
  The subscribers of a log (\<open>internal/app/logs/service.go\<close>) and the stream handler that reads for them. The
  channels of a tenant are a slice, and slices share their arrays: \<open>Publish\<close> copies the slice under the
  lock and sends without it, \<open>Unsubscribe\<close> moves the elements of the same array. So the arrays are a
  store, and \<open>hub_step\<close> interleaves the sends of publishers with the operations under the lock.
\<close>

section \<open>State\<close>

text \<open>\<open>sc_tenant\<close> and \<open>hb_home\<close> only record for which tenant a channel and an array were made, and \<open>sc_seen\<close>
  what the handler has read of the channel.\<close>

record sub_chan =
  sc_buffer :: "log_entry list"
  sc_closed :: bool
  sc_seen :: "log_entry list"
  sc_tenant :: uuid

text \<open>\<open>hb_arrays\<close> are the cells of an array that were written so far, \<open>hb_cap\<close> its capacity; a slice is an array
  and a length. \<open>hb_panic\<close>: a goroutine has sent on a closed channel.\<close>

record log_hub =
  hb_arrays :: "nat \<Rightarrow> nat list"
  hb_cap :: "nat \<Rightarrow> nat"
  hb_home :: "nat \<Rightarrow> uuid"
  hb_next :: nat
  hb_slices :: "uuid \<Rightarrow> (nat \<times> nat) option"
  hb_chans :: "nat \<Rightarrow> sub_chan"
  hb_nchans :: nat
  hb_panic :: bool

definition no_chan :: sub_chan where
  "no_chan = \<lparr>sc_buffer = [], sc_closed = False, sc_seen = [], sc_tenant = 0\<rparr>"

definition New :: log_hub where
  "New = \<lparr>hb_arrays = (\<lambda>_. []), hb_cap = (\<lambda>_. 0), hb_home = (\<lambda>_. 0), hb_next = 0, hb_slices = (\<lambda>_. None),
     hb_chans = (\<lambda>_. no_chan), hb_nchans = 0, hb_panic = False\<rparr>"

definition channel_capacity :: nat where
  "channel_capacity = 64"

section \<open>Operations\<close>

text \<open>\<open>append\<close> of one element: in place when the capacity allows it, else in a new array whose capacity,
  \<open>grow\<close>, is the runtime's choice.\<close>

definition slice_append :: "(nat \<Rightarrow> nat) \<Rightarrow> uuid \<Rightarrow> nat \<Rightarrow> log_hub \<Rightarrow> log_hub" where
  "slice_append grow t ch h =
     (let (a, n) = opt_or (hb_slices h t) (hb_next h, 0)
      in if hb_slices h t \<noteq> None \<and> n < hb_cap h a
         then h\<lparr>hb_arrays := (hb_arrays h)(a := take n (hb_arrays h a) @ ch # drop (Suc n) (hb_arrays h a)),
                hb_slices := (hb_slices h)(t \<mapsto> (a, Suc n))\<rparr>
         else h\<lparr>hb_arrays := (hb_arrays h)(hb_next h := take n (hb_arrays h a) @ [ch]),
                hb_cap := (hb_cap h)(hb_next h := max (Suc n) (grow n)),
                hb_home := (hb_home h)(hb_next h := t),
                hb_slices := (hb_slices h)(t \<mapsto> (hb_next h, Suc n)),
                hb_next := Suc (hb_next h)\<rparr>)"

definition Subscribe :: "(nat \<Rightarrow> nat) \<Rightarrow> uuid \<Rightarrow> log_hub \<Rightarrow> nat \<times> log_hub" where
  "Subscribe grow t h =
     (let ch = hb_nchans h;
          h' = h\<lparr>hb_chans := (hb_chans h)(ch := no_chan\<lparr>sc_tenant := t\<rparr>), hb_nchans := Suc ch\<rparr>
      in (ch, slice_append grow t ch h'))"

text \<open>\<open>append(channels[:i], channels[i+1:]...)\<close> moves the elements behind \<open>i\<close> in the array itself; the last one
  stays in its place too.\<close>

definition array_remove :: "nat \<Rightarrow> nat \<Rightarrow> nat list \<Rightarrow> nat list" where
  "array_remove i n xs = take i xs @ drop (Suc i) (take n xs) @ drop (n - 1) xs"

definition Unsubscribe :: "uuid \<Rightarrow> nat \<Rightarrow> log_hub \<Rightarrow> log_hub" where
  "Unsubscribe t ch h =
     (case hb_slices h t of
        None \<Rightarrow> h
      | Some (a, n) \<Rightarrow>
          (let channels = take n (hb_arrays h a); i = length (takeWhile (\<lambda>c. c \<noteq> ch) channels)
           in if i < n \<and> i < length channels
              then h\<lparr>hb_arrays := (hb_arrays h)(a := array_remove i n (hb_arrays h a)),
                     hb_slices := (hb_slices h)(t \<mapsto> (a, n - 1)),
                     hb_chans := (hb_chans h)(ch := (hb_chans h ch)\<lparr>sc_closed := True\<rparr>)\<rparr>
              else h))"

text \<open>A publisher: the slice it copied, the next index, the entry.\<close>

type_synonym publisher = "(nat \<times> nat) \<times> nat \<times> log_entry"

definition Publish_begin :: "uuid \<Rightarrow> log_entry \<Rightarrow> log_hub \<Rightarrow> publisher" where
  "Publish_begin t e h = (opt_or (hb_slices h t) (0, 0), 0, e)"

definition send :: "nat \<Rightarrow> log_entry \<Rightarrow> log_hub \<Rightarrow> log_hub" where
  "send ch e h =
     (let c = hb_chans h ch
      in if sc_closed c then h\<lparr>hb_panic := True\<rparr>
         else if length (sc_buffer c) < channel_capacity
         then h\<lparr>hb_chans := (hb_chans h)(ch := c\<lparr>sc_buffer := sc_buffer c @ [e]\<rparr>)\<rparr>
         else h)"

definition Publish_send :: "publisher \<Rightarrow> log_hub \<Rightarrow> log_hub" where
  "Publish_send p h = (case p of ((a, n), k, e) \<Rightarrow> send (hb_arrays h a ! k) e h)"

text \<open>The publisher that nobody interrupts.\<close>

fun publish_loop :: "nat \<Rightarrow> publisher \<Rightarrow> log_hub \<Rightarrow> log_hub" where
  "publish_loop 0 p h = h"
| "publish_loop (Suc m) ((a, n), k, e) h =
     (if k < n then publish_loop m ((a, n), Suc k, e) (Publish_send ((a, n), k, e) h) else h)"

definition Publish :: "uuid \<Rightarrow> log_entry \<Rightarrow> log_hub \<Rightarrow> log_hub" where
  "Publish t e h = (case Publish_begin t e h of ((a, n), k, x) \<Rightarrow> publish_loop n ((a, n), k, x) h)"

text \<open>\<open>Write\<close> stores the entry and publishes what was stored.\<close>

definition Write :: "time \<Rightarrow> uuid \<Rightarrow> log_entry \<Rightarrow> log_db world \<times> log_hub \<Rightarrow> (log_err + unit) \<times> log_db world \<times> log_hub" where
  "Write now newID e s =
     (case log_Write now newID e (fst s) of
        (Inl err, w) \<Rightarrow> (Inl err, w, snd s)
      | (Inr x, w) \<Rightarrow> (Inr (), w, Publish (lo_TenantID x) x (snd s)))"

text \<open>One round of the stream: the handler takes the oldest entry of its channel.\<close>

definition StreamLogs_receive :: "nat \<Rightarrow> log_hub \<Rightarrow> log_hub" where
  "StreamLogs_receive ch h =
     (let c = hb_chans h ch
      in case sc_buffer c of
           [] \<Rightarrow> h
         | e # es \<Rightarrow> h\<lparr>hb_chans := (hb_chans h)(ch := c\<lparr>sc_buffer := es, sc_seen := sc_seen c @ [e]\<rparr>)\<rparr>)"

inductive hub_step :: "log_hub \<times> publisher list \<Rightarrow> log_hub \<times> publisher list \<Rightarrow> bool" where
  hs_subscribe: "hub_step (h, ps) (snd (Subscribe grow t h), ps)"
| hs_unsubscribe: "hub_step (h, ps) (Unsubscribe t ch h, ps)"
| hs_publish: "hub_step (h, ps) (h, Publish_begin (lo_TenantID e) e h # ps)"
| hs_send: "((a, n), k, e) \<in> set ps \<Longrightarrow> k < n \<Longrightarrow>
    hub_step (h, ps) (Publish_send ((a, n), k, e) h, ((a, n), Suc k, e) # remove1 ((a, n), k, e) ps)"
| hs_receive: "hub_step (h, ps) (StreamLogs_receive ch h, ps)"

section \<open>Invariant\<close>

definition arrays_ok :: "log_hub \<Rightarrow> bool" where
  "arrays_ok h \<longleftrightarrow>
     (\<forall>a. \<forall>c \<in> set (hb_arrays h a). c < hb_nchans h \<and> sc_tenant (hb_chans h c) = hb_home h a) \<and>
     (\<forall>t a n. hb_slices h t = Some (a, n) \<longrightarrow> a < hb_next h \<and> hb_home h a = t \<and> n \<le> length (hb_arrays h a))"

definition publishers_ok :: "log_hub \<Rightarrow> publisher list \<Rightarrow> bool" where
  "publishers_ok h ps \<longleftrightarrow>
     (\<forall>a n k e. ((a, n), k, e) \<in> set ps \<longrightarrow> n = 0 \<or> a < hb_next h \<and> hb_home h a = lo_TenantID e \<and> n \<le> length (hb_arrays h a))"

definition chans_ok :: "log_hub \<Rightarrow> bool" where
  "chans_ok h \<longleftrightarrow>
     (\<forall>c. (\<forall>e \<in> set (sc_seen (hb_chans h c) @ sc_buffer (hb_chans h c)). lo_TenantID e = sc_tenant (hb_chans h c)) \<and>
          length (sc_buffer (hb_chans h c)) \<le> channel_capacity)"

definition hub_ok :: "log_hub \<times> publisher list \<Rightarrow> bool" where
  "hub_ok s \<longleftrightarrow> arrays_ok (fst s) \<and> publishers_ok (fst s) (snd s) \<and> chans_ok (fst s)"

lemma array_remove_set: "set (array_remove i n xs) \<subseteq> set xs"
  by (auto simp: array_remove_def dest: in_set_takeD in_set_dropD)

lemma array_remove_length: "i < n \<Longrightarrow> n \<le> length xs \<Longrightarrow> length (array_remove i n xs) = length xs"
  by (simp add: array_remove_def)

lemma New_ok: "hub_ok (New, [])"
  by (simp add: hub_ok_def arrays_ok_def publishers_ok_def chans_ok_def New_def no_chan_def)

text \<open>An array only grows, and what it is for does not change.\<close>

lemma publishers_ok_mono:
  assumes "publishers_ok h ps" and "hb_next h \<le> hb_next h'"
    and "\<And>a. a < hb_next h \<Longrightarrow> hb_home h' a = hb_home h a \<and> length (hb_arrays h a) \<le> length (hb_arrays h' a)"
  shows "publishers_ok h' ps"
  unfolding publishers_ok_def
proof (intro allI impI)
  fix a n k e
  assume "((a, n), k, e) \<in> set ps"
  with assms(1) have "n = 0 \<or> a < hb_next h \<and> hb_home h a = lo_TenantID e \<and> n \<le> length (hb_arrays h a)"
    by (simp add: publishers_ok_def)
  with assms(2) assms(3) [of a] show "n = 0 \<or> a < hb_next h' \<and> hb_home h' a = lo_TenantID e \<and> n \<le> length (hb_arrays h' a)"
    by auto
qed

lemma arrays_okI:
  assumes "\<And>a c. c \<in> set (hb_arrays h a) \<Longrightarrow> c < hb_nchans h \<and> sc_tenant (hb_chans h c) = hb_home h a"
    and "\<And>t a n. hb_slices h t = Some (a, n) \<Longrightarrow> a < hb_next h \<and> hb_home h a = t \<and> n \<le> length (hb_arrays h a)"
  shows "arrays_ok h"
  using assms by (simp add: arrays_ok_def)

lemma arrays_okD:
  assumes "arrays_ok h"
  shows "c \<in> set (hb_arrays h a) \<Longrightarrow> c < hb_nchans h \<and> sc_tenant (hb_chans h c) = hb_home h a"
    and "hb_slices h t = Some (a, n) \<Longrightarrow> a < hb_next h \<and> hb_home h a = t \<and> n \<le> length (hb_arrays h a)"
  using assms by (simp_all add: arrays_ok_def)

lemma send_arrays [simp]:
  "hb_arrays (send ch e h) = hb_arrays h" "hb_home (send ch e h) = hb_home h" "hb_next (send ch e h) = hb_next h"
  "hb_slices (send ch e h) = hb_slices h" "hb_nchans (send ch e h) = hb_nchans h"
  "sc_tenant (hb_chans (send ch e h) c) = sc_tenant (hb_chans h c)"
  by (auto simp: send_def Let_def)

lemma receive_arrays [simp]:
  "hb_arrays (StreamLogs_receive ch h) = hb_arrays h" "hb_home (StreamLogs_receive ch h) = hb_home h"
  "hb_next (StreamLogs_receive ch h) = hb_next h" "hb_slices (StreamLogs_receive ch h) = hb_slices h"
  "hb_nchans (StreamLogs_receive ch h) = hb_nchans h"
  "sc_tenant (hb_chans (StreamLogs_receive ch h) c) = sc_tenant (hb_chans h c)"
  by (auto simp: StreamLogs_receive_def Let_def split: list.split)

lemma receive_ok: "chans_ok h \<Longrightarrow> chans_ok (StreamLogs_receive ch h)"
  by (cases "sc_buffer (hb_chans h ch)") (auto simp: chans_ok_def StreamLogs_receive_def Let_def dest: spec [of _ ch])

lemma send_ok: "chans_ok h \<Longrightarrow> lo_TenantID e = sc_tenant (hb_chans h ch) \<Longrightarrow> chans_ok (send ch e h)"
  by (auto simp: chans_ok_def send_def Let_def)

lemma unsubscribe_ok:
  assumes "hub_ok (h, ps)"
  shows "hub_ok (Unsubscribe t ch h, ps)"
proof (cases "Unsubscribe t ch h = h")
  case False
  then obtain a n i where s: "hb_slices h t = Some (a, n)" and i: "i < n"
    and h': "Unsubscribe t ch h = h\<lparr>hb_arrays := (hb_arrays h)(a := array_remove i n (hb_arrays h a)),
      hb_slices := (hb_slices h)(t \<mapsto> (a, n - 1)), hb_chans := (hb_chans h)(ch := (hb_chans h ch)\<lparr>sc_closed := True\<rparr>)\<rparr>"
    by (auto simp: Unsubscribe_def Let_def split: option.splits if_splits)
  have n: "n \<le> length (hb_arrays h a)" using s assms by (simp add: hub_ok_def arrays_ok_def)
  note len = array_remove_length [OF i n]
  have ok: "arrays_ok h" using assms by (simp add: hub_ok_def)
  have "arrays_ok (Unsubscribe t ch h)"
  proof (rule arrays_okI)
    fix b c
    assume "c \<in> set (hb_arrays (Unsubscribe t ch h) b)"
    then have "c \<in> set (hb_arrays h b)"
      using array_remove_set [of i n "hb_arrays h a"] by (auto simp: h' split: if_splits)
    from arrays_okD(1) [OF ok this]
    show "c < hb_nchans (Unsubscribe t ch h) \<and> sc_tenant (hb_chans (Unsubscribe t ch h) c) = hb_home (Unsubscribe t ch h) b"
      by (auto simp: h')
  next
    fix u b m
    assume "hb_slices (Unsubscribe t ch h) u = Some (b, m)"
    then have "u = t \<and> b = a \<and> m = n - 1 \<or> hb_slices h u = Some (b, m)" by (auto simp: h' split: if_splits)
    with arrays_okD(2) [OF ok] s n have "b < hb_next h \<and> hb_home h b = u \<and> m \<le> length (hb_arrays h b)" by fastforce
    then show "b < hb_next (Unsubscribe t ch h) \<and> hb_home (Unsubscribe t ch h) b = u \<and> m \<le> length (hb_arrays (Unsubscribe t ch h) b)"
      by (auto simp: h' len)
  qed
  moreover have "publishers_ok (Unsubscribe t ch h) ps"
    by (rule publishers_ok_mono [of h]) (use assms in \<open>auto simp: h' hub_ok_def len\<close>)
  moreover have "chans_ok (Unsubscribe t ch h)" using assms by (simp add: h' hub_ok_def chans_ok_def)
  ultimately show ?thesis by (simp add: hub_ok_def)
qed (use assms in simp)

lemma subscribe_ok:
  assumes "hub_ok (h, ps)"
  shows "hub_ok (snd (Subscribe grow t h), ps)"
proof -
  let ?ch = "hb_nchans h"
  let ?h = "h\<lparr>hb_chans := (hb_chans h)(?ch := no_chan\<lparr>sc_tenant := t\<rparr>), hb_nchans := Suc ?ch\<rparr>"
  define g where "g = slice_append grow t ?ch ?h"
  obtain a n where s: "opt_or (hb_slices h t) (hb_next h, 0) = (a, n)" by fastforce
  have n: "hb_slices h t = Some (a, n) \<and> a < hb_next h \<and> hb_home h a = t \<and> n \<le> length (hb_arrays h a) \<or>
      hb_slices h t = None \<and> n = 0"
    using s assms by (cases "hb_slices h t") (auto simp: hub_ok_def arrays_ok_def)
  have old: "c < ?ch \<and> sc_tenant (hb_chans h c) = hb_home h b" if "c \<in> set (hb_arrays h b)" for b c
    using that assms by (auto simp: hub_ok_def arrays_ok_def)
  have slices: "b < hb_next h \<and> hb_home h b = u \<and> m \<le> length (hb_arrays h b)" if "hb_slices h u = Some (b, m)" for u b m
    using that assms by (auto simp: hub_ok_def arrays_ok_def)
  have chans: "chans_ok g"
    using assms by (auto simp: hub_ok_def chans_ok_def g_def slice_append_def Let_def no_chan_def split: prod.split)
  show ?thesis
  proof (cases "hb_slices h t \<noteq> None \<and> n < hb_cap h a")
    case True
    then have h': "g = ?h\<lparr>hb_arrays := (hb_arrays h)(a := take n (hb_arrays h a) @ ?ch # drop (Suc n) (hb_arrays h a)),
        hb_slices := (hb_slices h)(t \<mapsto> (a, Suc n))\<rparr>"
      using s by (simp add: g_def slice_append_def)
    have a: "a < hb_next h" "hb_home h a = t" "n \<le> length (hb_arrays h a)" using n True by auto
    have "arrays_ok g"
    proof (rule arrays_okI)
      fix b c
      assume "c \<in> set (hb_arrays g b)"
      then have "b = a \<and> c = ?ch \<or> c \<in> set (hb_arrays h b)"
        by (auto simp: h' split: if_splits dest: in_set_takeD in_set_dropD)
      with old [of c b] a show "c < hb_nchans g \<and> sc_tenant (hb_chans g c) = hb_home g b"
        by (auto simp: h' no_chan_def)
    next
      fix u b m
      assume "hb_slices g u = Some (b, m)"
      then have "u = t \<and> b = a \<and> m = Suc n \<or> hb_slices h u = Some (b, m)" by (auto simp: h' split: if_splits)
      with slices [of u b m] a show "b < hb_next g \<and> hb_home g b = u \<and> m \<le> length (hb_arrays g b)"
        by (auto simp: h')
    qed
    moreover have "publishers_ok g ps"
      by (rule publishers_ok_mono [of h]) (use assms a in \<open>auto simp: h' hub_ok_def\<close>)
    ultimately show ?thesis using chans by (simp add: hub_ok_def Subscribe_def Let_def g_def)
  next
    case False
    then have h': "g = ?h\<lparr>hb_arrays := (hb_arrays h)(hb_next h := take n (hb_arrays h a) @ [?ch]),
        hb_cap := (hb_cap h)(hb_next h := max (Suc n) (grow n)), hb_home := (hb_home h)(hb_next h := t),
        hb_slices := (hb_slices h)(t \<mapsto> (hb_next h, Suc n)), hb_next := Suc (hb_next h)\<rparr>"
      using s by (auto simp: g_def slice_append_def)
    have taken: "c < ?ch \<and> sc_tenant (hb_chans h c) = t" if "c \<in> set (take n (hb_arrays h a))" for c
      using n old [of c a] in_set_takeD [OF that] that by auto
    have "arrays_ok g"
    proof (rule arrays_okI)
      fix b c
      assume "c \<in> set (hb_arrays g b)"
      then have "b = hb_next h \<and> (c = ?ch \<or> c \<in> set (take n (hb_arrays h a))) \<or> b \<noteq> hb_next h \<and> c \<in> set (hb_arrays h b)"
        by (auto simp: h' split: if_splits)
      with old [of c b] taken [of c] show "c < hb_nchans g \<and> sc_tenant (hb_chans g c) = hb_home g b"
        by (auto simp: h' no_chan_def)
    next
      fix u b m
      assume "hb_slices g u = Some (b, m)"
      then have "u = t \<and> b = hb_next h \<and> m = Suc n \<or> hb_slices h u = Some (b, m) \<and> u \<noteq> t" by (auto simp: h' split: if_splits)
      with slices [of u b m] n show "b < hb_next g \<and> hb_home g b = u \<and> m \<le> length (hb_arrays g b)"
        by (auto simp: h')
    qed
    moreover have "publishers_ok g ps"
      by (rule publishers_ok_mono [of h]) (use assms in \<open>auto simp: h' hub_ok_def\<close>)
    ultimately show ?thesis using chans by (simp add: hub_ok_def Subscribe_def Let_def g_def)
  qed
qed

lemma hub_step_ok:
  assumes "hub_step s s'" and "hub_ok s"
  shows "hub_ok s'"
  using assms(1)
proof cases
  case (hs_subscribe h ps grow t)
  with assms(2) subscribe_ok show ?thesis by simp
next
  case (hs_unsubscribe h ps t ch)
  with assms(2) unsubscribe_ok show ?thesis by simp
next
  case (hs_publish h ps e)
  have "publishers_ok h (Publish_begin (lo_TenantID e) e h # ps)"
    using assms(2) hs_publish
    by (cases "hb_slices h (lo_TenantID e)") (auto simp: hub_ok_def publishers_ok_def Publish_begin_def arrays_ok_def)
  with assms(2) hs_publish show ?thesis by (simp add: hub_ok_def)
next
  case (hs_send a n k e ps h)
  let ?ch = "hb_arrays h a ! k"
  have p: "a < hb_next h" "hb_home h a = lo_TenantID e" "n \<le> length (hb_arrays h a)"
    using assms(2) hs_send by (auto simp: hub_ok_def publishers_ok_def)
  have "?ch \<in> set (hb_arrays h a)" using p(3) hs_send(4) by simp
  then have "lo_TenantID e = sc_tenant (hb_chans h ?ch)"
    using arrays_okD(1) [of h ?ch a] assms(2) hs_send p by (simp add: hub_ok_def)
  then have "chans_ok (send ?ch e h)" using assms(2) hs_send send_ok by (simp add: hub_ok_def)
  moreover have "arrays_ok (send ?ch e h)" using assms(2) hs_send by (simp add: hub_ok_def arrays_ok_def)
  moreover have "publishers_ok (send ?ch e h) (((a, n), Suc k, e) # remove1 ((a, n), k, e) ps)"
    unfolding publishers_ok_def
  proof (intro allI impI)
    fix b m j x
    assume "((b, m), j, x) \<in> set (((a, n), Suc k, e) # remove1 ((a, n), k, e) ps)"
    then have "((b, m), j, x) = ((a, n), Suc k, e) \<or> ((b, m), j, x) \<in> set ps" by (auto dest: notin_set_remove1)
    with p assms(2) hs_send(1) show "m = 0 \<or> b < hb_next (send ?ch e h) \<and> hb_home (send ?ch e h) b = lo_TenantID x \<and>
        m \<le> length (hb_arrays (send ?ch e h) b)"
      by (auto simp: hub_ok_def publishers_ok_def)
  qed
  ultimately show ?thesis using hs_send by (simp add: hub_ok_def Publish_send_def)
next
  case (hs_receive h ps ch)
  with assms(2) receive_ok [of h ch] show ?thesis by (simp add: hub_ok_def arrays_ok_def publishers_ok_def)
qed

section \<open>Open channels\<close>

text \<open>The channels of a slice are open and all different.\<close>

definition slices_open :: "log_hub \<Rightarrow> bool" where
  "slices_open h \<longleftrightarrow> (\<forall>t a n. hb_slices h t = Some (a, n) \<longrightarrow> distinct (take n (hb_arrays h a)) \<and>
     (\<forall>c \<in> set (take n (hb_arrays h a)). \<not> sc_closed (hb_chans h c)))"

lemma closed_frame [simp]:
  "sc_closed (hb_chans (send ch e h) c) = sc_closed (hb_chans h c)"
  "sc_closed (hb_chans (StreamLogs_receive ch h) c) = sc_closed (hb_chans h c)"
  by (auto simp: send_def StreamLogs_receive_def Let_def split: list.split)

lemma subscribe_open:
  assumes "hub_ok (h, ps)" and "slices_open h"
  shows "slices_open (snd (Subscribe grow t h))"
proof -
  let ?ch = "hb_nchans h" and ?g = "snd (Subscribe grow t h)"
  obtain a n where s: "opt_or (hb_slices h t) (hb_next h, 0) = (a, n)" by fastforce
  have ok: "arrays_ok h" using assms(1) by (simp add: hub_ok_def)
  have n: "n \<le> length (hb_arrays h a)" "distinct (take n (hb_arrays h a))"
    "\<And>c. c \<in> set (take n (hb_arrays h a)) \<Longrightarrow> \<not> sc_closed (hb_chans h c) \<and> c < ?ch"
    using s assms(2) arrays_okD [OF ok]
    by (cases "hb_slices h t"; force simp: slices_open_def dest: in_set_takeD)+
  show ?thesis unfolding slices_open_def
  proof (intro allI impI)
    fix u b m
    assume u: "hb_slices ?g u = Some (b, m)"
    show "distinct (take m (hb_arrays ?g b)) \<and> (\<forall>c \<in> set (take m (hb_arrays ?g b)). \<not> sc_closed (hb_chans ?g c))"
    proof (cases "u = t")
      case True
      then have "take m (hb_arrays ?g b) = take n (hb_arrays h a) @ [?ch]"
        using u s n(1) by (auto simp: Subscribe_def slice_append_def Let_def split: if_splits)
      moreover have "sc_closed (hb_chans ?g c) = (c \<noteq> ?ch \<and> sc_closed (hb_chans h c))" for c
        by (simp add: Subscribe_def slice_append_def Let_def no_chan_def split: prod.split)
      ultimately show ?thesis using n by auto
    next
      case False
      have old: "hb_slices h u = Some (b, m)" using u s False by (auto simp: Subscribe_def slice_append_def Let_def split: if_splits)
      note b = arrays_okD(2) [OF ok old]
      have "hb_arrays ?g b = hb_arrays h b"
        using b s False arrays_okD(2) [OF ok, of t a n]
        by (cases "hb_slices h t") (auto simp: Subscribe_def slice_append_def Let_def)
      moreover have "sc_closed (hb_chans ?g c) = (c \<noteq> ?ch \<and> sc_closed (hb_chans h c))" for c
        by (simp add: Subscribe_def slice_append_def Let_def no_chan_def split: prod.split)
      ultimately show ?thesis using old assms(2) by (auto simp: slices_open_def)
    qed
  qed
qed

lemma array_remove_take:
  assumes "i < n" "n \<le> length xs"
  shows "take (n - 1) (array_remove i n xs) = take i xs @ drop (Suc i) (take n xs)"
  using assms by (simp add: array_remove_def)

lemma distinct_without:
  assumes "distinct (take n xs)" "i < n" "n \<le> length xs"
  shows "distinct (take i xs @ drop (Suc i) (take n xs)) \<and> xs ! i \<notin> set (take i xs @ drop (Suc i) (take n xs)) \<and>
    set (take i xs @ drop (Suc i) (take n xs)) \<subseteq> set (take n xs)"
proof -
  have "take n xs = take i (take n xs) @ take n xs ! i # drop (Suc i) (take n xs)"
    using assms by (intro id_take_nth_drop) simp
  then have "take n xs = take i xs @ xs ! i # drop (Suc i) (take n xs)" using assms by (simp add: min_def)
  moreover define B where "B = drop (Suc i) (take n xs)"
  ultimately have "take n xs = take i xs @ xs ! i # B" by simp
  with assms(1) have "distinct (take i xs @ xs ! i # B)" "set (take i xs @ B) \<subseteq> set (take n xs)" by auto
  then show ?thesis unfolding B_def by simp
qed

lemma unsubscribe_open:
  assumes "hub_ok (h, ps)" and "slices_open h"
  shows "slices_open (Unsubscribe t ch h)"
proof (cases "Unsubscribe t ch h = h")
  case False
  have ok: "arrays_ok h" using assms(1) by (simp add: hub_ok_def)
  from False obtain a n where s: "hb_slices h t = Some (a, n)" by (auto simp: Unsubscribe_def split: option.splits)
  let ?xs = "hb_arrays h a"
  let ?i = "length (takeWhile (\<lambda>c. c \<noteq> ch) (take n ?xs))"
  have i: "?i < n" "?i < length (take n ?xs)"
    and g: "Unsubscribe t ch h = h\<lparr>hb_arrays := (hb_arrays h)(a := array_remove ?i n ?xs),
      hb_slices := (hb_slices h)(t \<mapsto> (a, n - 1)), hb_chans := (hb_chans h)(ch := (hb_chans h ch)\<lparr>sc_closed := True\<rparr>)\<rparr>"
    using False s by (auto simp: Unsubscribe_def Let_def split: if_splits)
  note a = arrays_okD(2) [OF ok s]
  have ch: "?xs ! ?i = ch" using i nth_length_takeWhile [OF i(2)] by simp
  then have ch_in: "ch \<in> set ?xs" using i a by (metis nth_mem less_le_trans)
  have d: "distinct (take n ?xs)" "\<And>c. c \<in> set (take n ?xs) \<Longrightarrow> \<not> sc_closed (hb_chans h c)"
    using assms(2) s by (auto simp: slices_open_def)
  show ?thesis unfolding slices_open_def
  proof (intro allI impI)
    fix u b m
    assume u: "hb_slices (Unsubscribe t ch h) u = Some (b, m)"
    show "distinct (take m (hb_arrays (Unsubscribe t ch h) b)) \<and>
      (\<forall>c \<in> set (take m (hb_arrays (Unsubscribe t ch h) b)). \<not> sc_closed (hb_chans (Unsubscribe t ch h) c))"
    proof (cases "u = t")
      case True
      with u have "b = a" "m = n - 1" by (simp_all add: g)
      then have "take m (hb_arrays (Unsubscribe t ch h) b) = take ?i ?xs @ drop (Suc ?i) (take n ?xs)"
        using array_remove_take [OF i(1)] a by (simp add: g)
      with distinct_without [OF d(1) i(1)] a ch d(2) show ?thesis by (auto simp: g)
    next
      case False
      with u have old: "hb_slices h u = Some (b, m)" by (simp add: g)
      have "b \<noteq> a" using arrays_okD(2) [OF ok old] a False by auto
      moreover have "ch \<notin> set (hb_arrays h b)"
        using arrays_okD(1) [OF ok, of ch b] arrays_okD(1) [OF ok ch_in] arrays_okD(2) [OF ok old] a False by auto
      ultimately show ?thesis using old assms(2) by (auto simp: g slices_open_def dest: in_set_takeD)
    qed
  qed
qed (use assms(2) in simp)

lemma hub_step_open:
  assumes "hub_step s s'" and "hub_ok s" and "slices_open (fst s)"
  shows "slices_open (fst s')"
  using assms(1)
proof cases
  case (hs_subscribe h ps grow t)
  with assms(2,3) subscribe_open show ?thesis by simp
next
  case (hs_unsubscribe h ps t ch)
  with assms(2,3) unsubscribe_open show ?thesis by simp
qed (use assms(3) in \<open>auto simp: slices_open_def Publish_send_def\<close>)

lemma hub_reachable:
  assumes "hub_step\<^sup>*\<^sup>* (New, []) s"
  shows "hub_ok s \<and> slices_open (fst s)"
  using assms
proof (induction rule: rtranclp_induct)
  case base
  then show ?case using New_ok by (simp add: slices_open_def New_def)
next
  case (step s s')
  with hub_step_ok hub_step_open show ?case by blast
qed

section \<open>An undisturbed publication\<close>

definition delivered :: "log_entry \<Rightarrow> sub_chan \<Rightarrow> sub_chan" where
  "delivered e c = (if length (sc_buffer c) < channel_capacity then c\<lparr>sc_buffer := sc_buffer c @ [e]\<rparr> else c)"

lemma send_open: "\<not> sc_closed (hb_chans h ch) \<Longrightarrow>
  hb_chans (send ch e h) = (hb_chans h)(ch := delivered e (hb_chans h ch)) \<and> hb_panic (send ch e h) = hb_panic h"
  by (auto simp: send_def delivered_def Let_def)

lemma publish_loop_open:
  assumes "n \<le> length (hb_arrays h a)" and "distinct (drop k (take n (hb_arrays h a)))"
    and "\<forall>c \<in> set (drop k (take n (hb_arrays h a))). \<not> sc_closed (hb_chans h c)" and "n \<le> k + m"
  shows "hb_chans (publish_loop m ((a, n), k, e) h) =
      (\<lambda>c. if c \<in> set (drop k (take n (hb_arrays h a))) then delivered e (hb_chans h c) else hb_chans h c) \<and>
    hb_panic (publish_loop m ((a, n), k, e) h) = hb_panic h"
  using assms
proof (induction m arbitrary: k h)
  case 0
  then show ?case by simp
next
  case (Suc m)
  show ?case
  proof (cases "k < n")
    case False
    with Suc.prems show ?thesis by simp
  next
    case True
    let ?ch = "hb_arrays h a ! k" and ?rest = "drop (Suc k) (take n (hb_arrays h a))"
    have split: "drop k (take n (hb_arrays h a)) = ?ch # ?rest"
      using True Suc.prems(1) by (simp add: Cons_nth_drop_Suc [symmetric])
    have open1: "\<not> sc_closed (hb_chans h ?ch)" using Suc.prems(3) unfolding split by simp
    note s = send_open [OF open1, of e]
    have "hb_chans (publish_loop m ((a, n), Suc k, e) (send ?ch e h)) =
        (\<lambda>c. if c \<in> set ?rest then delivered e (hb_chans (send ?ch e h) c) else hb_chans (send ?ch e h) c) \<and>
      hb_panic (publish_loop m ((a, n), Suc k, e) (send ?ch e h)) = hb_panic (send ?ch e h)"
      using Suc.IH [of "send ?ch e h" "Suc k"] Suc.prems unfolding split by simp
    moreover have "?ch \<notin> set ?rest" using Suc.prems(2) unfolding split by simp
    ultimately show ?thesis using True s unfolding split by (auto simp: Publish_send_def)
  qed
qed

section \<open>Properties\<close>

text \<open>C36. Whatever the interleaving of subscriptions, publications and reads, a channel only ever gets entries of the
  tenant that subscribed, and never holds more than its capacity.\<close>

theorem stream_isolated:
  assumes "hub_step\<^sup>*\<^sup>* (New, []) (h, ps)"
  shows "(\<forall>e \<in> set (sc_seen (hb_chans h c) @ sc_buffer (hb_chans h c)). lo_TenantID e = sc_tenant (hb_chans h c)) \<and>
    length (sc_buffer (hb_chans h c)) \<le> channel_capacity"
  using hub_reachable [OF assms] by (simp add: hub_ok_def chans_ok_def)

text \<open>A publication that nothing interrupts reaches every subscriber of the tenant exactly once, except those
  whose channel is full, and nobody else.\<close>

theorem publish_exact:
  assumes "hub_step\<^sup>*\<^sup>* (New, []) (h, ps)" and "hb_slices h t = Some (a, n)"
  shows "hb_chans (Publish t e h) c =
      (if c \<in> set (take n (hb_arrays h a)) then delivered e (hb_chans h c) else hb_chans h c) \<and>
    hb_panic (Publish t e h) = hb_panic h"
proof -
  have "n \<le> length (hb_arrays h a)" "distinct (take n (hb_arrays h a))"
    "\<forall>c \<in> set (take n (hb_arrays h a)). \<not> sc_closed (hb_chans h c)"
    using hub_reachable [OF assms(1)] assms(2) by (auto simp: hub_ok_def arrays_ok_def slices_open_def)
  then show ?thesis
    using publish_loop_open [of n h a 0 n e] assms(2) by (simp add: Publish_def Publish_begin_def)
qed

text \<open>Interrupted publications: one that copied the slice before a subscriber left can send on his closed
  channel, which is a panic; and since the elements move in the array it reads, it can send an entry twice to
  one subscriber and leave out another who never left.\<close>

definition hub_entry :: log_entry where
  "hub_entry = sample_entry 1 5"

definition three_subscribers :: log_hub where
  "three_subscribers = snd (Subscribe id 1 (snd (Subscribe id 1 (snd (Subscribe id 1 New)))))"

lemma three_reachable: "hub_step\<^sup>*\<^sup>* (New, []) (three_subscribers, [])"
proof -
  have "hub_step (h, []) (snd (Subscribe id 1 h), [])" for h by (rule hs_subscribe)
  then show ?thesis unfolding three_subscribers_def by (meson rtranclp.rtrancl_into_rtrancl rtranclp.rtrancl_refl)
qed

lemmas hub_eval = three_subscribers_def Subscribe_def slice_append_def New_def no_chan_def Unsubscribe_def array_remove_def
  Publish_begin_def Publish_send_def send_def hub_entry_def sample_entry_def channel_capacity_def Let_def

lemma three_slice: "hb_slices three_subscribers 1 = Some (2, 3)" "take 3 (hb_arrays three_subscribers 2) = [0, 1, 2]"
  by (simp_all add: hub_eval)

abbreviation racer :: "nat \<Rightarrow> publisher" where "racer k \<equiv> ((2, 3), k, hub_entry)"

lemma race_begin: "hub_step\<^sup>*\<^sup>* (New, []) (three_subscribers, [racer 0])"
proof -
  have "hub_step (three_subscribers, []) (three_subscribers, [racer 0])"
    using hs_publish [of three_subscribers "[]" hub_entry] three_slice
    by (simp add: Publish_begin_def hub_entry_def sample_entry_def)
  with three_reachable show ?thesis by (rule rtranclp.rtrancl_into_rtrancl)
qed

lemma race_send:
  assumes "hub_step\<^sup>*\<^sup>* (New, []) (h, [racer k])" and "k < 3"
  shows "hub_step\<^sup>*\<^sup>* (New, []) (Publish_send (racer k) h, [racer (Suc k)])"
  using assms(1) hs_send [of 2 3 k hub_entry "[racer k]" h] assms(2) by (auto intro: rtranclp.rtrancl_into_rtrancl)

lemma race_leave:
  "hub_step\<^sup>*\<^sup>* (New, []) (h, ps) \<Longrightarrow> hub_step\<^sup>*\<^sup>* (New, []) (Unsubscribe t ch h, ps)"
  by (erule rtranclp.rtrancl_into_rtrancl) (rule hs_unsubscribe)

theorem stream_races:
  "(\<exists>h ps. hub_step\<^sup>*\<^sup>* (New, []) (h, ps) \<and> hb_panic h) \<and>
   (\<exists>h ps. hub_step\<^sup>*\<^sup>* (New, []) (h, ps) \<and> \<not> sc_closed (hb_chans h 1) \<and> sc_buffer (hb_chans h 1) = [] \<and>
      sc_buffer (hb_chans h 2) = [hub_entry, hub_entry])"
proof
  let ?left = "Unsubscribe 1 2 three_subscribers"
  let ?h = "Publish_send (racer 2) (Publish_send (racer 1) (Publish_send (racer 0) ?left))"
  have "hub_step\<^sup>*\<^sup>* (New, []) (?h, [racer 3])"
    using race_send [OF race_send [OF race_send [OF race_leave [OF race_begin, of 1 2]]]] by (simp add: numeral_2_eq_2 numeral_3_eq_3)
  moreover have "hb_panic ?h" by (simp add: hub_eval)
  ultimately show "\<exists>h ps. hub_step\<^sup>*\<^sup>* (New, []) (h, ps) \<and> hb_panic h" by blast
next
  let ?left = "Unsubscribe 1 0 (Publish_send (racer 0) three_subscribers)"
  let ?h = "Publish_send (racer 2) (Publish_send (racer 1) ?left)"
  have "hub_step\<^sup>*\<^sup>* (New, []) (?h, [racer 3])"
    using race_send [OF race_send [OF race_leave [OF race_send [OF race_begin], of 1 0]]] by (simp add: numeral_2_eq_2 numeral_3_eq_3)
  moreover have "\<not> sc_closed (hb_chans ?h 1) \<and> sc_buffer (hb_chans ?h 1) = [] \<and> sc_buffer (hb_chans ?h 2) = [hub_entry, hub_entry]"
    by (simp add: hub_eval)
  ultimately show "\<exists>h ps. hub_step\<^sup>*\<^sup>* (New, []) (h, ps) \<and> \<not> sc_closed (hb_chans h 1) \<and> sc_buffer (hb_chans h 1) = [] \<and>
      sc_buffer (hb_chans h 2) = [hub_entry, hub_entry]" by blast
qed

section \<open>Instances\<close>

theorem stream_isolated_instance:
  "length (sc_buffer (hb_chans (Publish_send (racer 0) three_subscribers) 0)) \<le> channel_capacity"
  using stream_isolated [OF race_send [OF race_begin], of 0] by simp

theorem publish_exact_instance:
  "hb_chans (Publish 1 hub_entry three_subscribers) 1 = delivered hub_entry (hb_chans three_subscribers 1)"
  using publish_exact [OF three_reachable three_slice(1), of hub_entry 1] three_slice(2) by simp

end
