(* ===== verification/Layouts.thy ===== *)
theory Layouts
  imports GoStd
begin

text \<open>
  The dashboard layouts of a user: the domain (\<open>internal/domain/dashboard_layouts\<close>), the repository
  (\<open>internal/repo/pg/dashboard_layouts\<close>) with the constraints and the trigger of its table, the service
  (\<open>internal/app/dashboard_layouts\<close>) and the handlers. Creating and deleting lock the user's rows before
  they count them; \<open>layout_step\<close> interleaves such transactions the way READ COMMITTED lets them run.
\<close>

section \<open>Domain and table\<close>

record position =
  po_X :: int
  po_Y :: int
  po_W :: int
  po_H :: int
  po_I :: string

record widget =
  wi_ID :: string
  wi_Type :: string
  wi_Name :: string
  wi_Title :: string
  wi_Description :: string
  wi_Category :: string
  wi_Icon :: string
  wi_Position :: position

record layout =
  la_ID :: uuid
  la_TenantID :: uuid
  la_UserID :: uuid
  la_Name :: string
  la_Widgets :: "widget list"
  la_CreatedAt :: time
  la_UpdatedAt :: time
  la_DeletedAt :: "time option"

definition MaxLayoutsPerUser :: nat where
  "MaxLayoutsPerUser = 3"

datatype layout_err =
    ErrLayoutNotFound | ErrDuplicateName | ErrLimitReached | ErrCannotDeleteLastLayout | LayoutInternal

text \<open>The tenants and users are there for the foreign keys.\<close>

record layout_db =
  layouts :: "layout list"
  ld_tenants :: "uuid list"
  ld_users :: "uuid list"

type_synonym 'a layout_op = "(layout_db world, layout_err, 'a) oper"

definition owned :: "uuid \<Rightarrow> uuid \<Rightarrow> layout \<Rightarrow> bool" where
  "owned t u l \<longleftrightarrow> la_TenantID l = t \<and> la_UserID l = u \<and> la_DeletedAt l = None"

text \<open>The index \<open>idx_dashboard_layouts_tenant_user_name_active\<close>.\<close>

definition layout_names_unique :: "layout list \<Rightarrow> bool" where
  "layout_names_unique ls \<longleftrightarrow>
     distinct (map (\<lambda>l. (la_TenantID l, la_UserID l, la_Name l)) (filter (\<lambda>l. la_DeletedAt l = None) ls))"

section \<open>Repository\<close>

definition layout_List :: "uuid \<Rightarrow> uuid \<Rightarrow> layout list layout_op" where
  "layout_List t u = query LayoutInternal (\<lambda>d. Inr (sort_key la_CreatedAt (filter (owned t u) (layouts d))))"

definition layout_GetByID :: "uuid \<Rightarrow> uuid \<Rightarrow> uuid \<Rightarrow> layout layout_op" where
  "layout_GetByID t u i =
     query LayoutInternal (\<lambda>d. first_row ErrLayoutNotFound (filter (\<lambda>l. la_ID l = i \<and> owned t u l) (layouts d)))"

definition CountByTenantUser :: "uuid \<Rightarrow> uuid \<Rightarrow> nat layout_op" where
  "CountByTenantUser t u = query LayoutInternal (\<lambda>d. Inr (length (filter (owned t u) (layouts d))))"

text \<open>The two locking transactions after their SELECT ... FOR UPDATE, which gave the rows \<open>locked\<close>. A name
  is a varchar(255).\<close>

definition insert_layout :: "time \<Rightarrow> layout \<Rightarrow> layout_db \<Rightarrow> (layout_err + layout) \<times> layout_db" where
  "insert_layout now l d =
     (let row = l\<lparr>la_CreatedAt := now, la_UpdatedAt := now, la_DeletedAt := None\<rparr>
      in if char_length (la_Name l) > 255 then (Inl LayoutInternal, d)
         else if la_ID l \<in> la_ID ` set (layouts d) \<or> \<not> layout_names_unique (layouts d @ [row]) then (Inl ErrDuplicateName, d)
         else if la_TenantID l \<notin> set (ld_tenants d) \<or> la_UserID l \<notin> set (ld_users d) then (Inl LayoutInternal, d)
         else (Inr (l\<lparr>la_CreatedAt := now, la_UpdatedAt := now\<rparr>), d\<lparr>layouts := layouts d @ [row]\<rparr>))"

definition create_locked :: "time \<Rightarrow> layout \<Rightarrow> uuid list \<Rightarrow> layout layout_op" where
  "create_locked now l locked =
     (if length locked \<ge> MaxLayoutsPerUser then op_fail ErrLimitReached
      else stmt LayoutInternal (insert_layout now l))"

definition delete_layout :: "time \<Rightarrow> uuid \<Rightarrow> uuid \<Rightarrow> uuid \<Rightarrow> layout_db \<Rightarrow> layout_db" where
  "delete_layout now t u i d =
     d\<lparr>layouts := update_where (\<lambda>l. la_ID l = i \<and> owned t u l) (\<lambda>l. l\<lparr>la_DeletedAt := Some now, la_UpdatedAt := now\<rparr>) (layouts d)\<rparr>"

definition delete_locked :: "time \<Rightarrow> uuid \<Rightarrow> uuid \<Rightarrow> uuid \<Rightarrow> uuid list \<Rightarrow> unit layout_op" where
  "delete_locked now t u i locked =
     (if i \<notin> set locked then op_fail ErrLayoutNotFound
      else if length locked \<le> 1 then op_fail ErrCannotDeleteLastLayout
      else stmt LayoutInternal (\<lambda>d. (Inr (), delete_layout now t u i d)))"

definition lock_rows :: "uuid \<Rightarrow> uuid \<Rightarrow> uuid list layout_op" where
  "lock_rows t u = query LayoutInternal (\<lambda>d. Inr (map la_ID (filter (owned t u) (layouts d))))"

definition layout_Create :: "time \<Rightarrow> layout \<Rightarrow> layout layout_op" where
  "layout_Create now l = txn (op_bind (lock_rows (la_TenantID l) (la_UserID l)) (create_locked now l))"

definition layout_Update :: "time \<Rightarrow> layout \<Rightarrow> layout layout_op" where
  "layout_Update now l =
     stmt LayoutInternal (\<lambda>d.
       let hit = (\<lambda>x. la_ID x = la_ID l \<and> owned (la_TenantID l) (la_UserID l) x);
           ls = update_where hit (\<lambda>x. x\<lparr>la_Name := la_Name l, la_Widgets := la_Widgets l, la_UpdatedAt := now\<rparr>) (layouts d)
       in if filter hit (layouts d) = [] then (Inl ErrLayoutNotFound, d)
          else if char_length (la_Name l) > 255 then (Inl LayoutInternal, d)
          else if \<not> layout_names_unique ls then (Inl ErrDuplicateName, d)
          else (Inr (l\<lparr>la_UpdatedAt := now\<rparr>), d\<lparr>layouts := ls\<rparr>))"

definition layout_SoftDelete :: "time \<Rightarrow> uuid \<Rightarrow> uuid \<Rightarrow> uuid \<Rightarrow> unit layout_op" where
  "layout_SoftDelete now t u i = txn (op_bind (lock_rows t u) (delete_locked now t u i))"

section \<open>Service\<close>

text \<open>A command is a name and widgets, None for a nil slice.\<close>

definition ListLayouts :: "uuid \<Rightarrow> uuid \<Rightarrow> layout list layout_op" where
  "ListLayouts t u = layout_List t u"

definition GetLayout :: "uuid \<Rightarrow> uuid \<Rightarrow> uuid \<Rightarrow> layout layout_op" where
  "GetLayout t u i = layout_GetByID t u i"

definition new_layout :: "uuid \<Rightarrow> uuid \<Rightarrow> uuid \<Rightarrow> string \<Rightarrow> widget list option \<Rightarrow> layout" where
  "new_layout i t u name widgets =
     \<lparr>la_ID = i, la_TenantID = t, la_UserID = u, la_Name = name, la_Widgets = opt_or widgets [], la_CreatedAt = 0,
      la_UpdatedAt = 0, la_DeletedAt = None\<rparr>"

definition CreateLayout :: "time \<Rightarrow> uuid \<Rightarrow> uuid \<Rightarrow> uuid \<Rightarrow> string \<Rightarrow> widget list option \<Rightarrow> layout layout_op" where
  "CreateLayout now newID t u name widgets = layout_Create now (new_layout newID t u name widgets)"

definition UpdateLayout :: "time \<Rightarrow> uuid \<Rightarrow> uuid \<Rightarrow> uuid \<Rightarrow> string \<Rightarrow> widget list option \<Rightarrow> layout layout_op" where
  "UpdateLayout now t u i name widgets =
     op_bind (layout_GetByID t u i) (\<lambda>l. layout_Update now (l\<lparr>la_Name := name, la_Widgets := opt_or widgets []\<rparr>))"

definition DeleteLayout :: "time \<Rightarrow> uuid \<Rightarrow> uuid \<Rightarrow> uuid \<Rightarrow> unit layout_op" where
  "DeleteLayout now t u i = layout_SoftDelete now t u i"

section \<open>Handlers\<close>

text \<open>\<open>tenant\<close> and \<open>user\<close> are those of the context, \<open>i\<close> the path parameter, and the body is None when it does
  not bind; a missing or empty name does not.\<close>

type_synonym 'a layout_answer = "(layout_db world, nat, 'a) oper"

fun layout_HandleError :: "layout_err \<Rightarrow> nat" where
  "layout_HandleError ErrLayoutNotFound = 404"
| "layout_HandleError ErrLimitReached = 403"
| "layout_HandleError ErrDuplicateName = 409"
| "layout_HandleError ErrCannotDeleteLastLayout = 400"
| "layout_HandleError LayoutInternal = 500"

definition ToWidgetsDomain :: "widget list option \<Rightarrow> widget list" where
  "ToWidgetsDomain dtos = (case dtos of None \<Rightarrow> [] | Some ws \<Rightarrow> ws)"

definition layout_answer :: "'a layout_op \<Rightarrow> 'a layout_answer" where
  "layout_answer m = op_try m (\<lambda>e. op_fail (layout_HandleError e)) op_ret"

definition ListLayouts_handler :: "(string \<Rightarrow> uuid option) \<Rightarrow> string \<Rightarrow> uuid option \<Rightarrow> layout list layout_answer" where
  "ListLayouts_handler parse tenant user =
     (case parse tenant of
        None \<Rightarrow> op_fail 400
      | Some t \<Rightarrow> (case user of None \<Rightarrow> op_fail 401 | Some u \<Rightarrow> layout_answer (ListLayouts t u)))"

definition GetLayout_handler ::
  "(string \<Rightarrow> uuid option) \<Rightarrow> string \<Rightarrow> uuid option \<Rightarrow> string \<Rightarrow> layout layout_answer" where
  "GetLayout_handler parse tenant user i =
     (case parse tenant of
        None \<Rightarrow> op_fail 400
      | Some t \<Rightarrow> (case user of
          None \<Rightarrow> op_fail 401
        | Some u \<Rightarrow> (case parse i of None \<Rightarrow> op_fail 400 | Some i' \<Rightarrow> layout_answer (GetLayout t u i'))))"

definition CreateLayout_handler ::
  "(string \<Rightarrow> uuid option) \<Rightarrow> time \<Rightarrow> uuid \<Rightarrow> string \<Rightarrow> uuid option \<Rightarrow> (string \<times> widget list option) option \<Rightarrow> layout layout_answer"
where
  "CreateLayout_handler parse now newID tenant user body =
     (case parse tenant of
        None \<Rightarrow> op_fail 400
      | Some t \<Rightarrow> (case user of
          None \<Rightarrow> op_fail 401
        | Some u \<Rightarrow> (case body of
            None \<Rightarrow> op_fail 400
          | Some (name, widgets) \<Rightarrow>
              if name = [] then op_fail 400
              else layout_answer (CreateLayout now newID t u name (Some (ToWidgetsDomain widgets))))))"

definition UpdateLayout_handler ::
  "(string \<Rightarrow> uuid option) \<Rightarrow> time \<Rightarrow> string \<Rightarrow> uuid option \<Rightarrow> string \<Rightarrow> (string \<times> widget list option) option \<Rightarrow> layout layout_answer"
where
  "UpdateLayout_handler parse now tenant user i body =
     (case parse tenant of
        None \<Rightarrow> op_fail 400
      | Some t \<Rightarrow> (case user of
          None \<Rightarrow> op_fail 401
        | Some u \<Rightarrow> (case parse i of
            None \<Rightarrow> op_fail 400
          | Some i' \<Rightarrow> (case body of
              None \<Rightarrow> op_fail 400
            | Some (name, widgets) \<Rightarrow>
                if name = [] then op_fail 400
                else layout_answer (UpdateLayout now t u i' name (Some (ToWidgetsDomain widgets)))))))"

definition DeleteLayout_handler ::
  "(string \<Rightarrow> uuid option) \<Rightarrow> time \<Rightarrow> string \<Rightarrow> uuid option \<Rightarrow> string \<Rightarrow> unit layout_answer" where
  "DeleteLayout_handler parse now tenant user i =
     (case parse tenant of
        None \<Rightarrow> op_fail 400
      | Some t \<Rightarrow> (case user of
          None \<Rightarrow> op_fail 401
        | Some u \<Rightarrow> (case parse i of None \<Rightarrow> op_fail 400 | Some i' \<Rightarrow> layout_answer (DeleteLayout now t u i'))))"

section \<open>What a request may change\<close>

inductive layout_effect :: "uuid \<Rightarrow> uuid \<Rightarrow> layout_db \<Rightarrow> layout_db \<Rightarrow> bool" for t u where
  le_same: "layout_effect t u d d"
| le_insert: "insert_layout now l d = (Inr r, d') \<Longrightarrow> la_TenantID l = t \<Longrightarrow> la_UserID l = u \<Longrightarrow> layout_effect t u d d'"
| le_update: "d' = d\<lparr>layouts := update_where (\<lambda>x. la_ID x = i \<and> owned t u x)
      (\<lambda>x. x\<lparr>la_Name := n, la_Widgets := ws, la_UpdatedAt := now\<rparr>) (layouts d)\<rparr> \<Longrightarrow>
    layout_names_unique (layouts d') \<Longrightarrow> layout_effect t u d d'"
| le_delete: "i \<in> set locked \<Longrightarrow> 1 < length locked \<Longrightarrow> distinct locked \<Longrightarrow>
    set locked \<subseteq> la_ID ` set (filter (owned t u) (layouts d)) \<Longrightarrow> layout_effect t u d (delete_layout now t u i d)"

definition layouts_wf :: "layout_db \<Rightarrow> bool" where
  "layouts_wf d \<longleftrightarrow> distinct (map la_ID (layouts d)) \<and> layout_names_unique (layouts d)"

lemma insert_layout_Inr:
  assumes "insert_layout now l d = (Inr r, d')"
  obtains row where "d' = d\<lparr>layouts := layouts d @ [row]\<rparr>" "la_ID row = la_ID l" "la_TenantID row = la_TenantID l"
    "la_UserID row = la_UserID l" "la_DeletedAt row = None" "la_ID l \<notin> la_ID ` set (layouts d)"
    "layout_names_unique (layouts d @ [row])"
  using assms by (auto simp: insert_layout_def Let_def split: if_splits)

lemma update_ids: "map la_ID (update_where p (\<lambda>x. x\<lparr>la_Name := n, la_Widgets := ws, la_UpdatedAt := now\<rparr>) ls) = map la_ID ls"
  "map la_ID (update_where p (\<lambda>x. x\<lparr>la_DeletedAt := Some now, la_UpdatedAt := now\<rparr>) ls) = map la_ID ls"
  by (simp_all add: map_update_where_inv)

lemma names_unique_delete:
  "layout_names_unique ls \<Longrightarrow>
   layout_names_unique (update_where p (\<lambda>x. x\<lparr>la_DeletedAt := Some now, la_UpdatedAt := now\<rparr>) ls)"
proof (induction ls)
  case (Cons l ls)
  have "set (filter (\<lambda>l. la_DeletedAt l = None) (update_where p (\<lambda>x. x\<lparr>la_DeletedAt := Some now, la_UpdatedAt := now\<rparr>) ls))
      \<subseteq> set (filter (\<lambda>l. la_DeletedAt l = None) ls)"
    by (auto simp: in_update_where)
  with Cons show ?case by (fastforce simp: layout_names_unique_def split: if_splits)
qed simp

lemma layout_effect_wf:
  assumes "layout_effect t u d d'" and "layouts_wf d"
  shows "layouts_wf d'"
  using assms
proof cases
  case (le_insert now l r)
  with assms(2) show ?thesis by (auto simp: layouts_wf_def elim!: insert_layout_Inr)
qed (auto simp: layouts_wf_def update_ids delete_layout_def names_unique_delete)

text \<open>The rows of another user, or of the same user in another tenant.\<close>

abbreviation rows_of :: "uuid \<Rightarrow> uuid \<Rightarrow> layout_db \<Rightarrow> layout list" where
  "rows_of t u d \<equiv> filter (\<lambda>l. la_TenantID l = t \<and> la_UserID l = u) (layouts d)"

lemma layout_effect_foreign:
  assumes "layout_effect t u d d'" and "(t', u') \<noteq> (t, u)"
  shows "rows_of t' u' d' = rows_of t' u' d"
  using assms(1)
proof cases
  case (le_insert now l r)
  with assms(2) show ?thesis by (auto elim!: insert_layout_Inr)
next
  case (le_update i now ws n)
  with assms(2) show ?thesis by (auto intro!: filter_update_where_other simp: owned_def)
next
  case (le_delete i locked now)
  with assms(2) show ?thesis by (auto intro!: filter_update_where_other simp: owned_def delete_layout_def)
qed simp

text \<open>Whoever has a layout keeps one.\<close>

lemma layout_effect_kept:
  assumes "layout_effect t u d d'" and "layouts_wf d" and "filter (owned t u) (layouts d) \<noteq> []"
  shows "filter (owned t u) (layouts d') \<noteq> []"
  using assms(1)
proof cases
  case (le_insert now l r)
  with assms(3) show ?thesis by (auto elim!: insert_layout_Inr)
next
  case (le_update i now ws n)
  obtain l where l: "l \<in> set (layouts d)" "owned t u l" using assms(3) by (auto simp: filter_empty_conv)
  let ?f = "\<lambda>x. if la_ID x = i \<and> owned t u x then x\<lparr>la_Name := n, la_Widgets := ws, la_UpdatedAt := now\<rparr> else x"
  have "?f l \<in> ?f ` set (layouts d)" using l(1) by (rule imageI)
  then have "?f l \<in> set (layouts d')" using le_update(1) by (simp add: update_where_def)
  moreover have "owned t u (?f l)" using l(2) by (simp add: owned_def)
  ultimately show ?thesis by (auto simp only: filter_empty_conv)
next
  case (le_delete i locked now)
  have "\<not> set locked \<subseteq> {i}"
  proof
    assume "set locked \<subseteq> {i}"
    then have "card (set locked) \<le> 1" using card_mono [of "{i}" "set locked"] by simp
    with le_delete show False by (simp add: distinct_card)
  qed
  then obtain j where "j \<in> set locked" "j \<noteq> i" by blast
  with le_delete(5) obtain l where "l \<in> set (layouts d)" "owned t u l" "la_ID l \<noteq> i" by auto
  then have "l \<in> set (layouts d')" using le_delete(1) by (force simp: delete_layout_def in_update_where)
  with \<open>owned t u l\<close> show ?thesis by (metis filter_empty_conv)
qed (use assms(3) in simp)

section \<open>Requests one after the other\<close>

lemma lock_rows_Inr:
  "lock_rows t u w = (Inr ids, w') \<longleftrightarrow>
     \<not> outage w (nstmts w) \<and> ids = map la_ID (filter (owned t u) (layouts (tables w))) \<and> w' = w\<lparr>nstmts := Suc (nstmts w)\<rparr>"
  by (auto simp: lock_rows_def query_Inr)

lemma create_locked_cases:
  assumes "create_locked now l locked w = (r, w')"
  obtains e where "r = Inl e" "tables w' = tables w"
  | x where "r = Inr x" "length locked < MaxLayoutsPerUser" "insert_layout now l (tables w) = (Inr x, tables w')"
  using assms by (auto simp: create_locked_def stmt_def split: if_splits prod.splits sum.splits)

lemma delete_locked_cases:
  assumes "delete_locked now t u i locked w = (r, w')"
  obtains e where "r = Inl e" "tables w' = tables w"
  | "r = Inr ()" "i \<in> set locked" "1 < length locked" "tables w' = delete_layout now t u i (tables w)"
  using assms by (auto simp: delete_locked_def stmt_def split: if_splits)

lemma CreateLayout_cases:
  assumes "CreateLayout now n t u name widgets w = (r, w')"
  obtains e where "r = Inl e" "tables w' = tables w"
  | x where "r = Inr x" "length (filter (owned t u) (layouts (tables w))) < MaxLayoutsPerUser"
      "insert_layout now (new_layout n t u name widgets) (tables w) = (Inr x, tables w')"
proof (cases r)
  case (Inl e)
  with assms have "tables w' = tables w" by (auto simp: CreateLayout_def layout_Create_def dest: txn_Inl_db)
  with Inl that(1) show thesis by blast
next
  case (Inr x)
  with assms obtain ids w1 where "lock_rows t u w = (Inr ids, w1)"
    "create_locked now (new_layout n t u name widgets) ids w1 = (Inr x, w')"
    by (auto simp: CreateLayout_def layout_Create_def txn_Inr op_bind_Inr_iff new_layout_def)
  with Inr that(2) show thesis by (auto simp: lock_rows_Inr elim!: create_locked_cases)
qed

lemma DeleteLayout_cases:
  assumes "DeleteLayout now t u i w = (r, w')"
  obtains e where "r = Inl e" "tables w' = tables w"
  | "r = Inr ()" "i \<in> la_ID ` set (filter (owned t u) (layouts (tables w)))"
      "1 < length (filter (owned t u) (layouts (tables w)))" "tables w' = delete_layout now t u i (tables w)"
proof (cases r)
  case (Inl e)
  with assms have "tables w' = tables w" by (auto simp: DeleteLayout_def layout_SoftDelete_def dest: txn_Inl_db)
  with Inl that(1) show thesis by blast
next
  case (Inr x)
  with assms obtain ids w1 where "lock_rows t u w = (Inr ids, w1)" "delete_locked now t u i ids w1 = (Inr x, w')"
    by (auto simp: DeleteLayout_def layout_SoftDelete_def txn_Inr op_bind_Inr_iff)
  with Inr that(2) show thesis by (auto simp: lock_rows_Inr elim!: delete_locked_cases)
qed

lemma layout_Update_cases:
  assumes "layout_Update now l w = (r, w')"
  obtains "tables w' = tables w"
  | "tables w' = (tables w)\<lparr>layouts := update_where (\<lambda>x. la_ID x = la_ID l \<and> owned (la_TenantID l) (la_UserID l) x)
        (\<lambda>x. x\<lparr>la_Name := la_Name l, la_Widgets := la_Widgets l, la_UpdatedAt := now\<rparr>) (layouts (tables w))\<rparr>"
      "layout_names_unique (layouts (tables w'))"
  using assms by (auto simp: layout_Update_def stmt_def Let_def split: if_splits)

lemma UpdateLayout_cases:
  assumes "UpdateLayout now t u i name widgets w = (r, w')"
  obtains "tables w' = tables w"
  | "tables w' = (tables w)\<lparr>layouts := update_where (\<lambda>x. la_ID x = i \<and> owned t u x)
        (\<lambda>x. x\<lparr>la_Name := name, la_Widgets := opt_or widgets [], la_UpdatedAt := now\<rparr>) (layouts (tables w))\<rparr>"
      "layout_names_unique (layouts (tables w'))"
  using assms unfolding UpdateLayout_def
proof (cases rule: op_bindE)
  case (1 e)
  then have "tables w' = tables w" by (auto simp: layout_GetByID_def dest: query_dbD)
  then show thesis by (rule that(1))
next
  case (2 l w1)
  then have l: "tables w1 = tables w" "la_TenantID l = t" "la_UserID l = u" "la_ID l = i"
    by (auto simp: layout_GetByID_def query_Inr first_row_Inr owned_def dest!: arg_cong [where f = set])
  from 2(2) show thesis by (cases rule: layout_Update_cases) (simp_all add: l that)
qed

datatype layout_req =
    CreateReq uuid uuid uuid string "widget list option"
  | UpdateReq uuid uuid uuid string "widget list option"
  | DeleteReq uuid uuid uuid

fun layout_owner :: "layout_req \<Rightarrow> uuid \<times> uuid" where
  "layout_owner (CreateReq n t u name ws) = (t, u)"
| "layout_owner (UpdateReq i t u name ws) = (t, u)"
| "layout_owner (DeleteReq i t u) = (t, u)"

fun layout_exec :: "time \<times> layout_req \<Rightarrow> layout_db world \<Rightarrow> layout_db world" where
  "layout_exec (now, CreateReq n t u name ws) w = snd (CreateLayout now n t u name ws w)"
| "layout_exec (now, UpdateReq i t u name ws) w = snd (UpdateLayout now t u i name ws w)"
| "layout_exec (now, DeleteReq i t u) w = snd (DeleteLayout now t u i w)"

definition layout_run :: "(time \<times> layout_req) list \<Rightarrow> layout_db world \<Rightarrow> layout_db world" where
  "layout_run reqs w = fold layout_exec reqs w"

lemma layout_exec_effect:
  assumes "layouts_wf (tables w)"
  shows "layout_effect (fst (layout_owner q)) (snd (layout_owner q)) (tables w) (tables (layout_exec (now, q) w))"
proof (cases q)
  case (CreateReq n t u name ws)
  obtain r w' where run: "CreateLayout now n t u name ws w = (r, w')" by (cases "CreateLayout now n t u name ws w")
  from run have "layout_effect t u (tables w) (tables w')"
    by (cases rule: CreateLayout_cases) (auto intro: le_same le_insert simp: new_layout_def)
  with run CreateReq show ?thesis by simp
next
  case (UpdateReq i t u name ws)
  obtain r w' where run: "UpdateLayout now t u i name ws w = (r, w')" by (cases "UpdateLayout now t u i name ws w")
  from run have "layout_effect t u (tables w) (tables w')"
    by (cases rule: UpdateLayout_cases) (auto intro: le_same le_update)
  with run UpdateReq show ?thesis by simp
next
  case (DeleteReq i t u)
  obtain r w' where run: "DeleteLayout now t u i w = (r, w')" by (cases "DeleteLayout now t u i w")
  from run have "layout_effect t u (tables w) (tables w')"
  proof (cases rule: DeleteLayout_cases)
    case 2
    let ?ids = "map la_ID (filter (owned t u) (layouts (tables w)))"
    have "distinct ?ids" using assms by (auto simp: layouts_wf_def intro: distinct_map_filter)
    with 2 show ?thesis using le_delete [of i ?ids t u "tables w" now] by auto
  qed (simp add: le_same)
  with run DeleteReq show ?thesis by simp
qed

text \<open>The limit: a create counts before it inserts, the others add no active row.\<close>

lemma owned_update_where:
  assumes "\<And>x. p x \<Longrightarrow> owned t u (f x) \<Longrightarrow> owned t u x"
  shows "length (filter (owned t u) (update_where p f ls)) \<le> length (filter (owned t u) ls)"
  using assms by (induction ls) auto

lemma layout_exec_limit:
  assumes "length (filter (owned t u) (layouts (tables w))) \<le> MaxLayoutsPerUser"
  shows "length (filter (owned t u) (layouts (tables (layout_exec (now, q) w)))) \<le> MaxLayoutsPerUser"
proof (cases q)
  case (CreateReq n t' u' name ws)
  obtain r w' where run: "CreateLayout now n t' u' name ws w = (r, w')" by (cases "CreateLayout now n t' u' name ws w")
  from run assms have "length (filter (owned t u) (layouts (tables w'))) \<le> MaxLayoutsPerUser"
    by (cases rule: CreateLayout_cases) (auto simp: owned_def new_layout_def elim!: insert_layout_Inr)
  with run CreateReq show ?thesis by simp
next
  case (UpdateReq i t' u' name ws)
  obtain r w' where run: "UpdateLayout now t' u' i name ws w = (r, w')" by (cases "UpdateLayout now t' u' i name ws w")
  from run assms have "length (filter (owned t u) (layouts (tables w'))) \<le> MaxLayoutsPerUser"
    by (cases rule: UpdateLayout_cases) (auto simp: owned_def intro!: order_trans [OF owned_update_where])
  with run UpdateReq show ?thesis by simp
next
  case (DeleteReq i t' u')
  obtain r w' where run: "DeleteLayout now t' u' i w = (r, w')" by (cases "DeleteLayout now t' u' i w")
  from run assms have "length (filter (owned t u) (layouts (tables w'))) \<le> MaxLayoutsPerUser"
    by (cases rule: DeleteLayout_cases)
      (auto simp: owned_def delete_layout_def intro!: order_trans [OF owned_update_where])
  with run DeleteReq show ?thesis by simp
qed

section \<open>Transactions that overlap\<close>

text \<open>A transaction in flight and the rows its SELECT ... FOR UPDATE found when it began. It waits for the
  locks of these rows; when it has them, PostgreSQL checks the condition again on the rows it found, and no
  other transaction changes them until it ends. Rows that came later are not among them. So the rest of
  the transaction is one step on the rows that are still there.\<close>

datatype layout_work = CreateWork layout | DeleteWork uuid uuid uuid

fun work_owner :: "layout_work \<Rightarrow> uuid \<times> uuid" where
  "work_owner (CreateWork l) = (la_TenantID l, la_UserID l)"
| "work_owner (DeleteWork t u i) = (t, u)"

definition found_rows :: "uuid \<times> uuid \<Rightarrow> layout_db \<Rightarrow> uuid list" where
  "found_rows o' d = map la_ID (filter (owned (fst o') (snd o')) (layouts d))"

definition still_there :: "uuid \<times> uuid \<Rightarrow> uuid list \<Rightarrow> layout_db \<Rightarrow> uuid list" where
  "still_there o' snapshot d = filter (\<lambda>i. i \<in> set snapshot) (found_rows o' d)"

fun finish_work :: "time \<Rightarrow> layout_work \<Rightarrow> uuid list \<Rightarrow> layout_db world \<Rightarrow> layout_db world" where
  "finish_work now (CreateWork l) locked w = snd (create_locked now l locked w)"
| "finish_work now (DeleteWork t u i) locked w = snd (delete_locked now t u i locked w)"

inductive layout_step ::
  "layout_db world \<times> (layout_work \<times> uuid list) list \<Rightarrow> layout_db world \<times> (layout_work \<times> uuid list) list \<Rightarrow> bool" where
  ls_begin: "layout_step (w, fs) (w, (k, found_rows (work_owner k) (tables w)) # fs)"
| ls_finish: "(k, snapshot) \<in> set fs \<Longrightarrow>
    layout_step (w, fs) (finish_work now k (still_there (work_owner k) snapshot (tables w)) w, remove1 (k, snapshot) fs)"
| ls_update: "layout_step (w, fs) (snd (layout_Update now l w), fs)"

lemma still_there_owned:
  assumes "layouts_wf d"
  shows "distinct (still_there (t, u) s d)"
    and "set (still_there (t, u) s d) \<subseteq> la_ID ` set (filter (owned t u) (layouts d))"
  using assms by (auto simp: still_there_def found_rows_def layouts_wf_def intro!: distinct_filter distinct_map_filter)

lemma finish_effect:
  assumes "layouts_wf (tables w)"
  shows "layout_effect (fst (work_owner k)) (snd (work_owner k)) (tables w)
    (tables (finish_work now k (still_there (work_owner k) s (tables w)) w))"
proof (cases k)
  case (CreateWork l)
  let ?locked = "still_there (la_TenantID l, la_UserID l) s (tables w)"
  obtain r w' where run: "create_locked now l ?locked w = (r, w')" by (cases "create_locked now l ?locked w")
  from run have "layout_effect (la_TenantID l) (la_UserID l) (tables w) (tables w')"
    by (cases rule: create_locked_cases) (auto intro: le_same le_insert)
  with run CreateWork show ?thesis by simp
next
  case (DeleteWork t u i)
  let ?locked = "still_there (t, u) s (tables w)"
  obtain r w' where run: "delete_locked now t u i ?locked w = (r, w')" by (cases "delete_locked now t u i ?locked w")
  from run have "layout_effect t u (tables w) (tables w')"
  proof (cases rule: delete_locked_cases)
    case 2
    with still_there_owned [OF assms, of t u s] show ?thesis using le_delete [of i ?locked t u "tables w" now] by simp
  qed (simp add: le_same)
  with run DeleteWork show ?thesis by simp
qed

lemma layout_step_effect:
  assumes "layout_step c c'" and "layouts_wf (tables (fst c))"
  shows "\<exists>t u. layout_effect t u (tables (fst c)) (tables (fst c'))"
  using assms
proof cases
  case (ls_finish k s fs w now)
  then show ?thesis using finish_effect [of w k now s] assms(2) by auto
next
  case (ls_update w fs now l)
  obtain r w' where run: "layout_Update now l w = (r, w')" by (cases "layout_Update now l w")
  from run have "layout_effect (la_TenantID l) (la_UserID l) (tables w) (tables w')"
    by (cases rule: layout_Update_cases) (auto intro: le_same le_update)
  with run ls_update show ?thesis by auto
qed (auto intro: le_same)

lemma layout_effect_kept_all:
  assumes "layout_effect t u d d'" and "layouts_wf d" and "filter (owned t' u') (layouts d) \<noteq> []"
  shows "filter (owned t' u') (layouts d') \<noteq> []"
proof (cases "(t', u') = (t, u)")
  case True
  with assms layout_effect_kept show ?thesis by simp
next
  case False
  have split: "filter (owned t' u') (layouts x) = filter (\<lambda>l. la_DeletedAt l = None) (rows_of t' u' x)" for x
    by (auto simp: owned_def intro!: filter_cong)
  from layout_effect_foreign [OF assms(1) False] assms(3) show ?thesis by (simp add: split)
qed

section \<open>Properties\<close>

text \<open>C38. Requests that run one after the other, whatever statement fails, keep the ids distinct, the names of
  a user's layouts unique and their number at three at most.\<close>

theorem layout_histories_wf:
  assumes "layouts_wf (tables w)" and "\<And>t u. length (filter (owned t u) (layouts (tables w))) \<le> MaxLayoutsPerUser"
  shows "layouts_wf (tables (layout_run reqs w)) \<and>
    length (filter (owned t u) (layouts (tables (layout_run reqs w)))) \<le> MaxLayoutsPerUser"
  using assms
proof (induction reqs arbitrary: w)
  case (Cons q reqs)
  obtain now r where q: "q = (now, r)" by (cases q)
  have "layouts_wf (tables (layout_exec q w))"
    using layout_effect_wf [OF layout_exec_effect [OF Cons.prems(1), of r now] Cons.prems(1)] q by simp
  with Cons.IH [of "layout_exec q w"] layout_exec_limit Cons.prems(2) q show ?case by (simp add: layout_run_def)
qed (simp add: layout_run_def)

text \<open>The layouts of a user in a tenant, deleted ones included, are changed by his own requests in that tenant only.\<close>

theorem layouts_isolated:
  assumes "layouts_wf (tables w)" and "(t, u) \<notin> layout_owner ` snd ` set reqs"
  shows "rows_of t u (tables (layout_run reqs w)) = rows_of t u (tables w)"
  using assms
proof (induction reqs arbitrary: w)
  case (Cons q reqs)
  obtain now r where q: "q = (now, r)" by (cases q)
  note e = layout_exec_effect [OF Cons.prems(1), of r now]
  have "layouts_wf (tables (layout_exec q w))" using layout_effect_wf [OF e Cons.prems(1)] q by simp
  moreover have "rows_of t u (tables (layout_exec q w)) = rows_of t u (tables w)"
    using layout_effect_foreign [OF e, of t u] Cons.prems(2) q by auto
  ultimately show ?case using Cons.IH [of "layout_exec q w"] Cons.prems(2) by (simp add: layout_run_def)
qed (simp add: layout_run_def)

text \<open>C37. However transactions overlap, a user who has a layout is never left without one.\<close>

theorem last_layout_kept:
  assumes "layout_step\<^sup>*\<^sup>* (w, fs) (w', fs')" and "layouts_wf (tables w)" and "filter (owned t u) (layouts (tables w)) \<noteq> []"
  shows "layouts_wf (tables w') \<and> filter (owned t u) (layouts (tables w')) \<noteq> []"
  using assms(1)
proof (induction rule: rtranclp_induct2)
  case refl
  with assms(2,3) show ?case by simp
next
  case (step w1 fs1 w2 fs2)
  then obtain t' u' where "layout_effect t' u' (tables w1) (tables w2)"
    using layout_step_effect [of "(w1, fs1)" "(w2, fs2)"] by auto
  with step layout_effect_wf layout_effect_kept_all show ?case by blast
qed

definition sample_layout :: "uuid \<Rightarrow> string \<Rightarrow> layout" where
  "sample_layout i name = new_layout i 1 2 name None"

definition two_layouts :: layout_db where
  "two_layouts = \<lparr>layouts = [sample_layout 11 ''a'', sample_layout 12 ''b''], ld_tenants = [1], ld_users = [2]\<rparr>"

lemmas layout_eval = sample_layout_def new_layout_def two_layouts_def owned_def found_rows_def still_there_def
  create_locked_def delete_locked_def insert_layout_def delete_layout_def stmt_def MaxLayoutsPerUser_def
  layout_names_unique_def char_length_def Let_def


section \<open>Instances\<close>

lemma two_layouts_wf: "layouts_wf two_layouts"
  by (simp add: layouts_wf_def layout_eval)

lemma two_layouts_limit: "length (filter (owned t u) (layouts two_layouts)) \<le> MaxLayoutsPerUser"
  by (simp add: layout_eval)

theorem layout_histories_wf_instance:
  "length (filter (owned 1 2) (layouts (tables (layout_run
      [(5, CreateReq 13 1 2 ''c'' None), (6, CreateReq 14 1 2 ''d'' None)] (live two_layouts))))) \<le> MaxLayoutsPerUser"
  using layout_histories_wf [of "live two_layouts" "[(5, CreateReq 13 1 2 ''c'' None), (6, CreateReq 14 1 2 ''d'' None)]" 1 2]
    two_layouts_wf two_layouts_limit by simp

theorem layouts_isolated_instance:
  "rows_of 1 2 (tables (layout_run [(5, DeleteReq 11 1 3)] (live two_layouts))) = layouts two_layouts"
  using layouts_isolated [of "live two_layouts" 1 2 "[(5, DeleteReq 11 1 3)]"] two_layouts_wf
  by (simp add: two_layouts_def sample_layout_def new_layout_def)

text \<open>Two overlapping deletes of the two layouts: one of them is refused.\<close>

theorem last_layout_kept_instance:
  "\<exists>w. layout_step\<^sup>*\<^sup>* (live two_layouts, []) (w, [(DeleteWork 1 2 12, [11, 12])]) \<and>
     filter (owned 1 2) (layouts (tables w)) \<noteq> []"
proof -
  let ?A = "DeleteWork 1 2 11" and ?B = "DeleteWork 1 2 12" and ?found = "[11, 12]"
  let ?w1 = "finish_work 5 ?A (still_there (1, 2) ?found two_layouts) (live two_layouts)"
  have found: "found_rows (1, 2) two_layouts = ?found" by (simp add: layout_eval)
  have "layout_step (live two_layouts, []) (live two_layouts, [(?A, ?found)])"
    using ls_begin [of "live two_layouts" "[]" ?A] found by simp
  moreover have "layout_step (live two_layouts, [(?A, ?found)]) (live two_layouts, [(?B, ?found), (?A, ?found)])"
    using ls_begin [of "live two_layouts" "[(?A, ?found)]" ?B] found by simp
  moreover have "layout_step (live two_layouts, [(?B, ?found), (?A, ?found)]) (?w1, [(?B, ?found)])"
    using ls_finish [of ?A ?found "[(?B, ?found), (?A, ?found)]" "live two_layouts" 5] by simp
  ultimately have r: "layout_step\<^sup>*\<^sup>* (live two_layouts, []) (?w1, [(?B, ?found)])"
    by (meson rtranclp.rtrancl_into_rtrancl rtranclp.rtrancl_refl)
  with last_layout_kept [OF r, of 1 2] two_layouts_wf show ?thesis
    by (auto simp: layout_eval)
qed

end
