(* ===== verification/Alarms.thy ===== *)
theory Alarms
  imports GoStd Complex_Main
begin

text \<open>
  Alarm rules (\<open>internal/repo/pg/alarm_rules\<close>, \<open>internal/app/alarm_rules\<close> and the handlers) and notifications
  (\<open>internal/repo/pg/notifications\<close>, \<open>internal/app/notifications\<close> and the handlers), with the constraints of
  their tables. A float64 is the decimal number that the driver sends for it.
\<close>

section \<open>Domain and tables\<close>

datatype alarm_err =
    ErrAlarmRuleNotFound | ErrNotificationNotFound | ErrNameRequired | ErrMetricRequired | ErrInvalidOperator
  | ErrInvalidSeverity | AlarmInternal

definition ValidOperators :: "string list" where
  "ValidOperators = [''gt'', ''lt'', ''gte'', ''lte'', ''eq'']"

definition ValidSeverities :: "string list" where
  "ValidSeverities = [''info'', ''warning'', ''critical'']"

definition ValidateOperator :: "string \<Rightarrow> bool" where
  "ValidateOperator s \<longleftrightarrow> s \<in> set ValidOperators"

definition ValidateSeverity :: "string \<Rightarrow> bool" where
  "ValidateSeverity s \<longleftrightarrow> s \<in> set ValidSeverities"

record alarm_rule =
  ar_ID :: uuid
  ar_TenantID :: uuid
  ar_Name :: string
  ar_Description :: string
  ar_Metric :: string
  ar_Operator :: string
  ar_Threshold :: rat
  ar_Severity :: string
  ar_Enabled :: bool
  ar_CreatedAt :: time
  ar_UpdatedAt :: time

text \<open>A row has a description that may be NULL.\<close>

type_synonym alarm_row = "alarm_rule \<times> string option"

record notification =
  no_ID :: uuid
  no_TenantID :: uuid
  no_Title :: string
  no_Message :: string
  no_Severity :: string
  no_Status :: string
  no_AlarmRuleID :: "uuid option"
  no_MachineID :: "uuid option"
  no_CreatedAt :: time
  no_AcknowledgedAt :: "time option"
  no_ClosedAt :: "time option"

record alarm_db =
  alarm_rules :: "alarm_row list"
  notifications :: "notification list"
  al_tenants :: "uuid list"

type_synonym 'a alarm_op = "(alarm_db world, alarm_err, 'a) oper"

text \<open>\<open>numeric(15,4)\<close> rounds to four decimals, ties away from zero, and holds eleven digits before them.\<close>

definition numeric_15_4 :: "rat \<Rightarrow> rat option" where
  "numeric_15_4 x =
     (let n = sgn x * of_int \<lfloor>\<bar>x\<bar> * 10000 + 1 / 2\<rfloor>
      in if \<bar>n\<bar> < 10 ^ 15 then Some (n / 10000) else None)"

section \<open>Alarm rules: repository\<close>

definition nullableString :: "string \<Rightarrow> string option" where
  "nullableString s = (if s = [] then None else Some s)"

definition scanAlarmRule :: "alarm_row \<Rightarrow> alarm_rule" where
  "scanAlarmRule row = (fst row)\<lparr>ar_Description := opt_or (snd row) []\<rparr>"

definition alarm_List :: "uuid \<Rightarrow> alarm_rule list alarm_op" where
  "alarm_List t =
     query AlarmInternal (\<lambda>d. Inr (map scanAlarmRule
       (sort_key (\<lambda>r. ar_CreatedAt (fst r)) (filter (\<lambda>r. ar_TenantID (fst r) = t) (alarm_rules d)))))"

abbreviation alarm_hit :: "uuid \<Rightarrow> uuid \<Rightarrow> alarm_row \<Rightarrow> bool" where
  "alarm_hit i t r \<equiv> ar_ID (fst r) = i \<and> ar_TenantID (fst r) = t"

definition alarm_GetByID :: "uuid \<Rightarrow> uuid \<Rightarrow> alarm_rule alarm_op" where
  "alarm_GetByID i t =
     query AlarmInternal (\<lambda>d. first_row ErrAlarmRuleNotFound (map scanAlarmRule (filter (alarm_hit i t) (alarm_rules d))))"

definition alarm_checks :: "alarm_rule \<Rightarrow> bool" where
  "alarm_checks r \<longleftrightarrow> ValidateOperator (ar_Operator r) \<and> ValidateSeverity (ar_Severity r)"

text \<open>The row gets the threshold as the column holds it; the rule that is returned keeps the one it came with.\<close>

definition alarm_Create :: "time \<Rightarrow> uuid \<Rightarrow> alarm_rule \<Rightarrow> alarm_rule alarm_op" where
  "alarm_Create now newID r =
     stmt AlarmInternal (\<lambda>d.
       let stamped = r\<lparr>ar_ID := newID, ar_CreatedAt := now, ar_UpdatedAt := now\<rparr>
       in case numeric_15_4 (ar_Threshold r) of
            None \<Rightarrow> (Inl AlarmInternal, d)
          | Some x \<Rightarrow>
              if \<not> alarm_checks r \<or> newID \<in> (\<lambda>r. ar_ID (fst r)) ` set (alarm_rules d) \<or> ar_TenantID r \<notin> set (al_tenants d)
              then (Inl AlarmInternal, d)
              else (Inr stamped,
                    d\<lparr>alarm_rules := alarm_rules d @ [(stamped\<lparr>ar_Threshold := x, ar_Description := []\<rparr>, nullableString (ar_Description r))]\<rparr>))"

definition alarm_Update :: "time \<Rightarrow> alarm_rule \<Rightarrow> alarm_rule alarm_op" where
  "alarm_Update now r =
     stmt AlarmInternal (\<lambda>d.
       let hit = alarm_hit (ar_ID r) (ar_TenantID r)
       in if filter hit (alarm_rules d) = [] then (Inl ErrAlarmRuleNotFound, d)
          else case numeric_15_4 (ar_Threshold r) of
            None \<Rightarrow> (Inl AlarmInternal, d)
          | Some x \<Rightarrow>
              if \<not> alarm_checks r then (Inl AlarmInternal, d)
              else (Inr (r\<lparr>ar_UpdatedAt := now\<rparr>),
                d\<lparr>alarm_rules := update_where hit
                  (\<lambda>(o', _). (o'\<lparr>ar_Name := ar_Name r, ar_Metric := ar_Metric r, ar_Operator := ar_Operator r, ar_Threshold := x,
                       ar_Severity := ar_Severity r, ar_Enabled := ar_Enabled r, ar_UpdatedAt := now\<rparr>,
                     nullableString (ar_Description r))) (alarm_rules d)\<rparr>))"

definition alarm_Delete :: "uuid \<Rightarrow> uuid \<Rightarrow> unit alarm_op" where
  "alarm_Delete i t =
     stmt AlarmInternal (\<lambda>d.
       if filter (alarm_hit i t) (alarm_rules d) = [] then (Inl ErrAlarmRuleNotFound, d)
       else (Inr (), d\<lparr>alarm_rules := filter (\<lambda>r. \<not> alarm_hit i t r) (alarm_rules d)\<rparr>))"

section \<open>Alarm rules: service\<close>

record alarm_input =
  ai_Name :: string
  ai_Description :: string
  ai_Metric :: string
  ai_Operator :: string
  ai_Threshold :: rat
  ai_Severity :: string
  ai_Enabled :: bool

record alarm_patch =
  ap_Name :: "string option"
  ap_Description :: "string option"
  ap_Metric :: "string option"
  ap_Operator :: "string option"
  ap_Threshold :: "rat option"
  ap_Severity :: "string option"
  ap_Enabled :: "bool option"

definition ListAlarmRules :: "uuid \<Rightarrow> alarm_rule list alarm_op" where
  "ListAlarmRules t = alarm_List t"

definition GetAlarmRule :: "uuid \<Rightarrow> uuid \<Rightarrow> alarm_rule alarm_op" where
  "GetAlarmRule i t = alarm_GetByID i t"

definition CreateAlarmRule :: "time \<Rightarrow> uuid \<Rightarrow> uuid \<Rightarrow> alarm_input \<Rightarrow> alarm_rule alarm_op" where
  "CreateAlarmRule now newID t x =
     (if ai_Name x = [] then op_fail ErrNameRequired
      else if ai_Metric x = [] then op_fail ErrMetricRequired
      else if \<not> ValidateOperator (ai_Operator x) then op_fail ErrInvalidOperator
      else if \<not> ValidateSeverity (ai_Severity x) then op_fail ErrInvalidSeverity
      else alarm_Create now newID
        \<lparr>ar_ID = 0, ar_TenantID = t, ar_Name = ai_Name x, ar_Description = ai_Description x, ar_Metric = ai_Metric x,
         ar_Operator = ai_Operator x, ar_Threshold = ai_Threshold x, ar_Severity = ai_Severity x, ar_Enabled = ai_Enabled x,
         ar_CreatedAt = 0, ar_UpdatedAt = 0\<rparr>)"

text \<open>The checks stand between the assignments, in the order of the fields.\<close>

definition patched :: "alarm_patch \<Rightarrow> alarm_rule \<Rightarrow> alarm_err + alarm_rule" where
  "patched x r =
     (if ap_Name x = Some [] then Inl ErrNameRequired
      else if ap_Metric x = Some [] then Inl ErrMetricRequired
      else if (case ap_Operator x of None \<Rightarrow> False | Some p \<Rightarrow> \<not> ValidateOperator p) then Inl ErrInvalidOperator
      else if (case ap_Severity x of None \<Rightarrow> False | Some s \<Rightarrow> \<not> ValidateSeverity s) then Inl ErrInvalidSeverity
      else Inr (r\<lparr>ar_Name := opt_or (ap_Name x) (ar_Name r), ar_Description := opt_or (ap_Description x) (ar_Description r),
        ar_Metric := opt_or (ap_Metric x) (ar_Metric r), ar_Operator := opt_or (ap_Operator x) (ar_Operator r),
        ar_Threshold := opt_or (ap_Threshold x) (ar_Threshold r), ar_Severity := opt_or (ap_Severity x) (ar_Severity r),
        ar_Enabled := opt_or (ap_Enabled x) (ar_Enabled r)\<rparr>))"

definition UpdateAlarmRule :: "time \<Rightarrow> uuid \<Rightarrow> uuid \<Rightarrow> alarm_patch \<Rightarrow> alarm_rule alarm_op" where
  "UpdateAlarmRule now i t x =
     op_bind (alarm_GetByID i t) (\<lambda>r. op_bind (op_of (patched x r)) (alarm_Update now))"

definition DeleteAlarmRule :: "uuid \<Rightarrow> uuid \<Rightarrow> unit alarm_op" where
  "DeleteAlarmRule i t = alarm_Delete i t"

section \<open>Alarm rules: handlers\<close>

text \<open>\<open>tenant\<close> is the text of the context's tenant, \<open>i\<close> the path parameter; the body is None when it does not
  bind, and its \<open>enabled\<close> None when it is missing.\<close>

type_synonym 'a alarm_answer = "(alarm_db world, nat, 'a) oper"

fun alarm_HandleError :: "alarm_err \<Rightarrow> nat" where
  "alarm_HandleError ErrAlarmRuleNotFound = 404"
| "alarm_HandleError ErrNotificationNotFound = 500"
| "alarm_HandleError ErrNameRequired = 400"
| "alarm_HandleError ErrMetricRequired = 400"
| "alarm_HandleError ErrInvalidOperator = 400"
| "alarm_HandleError ErrInvalidSeverity = 400"
| "alarm_HandleError AlarmInternal = 500"

definition answer_or :: "(alarm_err \<Rightarrow> nat) \<Rightarrow> 'a alarm_op \<Rightarrow> 'a alarm_answer" where
  "answer_or status m = op_try m (\<lambda>e. op_fail (status e)) op_ret"

definition ListAlarmRules_handler :: "(string \<Rightarrow> uuid option) \<Rightarrow> string \<Rightarrow> alarm_rule list alarm_answer" where
  "ListAlarmRules_handler parse tenant =
     (case parse tenant of None \<Rightarrow> op_fail 400 | Some t \<Rightarrow> answer_or alarm_HandleError (ListAlarmRules t))"

definition GetAlarmRule_handler :: "(string \<Rightarrow> uuid option) \<Rightarrow> string \<Rightarrow> string \<Rightarrow> alarm_rule alarm_answer" where
  "GetAlarmRule_handler parse tenant i =
     (case parse tenant of
        None \<Rightarrow> op_fail 400
      | Some t \<Rightarrow> (case parse i of None \<Rightarrow> op_fail 400 | Some i' \<Rightarrow> answer_or alarm_HandleError (GetAlarmRule i' t)))"

definition CreateAlarmRule_handler ::
  "(string \<Rightarrow> uuid option) \<Rightarrow> time \<Rightarrow> uuid \<Rightarrow> string \<Rightarrow> (alarm_input \<times> bool option) option \<Rightarrow> alarm_rule alarm_answer" where
  "CreateAlarmRule_handler parse now newID tenant body =
     (case parse tenant of
        None \<Rightarrow> op_fail 400
      | Some t \<Rightarrow> (case body of
          None \<Rightarrow> op_fail 400
        | Some (x, enabled) \<Rightarrow>
            answer_or alarm_HandleError (CreateAlarmRule now newID t (x\<lparr>ai_Enabled := opt_or enabled True\<rparr>))))"

definition UpdateAlarmRule_handler ::
  "(string \<Rightarrow> uuid option) \<Rightarrow> time \<Rightarrow> string \<Rightarrow> string \<Rightarrow> alarm_patch option \<Rightarrow> alarm_rule alarm_answer" where
  "UpdateAlarmRule_handler parse now tenant i body =
     (case parse tenant of
        None \<Rightarrow> op_fail 400
      | Some t \<Rightarrow> (case parse i of
          None \<Rightarrow> op_fail 400
        | Some i' \<Rightarrow> (case body of
            None \<Rightarrow> op_fail 400
          | Some x \<Rightarrow> answer_or alarm_HandleError (UpdateAlarmRule now i' t x))))"

definition DeleteAlarmRule_handler :: "(string \<Rightarrow> uuid option) \<Rightarrow> string \<Rightarrow> string \<Rightarrow> unit alarm_answer" where
  "DeleteAlarmRule_handler parse tenant i =
     (case parse tenant of
        None \<Rightarrow> op_fail 400
      | Some t \<Rightarrow> (case parse i of None \<Rightarrow> op_fail 400 | Some i' \<Rightarrow> answer_or alarm_HandleError (DeleteAlarmRule i' t)))"

section \<open>Notifications\<close>

definition StatusUnread :: string where "StatusUnread = ''unread''"
definition StatusAcknowledged :: string where "StatusAcknowledged = ''acknowledged''"
definition StatusClosed :: string where "StatusClosed = ''closed''"

lemmas statuses = StatusUnread_def StatusAcknowledged_def StatusClosed_def

record notif_params =
  np_Status :: "string option"
  np_Severity :: "string option"
  np_Limit :: int
  np_Offset :: int

definition notif_matches :: "uuid \<Rightarrow> notif_params \<Rightarrow> notification \<Rightarrow> bool" where
  "notif_matches t p n \<longleftrightarrow> no_TenantID n = t \<and> (np_Status p = None \<or> np_Status p = Some (no_Status n)) \<and>
     (np_Severity p = None \<or> np_Severity p = Some (no_Severity n))"

definition notif_List :: "uuid \<Rightarrow> notif_params \<Rightarrow> (notification list \<times> nat) alarm_op" where
  "notif_List t p =
     op_bind (query AlarmInternal (\<lambda>d. Inr (length (filter (notif_matches t p) (notifications d))))) (\<lambda>total.
     op_bind (query AlarmInternal (\<lambda>d. Inr (take (nat (np_Limit p)) (drop (nat (np_Offset p))
       (sort_desc no_CreatedAt (filter (notif_matches t p) (notifications d))))))) (\<lambda>items.
     op_ret (items, total)))"

definition notif_CountUnread :: "uuid \<Rightarrow> nat alarm_op" where
  "notif_CountUnread t =
     query AlarmInternal (\<lambda>d. Inr (length (filter (\<lambda>n. no_TenantID n = t \<and> no_Status n = ''unread'') (notifications d))))"

abbreviation notif_hit :: "uuid \<Rightarrow> uuid \<Rightarrow> notification \<Rightarrow> bool" where
  "notif_hit i t n \<equiv> no_ID n = i \<and> no_TenantID n = t"

definition notif_GetByID :: "uuid \<Rightarrow> uuid \<Rightarrow> notification alarm_op" where
  "notif_GetByID i t =
     query AlarmInternal (\<lambda>d. first_row ErrNotificationNotFound (filter (notif_hit i t) (notifications d)))"

text \<open>\<open>UPDATE ... RETURNING\<close>: the rows as they are afterwards.\<close>

definition notif_update :: "uuid \<Rightarrow> uuid \<Rightarrow> (notification \<Rightarrow> notification) \<Rightarrow> notification alarm_op" where
  "notif_update i t f =
     stmt AlarmInternal (\<lambda>d.
       case filter (notif_hit i t) (notifications d) of
         [] \<Rightarrow> (Inl ErrNotificationNotFound, d)
       | n # _ \<Rightarrow> (Inr (f n), d\<lparr>notifications := update_where (notif_hit i t) f (notifications d)\<rparr>))"

definition acked :: "time \<Rightarrow> notification \<Rightarrow> notification" where
  "acked now n = (if no_Status n = ''unread'' then n\<lparr>no_Status := ''acknowledged'', no_AcknowledgedAt := Some now\<rparr> else n)"

definition closed_at :: "time \<Rightarrow> notification \<Rightarrow> notification" where
  "closed_at now n = n\<lparr>no_Status := ''closed'', no_ClosedAt := (if no_Status n \<noteq> ''closed'' then Some now else no_ClosedAt n)\<rparr>"

definition notif_Ack :: "time \<Rightarrow> uuid \<Rightarrow> uuid \<Rightarrow> notification alarm_op" where
  "notif_Ack now i t = notif_update i t (acked now)"

definition notif_Close :: "time \<Rightarrow> uuid \<Rightarrow> uuid \<Rightarrow> notification alarm_op" where
  "notif_Close now i t = notif_update i t (closed_at now)"

definition ListNotifications :: "uuid \<Rightarrow> notif_params \<Rightarrow> (notification list \<times> nat) alarm_op" where
  "ListNotifications t p =
     notif_List t (p\<lparr>np_Limit := (if np_Limit p \<le> 0 then 20 else if np_Limit p > 100 then 100 else np_Limit p),
       np_Offset := (if np_Offset p < 0 then 0 else np_Offset p)\<rparr>)"

definition CountUnread :: "uuid \<Rightarrow> nat alarm_op" where "CountUnread t = notif_CountUnread t"
definition GetNotification :: "uuid \<Rightarrow> uuid \<Rightarrow> notification alarm_op" where "GetNotification i t = notif_GetByID i t"
definition AckNotification :: "time \<Rightarrow> uuid \<Rightarrow> uuid \<Rightarrow> notification alarm_op" where "AckNotification now i t = notif_Ack now i t"
definition CloseNotification :: "time \<Rightarrow> uuid \<Rightarrow> uuid \<Rightarrow> notification alarm_op" where "CloseNotification now i t = notif_Close now i t"

fun notif_HandleError :: "alarm_err \<Rightarrow> nat" where
  "notif_HandleError ErrNotificationNotFound = 404"
| "notif_HandleError _ = 500"

definition notif_by_id ::
  "(string \<Rightarrow> uuid option) \<Rightarrow> (uuid \<Rightarrow> uuid \<Rightarrow> notification alarm_op) \<Rightarrow> string \<Rightarrow> string \<Rightarrow> notification alarm_answer" where
  "notif_by_id parse m tenant i =
     (case parse tenant of
        None \<Rightarrow> op_fail 400
      | Some t \<Rightarrow> (case parse i of None \<Rightarrow> op_fail 400 | Some i' \<Rightarrow> answer_or notif_HandleError (m i' t)))"

definition GetNotification_handler :: "(string \<Rightarrow> uuid option) \<Rightarrow> string \<Rightarrow> string \<Rightarrow> notification alarm_answer" where
  "GetNotification_handler parse tenant i = notif_by_id parse GetNotification tenant i"

definition AckNotification_handler :: "(string \<Rightarrow> uuid option) \<Rightarrow> time \<Rightarrow> string \<Rightarrow> string \<Rightarrow> notification alarm_answer" where
  "AckNotification_handler parse now tenant i = notif_by_id parse (AckNotification now) tenant i"

definition CloseNotification_handler :: "(string \<Rightarrow> uuid option) \<Rightarrow> time \<Rightarrow> string \<Rightarrow> string \<Rightarrow> notification alarm_answer" where
  "CloseNotification_handler parse now tenant i = notif_by_id parse (CloseNotification now) tenant i"

definition CountNotifications_handler :: "(string \<Rightarrow> uuid option) \<Rightarrow> string \<Rightarrow> nat alarm_answer" where
  "CountNotifications_handler parse tenant =
     (case parse tenant of None \<Rightarrow> op_fail 400 | Some t \<Rightarrow> answer_or notif_HandleError (CountUnread t))"

text \<open>The bound query has empty texts for missing filters. The answer: the items, the total, the limit and the
  offset that the client reads.\<close>

definition ListNotifications_handler ::
  "(string \<Rightarrow> uuid option) \<Rightarrow> string \<Rightarrow> (string \<times> string \<times> int \<times> int) option \<Rightarrow>
     (notification list \<times> nat \<times> int \<times> int) alarm_answer" where
  "ListNotifications_handler parse tenant qry =
     (case parse tenant of
        None \<Rightarrow> op_fail 400
      | Some t \<Rightarrow> (case qry of
          None \<Rightarrow> op_fail 400
        | Some (status, severity, limit0, offset) \<Rightarrow>
            let limit = (if limit0 \<le> 0 then 20 else if limit0 > 100 then 100 else limit0)
            in op_try (ListNotifications t \<lparr>np_Status = nullableString status, np_Severity = nullableString severity,
                   np_Limit = limit, np_Offset = offset\<rparr>)
                 (\<lambda>e. op_fail (notif_HandleError e)) (\<lambda>(items, total). op_ret (items, total, limit, offset))))"

section \<open>Histories of notifications\<close>

definition stage_of :: "notification \<Rightarrow> nat" where
  "stage_of n = (if no_Status n = StatusUnread then 0 else if no_Status n = StatusAcknowledged then 1 else 2)"

definition notif_wf :: "notification \<Rightarrow> bool" where
  "notif_wf n \<longleftrightarrow> no_Status n \<in> {StatusUnread, StatusAcknowledged, StatusClosed} \<and>
     (no_Status n = StatusUnread \<longrightarrow> no_AcknowledgedAt n = None) \<and>
     (no_Status n = StatusAcknowledged \<longrightarrow> no_AcknowledgedAt n \<noteq> None) \<and>
     (no_Status n = StatusClosed \<longleftrightarrow> no_ClosedAt n \<noteq> None)"

text \<open>What may become of a notification.\<close>

definition notif_evolves :: "notification \<Rightarrow> notification \<Rightarrow> bool" where
  "notif_evolves n n' \<longleftrightarrow>
     n' = n\<lparr>no_Status := no_Status n', no_AcknowledgedAt := no_AcknowledgedAt n', no_ClosedAt := no_ClosedAt n'\<rparr> \<and>
     stage_of n \<le> stage_of n' \<and>
     (no_AcknowledgedAt n \<noteq> None \<longrightarrow> no_AcknowledgedAt n' = no_AcknowledgedAt n) \<and>
     (no_ClosedAt n \<noteq> None \<longrightarrow> no_ClosedAt n' = no_ClosedAt n) \<and> notif_wf n'"

datatype notif_req = AckReq uuid uuid | CloseReq uuid uuid

fun notif_exec :: "time \<times> notif_req \<Rightarrow> alarm_db world \<Rightarrow> alarm_db world" where
  "notif_exec (now, AckReq i t) w = snd (AckNotification now i t w)"
| "notif_exec (now, CloseReq i t) w = snd (CloseNotification now i t w)"

definition notif_run :: "(time \<times> notif_req) list \<Rightarrow> alarm_db world \<Rightarrow> alarm_db world" where
  "notif_run reqs w = fold notif_exec reqs w"

lemma acked_evolves: "notif_wf n \<Longrightarrow> notif_evolves n (acked now n)"
  by (auto simp: notif_wf_def notif_evolves_def acked_def stage_of_def statuses)

lemma closed_evolves: "notif_wf n \<Longrightarrow> notif_evolves n (closed_at now n)"
  by (auto simp: notif_wf_def notif_evolves_def closed_at_def stage_of_def statuses)

lemma notif_evolves_refl: "notif_wf n \<Longrightarrow> notif_evolves n n"
  by (simp add: notif_evolves_def)

lemma notif_evolves_trans: "notif_evolves a b \<Longrightarrow> notif_evolves b c \<Longrightarrow> notif_evolves a c"
  by (cases a; cases b; cases c) (auto simp: notif_evolves_def)

lemma notif_update_cases:
  assumes "notif_update i t f w = (r, w')"
  obtains "notifications (tables w') = notifications (tables w)"
  | "notifications (tables w') = update_where (notif_hit i t) f (notifications (tables w))"
  using assms by (auto simp: notif_update_def stmt_def split: if_splits list.splits)

lemma update_evolves:
  assumes "notif_update i t f w = (r, w')" and "\<And>n. notif_wf n \<Longrightarrow> notif_evolves n (f n)"
    and "\<forall>n \<in> set (notifications (tables w)). notif_wf n"
  shows "list_all2 notif_evolves (notifications (tables w)) (notifications (tables w'))"
  using assms(1)
proof (cases rule: notif_update_cases)
  case 1
  with assms(3) show ?thesis by (simp add: list_all2_same notif_evolves_refl)
next
  case 2
  with assms(2,3) show ?thesis by (simp add: update_where_def list_all2_conv_all_nth notif_evolves_refl)
qed

lemma exec_evolves:
  assumes "\<forall>n \<in> set (notifications (tables w)). notif_wf n"
  shows "list_all2 notif_evolves (notifications (tables w)) (notifications (tables (notif_exec q w)))"
proof -
  obtain now x where q: "q = (now, x)" by (cases q)
  show ?thesis
  proof (cases x)
    case (AckReq i t)
    with update_evolves [of i t "acked now" w, OF _ acked_evolves assms] q show ?thesis
      by (cases "notif_update i t (acked now) w") (simp add: AckNotification_def notif_Ack_def)
  next
    case (CloseReq i t)
    with update_evolves [of i t "closed_at now" w, OF _ closed_evolves assms] q show ?thesis
      by (cases "notif_update i t (closed_at now) w") (simp add: CloseNotification_def notif_Close_def)
  qed
qed

section \<open>Properties\<close>

text \<open>C40. A notification only goes forward, from unread to acknowledged to closed, whoever asks and how often; nothing
  else of it changes, and the instants of its steps stand once they are set.\<close>

theorem notification_lifecycle:
  assumes "\<forall>n \<in> set (notifications (tables w)). notif_wf n"
  shows "list_all2 notif_evolves (notifications (tables w)) (notifications (tables (notif_run reqs w)))"
  using assms
proof (induction reqs arbitrary: w)
  case Nil
  then show ?case by (simp add: notif_run_def list_all2_same notif_evolves_refl)
next
  case (Cons q reqs)
  note one = exec_evolves [OF Cons.prems, of q]
  then have "\<forall>n \<in> set (notifications (tables (notif_exec q w))). notif_wf n"
    by (auto simp: list_all2_conv_all_nth in_set_conv_nth notif_evolves_def)
  from list_all2_trans [OF notif_evolves_trans one Cons.IH [OF this]] show ?case by (simp add: notif_run_def)
qed

text \<open>What a successful change of an alarm rule answers is the stored rule with the fields of the request, and what
  a later read gives, but for the threshold, which is read as the column holds it.\<close>

theorem patch_then_get:
  assumes run: "UpdateAlarmRule now i t x w = (Inr r, w')"
    and ids: "distinct (map (\<lambda>r. ar_ID (fst r)) (alarm_rules (tables w)))"
  shows "\<exists>r0 v. fst (GetAlarmRule i t (live (tables w))) = Inr r0 \<and> patched x r0 = Inr (r\<lparr>ar_UpdatedAt := ar_UpdatedAt r0\<rparr>) \<and>
    numeric_15_4 (ar_Threshold r) = Some v \<and>
    fst (GetAlarmRule i t (live (tables w'))) = Inr (r\<lparr>ar_Threshold := v\<rparr>)"
proof -
  obtain r0 r1 w1 where g: "alarm_GetByID i t w = (Inr r0, w1)" and p: "patched x r0 = Inr r1"
    and u: "alarm_Update now r1 w1 = (Inr r, w')"
    using run by (auto simp: UpdateAlarmRule_def op_bind_Inr_iff)
  obtain row where row: "row \<in> set (alarm_rules (tables w))" "alarm_hit i t row" "r0 = scanAlarmRule row"
    and w1: "tables w1 = tables w"
    using g by (auto simp: alarm_GetByID_def query_Inr dest!: first_row_mem)
  have only: "filter (alarm_hit i t) (alarm_rules (tables w)) = [row]"
    using filter_key_unique [OF ids row(1), of "\<lambda>r. ar_TenantID (fst r) = t"] row(2) by simp
  have r1: "ar_ID r1 = i" "ar_TenantID r1 = t" "ar_CreatedAt r1 = ar_CreatedAt (fst row)" "ar_UpdatedAt r1 = ar_UpdatedAt r0"
    using p row(2,3) by (auto simp: patched_def scanAlarmRule_def split: if_splits)
  obtain v where v: "numeric_15_4 (ar_Threshold r1) = Some v" and r: "r = r1\<lparr>ar_UpdatedAt := now\<rparr>"
    and t': "alarm_rules (tables w') = update_where (alarm_hit i t)
      (\<lambda>(o', _). (o'\<lparr>ar_Name := ar_Name r1, ar_Metric := ar_Metric r1, ar_Operator := ar_Operator r1, ar_Threshold := v,
           ar_Severity := ar_Severity r1, ar_Enabled := ar_Enabled r1, ar_UpdatedAt := now\<rparr>,
         nullableString (ar_Description r1))) (alarm_rules (tables w))"
    using u w1 r1(1,2) by (auto simp: alarm_Update_def stmt_def Let_def split: if_splits option.splits)
  let ?f = "\<lambda>(o', _). (o'\<lparr>ar_Name := ar_Name r1, ar_Metric := ar_Metric r1, ar_Operator := ar_Operator r1, ar_Threshold := v,
           ar_Severity := ar_Severity r1, ar_Enabled := ar_Enabled r1, ar_UpdatedAt := now\<rparr>, nullableString (ar_Description r1))"
  have "filter (alarm_hit i t) (update_where (alarm_hit i t) ?f rs) = map ?f (filter (alarm_hit i t) rs)" for rs
    by (induction rs) auto
  with t' only have "filter (alarm_hit i t) (alarm_rules (tables w')) = [?f row]" by simp
  moreover have "scanAlarmRule (?f row) = r\<lparr>ar_Threshold := v\<rparr>"
    using r1 r row(2) by (cases row) (auto simp: scanAlarmRule_def nullableString_def)
  ultimately have "fst (GetAlarmRule i t (live (tables w'))) = Inr (r\<lparr>ar_Threshold := v\<rparr>)"
    by (simp add: GetAlarmRule_def alarm_GetByID_def query_def stmt_def live_def)
  moreover have "fst (GetAlarmRule i t (live (tables w))) = Inr r0"
    using only row(3) by (simp add: GetAlarmRule_def alarm_GetByID_def query_def stmt_def live_def)
  moreover have "patched x r0 = Inr (r\<lparr>ar_UpdatedAt := ar_UpdatedAt r0\<rparr>)" using p r r1(4) by simp
  moreover have "numeric_15_4 (ar_Threshold r) = Some v" using v r by simp
  ultimately show ?thesis by blast
qed

text \<open>The answer to a creation shows the threshold that was sent, not the one that was stored.\<close>

definition alarm_sample :: alarm_db where
  "alarm_sample = \<lparr>alarm_rules = [], notifications = [\<lparr>no_ID = 5, no_TenantID = 1, no_Title = ''t'', no_Message = ''m'',
     no_Severity = ''info'', no_Status = ''unread'', no_AlarmRuleID = None, no_MachineID = None, no_CreatedAt = 1,
     no_AcknowledgedAt = None, no_ClosedAt = None\<rparr>], al_tenants = [1]\<rparr>"

definition tiny_threshold :: alarm_input where
  "tiny_threshold = \<lparr>ai_Name = ''n'', ai_Description = [], ai_Metric = ''m'', ai_Operator = ''gt'', ai_Threshold = 1 / 100000,
     ai_Severity = ''info'', ai_Enabled = True\<rparr>"

theorem create_echoes_threshold:
  "\<exists>r w r'. CreateAlarmRule 9 7 1 tiny_threshold (live alarm_sample) = (Inr r, w) \<and> ar_Threshold r = 1 / 100000 \<and>
     fst (GetAlarmRule 7 1 (live (tables w))) = Inr r' \<and> ar_Threshold r' = 0"
  by (simp add: CreateAlarmRule_def tiny_threshold_def alarm_sample_def alarm_Create_def stmt_def live_def numeric_15_4_def
      alarm_checks_def ValidateOperator_def ValidateSeverity_def ValidOperators_def ValidSeverities_def GetAlarmRule_def
      alarm_GetByID_def query_def scanAlarmRule_def nullableString_def Let_def floor_eq_iff)

section \<open>Instances\<close>

theorem notification_lifecycle_instance:
  "list_all2 notif_evolves (notifications alarm_sample)
     (notifications (tables (notif_run [(2, AckReq 5 1), (3, CloseReq 5 1), (4, AckReq 5 1)] (live alarm_sample))))"
  using notification_lifecycle [of "live alarm_sample" "[(2, AckReq 5 1), (3, CloseReq 5 1), (4, AckReq 5 1)]"]
  by (simp add: alarm_sample_def notif_wf_def statuses)

definition one_rule :: alarm_db where
  "one_rule = alarm_sample\<lparr>alarm_rules := [(\<lparr>ar_ID = 7, ar_TenantID = 1, ar_Name = ''n'', ar_Description = [], ar_Metric = ''m'',
     ar_Operator = ''gt'', ar_Threshold = 1, ar_Severity = ''info'', ar_Enabled = True, ar_CreatedAt = 1, ar_UpdatedAt = 1\<rparr>, None)]\<rparr>"

definition raise_threshold :: alarm_patch where
  "raise_threshold = \<lparr>ap_Name = None, ap_Description = Some ''d'', ap_Metric = None, ap_Operator = None, ap_Threshold = Some 2,
     ap_Severity = None, ap_Enabled = None\<rparr>"

theorem patch_then_get_instance:
  "\<exists>r w'. UpdateAlarmRule 9 7 1 raise_threshold (live one_rule) = (Inr r, w') \<and>
     (\<exists>v. numeric_15_4 (ar_Threshold r) = Some v \<and> fst (GetAlarmRule 7 1 (live (tables w'))) = Inr (r\<lparr>ar_Threshold := v\<rparr>))"
proof -
  have "\<exists>r w'. UpdateAlarmRule 9 7 1 raise_threshold (live one_rule) = (Inr r, w')"
    by (simp add: UpdateAlarmRule_def raise_threshold_def one_rule_def alarm_sample_def alarm_GetByID_def alarm_Update_def
        query_def stmt_def live_def op_bind_def patched_def scanAlarmRule_def numeric_15_4_def alarm_checks_def
        ValidateOperator_def ValidateSeverity_def ValidOperators_def ValidSeverities_def Let_def)
  then obtain r w' where run: "UpdateAlarmRule 9 7 1 raise_threshold (live one_rule) = (Inr r, w')" by blast
  have "distinct (map (\<lambda>r. ar_ID (fst r)) (alarm_rules (tables (live one_rule))))" by (simp add: one_rule_def)
  from patch_then_get [OF run this] run show ?thesis by blast
qed

end
