(* ===== verification/AppOrigin.thy ===== *)
theory AppOrigin
  imports GoStd
begin

text \<open>
  The allow-list of frontend origins (\<open>internal/platform/apporigin/allowlist.go\<close>), which decides where
  the links in mails point to. \<open>strings.ToLower\<close> and \<open>url.Parse\<close> are the parameters \<open>lower\<close> and
  \<open>parse\<close>; the latter gives the scheme and the host, None for an error. A loop that appends to a slice
  is a fold. What is proved: the list holds nothing but the entries of the configuration, and an origin
  it lets pass is one of them or a subdomain of a wildcard entry, under the scheme of the entry.
\<close>

section \<open>Functions of package strings\<close>

text \<open>\<open>strings.Cut\<close>: None when the separator is not found.\<close>

fun cut_at :: "string \<Rightarrow> string \<Rightarrow> (string \<times> string) option" where
  "cut_at sep [] = (if sep = [] then Some ([], []) else None)"
| "cut_at sep (c # cs) =
     (if prefix sep (c # cs) then Some ([], drop (length sep) (c # cs))
      else map_option (\<lambda>(a, b). (c # a, b)) (cut_at sep cs))"

lemma cut_at_Some: "cut_at sep s = Some (a, b) \<Longrightarrow> s = a @ sep @ b"
  by (induction sep s arbitrary: a rule: cut_at.induct) (auto simp: prefix_def split: if_splits)

text \<open>\<open>strings.Split\<close> at a byte.\<close>

fun split_all :: "char \<Rightarrow> string \<Rightarrow> string list" where
  "split_all sep [] = [[]]"
| "split_all sep (c # cs) =
     (if c = sep then [] # split_all sep cs
      else case split_all sep cs of p # ps \<Rightarrow> (c # p) # ps | [] \<Rightarrow> [[c]])"

section \<open>The list\<close>

record allow_list =
  al_exact :: "string list"
  al_wildcard :: "(string \<times> string) list"

definition Normalize :: "(string \<Rightarrow> string) \<Rightarrow> (string \<Rightarrow> (string \<times> string) option) \<Rightarrow> string \<Rightarrow> string option" where
  "Normalize lower parse raw =
     (let s = lower (trim_space raw)
      in if s = [] then None
         else case parse s of
           None \<Rightarrow> None
         | Some (scheme, host) \<Rightarrow>
             if scheme \<noteq> ''http'' \<and> scheme \<noteq> ''https'' then None
             else if host = [] then None
             else Some (scheme @ ''://'' @ host))"

definition parse_item ::
  "(string \<Rightarrow> string) \<Rightarrow> (string \<Rightarrow> (string \<times> string) option) \<Rightarrow> string \<Rightarrow> allow_list \<Rightarrow> allow_list" where
  "parse_item lower parse raw a =
     (let item = lower (trim_space raw)
      in if item = [] then a
         else case cut_at ''://'' item of
           Some (scheme, CHR ''*'' # CHR ''.'' # zone) \<Rightarrow>
             if scheme \<noteq> ''http'' \<and> scheme \<noteq> ''https'' then a
             else a\<lparr>al_wildcard := al_wildcard a @ [(scheme, CHR ''.'' # zone)]\<rparr>
         | _ \<Rightarrow>
             (case Normalize lower parse item of
                None \<Rightarrow> a
              | Some origin \<Rightarrow> a\<lparr>al_exact := al_exact a @ [origin]\<rparr>))"

definition Parse_origins :: "(string \<Rightarrow> string) \<Rightarrow> (string \<Rightarrow> (string \<times> string) option) \<Rightarrow> string \<Rightarrow> allow_list" where
  "Parse_origins lower parse raw =
     fold (parse_item lower parse) (split_all (CHR '','') raw) \<lparr>al_exact = [], al_wildcard = []\<rparr>"

definition Allows :: "allow_list \<Rightarrow> string \<Rightarrow> bool" where
  "Allows a origin \<longleftrightarrow>
     origin \<in> set (al_exact a) \<or>
     list_ex (\<lambda>(scheme, suf).
       let pre = scheme @ ''://'' in
       prefix pre origin \<and>
       (let host = drop (length pre) origin in length host > length suf \<and> suffix suf host)) (al_wildcard a)"

definition Resolve ::
  "(string \<Rightarrow> string) \<Rightarrow> (string \<Rightarrow> (string \<times> string) option) \<Rightarrow> allow_list \<Rightarrow> string \<Rightarrow> string \<Rightarrow> string \<times> bool" where
  "Resolve lower parse a candidate fallback =
     (case Normalize lower parse candidate of
        None \<Rightarrow> (fallback, False)
      | Some origin \<Rightarrow> if \<not> Allows a origin then (fallback, False) else (origin, True))"

definition ExactCount :: "allow_list \<Rightarrow> nat" where "ExactCount a = length (al_exact a)"

definition WildcardCount :: "allow_list \<Rightarrow> nat" where "WildcardCount a = length (al_wildcard a)"

section \<open>What the list holds\<close>

lemma NormalizeE:
  assumes "Normalize lower parse raw = Some u"
  obtains scheme host where "u = scheme @ ''://'' @ host" and "scheme = ''http'' \<or> scheme = ''https''" and "host \<noteq> []"
    and "parse (lower (trim_space raw)) = Some (scheme, host)"
  using assms by (auto simp: Normalize_def Let_def split: if_splits option.splits)

text \<open>Entries of the configuration: an origin, or the scheme and domain of a wildcard.\<close>

definition lists_exact :: "(string \<Rightarrow> string) \<Rightarrow> (string \<Rightarrow> (string \<times> string) option) \<Rightarrow> string list \<Rightarrow> string \<Rightarrow> bool" where
  "lists_exact lower parse items u \<longleftrightarrow> (\<exists>i \<in> set items. Normalize lower parse (lower (trim_space i)) = Some u)"

definition lists_wildcard :: "(string \<Rightarrow> string) \<Rightarrow> string list \<Rightarrow> string \<Rightarrow> string \<Rightarrow> bool" where
  "lists_wildcard lower items scheme zone \<longleftrightarrow>
     (scheme = ''http'' \<or> scheme = ''https'') \<and>
     (\<exists>i \<in> set items. lower (trim_space i) = scheme @ ''://*.'' @ zone)"

lemma parse_item_exact:
  "u \<in> set (al_exact (parse_item lower parse i a)) \<Longrightarrow>
     u \<in> set (al_exact a) \<or> Normalize lower parse (lower (trim_space i)) = Some u"
  by (auto simp: parse_item_def Let_def split: if_splits option.splits list.splits char.splits bool.splits)

lemma parse_item_wildcard:
  assumes "(scheme, suf) \<in> set (al_wildcard (parse_item lower parse i a))"
  shows "(scheme, suf) \<in> set (al_wildcard a) \<or>
    (\<exists>zone. suf = CHR ''.'' # zone \<and> lower (trim_space i) = scheme @ ''://*.'' @ zone \<and> (scheme = ''http'' \<or> scheme = ''https''))"
  using assms cut_at_Some [of "''://''" "lower (trim_space i)"]
  by (auto simp: parse_item_def Let_def split: if_splits option.splits list.splits char.splits bool.splits)

lemma Parse_fold:
  assumes "a' = fold (parse_item lower parse) items a"
  shows "u \<in> set (al_exact a') \<Longrightarrow> u \<in> set (al_exact a) \<or> lists_exact lower parse items u"
    and "(scheme, suf) \<in> set (al_wildcard a') \<Longrightarrow> (scheme, suf) \<in> set (al_wildcard a) \<or>
      (\<exists>zone. suf = CHR ''.'' # zone \<and> lists_wildcard lower items scheme zone)"
proof -
  have e: "u \<in> set (al_exact (fold (parse_item lower parse) items a)) \<Longrightarrow>
      u \<in> set (al_exact a) \<or> lists_exact lower parse items u" for a
    by (induction items arbitrary: a) (auto simp: lists_exact_def dest!: parse_item_exact)
  have w: "(scheme, suf) \<in> set (al_wildcard (fold (parse_item lower parse) items a)) \<Longrightarrow>
      (scheme, suf) \<in> set (al_wildcard a) \<or> (\<exists>zone. suf = CHR ''.'' # zone \<and> lists_wildcard lower items scheme zone)" for a
  proof (induction items arbitrary: a)
    case (Cons i items)
    then have "(scheme, suf) \<in> set (al_wildcard (parse_item lower parse i a)) \<or>
        (\<exists>zone. suf = CHR ''.'' # zone \<and> lists_wildcard lower items scheme zone)" by simp
    then show ?case using parse_item_wildcard [of scheme suf lower parse i a] by (auto simp: lists_wildcard_def)
  qed simp
  show "u \<in> set (al_exact a') \<Longrightarrow> u \<in> set (al_exact a) \<or> lists_exact lower parse items u" using e assms by blast
  show "(scheme, suf) \<in> set (al_wildcard a') \<Longrightarrow> (scheme, suf) \<in> set (al_wildcard a) \<or>
      (\<exists>zone. suf = CHR ''.'' # zone \<and> lists_wildcard lower items scheme zone)" using w assms by blast
qed

lemma Parse_entries:
  shows "u \<in> set (al_exact (Parse_origins lower parse raw)) \<Longrightarrow> lists_exact lower parse (split_all (CHR '','') raw) u"
    and "(scheme, suf) \<in> set (al_wildcard (Parse_origins lower parse raw)) \<Longrightarrow>
      \<exists>zone. suf = CHR ''.'' # zone \<and> lists_wildcard lower (split_all (CHR '','') raw) scheme zone"
  using Parse_fold [of "Parse_origins lower parse raw" lower parse "split_all (CHR '','') raw" "\<lparr>al_exact = [], al_wildcard = []\<rparr>"]
  by (simp_all add: Parse_origins_def)

text \<open>An origin: one of the configuration, or a subdomain of a wildcard of it.\<close>

definition configured :: "(string \<Rightarrow> string) \<Rightarrow> (string \<Rightarrow> (string \<times> string) option) \<Rightarrow> string list \<Rightarrow> string \<Rightarrow> bool" where
  "configured lower parse items u \<longleftrightarrow>
     lists_exact lower parse items u \<or>
     (\<exists>scheme zone label. lists_wildcard lower items scheme zone \<and> label \<noteq> [] \<and> u = scheme @ ''://'' @ label @ ''.'' @ zone)"

lemma Allows_configured:
  assumes "Allows (Parse_origins lower parse raw) u"
  shows "configured lower parse (split_all (CHR '','') raw) u"
proof (cases "u \<in> set (al_exact (Parse_origins lower parse raw))")
  case True
  then show ?thesis by (auto simp: configured_def dest: Parse_entries(1))
next
  case False
  with assms obtain scheme suf where w: "(scheme, suf) \<in> set (al_wildcard (Parse_origins lower parse raw))"
    and p: "prefix (scheme @ ''://'') u" and l: "length (drop (length (scheme @ ''://'')) u) > length suf"
    and s: "suffix suf (drop (length (scheme @ ''://'')) u)"
    by (auto simp: Allows_def Let_def list_ex_iff)
  from p obtain host where u: "u = scheme @ ''://'' @ host" by (auto elim: prefixE)
  then have host: "drop (length (scheme @ ''://'')) u = host" by simp
  from s [unfolded host] obtain label where label: "host = label @ suf" unfolding suffix_def by blast
  with l [unfolded host] have "label \<noteq> []" by (cases label) simp_all
  moreover from Parse_entries(2) [OF w] obtain zone where "suf = CHR ''.'' # zone"
    and "lists_wildcard lower (split_all (CHR '','') raw) scheme zone" by blast
  moreover from this(1) label u have "u = scheme @ ''://'' @ label @ ''.'' @ zone" by simp
  ultimately show ?thesis unfolding configured_def by blast
qed

text \<open>The base of the links in mails: the fallback, unless the header names an origin of the
  configuration; then it is that origin, with the scheme http or https.\<close>

lemma Resolve_configured:
  assumes "Resolve lower parse (Parse_origins lower parse raw) candidate fallback = (u, ok)"
  shows "if ok then configured lower parse (split_all (CHR '','') raw) u \<and> Normalize lower parse candidate = Some u
    else u = fallback"
  using assms Allows_configured by (auto simp: Resolve_def split: option.splits if_splits)

text \<open>A wildcard never stands for its bare domain.\<close>

lemma bare_domain_refused:
  assumes "al_exact a = []" and "al_wildcard a = [(scheme, CHR ''.'' # zone)]"
  shows "\<not> Allows a (scheme @ ''://'' @ zone)" and "\<not> Allows a (scheme @ ''://.'' @ zone)"
  using assms by (simp_all add: Allows_def)

text \<open>An empty list trusts no header.\<close>

lemma Parse_origins_Nil: "Parse_origins lower parse [] = \<lparr>al_exact = [], al_wildcard = []\<rparr>" if "lower [] = []"
  using that by (simp add: Parse_origins_def parse_item_def trim_space_def trim_left_def trim_right_def strip_all_None
      strip_first_None spaces_def)

end
