(* ===== verification/Routing.thy ===== *)
theory Routing
  imports Logins RateLimit AppOrigin
begin

text \<open>
  The routes of the API and the middlewares in front of them: \<open>internal/routes/url_mappings.go\<close>,
  \<open>internal/api/router.go\<close>, the \<open>routes.go\<close> of the handlers, the remaining middlewares of
  \<open>internal/api/middleware\<close>, and the permissions the migrations give to the roles of the system.
  Gin, which finds the route of a request, is not modelled: every statement holds for each route that
  it may choose. Its documented order is used: the middlewares of a group run before those of the groups and
  routes made from it, each only if the one before did not abort. The chain of the devices is in
  \<open>Consumers\<close>; \<open>/ping\<close>, \<open>/health\<close>, \<open>/metrics\<close>, the login and the public lookup of a tenant have the middlewares of the engine only.
\<close>

section \<open>Middlewares and groups\<close>

datatype middleware =
    MwRequestID | MwLogger | MwCORS | MwJWTAuth | MwTenantFromHeader | MwPasswordChangeGuard
  | MwAppBaseURLFromHeader | MwExtractTenantID | MwResolveTenant | MwRBACCheck string | MwDashboardRateLimit

record route_group =
  gr_path :: string
  gr_chain :: "middleware list"

record route =
  rt_method :: string
  rt_path :: string
  rt_chain :: "middleware list"
  rt_handler :: string

definition Group :: "route_group \<Rightarrow> string \<Rightarrow> middleware list \<Rightarrow> route_group" where
  "Group g path mws = \<lparr>gr_path = gr_path g @ path, gr_chain = gr_chain g @ mws\<rparr>"

definition Handle :: "string \<Rightarrow> route_group \<Rightarrow> string \<Rightarrow> middleware list \<Rightarrow> string \<Rightarrow> route" where
  "Handle method g path mws handler =
     \<lparr>rt_method = method, rt_path = gr_path g @ path, rt_chain = gr_chain g @ mws, rt_handler = handler\<rparr>"

abbreviation "GET \<equiv> Handle ''GET''"
abbreviation "POST \<equiv> Handle ''POST''"
abbreviation "PUT \<equiv> Handle ''PUT''"
abbreviation "PATCH \<equiv> Handle ''PATCH''"
abbreviation "DELETE \<equiv> Handle ''DELETE''"

text \<open>The engine with the middlewares of \<open>main\<close>, and the two groups of the users.\<close>

definition engine :: route_group where
  "engine = \<lparr>gr_path = [], gr_chain = [MwRequestID, MwLogger, MwCORS]\<rparr>"

definition v1 :: route_group where
  "v1 = Group engine ''/api/v1''
     [MwJWTAuth, MwTenantFromHeader, MwPasswordChangeGuard, MwAppBaseURLFromHeader, MwRequestID, MwLogger, MwCORS]"

definition tenantsGroup :: route_group where
  "tenantsGroup = Group engine ''/api/v1/tenants/:tenantId'' [MwRequestID, MwLogger, MwCORS, MwJWTAuth, MwResolveTenant]"

section \<open>The routes\<close>

definition RegisterAdminRoutes :: "route_group \<Rightarrow> route list" where
  "RegisterAdminRoutes g =
     (let userRoutes = Group g [] [MwExtractTenantID];
          view = MwRBACCheck ''perm_users_view''; manage = MwRBACCheck ''perm_users_manage'' in
      [GET userRoutes ''/users/pending'' [view] ''ListPendingUsers'',
       GET userRoutes ''/users'' [] ''ListUsers'',
       GET userRoutes ''/users/:id'' [] ''GetUser'',
       GET userRoutes ''/users/:id/roles'' [view] ''GetUserRoles'',
       POST userRoutes ''/users'' [manage] ''CreateUser'',
       PATCH userRoutes ''/users/me'' [] ''UpdateMe'',
       PATCH userRoutes ''/users/:id'' [manage] ''UpdateUser'',
       PATCH userRoutes ''/users/:id/status'' [manage] ''UpdateUserStatus'',
       DELETE userRoutes ''/users/:id'' [manage] ''DeleteUser'',
       GET g ''/machines'' [] ''ListMachines'',
       POST g ''/machines'' [] ''CreateMachine'',
       GET g ''/tenants'' [MwRBACCheck ''perm_tenants_view''] ''GetAllTenants'',
       POST g ''/tenants'' [MwRBACCheck ''perm_tenants_manage''] ''CreateTenant'',
       GET g ''/tenants/:tenantId'' [MwRBACCheck ''perm_tenants_view''] ''GetTenant'',
       PATCH g ''/tenants/:tenantId'' [MwRBACCheck ''perm_tenants_manage''] ''UpdateTenant'',
       DELETE g ''/tenants/:tenantId'' [MwRBACCheck ''perm_tenants_manage''] ''DeleteTenant'',
       POST g ''/user-roles'' [manage] ''AssignUserRole'',
       GET g ''/user-roles'' [view] ''ListUserRoles'',
       POST g ''/user-roles/bulk'' [manage] ''BulkAssignUserRoles'',
       PUT g ''/user-roles/:id'' [manage] ''UpdateUserRole'',
       DELETE g ''/user-roles/:id'' [manage] ''RevokeUserRole''])"

definition RegisterEdgeRoutes :: "route_group \<Rightarrow> route list" where
  "RegisterEdgeRoutes g =
     (let view = MwRBACCheck ''perm_edge_devices_view''; create = MwRBACCheck ''perm_edge_devices_create'';
          manage = MwRBACCheck ''perm_edge_devices_manage''; check = MwRBACCheck ''perm_edge_devices_check'' in
      [GET g ''/edge-devices'' [view] ''ListDevices'',
       POST g ''/edge-devices'' [create] ''CreateDevice'',
       GET g ''/edge-devices/:deviceId'' [view] ''GetDevice'',
       PUT g ''/edge-devices/:deviceId'' [manage] ''UpdateDevice'',
       POST g ''/edge-devices/:deviceId/enable'' [manage] ''EnableDevice'',
       POST g ''/edge-devices/:deviceId/disable'' [manage] ''DisableDevice'',
       POST g ''/edge-devices/:deviceId/status'' [check] ''StatusCheck'',
       POST g ''/edge-devices/:deviceId/health-check'' [check] ''HealthCheck'',
       GET g ''/edge-devices/:deviceId/telemetry'' [view] ''GetTelemetry'',
       GET g ''/edge-devices/:deviceId/events'' [view] ''ListEvents'',
       POST g ''/edge-devices/:deviceId/api-keys'' [manage] ''CreateAPIKey'',
       GET g ''/edge-devices/:deviceId/api-keys'' [view] ''ListAPIKeys'',
       DELETE g ''/edge-devices/:deviceId/api-keys/:keyId'' [manage] ''RevokeAPIKey''])"

definition RegisterLayoutRoutes :: "route_group \<Rightarrow> route list" where
  "RegisterLayoutRoutes g =
     [GET g ''/dashboard-layouts'' [] ''ListLayouts'',
      POST g ''/dashboard-layouts'' [] ''CreateLayout'',
      GET g ''/dashboard-layouts/:layoutId'' [] ''GetLayout'',
      PUT g ''/dashboard-layouts/:layoutId'' [] ''UpdateLayout'',
      DELETE g ''/dashboard-layouts/:layoutId'' [] ''DeleteLayout'']"

definition RegisterRoleRoutes :: "route_group \<Rightarrow> route_group \<Rightarrow> route list" where
  "RegisterRoleRoutes readGroup writeGroup =
     [GET readGroup ''/roles'' [] ''ListRoles'',
      GET readGroup ''/roles/:id'' [] ''GetRole'',
      POST writeGroup ''/roles'' [] ''CreateRole'',
      PUT writeGroup ''/roles/:id'' [] ''UpdateRole'',
      DELETE writeGroup ''/roles/:id'' [] ''DeleteRole'']"

definition RegisterAlarmRoutes :: "route_group \<Rightarrow> route_group \<Rightarrow> route list" where
  "RegisterAlarmRoutes readGroup writeGroup =
     [GET readGroup ''/alarm-rules'' [] ''ListAlarmRules'',
      GET readGroup ''/alarm-rules/:id'' [] ''GetAlarmRule'',
      POST writeGroup ''/alarm-rules'' [] ''CreateAlarmRule'',
      PATCH writeGroup ''/alarm-rules/:id'' [] ''UpdateAlarmRule'',
      DELETE writeGroup ''/alarm-rules/:id'' [] ''DeleteAlarmRule'']"

definition RegisterLogRoutes :: "route_group \<Rightarrow> route list" where
  "RegisterLogRoutes g =
     [GET g ''/logs/retention'' [] ''GetRetention'',
      PATCH g ''/logs/retention'' [MwRBACCheck ''perm_logs_admin''] ''UpdateRetention'',
      GET g ''/logs/stream'' [] ''StreamLogs'',
      GET g ''/logs/export'' [] ''ExportLogs'',
      GET g ''/logs'' [] ''ListLogs'',
      GET g ''/logs/:id'' [] ''GetLog'',
      GET g ''/logs/:id/context'' [] ''GetLogContext'']"

definition RegisterNotificationRoutes :: "route_group \<Rightarrow> route list" where
  "RegisterNotificationRoutes g =
     [GET g ''/notifications/count'' [] ''CountNotifications'',
      GET g ''/notifications'' [] ''ListNotifications'',
      GET g ''/notifications/:id'' [] ''GetNotification'',
      POST g ''/notifications/:id/ack'' [] ''AckNotification'',
      POST g ''/notifications/:id/close'' [] ''CloseNotification'']"

definition RegisterMetricRoutes :: "route_group \<Rightarrow> route list" where
  "RegisterMetricRoutes g =
     [POST g ''/query'' [] ''QueryMetrics'',
      GET g ''/catalog'' [] ''CatalogMetrics'',
      POST g ''/query/batch'' [] ''BatchQueryMetrics'']"

text \<open>The routes of the users in \<open>RegisterURLMappings\<close>: those of the group \<open>v1\<close>, in its order.\<close>

definition account_routes :: "route list" where
  "account_routes =
     (let manage = MwRBACCheck ''perm_users_manage'' in
      [GET v1 ''/me'' [] ''Me'',
       POST v1 ''/auth/change-password'' [] ''ChangePassword'',
       GET v1 ''/invitations'' [] ''ListInvitations'',
       POST v1 ''/invitations'' [manage] ''CreateInvitation'',
       POST v1 ''/invitations/:id/resend'' [manage] ''ResendInvitation'',
       DELETE v1 ''/invitations/:id'' [manage] ''RevokeInvitation'',
       POST v1 ''/users/:id/force-password-change'' [manage] ''ForcePasswordChange''])"

definition writeGroup :: route_group where
  "writeGroup = Group v1 [] [MwRBACCheck ''perm_users_manage'']"

definition permission_routes :: "route list" where
  "permission_routes =
     [GET v1 ''/permissions'' [] ''ListPermissions'',
      GET v1 ''/permissions/:id'' [] ''GetPermission'',
      POST writeGroup ''/permissions'' [] ''CreatePermission'',
      PUT writeGroup ''/permissions/:id'' [] ''UpdatePermission'',
      DELETE writeGroup ''/permissions/:id'' [] ''DeletePermission'']"

definition v1_routes :: "route list" where
  "v1_routes =
     account_routes @
     RegisterAdminRoutes v1 @
     RegisterLayoutRoutes v1 @
     RegisterRoleRoutes v1 writeGroup @
     RegisterAlarmRoutes v1 writeGroup @
     RegisterLogRoutes v1 @
     RegisterNotificationRoutes v1 @
     permission_routes @
     RegisterMetricRoutes (Group v1 ''/dashboards/metrics'' [MwRBACCheck ''perm_metrics_view'', MwDashboardRateLimit])"

definition edge_routes :: "route list" where
  "edge_routes = RegisterEdgeRoutes tenantsGroup"

definition user_routes :: "route list" where
  "user_routes = v1_routes @ edge_routes"

definition gates :: "route \<Rightarrow> string list" where
  "gates rt = concat (map (\<lambda>m. case m of MwRBACCheck p \<Rightarrow> [p] | _ \<Rightarrow> []) (rt_chain rt))"

section \<open>Requests\<close>

text \<open>What a request carries, and what the middlewares are built with: the verifier of the tokens, the
  clock and the ids that are drawn, \<open>uuid.Parse\<close>, the allow-list of origins with its configuration,
  what happens to the command of the limiter, and its limits.\<close>

record portal_request =
  pr_authorization :: string
  pr_tenant_header :: string
  pr_tenantId :: string
  pr_app_base_url :: string

record portal_env =
  pe_verify :: "string \<Rightarrow> token_err + (string \<times> string) option"
  pe_now :: time
  pe_newID :: uuid
  pe_fresh :: "nat \<Rightarrow> uuid"
  pe_uuid_parse :: "string \<Rightarrow> uuid option"
  pe_lower :: "string \<Rightarrow> string"
  pe_url_parse :: "string \<Rightarrow> (string \<times> string) option"
  pe_origins :: allow_list
  pe_fallback :: string
  pe_fate :: "fate option"
  pe_limits :: limits

text \<open>The values of the context (\<open>internal/platform/tenantctx.go\<close> and the role), and the state.\<close>

record portal_ctx =
  px_sub :: string
  px_email :: string
  px_userID :: "uuid option"
  px_user :: "domain_user option"
  px_tenant :: "uuid option"
  px_tenantUUID :: "uuid option"
  px_role :: "role_context option"
  px_baseURL :: string
  px_tenant_header :: string

record portal =
  po_db :: "iam_db world"
  po_buckets :: buckets

definition empty_ctx :: portal_ctx where
  "empty_ctx = \<lparr>px_sub = [], px_email = [], px_userID = None, px_user = None, px_tenant = None,
     px_tenantUUID = None, px_role = None, px_baseURL = [], px_tenant_header = []\<rparr>"

text \<open>A middleware that asks the database: what it aborts with, or how it changes the context.\<close>

definition ask_db ::
  "(iam_db world \<Rightarrow> 'a gate \<times> iam_db world) \<Rightarrow> ('a \<Rightarrow> portal_ctx) \<Rightarrow> portal \<Rightarrow> portal_ctx gate \<times> portal" where
  "ask_db m f s =
     (case m (po_db s) of
        (Abort code msg, w) \<Rightarrow> (Abort code msg, s\<lparr>po_db := w\<rparr>)
      | (Pass x, w) \<Rightarrow> (Pass (f x), s\<lparr>po_db := w\<rparr>))"

definition claims_of :: "portal_env \<Rightarrow> portal_request \<Rightarrow> string \<times> string" where
  "claims_of env rq =
     (case pe_verify env (drop (length ''Bearer '') (pr_authorization rq)) of Inr (Some c) \<Rightarrow> c | _ \<Rightarrow> ([], []))"

definition with_user :: "string \<times> string \<Rightarrow> domain_user \<Rightarrow> portal_ctx \<Rightarrow> portal_ctx" where
  "with_user claims usr ctx =
     ctx\<lparr>px_sub := fst claims, px_email := snd claims, px_userID := Some (dm_ID usr), px_user := Some usr\<rparr>"

definition ExtractTenantID :: "(string \<Rightarrow> uuid option) \<Rightarrow> string \<Rightarrow> string gate" where
  "ExtractTenantID parse header =
     (if header = [] then Abort 400 ''X-Tenant-ID header is required''
      else if parse header = None then Abort 400 ''X-Tenant-ID must be a valid UUID''
      else Pass header)"

definition AppBaseURLFromHeader :: "portal_env \<Rightarrow> string \<Rightarrow> string" where
  "AppBaseURLFromHeader env candidate =
     fst (Resolve (pe_lower env) (pe_url_parse env) (pe_origins env) candidate (pe_fallback env))"

fun run_middleware ::
  "portal_env \<Rightarrow> portal_request \<Rightarrow> route \<Rightarrow> middleware \<Rightarrow> portal_ctx \<Rightarrow> portal \<Rightarrow> portal_ctx gate \<times> portal" where
  "run_middleware env rq rt MwRequestID ctx s = (Pass ctx, s)"
| "run_middleware env rq rt MwLogger ctx s = (Pass ctx, s)"
| "run_middleware env rq rt MwCORS ctx s = (if rt_method rt = ''OPTIONS'' then (Abort 204 [], s) else (Pass ctx, s))"
| "run_middleware env rq rt MwJWTAuth ctx s =
     ask_db (JWTAuth (pe_verify env) (pe_now env) (pe_newID env) (pe_fresh env) (pr_authorization rq))
       (\<lambda>usr. with_user (claims_of env rq) usr ctx) s"
| "run_middleware env rq rt MwTenantFromHeader ctx s =
     (if isExemptFromTenant (rt_path rt) then (Pass ctx, s)
      else ask_db
        (TenantFromHeader (if pr_tenant_header rq = [] then None else Some (pe_uuid_parse env (pr_tenant_header rq)))
           (map_option dm_ID (px_user ctx)))
        (\<lambda>(t, rc). ctx\<lparr>px_tenant := Some t, px_role := Some rc\<rparr>) s)"
| "run_middleware env rq rt MwPasswordChangeGuard ctx s =
     (case PasswordChangeGuard (rt_path rt) (map_option dm_PasswordChangeRequired (px_user ctx)) of
        Abort code msg \<Rightarrow> (Abort code msg, s) | Pass _ \<Rightarrow> (Pass ctx, s))"
| "run_middleware env rq rt MwAppBaseURLFromHeader ctx s =
     (Pass (ctx\<lparr>px_baseURL := AppBaseURLFromHeader env (pr_app_base_url rq)\<rparr>), s)"
| "run_middleware env rq rt MwExtractTenantID ctx s =
     (case ExtractTenantID (pe_uuid_parse env) (pr_tenant_header rq) of
        Abort code msg \<Rightarrow> (Abort code msg, s) | Pass t \<Rightarrow> (Pass (ctx\<lparr>px_tenant_header := t\<rparr>), s))"
| "run_middleware env rq rt MwResolveTenant ctx s =
     ask_db (ResolveTenantAndCheckMembership (pr_tenantId rq) (map_option dm_ID (px_user ctx)))
       (\<lambda>(t, rc). ctx\<lparr>px_tenant := Some t, px_tenantUUID := Some t, px_role := Some rc\<rparr>) s"
| "run_middleware env rq rt (MwRBACCheck perm) ctx s =
     (case RBACCheck perm (px_role ctx) of Abort code msg \<Rightarrow> (Abort code msg, s) | Pass _ \<Rightarrow> (Pass ctx, s))"
| "run_middleware env rq rt MwDashboardRateLimit ctx s =
     (case DashboardRateLimit (pe_fate env) (pe_limits env) (pe_now env div millisecond) (px_sub ctx) (po_buckets s) of
        (Some _, bs) \<Rightarrow> (Abort 429 ''rate limit excedido'', s\<lparr>po_buckets := bs\<rparr>)
      | (None, bs) \<Rightarrow> (Pass ctx, s\<lparr>po_buckets := bs\<rparr>))"

fun run_chain ::
  "portal_env \<Rightarrow> portal_request \<Rightarrow> route \<Rightarrow> middleware list \<Rightarrow> portal_ctx \<Rightarrow> portal \<Rightarrow> portal_ctx gate \<times> portal" where
  "run_chain env rq rt [] ctx s = (Pass ctx, s)"
| "run_chain env rq rt (m # ms) ctx s =
     (case run_middleware env rq rt m ctx s of
        (Abort code msg, s') \<Rightarrow> (Abort code msg, s')
      | (Pass ctx', s') \<Rightarrow> run_chain env rq rt ms ctx' s')"

text \<open>What reaches the handler of a route: \<open>Pass\<close> the context it runs with.\<close>

definition admit :: "portal_env \<Rightarrow> portal_request \<Rightarrow> route \<Rightarrow> portal \<Rightarrow> portal_ctx gate \<times> portal" where
  "admit env rq rt s = run_chain env rq rt (rt_chain rt) empty_ctx s"

section \<open>The permissions of the roles of the system\<close>

text \<open>What the migrations leave in a new database: the catalog of permissions and
  \<open>roles.permissions\<close>. \<open>array - 'p'\<close> removes p, \<open>array || [...]\<close> appends, and \<open>array @> [...]\<close> is
  containment.\<close>

type_synonym role_seed = "(string \<times> string list) list"

definition without :: "string list \<Rightarrow> string list \<Rightarrow> string list" where
  "without ps removed = filter (\<lambda>p. p \<notin> set removed) ps"

definition set_where :: "(string \<Rightarrow> string list \<Rightarrow> bool) \<Rightarrow> (string list \<Rightarrow> string list) \<Rightarrow> role_seed \<Rightarrow> role_seed" where
  "set_where c f rs = map (\<lambda>(r, ps). (r, if c r ps then f ps else ps)) rs"

definition seed_essentials :: "string list \<times> role_seed" where
  "seed_essentials =
     ([''perm_dashboard'', ''perm_alerts'', ''perm_reports'', ''perm_users'', ''perm_tenants'', ''perm_settings'',
       ''perm_maintenance'', ''perm_analytics'', ''perm_all_tenants'', ''perm_logs_view'', ''perm_logs_export'',
       ''perm_logs_admin'', ''perm_edge_devices_view'', ''perm_edge_devices_manage'', ''perm_edge_devices_check'',
       ''perm_reports_view'', ''perm_reports_manage''],
      [(''super_admin'', []), (''tenant_manager'', []), (''admin'', []), (''operario'', []), (''cliente_admin'', []),
       (''cliente_operario'', [])])"

definition seed_role_permissions :: "role_seed \<Rightarrow> role_seed" where
  "seed_role_permissions rs =
     (let set_role = (\<lambda>r ps. set_where (\<lambda>r' _. r' = r) (\<lambda>_. ps)) in
      set_role ''cliente_operario'' [''perm_dashboard'', ''perm_edge_devices_view'']
     (set_role ''cliente_admin'' [''perm_dashboard'', ''perm_alerts'', ''perm_reports_view'', ''perm_users'', ''perm_edge_devices_view'']
     (set_role ''operario'' [''perm_dashboard'', ''perm_alerts'', ''perm_reports_view'', ''perm_edge_devices_view'', ''perm_edge_devices_check'']
     (set_role ''admin'' [''perm_dashboard'', ''perm_alerts'', ''perm_reports'', ''perm_reports_view'', ''perm_reports_manage'', ''perm_users'',
        ''perm_tenants'', ''perm_settings'', ''perm_maintenance'', ''perm_analytics'', ''perm_edge_devices_view'', ''perm_edge_devices_manage'']
     (set_role ''tenant_manager'' [''perm_all_tenants'', ''perm_dashboard'', ''perm_alerts'', ''perm_reports'', ''perm_reports_view'', ''perm_users'',
        ''perm_edge_devices_view'', ''perm_edge_devices_check'']
     (set_role ''super_admin'' [''perm_dashboard'', ''perm_alerts'', ''perm_reports'', ''perm_users'', ''perm_tenants'', ''perm_settings'',
        ''perm_maintenance'', ''perm_analytics'', ''perm_all_tenants'', ''perm_logs_view'', ''perm_logs_export'', ''perm_logs_admin'',
        ''perm_edge_devices_view'', ''perm_edge_devices_manage'', ''perm_edge_devices_check'', ''perm_reports_view'', ''perm_reports_manage'']
      rs))))))"

definition remove_all_tenants :: "string list \<times> role_seed \<Rightarrow> string list \<times> role_seed" where
  "remove_all_tenants = (\<lambda>(catalog, rs).
     (without catalog [''perm_all_tenants''],
      set_where (\<lambda>_ ps. ''perm_all_tenants'' \<in> set ps) (\<lambda>ps. without ps [''perm_all_tenants'']) rs))"

definition grant_logs_view :: "role_seed \<Rightarrow> role_seed" where
  "grant_logs_view =
     set_where (\<lambda>r ps. r = ''admin'' \<and> ''perm_logs_view'' \<notin> set ps) (\<lambda>ps. ps @ [''perm_logs_view''])"

definition fine_permissions :: "string list \<times> role_seed \<Rightarrow> string list \<times> role_seed" where
  "fine_permissions = (\<lambda>(catalog, rs).
     (let upgrade = (\<lambda>r added. set_where (\<lambda>r' ps. r' = r \<and> ''perm_users_view'' \<notin> set ps)
                                 (\<lambda>ps. without ps [''perm_users'', ''perm_tenants''] @ added)) in
      (without (catalog @ [''perm_users_view'', ''perm_users_manage'', ''perm_tenants_view'', ''perm_tenants_manage''])
         [''perm_users'', ''perm_tenants''],
       set_where (\<lambda>r ps. r = ''cliente_admin'' \<and> ''perm_users_view'' \<notin> set ps)
         (\<lambda>ps. without ps [''perm_users''] @ [''perm_users_view'', ''perm_users_manage''])
      (set_where (\<lambda>r _. r = ''platform_admin'')
         (\<lambda>_. [''perm_dashboard'', ''perm_alerts'', ''perm_reports'', ''perm_reports_view'', ''perm_reports_manage'', ''perm_users_view'',
               ''perm_users_manage'', ''perm_tenants_view'', ''perm_tenants_manage'', ''perm_settings'', ''perm_maintenance'', ''perm_analytics'',
               ''perm_edge_devices_view'', ''perm_edge_devices_manage'', ''perm_logs_view''])
      (upgrade ''admin'' [''perm_users_view'', ''perm_users_manage'', ''perm_tenants_view'']
      (upgrade ''tenant_manager'' [''perm_users_view'', ''perm_users_manage'', ''perm_tenants_view'']
      (upgrade ''super_admin'' [''perm_users_view'', ''perm_users_manage'', ''perm_tenants_view'', ''perm_tenants_manage'']
      (rs @ [(''platform_admin'', [])]))))))))"

definition edge_create_permission :: "string list \<times> role_seed \<Rightarrow> string list \<times> role_seed" where
  "edge_create_permission = (\<lambda>(catalog, rs).
     (let reseed = (\<lambda>roles added. set_where (\<lambda>r _. r \<in> set roles)
            (\<lambda>ps. without ps [''perm_edge_devices_view'', ''perm_edge_devices_check'', ''perm_edge_devices_manage'', ''perm_edge_devices_create'']
                  @ added)) in
      (catalog @ [''perm_edge_devices_create''],
       reseed [''operario'', ''cliente_operario''] [''perm_edge_devices_view'', ''perm_edge_devices_check'']
      (reseed [''cliente_admin''] [''perm_edge_devices_view'', ''perm_edge_devices_check'', ''perm_edge_devices_manage'']
      (reseed [''admin''] [''perm_edge_devices_view'', ''perm_edge_devices_check'', ''perm_edge_devices_manage'']
      (reseed [''super_admin'', ''platform_admin'', ''tenant_manager'']
         [''perm_edge_devices_view'', ''perm_edge_devices_check'', ''perm_edge_devices_manage'', ''perm_edge_devices_create''] rs))))))"

definition metrics_view_permission :: "string list \<times> role_seed \<Rightarrow> string list \<times> role_seed" where
  "metrics_view_permission = (\<lambda>(catalog, rs).
     (catalog @ [''perm_metrics_view''],
      set_where (\<lambda>_ ps. (''perm_dashboard'' \<in> set ps \<or> ''perm_analytics'' \<in> set ps) \<and> ''perm_metrics_view'' \<notin> set ps)
        (\<lambda>ps. ps @ [''perm_metrics_view'']) rs))"

definition seeded :: "string list \<times> role_seed" where
  "seeded =
     metrics_view_permission (edge_create_permission (fine_permissions (apsnd grant_logs_view
       (remove_all_tenants (apsnd seed_role_permissions seed_essentials)))))"

section \<open>Lemmas\<close>

lemma ResolveTenant_Pass:
  assumes "ResolveTenantAndCheckMembership slug user w = (Pass (t, rc), w')"
  obtains u x where "user = Some u" and "x \<in> set (tenants (tables w))" and "tn_Subdomain (tr_tenant x) = slug" and "tr_id x = t"
    and "tables w' = tables w"
    and "member_role (tables w) u t (rc_Name rc) \<or> operator_role (tables w) u (rc_Name rc)"
    and "context_of_role (tables w) rc"
proof -
  obtain u where u: "user = Some u" and slug: "slug \<noteq> []"
    using assms by (auto simp: ResolveTenantAndCheckMembership_def split: option.splits if_splits)
  obtain r1 w1 where q1: "query PgOther (\<lambda>d. first_row NoRows (filter (\<lambda>t. tn_Subdomain (tr_tenant t) = slug) (tenants d))) w = (r1, w1)"
    by fastforce
  then have w1: "tables w1 = tables w" by (rule query_dbD)
  from assms u slug q1 obtain x where r1: "r1 = Inr x"
    by (auto simp: ResolveTenantAndCheckMembership_def split: sum.splits pg_err.splits)
  with q1 have "first_row NoRows (filter (\<lambda>t. tn_Subdomain (tr_tenant t) = slug) (tenants (tables w))) = Inr x"
    by (simp add: query_Inr)
  from first_row_mem [OF this] have x: "x \<in> set (tenants (tables w))" "tn_Subdomain (tr_tenant x) = slug" by simp_all
  define ask where "ask = (\<lambda>d :: iam_db. case first_row NoRows (filter (active_of u (tr_id x)) (utrs d)) of
      Inl e \<Rightarrow> Inl e | Inr v \<Rightarrow> (case ut_RoleID v of None \<Rightarrow> Inl PgOther | Some r \<Rightarrow> Inr r))"
  obtain r2 w2 where q2: "query PgOther ask w1 = (r2, w2)" by fastforce
  then have w2: "tables w2 = tables w" using query_dbD w1 by metis
  have run: "(case (r2, w2) of
        (Inr roleID, w2) \<Rightarrow> finish_context (tr_id x) (EffectiveRole roleID (tr_is_platform_tenant x)) w2
      | (Inl NoRows, w2) \<Rightarrow>
          (case resolvePlatformOperator u (tr_id x) w2 of
             (Inl TargetTenantNotFound, w3) \<Rightarrow> (Abort 404 ''tenant not found'', w3)
           | (Inl _, w3) \<Rightarrow> (Abort 403 ''tenant access denied'', w3)
           | (Inr roleID, w3) \<Rightarrow> finish_context (tr_id x) roleID w3)
      | (Inl _, w2) \<Rightarrow> (Abort 500 ''internal server error'', w2)) = (Pass (t, rc), w')"
    using assms u slug q1 r1 q2 by (simp add: ResolveTenantAndCheckMembership_def ask_def)
  show thesis
  proof (cases r2)
    case (Inr rid)
    with run have f: "finish_context (tr_id x) (EffectiveRole rid (tr_is_platform_tenant x)) w2 = (Pass (t, rc), w')" by simp
    from q2 Inr w1 have "ask (tables w) = Inr rid" by (simp add: query_Inr)
    then obtain v where v: "first_row NoRows (filter (active_of u (tr_id x)) (utrs (tables w))) = Inr v" "ut_RoleID v = Some rid"
      by (auto simp: ask_def split: sum.splits option.splits)
    from first_row_mem [OF v(1)] have "v \<in> set (utrs (tables w))" "active_of u (tr_id x) v" by simp_all
    with v(2) x(1) have "member_role (tables w) u (tr_id x) (EffectiveRole rid (tr_is_platform_tenant x))"
      by (auto simp: member_role_def)
    with finish_context_Pass [OF f] u x w2 show thesis by (intro that [of u x]) (auto simp: context_of_role_def)
  next
    case (Inl e)
    obtain r3 w3 where op: "resolvePlatformOperator u (tr_id x) w2 = (r3, w3)" by fastforce
    with run Inl obtain rid where r3: "r3 = Inr rid" and f: "finish_context (tr_id x) rid w3 = (Pass (t, rc), w')"
      by (auto split: sum.splits operator_err.splits pg_err.splits)
    from resolvePlatformOperator_Inr [OF op [unfolded r3]] w2
    have "operator_role (tables w) u rid" "tables w3 = tables w" by (auto simp: operator_role_def active_of_def)
    with finish_context_Pass [OF f] u x show thesis by (intro that [of u x]) (auto simp: context_of_role_def)
  qed
qed

lemma ask_db_Pass: "ask_db m f s = (Pass c, s') \<longleftrightarrow> (\<exists>x w. m (po_db s) = (Pass x, w) \<and> c = f x \<and> s' = s\<lparr>po_db := w\<rparr>)"
  by (auto simp: ask_db_def split: prod.splits gate.splits)

lemma run_chain_append:
  "run_chain env rq rt (ms @ ms') ctx s = (Pass c, s2) \<longleftrightarrow>
     (\<exists>c1 s1. run_chain env rq rt ms ctx s = (Pass c1, s1) \<and> run_chain env rq rt ms' c1 s1 = (Pass c, s2))"
  by (induction ms arbitrary: ctx s) (auto split: prod.splits gate.splits)

lemma run_chain_Cons_Pass:
  "run_chain env rq rt (m # ms) ctx s = (Pass c, s2) \<longleftrightarrow>
     (\<exists>c1 s1. run_middleware env rq rt m ctx s = (Pass c1, s1) \<and> run_chain env rq rt ms c1 s1 = (Pass c, s2))"
  by (auto split: prod.splits gate.splits)

text \<open>The middlewares that neither authenticate nor resolve the tenant: what they leave alone, and what a
  request that passes them has shown.\<close>

definition quiet :: "middleware \<Rightarrow> bool" where
  "quiet m \<longleftrightarrow> m \<noteq> MwJWTAuth \<and> m \<noteq> MwTenantFromHeader \<and> m \<noteq> MwResolveTenant"

definition must_change :: "portal_ctx \<Rightarrow> bool" where
  "must_change ctx \<longleftrightarrow> (case px_user ctx of None \<Rightarrow> False | Some usr \<Rightarrow> dm_PasswordChangeRequired usr)"

definition same_caller :: "portal_ctx \<Rightarrow> portal_ctx \<Rightarrow> bool" where
  "same_caller ctx ctx' \<longleftrightarrow>
     px_user ctx' = px_user ctx \<and> px_role ctx' = px_role ctx \<and> px_tenant ctx' = px_tenant ctx \<and>
     px_tenantUUID ctx' = px_tenantUUID ctx \<and> px_userID ctx' = px_userID ctx \<and> px_email ctx' = px_email ctx"

lemma quiet_middleware:
  assumes "run_middleware env rq rt m ctx s = (Pass ctx', s')" and "quiet m"
  shows "same_caller ctx ctx'" and "po_db s' = po_db s"
    and "m = MwRBACCheck p \<Longrightarrow> Can (px_role ctx) p = Inr ()"
    and "m = MwPasswordChangeGuard \<Longrightarrow> isExemptFromPasswordGuard (rt_path rt) \<or> \<not> must_change ctx"
    and "px_baseURL ctx' = (if m = MwAppBaseURLFromHeader then AppBaseURLFromHeader env (pr_app_base_url rq) else px_baseURL ctx)"
  using assms
  by (cases m; auto simp: quiet_def same_caller_def must_change_def RBACCheck_def PasswordChangeGuard_def
      split: if_splits gate.splits prod.splits sum.splits option.splits bool.splits)+

lemma quiet_chain:
  assumes "run_chain env rq rt ms ctx s = (Pass ctx', s')" and "\<forall>m \<in> set ms. quiet m"
  shows "same_caller ctx ctx'" and "po_db s' = po_db s"
    and "MwRBACCheck p \<in> set ms \<Longrightarrow> Can (px_role ctx) p = Inr ()"
    and "MwPasswordChangeGuard \<in> set ms \<Longrightarrow> isExemptFromPasswordGuard (rt_path rt) \<or> \<not> must_change ctx"
    and "px_baseURL ctx' = (if MwAppBaseURLFromHeader \<in> set ms then AppBaseURLFromHeader env (pr_app_base_url rq) else px_baseURL ctx)"
proof -
  have "same_caller ctx ctx' \<and> po_db s' = po_db s \<and>
    (MwRBACCheck p \<in> set ms \<longrightarrow> Can (px_role ctx) p = Inr ()) \<and>
    (MwPasswordChangeGuard \<in> set ms \<longrightarrow> isExemptFromPasswordGuard (rt_path rt) \<or> \<not> must_change ctx) \<and>
    px_baseURL ctx' = (if MwAppBaseURLFromHeader \<in> set ms then AppBaseURLFromHeader env (pr_app_base_url rq) else px_baseURL ctx)"
    using assms
  proof (induction ms arbitrary: ctx s)
    case Nil
    then show ?case by (simp add: same_caller_def)
  next
    case (Cons m ms)
    from Cons.prems(1) obtain c1 s1 where one: "run_middleware env rq rt m ctx s = (Pass c1, s1)"
      and rest: "run_chain env rq rt ms c1 s1 = (Pass ctx', s')" unfolding run_chain_Cons_Pass by blast
    note q = quiet_middleware [OF one]
    have m: "quiet m" using Cons.prems(2) by simp
    from q(1,2) [OF m] have same: "same_caller ctx c1" "po_db s1 = po_db s" by simp_all
    then have "must_change c1 = must_change ctx" "px_role c1 = px_role ctx" by (simp_all add: same_caller_def must_change_def)
    with Cons.IH [OF rest] Cons.prems(2) same q(3) [OF m, of p] q(4,5) [OF m] show ?case
      by (auto simp: same_caller_def)
  qed
  then show "same_caller ctx ctx'" and "po_db s' = po_db s"
    and "MwRBACCheck p \<in> set ms \<Longrightarrow> Can (px_role ctx) p = Inr ()"
    and "MwPasswordChangeGuard \<in> set ms \<Longrightarrow> isExemptFromPasswordGuard (rt_path rt) \<or> \<not> must_change ctx"
    and "px_baseURL ctx' = (if MwAppBaseURLFromHeader \<in> set ms then AppBaseURLFromHeader env (pr_app_base_url rq) else px_baseURL ctx)"
    by auto
qed

text \<open>The shape of the chains.\<close>

lemma v1_chains: "list_all (\<lambda>rt. take 5 (rt_chain rt) = [MwRequestID, MwLogger, MwCORS, MwJWTAuth, MwTenantFromHeader] \<and>
    list_all quiet (drop 5 (rt_chain rt)) \<and> MwPasswordChangeGuard \<in> set (drop 5 (rt_chain rt)) \<and>
    MwAppBaseURLFromHeader \<in> set (drop 5 (rt_chain rt))) v1_routes"
  by code_simp

lemma edge_chains: "list_all (\<lambda>rt. take 8 (rt_chain rt) =
      [MwRequestID, MwLogger, MwCORS, MwRequestID, MwLogger, MwCORS, MwJWTAuth, MwResolveTenant] \<and>
    list_all quiet (drop 8 (rt_chain rt)) \<and> \<not> isExemptFromTenant (rt_path rt)) edge_routes"
  by code_simp

lemma list_allD: "list_all P xs \<Longrightarrow> x \<in> set xs \<Longrightarrow> P x"
  by (simp add: list_all_iff)

lemma gates_quiet:
  assumes "p \<in> set (gates rt)" and "list_all (\<lambda>m. \<forall>p. m \<noteq> MwRBACCheck p) (take n (rt_chain rt))"
  shows "MwRBACCheck p \<in> set (drop n (rt_chain rt))"
proof -
  have g: "p \<in> set (gates rt) \<longleftrightarrow> MwRBACCheck p \<in> set (rt_chain rt)"
    by (auto simp: gates_def split: middleware.splits)
  have "set (rt_chain rt) = set (take n (rt_chain rt)) \<union> set (drop n (rt_chain rt))"
    by (metis append_take_drop_id set_append)
  with assms g show ?thesis by (auto simp: list_all_iff)
qed

lemma Can_held: "Can (Some rc) p = Inr () \<Longrightarrow> p \<in> set (rc_Permissions rc)"
  by (auto simp: Can_def RoleContextFromContext_def Let_def split: if_splits)

text \<open>What a request has gone through when it reaches a handler.\<close>

lemma admit_v1:
  assumes "rt \<in> set v1_routes" and "admit env rq rt s = (Pass ctx, s')"
  obtains usr w1 w2 where
    "JWTAuth (pe_verify env) (pe_now env) (pe_newID env) (pe_fresh env) (pr_authorization rq) (po_db s) = (Pass usr, w1)"
    and "px_user ctx = Some usr" and "po_db s' = w2"
    and "isExemptFromTenant (rt_path rt) \<and> w2 = w1 \<or>
      (\<exists>h t rc. TenantFromHeader h (Some (dm_ID usr)) w1 = (Pass (t, rc), w2) \<and> px_tenant ctx = Some t \<and> px_role ctx = Some rc)"
    and "\<And>p. p \<in> set (gates rt) \<Longrightarrow> Can (px_role ctx) p = Inr ()"
    and "isExemptFromPasswordGuard (rt_path rt) \<or> \<not> must_change ctx"
    and "px_baseURL ctx = AppBaseURLFromHeader env (pr_app_base_url rq)"
proof -
  from list_allD [OF v1_chains assms(1)]
  have head: "take 5 (rt_chain rt) = [MwRequestID, MwLogger, MwCORS, MwJWTAuth, MwTenantFromHeader]"
    and tail: "\<forall>m \<in> set (drop 5 (rt_chain rt)). quiet m" "MwPasswordChangeGuard \<in> set (drop 5 (rt_chain rt))"
      "MwAppBaseURLFromHeader \<in> set (drop 5 (rt_chain rt))"
    by (simp_all add: list_all_iff)
  have chain: "rt_chain rt = [MwRequestID, MwLogger, MwCORS, MwJWTAuth, MwTenantFromHeader] @ drop 5 (rt_chain rt)"
    by (metis append_take_drop_id head)
  from assms(2) obtain c1 s1 where one: "run_chain env rq rt [MwRequestID, MwLogger, MwCORS, MwJWTAuth, MwTenantFromHeader] empty_ctx s = (Pass c1, s1)"
    and rest: "run_chain env rq rt (drop 5 (rt_chain rt)) c1 s1 = (Pass ctx, s')"
    unfolding admit_def by (subst (asm) chain) (auto simp only: run_chain_append)
  note q = quiet_chain [OF rest tail(1)]
  from one obtain usr w1 where jwt: "JWTAuth (pe_verify env) (pe_now env) (pe_newID env) (pe_fresh env) (pr_authorization rq) (po_db s) = (Pass usr, w1)"
    and ten: "run_middleware env rq rt MwTenantFromHeader (with_user (claims_of env rq) usr empty_ctx) (s\<lparr>po_db := w1\<rparr>) = (Pass c1, s1)"
    unfolding run_chain_Cons_Pass by (auto simp: ask_db_Pass simp del: run_middleware.simps(5) split: if_splits)
  from ten have "px_user c1 = Some usr"
    by (auto simp: ask_db_Pass with_user_def split: if_splits)
  moreover have "isExemptFromTenant (rt_path rt) \<and> po_db s1 = w1 \<or>
      (\<exists>h t rc. TenantFromHeader h (Some (dm_ID usr)) w1 = (Pass (t, rc), po_db s1) \<and> px_tenant c1 = Some t \<and> px_role c1 = Some rc)"
  proof (cases "isExemptFromTenant (rt_path rt)")
    case True
    with ten show ?thesis by auto
  next
    case False
    define h where "h = (if pr_tenant_header rq = [] then None else Some (pe_uuid_parse env (pr_tenant_header rq)))"
    from ten False obtain t rc w2 where "TenantFromHeader h (Some (dm_ID usr)) w1 = (Pass (t, rc), w2)"
      and "px_tenant c1 = Some t" "px_role c1 = Some rc" "po_db s1 = w2"
      by (auto simp: ask_db_Pass with_user_def h_def [symmetric])
    then show ?thesis by blast
  qed
  moreover have "Can (px_role c1) p = Inr ()" if "p \<in> set (gates rt)" for p
    using q(3) gates_quiet [OF that, of 5] head by simp
  ultimately show thesis
    using q(1,2) q(4) [OF tail(2)] q(5) tail(3)
    by (intro that [OF jwt]) (auto simp: same_caller_def must_change_def)
qed

lemma admit_edge:
  assumes "rt \<in> set edge_routes" and "admit env rq rt s = (Pass ctx, s')"
  obtains usr w1 w2 t rc where
    "JWTAuth (pe_verify env) (pe_now env) (pe_newID env) (pe_fresh env) (pr_authorization rq) (po_db s) = (Pass usr, w1)"
    and "px_user ctx = Some usr" and "po_db s' = w2"
    and "ResolveTenantAndCheckMembership (pr_tenantId rq) (Some (dm_ID usr)) w1 = (Pass (t, rc), w2)"
    and "px_tenant ctx = Some t" and "px_tenantUUID ctx = Some t" and "px_role ctx = Some rc"
    and "\<And>p. p \<in> set (gates rt) \<Longrightarrow> Can (px_role ctx) p = Inr ()"
    and "px_userID ctx = Some (dm_ID usr)" and "px_email ctx = snd (claims_of env rq)"
proof -
  define head where "head = [MwRequestID, MwLogger, MwCORS, MwRequestID, MwLogger, MwCORS, MwJWTAuth, MwResolveTenant]"
  from list_allD [OF edge_chains assms(1)]
  have h: "take 8 (rt_chain rt) = head" and tail: "\<forall>m \<in> set (drop 8 (rt_chain rt)). quiet m"
    by (simp_all add: list_all_iff head_def)
  have chain: "rt_chain rt = head @ drop 8 (rt_chain rt)"
    by (metis append_take_drop_id h)
  from assms(2) obtain c1 s1 where one: "run_chain env rq rt head empty_ctx s = (Pass c1, s1)"
    and rest: "run_chain env rq rt (drop 8 (rt_chain rt)) c1 s1 = (Pass ctx, s')"
    unfolding admit_def by (subst (asm) chain) (auto simp only: run_chain_append)
  note q = quiet_chain [OF rest tail]
  from one obtain usr w1 t rc w2 where jwt: "JWTAuth (pe_verify env) (pe_now env) (pe_newID env) (pe_fresh env) (pr_authorization rq) (po_db s) = (Pass usr, w1)"
    and ten: "ResolveTenantAndCheckMembership (pr_tenantId rq) (Some (dm_ID usr)) w1 = (Pass (t, rc), w2)"
    and c1: "c1 = (with_user (claims_of env rq) usr empty_ctx)\<lparr>px_tenant := Some t, px_tenantUUID := Some t, px_role := Some rc\<rparr>"
    and s1: "po_db s1 = w2"
    unfolding run_chain_Cons_Pass head_def by (auto simp: ask_db_Pass with_user_def split: if_splits)
  have "Can (px_role c1) p = Inr ()" if "p \<in> set (gates rt)" for p
    using q(3) gates_quiet [OF that, of 8] h by (simp add: head_def)
  with q(1,2) c1 s1 show thesis
    by (intro that [OF jwt _ _ ten]) (auto simp: same_caller_def with_user_def)
qed

text \<open>The seeds and the gates, computed.\<close>

definition holders :: "string \<Rightarrow> string list" where
  "holders p = map fst (filter (\<lambda>(_, ps). p \<in> set ps) (snd seeded))"

lemma seeded_eq:
  "seeded =
    ([''perm_dashboard'', ''perm_alerts'', ''perm_reports'', ''perm_settings'',
      ''perm_maintenance'', ''perm_analytics'', ''perm_logs_view'',
      ''perm_logs_export'', ''perm_logs_admin'', ''perm_edge_devices_view'',
      ''perm_edge_devices_manage'', ''perm_edge_devices_check'',
      ''perm_reports_view'', ''perm_reports_manage'', ''perm_users_view'',
      ''perm_users_manage'', ''perm_tenants_view'', ''perm_tenants_manage'',
      ''perm_edge_devices_create'', ''perm_metrics_view''],
     [(''super_admin'',
       [''perm_dashboard'', ''perm_alerts'', ''perm_reports'',
        ''perm_settings'', ''perm_maintenance'', ''perm_analytics'',
        ''perm_logs_view'', ''perm_logs_export'', ''perm_logs_admin'',
        ''perm_reports_view'', ''perm_reports_manage'', ''perm_users_view'',
        ''perm_users_manage'', ''perm_tenants_view'', ''perm_tenants_manage'',
        ''perm_edge_devices_view'', ''perm_edge_devices_check'',
        ''perm_edge_devices_manage'', ''perm_edge_devices_create'',
        ''perm_metrics_view'']),
      (''tenant_manager'',
       [''perm_dashboard'', ''perm_alerts'', ''perm_reports'',
        ''perm_reports_view'', ''perm_users_view'', ''perm_users_manage'',
        ''perm_tenants_view'', ''perm_edge_devices_view'',
        ''perm_edge_devices_check'', ''perm_edge_devices_manage'',
        ''perm_edge_devices_create'', ''perm_metrics_view'']),
      (''admin'',
       [''perm_dashboard'', ''perm_alerts'', ''perm_reports'',
        ''perm_reports_view'', ''perm_reports_manage'', ''perm_settings'',
        ''perm_maintenance'', ''perm_analytics'', ''perm_logs_view'',
        ''perm_users_view'', ''perm_users_manage'', ''perm_tenants_view'',
        ''perm_edge_devices_view'', ''perm_edge_devices_check'',
        ''perm_edge_devices_manage'', ''perm_metrics_view'']),
      (''operario'',
       [''perm_dashboard'', ''perm_alerts'', ''perm_reports_view'',
        ''perm_edge_devices_view'', ''perm_edge_devices_check'',
        ''perm_metrics_view'']),
      (''cliente_admin'',
       [''perm_dashboard'', ''perm_alerts'', ''perm_reports_view'',
        ''perm_users_view'', ''perm_users_manage'', ''perm_edge_devices_view'',
        ''perm_edge_devices_check'', ''perm_edge_devices_manage'',
        ''perm_metrics_view'']),
      (''cliente_operario'',
       [''perm_dashboard'', ''perm_edge_devices_view'',
        ''perm_edge_devices_check'', ''perm_metrics_view'']),
      (''platform_admin'',
       [''perm_dashboard'', ''perm_alerts'', ''perm_reports'',
        ''perm_reports_view'', ''perm_reports_manage'', ''perm_users_view'',
        ''perm_users_manage'', ''perm_tenants_view'', ''perm_tenants_manage'',
        ''perm_settings'', ''perm_maintenance'', ''perm_analytics'',
        ''perm_logs_view'', ''perm_edge_devices_view'',
        ''perm_edge_devices_check'', ''perm_edge_devices_manage'',
        ''perm_edge_devices_create'', ''perm_metrics_view''])])"
  by code_simp

lemma gates_of_routes:
  "remdups (concat (map gates user_routes)) =
     [''perm_tenants_view'', ''perm_tenants_manage'', ''perm_users_view'', ''perm_logs_admin'', ''perm_users_manage'',
      ''perm_metrics_view'', ''perm_edge_devices_create'', ''perm_edge_devices_check'', ''perm_edge_devices_view'',
      ''perm_edge_devices_manage'']"
  by code_simp

lemma all_gates:
  "list_all (\<lambda>rt. list_all P (gates rt)) user_routes \<longleftrightarrow> list_all P (remdups (concat (map gates user_routes)))"
  by (auto simp: list_all_iff)

section \<open>Properties\<close>


text \<open>C23. A forced change of the password shuts the group v1: a user who has to change his password reaches only his
  profile and the route that records the change.\<close>

theorem forced_change_blocks:
  assumes "rt \<in> set v1_routes" and "admit env rq rt s = (Pass ctx, s')" and "px_user ctx = Some usr"
    and "dm_PasswordChangeRequired usr"
  shows "rt_path rt = ''/api/v1/me'' \<or> rt_path rt = ''/api/v1/auth/change-password''"
  by (rule admit_v1 [OF assms(1,2)]) (use assms(3,4) in \<open>auto simp: must_change_def isExemptFromPasswordGuard_def\<close>)

text \<open>C22. The links of the mails stay at home: in a request that reaches a handler of the group v1, the link of a mail
  starts with the configured base, or with the origin that the header X-App-Base-URL names when the
  allow-list of the configuration holds it, itself or as a subdomain of a wildcard, under its scheme.\<close>

theorem mail_link_origin:
  assumes "rt \<in> set v1_routes" and "admit env rq rt s = (Pass ctx, s')"
    and "pe_origins env = Parse_origins (pe_lower env) (pe_url_parse env) raw" and "pe_fallback env = mc_appBaseURL cfg"
    and "ca_baseURL ca = px_baseURL ctx"
  shows "\<exists>base. callbackURL cfg ca t = base @ ''/s/'' @ mc_uuid_text cfg t @ ''/auth/callback'' \<and>
    (base = mc_appBaseURL cfg \<or>
     configured (pe_lower env) (pe_url_parse env) (split_all (CHR '','') raw) base \<and>
     Normalize (pe_lower env) (pe_url_parse env) (pr_app_base_url rq) = Some base)"
proof (rule admit_v1 [OF assms(1,2)])
  assume base: "px_baseURL ctx = AppBaseURLFromHeader env (pr_app_base_url rq)"
  obtain u ok where res: "Resolve (pe_lower env) (pe_url_parse env) (Parse_origins (pe_lower env) (pe_url_parse env) raw)
      (pr_app_base_url rq) (mc_appBaseURL cfg) = (u, ok)" by fastforce
  with base assms(3,4) have "px_baseURL ctx = u" by (simp add: AppBaseURLFromHeader_def)
  with Resolve_configured [OF res] assms(5) show ?thesis
    by (cases ok) (auto simp: callbackURL_def Let_def)
qed


section \<open>Instances\<close>

text \<open>The admin of the client, who has to change his password, on his way to the profile and to a new API key.\<close>

definition flagged_admin :: iam_db where
  "flagged_admin = two_tenants\<lparr>
     users := [user_sample 10 ''a'', (user_sample 20 ''b'')\<lparr>us_supabase_user_id := Some ''s2'', us_password_change_required := True\<rparr>],
     roles := [role_sample ''cliente_admin'' True False [''perm_users_manage'', ''perm_edge_devices_manage'']]\<rparr>"

definition portal_sample :: portal where
  "portal_sample = \<lparr>po_db = live flagged_admin, po_buckets = (\<lambda>_. None)\<rparr>"

definition env_sample :: portal_env where
  "env_sample = \<lparr>pe_verify = (\<lambda>t. if t = ''t2'' then Inr (Some (''s2'', ''b'')) else Inl TokenInvalid), pe_now = 5, pe_newID = 41,
     pe_fresh = (\<lambda>_. 300), pe_uuid_parse = (\<lambda>s. if s = ''2'' then Some 2 else None), pe_lower = id,
     pe_url_parse = (\<lambda>u. if u = ''https://a.x.io'' then Some (''https'', ''a.x.io'') else None),
     pe_origins = Parse_origins id (\<lambda>u. if u = ''https://a.x.io'' then Some (''https'', ''a.x.io'') else None) ''https://*.x.io'',
     pe_fallback = ''https://app'', pe_fate = None, pe_limits = NewDashboardRateLimiter 1 1\<rparr>"

definition request_to :: "string \<Rightarrow> portal_request" where
  "request_to slug = \<lparr>pr_authorization = ''Bearer t2'', pr_tenant_header = ''2'', pr_tenantId = slug, pr_app_base_url = ''https://a.x.io''\<rparr>"

definition me_route :: route where
  "me_route = GET v1 ''/me'' [] ''Me''"

definition new_key_route :: route where
  "new_key_route = POST tenantsGroup ''/edge-devices/:deviceId/api-keys'' [MwRBACCheck ''perm_edge_devices_manage''] ''CreateAPIKey''"

lemma sample_routes: "me_route \<in> set v1_routes" "new_key_route \<in> set edge_routes" "new_key_route \<in> set user_routes"
proof -
  show "me_route \<in> set v1_routes" by (simp add: me_route_def v1_routes_def account_routes_def Let_def)
  show e: "new_key_route \<in> set edge_routes"
    by (simp add: new_key_route_def edge_routes_def RegisterEdgeRoutes_def Let_def)
  then show "new_key_route \<in> set user_routes" by (simp add: user_routes_def)
qed

lemma new_key_sample:
  obtains ctx s' where "admit env_sample (request_to ''acme'') new_key_route portal_sample = (Pass ctx, s')"
    and "must_change ctx" and "px_tenant ctx = Some 2" and "map_option dm_ID (px_user ctx) = Some 20"
proof -
  have "case fst (admit env_sample (request_to ''acme'') new_key_route portal_sample) of
      Pass ctx \<Rightarrow> must_change ctx \<and> px_tenant ctx = Some 2 \<and> map_option dm_ID (px_user ctx) = Some 20 | Abort _ _ \<Rightarrow> False"
    by code_simp
  then show thesis
    by (cases "admit env_sample (request_to ''acme'') new_key_route portal_sample") (auto split: gate.splits intro: that)
qed

lemma me_sample:
  obtains ctx s' usr where "admit env_sample (request_to []) me_route portal_sample = (Pass ctx, s')"
    and "px_user ctx = Some usr" and "dm_PasswordChangeRequired usr" and "px_baseURL ctx = ''https://a.x.io''"
proof -
  have "case fst (admit env_sample (request_to []) me_route portal_sample) of
      Pass ctx \<Rightarrow> must_change ctx \<and> px_baseURL ctx = ''https://a.x.io'' | Abort _ _ \<Rightarrow> False"
    by code_simp
  then show thesis
    by (cases "admit env_sample (request_to []) me_route portal_sample")
      (auto simp: must_change_def split: gate.splits option.splits intro: that)
qed

text \<open>The guard is not in front of the devices: a user who has to change his password is refused everywhere else,
  and gets through to the route that issues an API key.\<close>

theorem forced_change_bypassed:
  "\<exists>ctx s'. admit env_sample (request_to ''acme'') new_key_route portal_sample = (Pass ctx, s') \<and> must_change ctx"
  by (rule new_key_sample) blast


theorem forced_change_blocks_instance: "rt_path me_route = ''/api/v1/me'' \<or> rt_path me_route = ''/api/v1/auth/change-password''"
proof (rule me_sample)
  fix ctx s' usr
  assume "admit env_sample (request_to []) me_route portal_sample = (Pass ctx, s')" "px_user ctx = Some usr" "dm_PasswordChangeRequired usr"
  then show ?thesis by (rule forced_change_blocks [OF sample_routes(1)])
qed

theorem mail_link_origin_instance:
  "\<exists>base. callbackURL config_sample (call_sample\<lparr>ca_baseURL := ''https://a.x.io''\<rparr>) 2 = base @ ''/s/id/auth/callback'' \<and>
     (base = ''https://app'' \<or> configured id (pe_url_parse env_sample) [''https://*.x.io''] base)"
proof (rule me_sample)
  fix ctx s' usr
  assume run: "admit env_sample (request_to []) me_route portal_sample = (Pass ctx, s')" and base: "px_baseURL ctx = ''https://a.x.io''"
  have raw: "pe_origins env_sample = Parse_origins (pe_lower env_sample) (pe_url_parse env_sample) ''https://*.x.io''"
    by (simp add: env_sample_def)
  from mail_link_origin [OF sample_routes(1) run raw, of config_sample "call_sample\<lparr>ca_baseURL := ''https://a.x.io''\<rparr>" 2] base
  show ?thesis by (auto simp: env_sample_def config_sample_def)
qed

end
