(* ===== verification/EdgeApi.thy ===== *)
theory EdgeApi
  imports Routing ApiKeys
begin

text \<open>
  The endpoints of the edge devices: the handlers of \<open>internal/api/handler/edge_devices\<close> behind the
  middlewares of \<open>Routing\<close>, the mapping of their answers, and the client that calls a device
  (\<open>internal/platform/edgeclient\<close>). A body comes decoded, absent or malformed; \<open>uuid.Parse\<close>,
  \<open>url.ParseRequestURI\<close>, the network, the decoding of what a device answers and the random bytes are
  parameters.
\<close>

section \<open>The client of a device\<close>

datatype http_reply = NoReply string | UnreadableReply string | Reply int string

definition zero_time :: time where "zero_time = - 62135596800 * second"

definition callEndpoint ::
  "time \<Rightarrow> (string \<Rightarrow> check_result option) \<Rightarrow> (string \<Rightarrow> http_reply) \<Rightarrow> string \<Rightarrow> string + check_result option" where
  "callEndpoint now decode net url =
     (case net url of
        NoReply err \<Rightarrow> Inl err
      | UnreadableReply err \<Rightarrow> Inl err
      | Reply code text \<Rightarrow>
          if code < 200 \<or> code \<ge> 300
          then Inr (Some \<lparr>cr_check_type = [], cr_checked_at = now, cr_overall_status = ''ERROR'',
                     cr_summary = Some ''non-2xx status from device'', cr_details = []\<rparr>)
          else case decode text of
                 None \<Rightarrow> Inl ''parse device response''
               | Some r \<Rightarrow> Inr (Some (if cr_checked_at r = zero_time then r\<lparr>cr_checked_at := now\<rparr> else r)))"

definition client_StatusCheck ::
  "time \<Rightarrow> (string \<Rightarrow> check_result option) \<Rightarrow> (string \<Rightarrow> http_reply) \<Rightarrow> string \<Rightarrow> string + check_result option" where
  "client_StatusCheck now decode net baseURL = callEndpoint now decode net (baseURL @ ''/status'')"

definition client_HealthCheck ::
  "time \<Rightarrow> (string \<Rightarrow> check_result option) \<Rightarrow> (string \<Rightarrow> http_reply) \<Rightarrow> string \<Rightarrow> string + check_result option" where
  "client_HealthCheck now decode net baseURL = callEndpoint now decode net (baseURL @ ''/health'')"

text \<open>A snapshot: its instant, and the measures as they come.\<close>

record 'm snapshot =
  sn_CapturedAt :: time
  sn_measures :: 'm

definition client_GetTelemetry ::
  "time \<Rightarrow> (string \<Rightarrow> 'm snapshot option) \<Rightarrow> (string \<Rightarrow> http_reply) \<Rightarrow> string \<Rightarrow> edge_err + 'm snapshot option" where
  "client_GetTelemetry now decode net baseURL =
     (case net (baseURL @ ''/telemetry'') of
        NoReply _ \<Rightarrow> Inl EdgeInternal
      | UnreadableReply _ \<Rightarrow> Inl EdgeInternal
      | Reply code text \<Rightarrow>
          if code < 200 \<or> code \<ge> 300 then Inl EdgeInternal
          else case decode text of
                 None \<Rightarrow> Inl EdgeInternal
               | Some s \<Rightarrow> Inr (Some (if sn_CapturedAt s = zero_time then s\<lparr>sn_CapturedAt := now\<rparr> else s)))"

section \<open>Bodies and answers\<close>

datatype 'a bound = Bound 'a | BoundEOF | Malformed

record create_key_request =
  kq_Name :: string
  kq_ExpiresAt :: "time option"

record edge_device_response =
  dr_ID :: uuid
  dr_TenantID :: uuid
  dr_Name :: string
  dr_Description :: "string option"
  dr_MachineID :: string
  dr_EdgeType :: string
  dr_RaspberryBaseURL :: string
  dr_PLCAddress :: "string option"
  dr_Status :: string
  dr_LastSeenAt :: "time option"
  dr_LastHealthCheckAt :: "time option"
  dr_LastHealthStatus :: string
  dr_LastHealthSummary :: "string option"
  dr_CreatedAt :: time
  dr_UpdatedAt :: time

definition EdgeDeviceToResponse :: "edge_device \<Rightarrow> edge_device_response" where
  "EdgeDeviceToResponse d =
     \<lparr>dr_ID = ed_id d, dr_TenantID = ed_tenant_id d, dr_Name = ed_name d, dr_Description = ed_description d,
      dr_MachineID = ed_machine_id d, dr_EdgeType = ed_edge_type d, dr_RaspberryBaseURL = ed_raspberry_base_url d,
      dr_PLCAddress = ed_plc_address d, dr_Status = ed_status d, dr_LastSeenAt = ed_last_seen_at d,
      dr_LastHealthCheckAt = ed_last_health_check_at d, dr_LastHealthStatus = ed_last_health_status d,
      dr_LastHealthSummary = ed_last_health_summary d, dr_CreatedAt = ed_created_at d, dr_UpdatedAt = ed_updated_at d\<rparr>"

record check_result_response =
  kr_CheckType :: string
  kr_CheckedAt :: time
  kr_OverallStatus :: string
  kr_Summary :: string
  kr_Details :: "(string \<times> json) list"

definition CheckResultToResponse :: "check_result \<Rightarrow> check_result_response" where
  "CheckResultToResponse r =
     \<lparr>kr_CheckType = cr_check_type r, kr_CheckedAt = cr_checked_at r, kr_OverallStatus = cr_overall_status r,
      kr_Summary = opt_or (cr_summary r) [], kr_Details = cr_details r\<rparr>"

record api_key_response =
  ar_ID :: uuid
  ar_KeyID :: string
  ar_Name :: "string option"
  ar_CreatedAt :: time
  ar_ExpiresAt :: "time option"
  ar_RevokedAt :: "time option"
  ar_LastUsedAt :: "time option"
  ar_Active :: bool
  ar_DeviceStatus :: string

definition toAPIKeyResponse :: "time \<Rightarrow> api_key \<Rightarrow> string \<Rightarrow> api_key_response" where
  "toAPIKeyResponse now k deviceStatus =
     \<lparr>ar_ID = ak_id k, ar_KeyID = ak_key_id k, ar_Name = ak_name k, ar_CreatedAt = ak_created_at k,
      ar_ExpiresAt = ak_expires_at k, ar_RevokedAt = ak_revoked_at k, ar_LastUsedAt = ak_last_used_at k,
      ar_Active = IsActive k now, ar_DeviceStatus = deviceStatus\<rparr>"

text \<open>An answer: the data of a success, or a status; \<open>Panics\<close> when the handler reads through nil.\<close>

datatype 'm edge_data =
    DataDevices "edge_device_response list" | DataDevice edge_device_response | DataCheck check_result_response
  | DataTelemetry "'m snapshot" | DataEvents "device_event list" | DataKey api_key_response string
  | DataKeys "api_key_response list" | DataNone

datatype edge_fail = Status nat | Panics

type_synonym 'm edge_handler = "(plane, edge_fail, 'm edge_data) oper"

definition edge_status :: "(edge_err \<times> nat) list \<Rightarrow> edge_err \<Rightarrow> edge_fail" where
  "edge_status known e = Status (case map_of known e of Some code \<Rightarrow> code | None \<Rightarrow> 500)"

text \<open>The call of the service of a handler: its errors with a status of their own, and its answer.\<close>

definition served :: "'a plane_op \<Rightarrow> (edge_err \<times> nat) list \<Rightarrow> ('a \<Rightarrow> 'm edge_data) \<Rightarrow> 'm edge_handler" where
  "served m known f = op_try m (\<lambda>e. op_fail (edge_status known e)) (\<lambda>x. op_ret (f x))"

section \<open>Handlers\<close>

record 'm edge_env =
  ee_now :: time
  ee_newID :: uuid
  ee_uuid_parse :: "string \<Rightarrow> uuid option"
  ee_request_uri :: "string \<Rightarrow> (string \<times> string) option"
  ee_net :: "string \<Rightarrow> http_reply"
  ee_check :: "string \<Rightarrow> check_result option"
  ee_snapshot :: "string \<Rightarrow> 'm snapshot option"
  ee_sha :: "string \<Rightarrow> string"
  ee_id_bytes :: "string option"
  ee_secret_bytes :: "string option"

definition for_device ::
  "'m edge_env \<Rightarrow> portal_ctx \<Rightarrow> string \<Rightarrow> (uuid \<Rightarrow> uuid \<Rightarrow> 'm edge_handler) \<Rightarrow> 'm edge_handler" where
  "for_device ee ctx deviceId f =
     (case px_tenantUUID ctx of
        None \<Rightarrow> op_fail (Status 400)
      | Some tenantID \<Rightarrow>
     (case ee_uuid_parse ee deviceId of
        None \<Rightarrow> op_fail (Status 400)
      | Some deviceID \<Rightarrow> f tenantID deviceID))"

definition ListDevices_handler :: "portal_ctx \<Rightarrow> 'm edge_handler" where
  "ListDevices_handler ctx =
     (case px_tenantUUID ctx of
        None \<Rightarrow> op_fail (Status 400)
      | Some tenantID \<Rightarrow>
          served (on_pg (ListDevices tenantID)) [] (\<lambda>ds. DataDevices (map EdgeDeviceToResponse ds)))"

definition CreateDevice_handler :: "'m edge_env \<Rightarrow> portal_ctx \<Rightarrow> create_device_command bound \<Rightarrow> 'm edge_handler" where
  "CreateDevice_handler ee ctx b =
     (case px_tenantUUID ctx of
        None \<Rightarrow> op_fail (Status 400)
      | Some tenantID \<Rightarrow>
     (case b of
        BoundEOF \<Rightarrow> op_fail (Status 400)
      | Malformed \<Rightarrow> op_fail (Status 400)
      | Bound req \<Rightarrow>
          if cd_name req = [] \<or> cd_machine_id req = [] \<or> cd_edge_type req = [] \<or> cd_raspberry_base_url req = []
          then op_fail (Status 400)
          else if cd_edge_type req \<noteq> ''RASPBERRY_PLC'' then op_fail (Status 400)
          else served (on_pg (CreateDevice (ee_now ee) (ee_newID ee) tenantID req))
                 [(ErrMachineIDConflict, 409)] (\<lambda>d. DataDevice (EdgeDeviceToResponse d))))"

definition GetDevice_handler :: "'m edge_env \<Rightarrow> portal_ctx \<Rightarrow> string \<Rightarrow> 'm edge_handler" where
  "GetDevice_handler ee ctx deviceId = for_device ee ctx deviceId (\<lambda>t i.
     served (on_pg (GetDevice t i)) [(ErrDeviceNotFound, 404)] (\<lambda>d. DataDevice (EdgeDeviceToResponse d)))"

definition web_url :: "(string \<Rightarrow> (string \<times> string) option) \<Rightarrow> string \<Rightarrow> bool" where
  "web_url parse u =
     (case parse u of
        None \<Rightarrow> False
      | Some (scheme, host) \<Rightarrow> (scheme = ''http'' \<or> scheme = ''https'') \<and> host \<noteq> [])"

definition UpdateDevice_handler :: "'m edge_env \<Rightarrow> portal_ctx \<Rightarrow> string \<Rightarrow> update_device_command bound \<Rightarrow> 'm edge_handler" where
  "UpdateDevice_handler ee ctx deviceId b = for_device ee ctx deviceId (\<lambda>t i.
     case b of
       BoundEOF \<Rightarrow> op_fail (Status 400)
     | Malformed \<Rightarrow> op_fail (Status 400)
     | Bound req \<Rightarrow>
         if map_option trim_space (ud_name req) = Some [] then op_fail (Status 400)
         else if map_option (web_url (ee_request_uri ee)) (ud_raspberry_base_url req) = Some False then op_fail (Status 400)
         else served (on_pg (UpdateDevice (ee_now ee) t i req)) [(ErrDeviceNotFound, 404)]
                (\<lambda>d. DataDevice (EdgeDeviceToResponse d)))"

definition EnableDevice_handler :: "'m edge_env \<Rightarrow> portal_ctx \<Rightarrow> string \<Rightarrow> 'm edge_handler" where
  "EnableDevice_handler ee ctx deviceId = for_device ee ctx deviceId (\<lambda>t i.
     served (on_pg (EnableDevice (ee_now ee) t i)) [(ErrDeviceNotFound, 404)] (\<lambda>d. DataDevice (EdgeDeviceToResponse d)))"

definition DisableDevice_handler :: "'m edge_env \<Rightarrow> portal_ctx \<Rightarrow> string \<Rightarrow> 'm edge_handler" where
  "DisableDevice_handler ee ctx deviceId = for_device ee ctx deviceId (\<lambda>t i.
     served (on_pg (DisableDevice (ee_now ee) t i)) [(ErrDeviceNotFound, 404)] (\<lambda>d. DataDevice (EdgeDeviceToResponse d)))"

definition check_errors :: "(edge_err \<times> nat) list" where
  "check_errors = [(ErrDeviceNotFound, 404), (ErrDeviceDisabled, 400)]"

definition StatusCheck_handler :: "'m edge_env \<Rightarrow> portal_ctx \<Rightarrow> string \<Rightarrow> 'm edge_handler" where
  "StatusCheck_handler ee ctx deviceId = for_device ee ctx deviceId (\<lambda>t i.
     case px_userID ctx of
       None \<Rightarrow> op_fail (Status 401)
     | Some userID \<Rightarrow>
         if px_email ctx = [] then op_fail (Status 401)
         else served (on_pg (StatusCheck (ee_now ee) (client_StatusCheck (ee_now ee) (ee_check ee) (ee_net ee))
                       (ee_newID ee) t i userID (px_email ctx)))
                check_errors (\<lambda>r. DataCheck (CheckResultToResponse r)))"

definition HealthCheck_handler :: "'m edge_env \<Rightarrow> portal_ctx \<Rightarrow> string \<Rightarrow> 'm edge_handler" where
  "HealthCheck_handler ee ctx deviceId =
     (if px_tenantUUID ctx = None then op_fail (Status 400)
      else case px_userID ctx of
        None \<Rightarrow> op_fail (Status 401)
      | Some userID \<Rightarrow>
     (case px_user ctx of
        None \<Rightarrow> op_fail (Status 401)
      | Some usr \<Rightarrow>
          if dm_Email usr = [] then op_fail (Status 401)
          else for_device ee ctx deviceId (\<lambda>t i.
            served (on_pg (HealthCheck (ee_now ee) (client_HealthCheck (ee_now ee) (ee_check ee) (ee_net ee))
                       (ee_newID ee) t i userID (dm_Email usr)))
              check_errors (\<lambda>r. DataCheck (CheckResultToResponse r)))))"

definition GetTelemetry_handler :: "'m edge_env \<Rightarrow> portal_ctx \<Rightarrow> string \<Rightarrow> 'm edge_handler" where
  "GetTelemetry_handler ee ctx deviceId = for_device ee ctx deviceId (\<lambda>t i.
     op_try (on_pg (GetTelemetry (client_GetTelemetry (ee_now ee) (ee_snapshot ee) (ee_net ee)) t i))
       (\<lambda>e. op_fail (edge_status check_errors e))
       (\<lambda>s. case s of None \<Rightarrow> op_fail Panics | Some x \<Rightarrow> op_ret (DataTelemetry x)))"

definition ListEvents_handler :: "'m edge_env \<Rightarrow> portal_ctx \<Rightarrow> string \<Rightarrow> 'm edge_handler" where
  "ListEvents_handler ee ctx deviceId = for_device ee ctx deviceId (\<lambda>t i.
     served (on_pg (ListEvents t i)) [(ErrDeviceNotFound, 404)] DataEvents)"

definition CreateAPIKey_handler :: "'m edge_env \<Rightarrow> portal_ctx \<Rightarrow> string \<Rightarrow> create_key_request bound \<Rightarrow> 'm edge_handler" where
  "CreateAPIKey_handler ee ctx deviceId b = for_device ee ctx deviceId (\<lambda>t i.
     let create = (\<lambda>req. served (on_pg (CreateAPIKey (ee_sha ee) (ee_now ee) (ee_id_bytes ee) (ee_secret_bytes ee) (ee_newID ee)
                            t i (kq_Name req) (kq_ExpiresAt req) (px_userID ctx)))
                     [(ErrDeviceNotFound, 404)]
                     (\<lambda>(key, plaintext, deviceStatus). DataKey (toAPIKeyResponse (ee_now ee) key deviceStatus) plaintext))
     in case b of
          Malformed \<Rightarrow> op_fail (Status 400)
        | BoundEOF \<Rightarrow> create \<lparr>kq_Name = [], kq_ExpiresAt = None\<rparr>
        | Bound req \<Rightarrow> create req)"

definition ListAPIKeys_handler :: "'m edge_env \<Rightarrow> portal_ctx \<Rightarrow> string \<Rightarrow> 'm edge_handler" where
  "ListAPIKeys_handler ee ctx deviceId = for_device ee ctx deviceId (\<lambda>t i.
     served (on_pg (ListAPIKeys t i)) [(ErrDeviceNotFound, 404)]
       (\<lambda>(keys, deviceStatus). DataKeys (map (\<lambda>k. toAPIKeyResponse (ee_now ee) k deviceStatus) keys)))"

definition RevokeAPIKey_handler :: "'m edge_env \<Rightarrow> portal_ctx \<Rightarrow> string \<Rightarrow> string \<Rightarrow> 'm edge_handler" where
  "RevokeAPIKey_handler ee ctx deviceId keyId = for_device ee ctx deviceId (\<lambda>t i.
     case ee_uuid_parse ee keyId of
       None \<Rightarrow> op_fail (Status 400)
     | Some keyPK \<Rightarrow>
         served (RevokeAPIKey (ee_now ee) t i keyPK) [(ErrKeyNotFound, 404), (ErrDeviceNotFound, 404)] (\<lambda>_. DataNone))"

section \<open>Requests to the endpoints\<close>

datatype edge_request =
    EqListDevices | EqCreateDevice "create_device_command bound" | EqGetDevice string
  | EqUpdateDevice string "update_device_command bound" | EqEnable string | EqDisable string | EqStatus string
  | EqHealth string | EqTelemetry string | EqEvents string | EqCreateKey string "create_key_request bound"
  | EqListKeys string | EqRevokeKey string string

text \<open>The place of its route among those that \<open>RegisterEdgeRoutes\<close> registers, and its handler.\<close>

fun edge_index :: "edge_request \<Rightarrow> nat" where
  "edge_index EqListDevices = 0"
| "edge_index (EqCreateDevice _) = 1"
| "edge_index (EqGetDevice _) = 2"
| "edge_index (EqUpdateDevice _ _) = 3"
| "edge_index (EqEnable _) = 4"
| "edge_index (EqDisable _) = 5"
| "edge_index (EqStatus _) = 6"
| "edge_index (EqHealth _) = 7"
| "edge_index (EqTelemetry _) = 8"
| "edge_index (EqEvents _) = 9"
| "edge_index (EqCreateKey _ _) = 10"
| "edge_index (EqListKeys _) = 11"
| "edge_index (EqRevokeKey _ _) = 12"

definition route_of :: "edge_request \<Rightarrow> route" where
  "route_of q = edge_routes ! edge_index q"

fun edge_handle :: "'m edge_env \<Rightarrow> edge_request \<Rightarrow> portal_ctx \<Rightarrow> 'm edge_handler" where
  "edge_handle ee EqListDevices ctx = ListDevices_handler ctx"
| "edge_handle ee (EqCreateDevice b) ctx = CreateDevice_handler ee ctx b"
| "edge_handle ee (EqGetDevice i) ctx = GetDevice_handler ee ctx i"
| "edge_handle ee (EqUpdateDevice i b) ctx = UpdateDevice_handler ee ctx i b"
| "edge_handle ee (EqEnable i) ctx = EnableDevice_handler ee ctx i"
| "edge_handle ee (EqDisable i) ctx = DisableDevice_handler ee ctx i"
| "edge_handle ee (EqStatus i) ctx = StatusCheck_handler ee ctx i"
| "edge_handle ee (EqHealth i) ctx = HealthCheck_handler ee ctx i"
| "edge_handle ee (EqTelemetry i) ctx = GetTelemetry_handler ee ctx i"
| "edge_handle ee (EqEvents i) ctx = ListEvents_handler ee ctx i"
| "edge_handle ee (EqCreateKey i b) ctx = CreateAPIKey_handler ee ctx i b"
| "edge_handle ee (EqListKeys i) ctx = ListAPIKeys_handler ee ctx i"
| "edge_handle ee (EqRevokeKey i k) ctx = RevokeAPIKey_handler ee ctx i k"

text \<open>The state: the accounts with the buckets of the limiter, and the devices with the cache of the keys.\<close>

record site =
  si_portal :: portal
  si_plane :: plane

definition edge_serve ::
  "portal_env \<Rightarrow> 'm edge_env \<Rightarrow> portal_request \<Rightarrow> edge_request \<Rightarrow> site \<Rightarrow> (edge_fail + 'm edge_data) \<times> site" where
  "edge_serve env ee rq q site =
     (case admit env rq (route_of q) (si_portal site) of
        (Abort code msg, po) \<Rightarrow> (Inl (Status code), site\<lparr>si_portal := po\<rparr>)
      | (Pass ctx, po) \<Rightarrow>
          (case edge_handle ee q ctx (si_plane site) of (r, p) \<Rightarrow> (r, \<lparr>si_portal = po, si_plane = p\<rparr>)))"

section \<open>Lemmas\<close>

lemma edge_gates:
  "map gates edge_routes =
     [[''perm_edge_devices_view''], [''perm_edge_devices_create''], [''perm_edge_devices_view''], [''perm_edge_devices_manage''],
      [''perm_edge_devices_manage''], [''perm_edge_devices_manage''], [''perm_edge_devices_check''], [''perm_edge_devices_check''],
      [''perm_edge_devices_view''], [''perm_edge_devices_view''], [''perm_edge_devices_manage''], [''perm_edge_devices_view''],
      [''perm_edge_devices_manage'']]"
  by code_simp

lemma length_edge_routes: "length edge_routes = 13"
  by (simp add: edge_routes_def RegisterEdgeRoutes_def Let_def)

lemma edge_index_less: "edge_index q < 13"
  by (cases q) simp_all

lemma route_of_mem [intro]: "route_of q \<in> set edge_routes"
  using edge_index_less [of q] by (simp add: route_of_def length_edge_routes)

lemma gates_route_of: "gates (route_of q) = map gates edge_routes ! edge_index q"
  using edge_index_less [of q] by (simp add: route_of_def length_edge_routes)

text \<open>What an operation on behalf of a tenant may do: nothing to the others, nothing ill formed.\<close>

definition own_effect :: "uuid \<Rightarrow> plane \<Rightarrow> plane \<Rightarrow> bool" where
  "own_effect t p p' \<longleftrightarrow>
     (\<forall>t'. t' \<noteq> t \<longrightarrow> tenant_view t' (tables (pg p')) = tenant_view t' (tables (pg p))) \<and>
     (edge_wf (tables (pg p)) \<longrightarrow> edge_wf (tables (pg p')))"

lemma own_effect_same: "tables (pg p') = tables (pg p) \<Longrightarrow> own_effect t p p'"
  by (simp add: own_effect_def)

lemma own_effect_step: "edge_step t (pg p) w \<Longrightarrow> own_effect t p (p\<lparr>pg := w\<rparr>)"
  by (auto simp: own_effect_def edge_step_view edge_step_wf)

lemma own_effect_on_pg:
  assumes "on_pg m p = (x, p')" and "\<And>w. m (pg p) = (x, w) \<Longrightarrow> edge_step t (pg p) w"
  shows "own_effect t p p'"
  using assms own_effect_step by (auto simp: on_pg_cases)

lemma read_on_pg: "read_only m \<Longrightarrow> on_pg m p = (x, p') \<Longrightarrow> tables (pg p') = tables (pg p)"
  by (auto simp: on_pg_cases dest: read_onlyD)

lemma served_cases: "served m known f p = (r, p') \<Longrightarrow> \<exists>x. m p = (x, p')"
  by (auto simp: served_def op_try_def split: prod.splits sum.splits)

lemma for_device_cases:
  assumes "for_device ee ctx s h p = (r, p')"
  obtains "p' = p" | t i where "px_tenantUUID ctx = Some t" and "h t i p = (r, p')"
  using assms by (auto simp: for_device_def split: option.splits)

text \<open>Keys: a new one and a revocation.\<close>

lemma key_Create_cases:
  "key_Create k w = (r, w') \<Longrightarrow> tables w' = tables w \<or>
     tables w' = (tables w)\<lparr>api_keys := api_keys (tables w) @ [k\<lparr>ak_revoked_at := None, ak_last_used_at := None\<rparr>]\<rparr> \<and>
     (\<forall>x \<in> set (api_keys (tables w)). ak_id x \<noteq> ak_id k \<and> ak_key_id x \<noteq> ak_key_id k)"
  by (auto simp: key_Create_def stmt_def split: if_splits prod.splits sum.splits)

lemma own_effect_create_key:
  assumes "on_pg (CreateAPIKey sha now ri rs newID t i name ex cb) p = (x, p')"
  shows "own_effect t p p'"
proof -
  from assms obtain w where run: "CreateAPIKey sha now ri rs newID t i name ex cb (pg p) = (x, w)" and p': "p' = p\<lparr>pg := w\<rparr>"
    by (auto simp: on_pg_cases)
  from run show ?thesis unfolding CreateAPIKey_def
  proof (rule op_bindE)
    fix e assume "edge_GetByID t i (pg p) = (Inl e, w)"
    then have "tables w = tables (pg p)" using read_onlyD [OF read_only_edge_reads(2)] by metis
    then show ?thesis by (simp add: p' own_effect_same)
  next
    fix d w1 assume g: "edge_GetByID t i (pg p) = (Inr d, w1)"
      and rest: "(case Generate sha ri rs of None \<Rightarrow> op_fail EdgeRandom
        | Some (plaintext, keyID, hash) \<Rightarrow>
            let key = \<lparr>ak_id = newID, ak_tenant_id = t, ak_device_id = i, ak_key_id = keyID, ak_key_hash = hash,
                       ak_name = (if name \<noteq> [] then Some name else None), ak_created_at = now, ak_created_by = cb,
                       ak_expires_at = ex, ak_revoked_at = None, ak_last_used_at = None\<rparr>
            in op_bind (key_Create key) (\<lambda>_. op_ret (key, plaintext, ed_status d))) w1 = (x, w)"
    note d = edge_GetByID_Inr [OF g]
    have "tables w = tables w1 \<or>
      (\<exists>k. ak_tenant_id k = t \<and> ak_device_id k = i \<and> tables w = (tables w1)\<lparr>api_keys := api_keys (tables w1) @ [k]\<rparr> \<and>
         (\<forall>y \<in> set (api_keys (tables w1)). ak_id y \<noteq> ak_id k \<and> ak_key_id y \<noteq> ak_key_id k))"
    proof (cases "Generate sha ri rs")
      case None
      with rest show ?thesis by simp
    next
      case (Some g)
      obtain plaintext keyID hash where g: "g = (plaintext, keyID, hash)" by (cases g)
      define key where "key = \<lparr>ak_id = newID, ak_tenant_id = t, ak_device_id = i, ak_key_id = keyID, ak_key_hash = hash,
                       ak_name = (if name \<noteq> [] then Some name else None), ak_created_at = now, ak_created_by = cb,
                       ak_expires_at = ex, ak_revoked_at = None, ak_last_used_at = None\<rparr>"
      from rest Some g have "op_bind (key_Create key) (\<lambda>_. op_ret (key, plaintext, ed_status d)) w1 = (x, w)"
        by (simp add: key_def Let_def)
      then obtain y where "key_Create key w1 = (y, w)" by (auto simp: op_bind_def split: prod.splits sum.splits)
      from key_Create_cases [OF this] show ?thesis
      proof
        assume "tables w = (tables w1)\<lparr>api_keys := api_keys (tables w1) @ [key\<lparr>ak_revoked_at := None, ak_last_used_at := None\<rparr>]\<rparr> \<and>
          (\<forall>x \<in> set (api_keys (tables w1)). ak_id x \<noteq> ak_id key \<and> ak_key_id x \<noteq> ak_key_id key)"
        then show ?thesis
          by (intro disjI2 exI [of _ "key\<lparr>ak_revoked_at := None, ak_last_used_at := None\<rparr>"]) (simp add: key_def)
      qed simp
    qed
    moreover have "has_device (tables (pg p)) t i" using d by (auto simp: has_device_def)
    ultimately show ?thesis using d
      by (elim disjE exE conjE)
        (auto simp: p' own_effect_def tenant_view_def edge_wf_defs has_device_def)
  qed
qed

lemma update_keys_effect:
  assumes "tables (pg p') = (tables (pg p))\<lparr>api_keys := update_where q f (api_keys (tables (pg p)))\<rparr>"
    and "\<And>k. q k \<Longrightarrow> ak_tenant_id k = t"
    and "\<And>k. ak_id (f k) = ak_id k \<and> ak_key_id (f k) = ak_key_id k \<and> ak_tenant_id (f k) = ak_tenant_id k \<and>
      ak_device_id (f k) = ak_device_id k"
  shows "own_effect t p p'"
proof -
  let ?ks = "api_keys (tables (pg p))"
  have "filter (\<lambda>k. ak_tenant_id k = t') (update_where q f ?ks) = filter (\<lambda>k. ak_tenant_id k = t') ?ks" if "t' \<noteq> t" for t'
    by (rule filter_update_where_other) (use assms(2,3) that in auto)
  moreover have "map ak_id (update_where q f ?ks) = map ak_id ?ks" "map ak_key_id (update_where q f ?ks) = map ak_key_id ?ks"
    using assms(3) by (auto intro!: map_update_where_inv)
  moreover have "\<forall>k \<in> set (update_where q f ?ks). \<exists>k0 \<in> set ?ks. ak_tenant_id k = ak_tenant_id k0 \<and> ak_device_id k = ak_device_id k0"
  proof
    fix k assume "k \<in> set (update_where q f ?ks)"
    then obtain k0 where "k0 \<in> set ?ks" "k = (if q k0 then f k0 else k0)" by (auto simp: in_update_where)
    with assms(3) show "\<exists>k0 \<in> set ?ks. ak_tenant_id k = ak_tenant_id k0 \<and> ak_device_id k = ak_device_id k0"
      by (intro bexI [of _ k0]) simp_all
  qed
  ultimately show ?thesis using assms(1)
    by (auto simp: own_effect_def tenant_view_def edge_wf_defs has_device_def)
qed

lemma own_effect_trans: "own_effect t p p1 \<Longrightarrow> own_effect t p1 p2 \<Longrightarrow> own_effect t p p2"
  by (simp add: own_effect_def)

lemma key_Revoke_effect:
  assumes "key_Revoke now t k w = (r, w')" and "pg p = w" and "pg p' = w'"
  shows "own_effect t p p'"
proof -
  have "tables w' = (tables w)\<lparr>api_keys := update_where (revocable t k) (\<lambda>k. k\<lparr>ak_revoked_at := Some now\<rparr>) (api_keys (tables w))\<rparr> \<or>
    tables w' = tables w"
    using assms(1) by (auto simp: key_Revoke_def op_bind_def stmt_def assertExists_def query_def split: if_splits prod.splits sum.splits)
  then show ?thesis
  proof
    assume "tables w' = (tables w)\<lparr>api_keys := update_where (revocable t k) (\<lambda>k. k\<lparr>ak_revoked_at := Some now\<rparr>) (api_keys (tables w))\<rparr>"
    then show ?thesis
      by (intro update_keys_effect [where q = "revocable t k" and f = "\<lambda>k. k\<lparr>ak_revoked_at := Some now\<rparr>"])
        (simp_all add: assms(2,3) revocable_def)
  qed (simp add: assms(2,3) own_effect_same)
qed

lemma own_effect_revoke:
  assumes "RevokeAPIKey now t i k p = (r, p')"
  shows "own_effect t p p'"
proof -
  obtain r1 w1 where l: "key_ListByDevice t i (pg p) = (r1, w1)" by fastforce
  have w1: "tables w1 = tables (pg p)" using l by (auto simp: key_ListByDevice_def query_def stmt_def split: if_splits)
  then have read: "own_effect t p (p\<lparr>pg := w1\<rparr>)" by (simp add: own_effect_same)
  show ?thesis
  proof (cases r1)
    case (Inl e)
    with l assms read show ?thesis by (auto simp: RevokeAPIKey_def op_bind_def on_pg_def)
  next
    case (Inr keys)
    obtain r2 w2 where rv: "key_Revoke now t k w1 = (r2, w2)" by fastforce
    have "own_effect t (p\<lparr>pg := w1\<rparr>) (p\<lparr>pg := w2\<rparr>)" by (rule key_Revoke_effect [OF rv]) simp_all
    with read have two: "own_effect t p (p\<lparr>pg := w2\<rparr>)" by (rule own_effect_trans)
    have "pg (snd (InvalidateAPIKeyCache s q)) = pg q" for s q
      by (simp add: InvalidateAPIKeyCache_def split: option.splits)
    with Inr l rv assms read two show ?thesis
      by (cases "key_id_of_pk k keys = []"; cases r2)
        (auto simp: RevokeAPIKey_def op_bind_def on_pg_def Let_def own_effect_def)
  qed
qed

lemma for_device_P:
  assumes "for_device ee ctx s h p = (r, p')" and "P p"
    and "\<And>t i. px_tenantUUID ctx = Some t \<Longrightarrow> h t i p = (r, p') \<Longrightarrow> P p'"
  shows "P p'"
  using assms(1) by (rule for_device_cases) (use assms(2,3) in auto)

lemma served_P:
  assumes "served m known f p = (r, p')" and "\<And>x. m p = (x, p') \<Longrightarrow> P p'"
  shows "P p'"
  using served_cases [OF assms(1)] assms(2) by blast

lemma read_only_services:
  "read_only (ListDevices t)" "read_only (GetDevice t i)" "read_only (ListEvents t i)" "read_only (ListAPIKeys t i)"
  "read_only (GetTelemetry client t i)"
  unfolding ListDevices_def GetDevice_def ListEvents_def ListAPIKeys_def GetTelemetry_def
  by (auto simp: key_ListByDevice_def intro!: read_only_bind split: if_splits)

lemma GetTelemetry_handler_reads: "GetTelemetry_handler ee ctx i p = (r, p') \<Longrightarrow> tables (pg p') = tables (pg p)"
  unfolding GetTelemetry_handler_def
proof (erule for_device_P [where P = "\<lambda>x. tables (pg x) = tables (pg p)"])
  fix t d
  assume "op_try (on_pg (GetTelemetry (client_GetTelemetry (ee_now ee) (ee_snapshot ee) (ee_net ee)) t d))
       (\<lambda>e. op_fail (edge_status check_errors e))
       (\<lambda>s. case s of None \<Rightarrow> op_fail Panics | Some x \<Rightarrow> op_ret (DataTelemetry x)) p = (r, p')"
  then obtain x where "on_pg (GetTelemetry (client_GetTelemetry (ee_now ee) (ee_snapshot ee) (ee_net ee)) t d) p = (x, p')"
    by (auto simp: op_try_def split: prod.splits sum.splits option.splits)
  then show "tables (pg p') = tables (pg p)" by (rule read_on_pg [OF read_only_services(5)])
qed simp

lemma handle_reads:
  assumes "edge_handle ee q ctx p = (r, p')" and "gates (route_of q) = [''perm_edge_devices_view'']"
  shows "tables (pg p') = tables (pg p)"
proof -
  define P where "P = (\<lambda>x :: plane. tables (pg x) = tables (pg p))"
  have [simp]: "P p" by (simp add: P_def)
  have "P p'"
  proof (cases q)
    case EqListDevices
    with assms(1) show ?thesis
      by (auto simp: ListDevices_handler_def P_def split: option.splits elim!: served_P dest: read_on_pg [OF read_only_services(1)])
  next
    case (EqGetDevice i)
    with assms(1) show ?thesis
      by (auto simp: GetDevice_handler_def P_def elim!: for_device_P served_P dest: read_on_pg [OF read_only_services(2)])
  next
    case (EqTelemetry i)
    with assms(1) show ?thesis by (auto simp: P_def dest: GetTelemetry_handler_reads)
  next
    case (EqEvents i)
    with assms(1) show ?thesis
      by (auto simp: ListEvents_handler_def P_def elim!: for_device_P served_P dest: read_on_pg [OF read_only_services(3)])
  next
    case (EqListKeys i)
    with assms(1) show ?thesis
      by (auto simp: ListAPIKeys_handler_def P_def elim!: for_device_P served_P dest: read_on_pg [OF read_only_services(4)])
  qed (use assms(2) in \<open>simp_all add: gates_route_of edge_gates\<close>)
  then show ?thesis by (simp add: P_def)
qed

lemma own_effect_checks:
  "on_pg (StatusCheck now client e t i u em) p = (x, p') \<Longrightarrow> own_effect t p p'"
  "on_pg (HealthCheck now client e t i u em) p = (x, p') \<Longrightarrow> own_effect t p p'"
  by (erule own_effect_on_pg, erule step_Status) (erule own_effect_on_pg, erule step_Health)

lemma handle_effect:
  assumes "edge_handle ee q ctx p = (r, p')" and t: "px_tenantUUID ctx = Some t"
  shows "own_effect t p p'"
proof (cases "gates (route_of q) = [''perm_edge_devices_view'']")
  case True
  from handle_reads [OF assms(1) True] show ?thesis by (rule own_effect_same)
next
  case False
  have refl: "own_effect t p p" by (simp add: own_effect_same)
  show ?thesis
  proof (cases q)
    case (EqCreateDevice b)
    with assms refl show ?thesis
      by (auto simp: CreateDevice_handler_def split: bound.splits if_splits elim!: served_P
          intro: own_effect_on_pg edge_step.intros)
  next
    case (EqUpdateDevice i b)
    with assms(1) have run: "UpdateDevice_handler ee ctx i b p = (r, p')" by simp
    then show ?thesis unfolding UpdateDevice_handler_def
    proof (rule for_device_P [where P = "own_effect t p", OF _ refl])
      fix t0 i0 assume t0: "px_tenantUUID ctx = Some t0"
        and b: "(case b of BoundEOF \<Rightarrow> op_fail (Status 400) | Malformed \<Rightarrow> op_fail (Status 400)
          | Bound req \<Rightarrow>
             if map_option trim_space (ud_name req) = Some [] then op_fail (Status 400)
             else if map_option (web_url (ee_request_uri ee)) (ud_raspberry_base_url req) = Some False then op_fail (Status 400)
             else served (on_pg (UpdateDevice (ee_now ee) t0 i0 req)) [(ErrDeviceNotFound, 404)]
                (\<lambda>d. DataDevice (EdgeDeviceToResponse d))) p = (r, p')"
      show "own_effect t p p'"
      proof (cases "p' = p")
        case False
        with b obtain req where "served (on_pg (UpdateDevice (ee_now ee) t0 i0 req)) [(ErrDeviceNotFound, 404)]
                (\<lambda>d. DataDevice (EdgeDeviceToResponse d)) p = (r, p')"
          by (cases b) (simp_all split: if_splits)
        then show ?thesis by (rule served_P) (use t t0 in \<open>auto intro: own_effect_on_pg edge_step.intros\<close>)
      qed (simp add: refl)
    qed
  next
    case (EqEnable i)
    with assms refl show ?thesis
      by (auto simp: EnableDevice_handler_def elim!: for_device_P served_P intro: own_effect_on_pg edge_step.intros)
  next
    case (EqDisable i)
    with assms refl show ?thesis
      by (auto simp: DisableDevice_handler_def elim!: for_device_P served_P intro: own_effect_on_pg edge_step.intros)
  next
    case (EqStatus i)
    with assms refl show ?thesis
      by (auto simp: StatusCheck_handler_def split: option.splits if_splits elim!: for_device_P served_P
          intro: own_effect_checks)
  next
    case (EqHealth i)
    with assms refl show ?thesis
      by (auto simp: HealthCheck_handler_def split: option.splits if_splits elim!: for_device_P served_P
          intro: own_effect_checks)
  next
    case (EqCreateKey i b)
    with assms refl show ?thesis
      by (auto simp: CreateAPIKey_handler_def Let_def split: bound.splits elim!: for_device_P served_P
          intro: own_effect_create_key)
  next
    case (EqRevokeKey i k)
    with assms refl show ?thesis
      by (auto simp: RevokeAPIKey_handler_def split: option.splits elim!: for_device_P served_P
          intro: own_effect_revoke)
  qed (use False in \<open>simp_all add: gates_route_of edge_gates\<close>)
qed

text \<open>With this client the telemetry handler never reads through nil.\<close>

lemma client_GetTelemetry_some: "client_GetTelemetry now decode net url = Inr s \<Longrightarrow> s \<noteq> None"
  by (cases s) (auto simp: client_GetTelemetry_def split: http_reply.splits if_splits option.splits)

lemma GetTelemetry_some:
  "GetTelemetry (client_GetTelemetry now decode net) t d w = (Inr s, w') \<Longrightarrow> s \<noteq> None"
  unfolding GetTelemetry_def
  by (erule op_bindE) (auto dest: client_GetTelemetry_some split: if_splits)

lemma telemetry_never_panics: "fst (GetTelemetry_handler ee ctx i p) \<noteq> Inl Panics"
  by (auto simp: GetTelemetry_handler_def for_device_def op_try_def on_pg_cases edge_status_def
      dest!: GetTelemetry_some split: option.splits prod.splits sum.splits)

section \<open>Properties\<close>

text \<open>C18. What a request to the endpoints of the devices changes, it may change: whatever statements fail, a request
  that leaves the tables of the devices other than they were came with a verified token, as a user with an
  active membership of the tenant of the path, or the right of an operator, and with the permission of the
  route, which is not the one to view; and the rows of every other tenant are as they were.\<close>

theorem edge_api_contained:
  assumes "edge_serve env ee rq q site = (ans, site')"
    and "tables (pg (si_plane site')) \<noteq> tables (pg (si_plane site))"
  shows "\<exists>token sub email (usr :: domain_user) x rc perm.
    pr_authorization rq = ''Bearer '' @ token \<and> pe_verify env token = Inr (Some (sub, email)) \<and> dm_SupabaseUserID usr = sub \<and>
    x \<in> set (tenants (tables (po_db (si_portal site')))) \<and> tn_Subdomain (tr_tenant x) = pr_tenantId rq \<and>
    (member_role (tables (po_db (si_portal site'))) (dm_ID usr) (tr_id x) (rc_Name rc) \<or>
     operator_role (tables (po_db (si_portal site'))) (dm_ID usr) (rc_Name rc)) \<and>
    context_of_role (tables (po_db (si_portal site'))) rc \<and>
    gates (route_of q) = [perm] \<and> perm \<in> set (rc_Permissions rc) \<and> perm \<noteq> ''perm_edge_devices_view'' \<and>
    (\<forall>t. t \<noteq> tr_id x \<longrightarrow> tenant_view t (tables (pg (si_plane site'))) = tenant_view t (tables (pg (si_plane site))))"
proof -
  obtain g po where adm: "admit env rq (route_of q) (si_portal site) = (g, po)" by fastforce
  with assms obtain ctx where g: "g = Pass ctx" by (cases g) (auto simp: edge_serve_def)
  obtain r p where h: "edge_handle ee q ctx (si_plane site) = (r, p)" by fastforce
  with assms(1) adm g have site': "site' = \<lparr>si_portal = po, si_plane = p\<rparr>" by (simp add: edge_serve_def)
  obtain perm where perm: "gates (route_of q) = [perm]"
    using gates_route_of [of q] by (cases q) (auto simp: edge_gates)
  with handle_reads [OF h] assms(2) site' have view: "perm \<noteq> ''perm_edge_devices_view''" by auto
  from route_of_mem adm [unfolded g] show ?thesis
  proof (rule admit_edge)
    fix usr w1 w2 t rc
    assume jwt: "JWTAuth (pe_verify env) (pe_now env) (pe_newID env) (pe_fresh env) (pr_authorization rq) (po_db (si_portal site)) = (Pass usr, w1)"
      and w2: "po_db po = w2"
      and ten: "ResolveTenantAndCheckMembership (pr_tenantId rq) (Some (dm_ID usr)) w1 = (Pass (t, rc), w2)"
      and px: "px_tenantUUID ctx = Some t" "px_role ctx = Some rc"
      and gate: "\<And>p. p \<in> set (gates (route_of q)) \<Longrightarrow> Can (px_role ctx) p = Inr ()"
    from gate [of perm] perm px have held: "perm \<in> set (rc_Permissions rc)"
      by (auto dest: Can_held)
    from ten obtain x where x: "x \<in> set (tenants (tables w2))" "tn_Subdomain (tr_tenant x) = pr_tenantId rq" and t: "tr_id x = t"
      and role: "member_role (tables w2) (dm_ID usr) t (rc_Name rc) \<or> operator_role (tables w2) (dm_ID usr) (rc_Name rc)"
        "context_of_role (tables w2) rc" by (rule ResolveTenant_Pass) auto
    from handle_effect [OF h px(1)]
    have others: "\<forall>t'. t' \<noteq> t \<longrightarrow> tenant_view t' (tables (pg p)) = tenant_view t' (tables (pg (si_plane site)))"
      by (simp add: own_effect_def)
    from JWTAuth_sound [OF jwt] obtain token sub email where token: "pr_authorization rq = ''Bearer '' @ token"
      "pe_verify env token = Inr (Some (sub, email))" "dm_SupabaseUserID usr = sub" by blast
    show ?thesis unfolding site' site.simps w2
      by (rule exI [of _ token], rule exI [of _ sub], rule exI [of _ email], rule exI [of _ usr], rule exI [of _ x],
          rule exI [of _ rc], rule exI [of _ perm]) (intro conjI token x role [folded t] perm held view others [folded t])
  qed
qed

text \<open>A device may be created with what no update would take: the creation asks for a name and a base URL that are
  not empty, the update for a name that is not blank and the URL of a web server.\<close>

theorem create_takes_what_update_refuses:
  assumes "px_tenantUUID ctx = Some t" and "ee_uuid_parse ee s = Some i" and "cd_name cmd \<noteq> []" and "trim_space (cd_name cmd) = []"
    and "cd_machine_id cmd \<noteq> []" and "cd_edge_type cmd = ''RASPBERRY_PLC''" and "cd_raspberry_base_url cmd \<noteq> []"
  shows "fst (CreateDevice_handler ee ctx (Bound cmd) p) =
      fst (served (on_pg (CreateDevice (ee_now ee) (ee_newID ee) t cmd)) [(ErrMachineIDConflict, 409)]
             (\<lambda>d. DataDevice (EdgeDeviceToResponse d)) p)"
    and "fst (UpdateDevice_handler ee ctx s (Bound \<lparr>ud_name = Some (cd_name cmd), ud_description = None,
      ud_raspberry_base_url = None, ud_plc_address = None\<rparr>) p) = Inl (Status 400)"
  using assms by (simp_all add: CreateDevice_handler_def UpdateDevice_handler_def for_device_def)

section \<open>Instances\<close>

definition edge_env_sample :: "unit edge_env" where
  "edge_env_sample = \<lparr>ee_now = 5, ee_newID = 77, ee_uuid_parse = (\<lambda>s. if s = ''1'' then Some 1 else None),
     ee_request_uri = (\<lambda>_. None), ee_net = (\<lambda>_. NoReply ''down''), ee_check = (\<lambda>_. None), ee_snapshot = (\<lambda>_. None),
     ee_sha = id, ee_id_bytes = None, ee_secret_bytes = None\<rparr>"

definition site_sample :: site where
  "site_sample = \<lparr>si_portal = portal_sample,
     si_plane = \<lparr>pg = live \<lparr>devices = [line_1\<lparr>ed_id := 1, ed_tenant_id := 2\<rparr>], device_events = [], api_keys = []\<rparr>, rdb = None\<rparr>\<rparr>"

theorem edge_api_contained_instance:
  "\<exists>ans site'. edge_serve env_sample edge_env_sample (request_to ''acme'') (EqDisable ''1'') site_sample = (ans, site') \<and>
     (\<exists>rc perm. context_of_role (tables (po_db (si_portal site'))) rc \<and> perm \<in> set (rc_Permissions rc) \<and>
        gates (route_of (EqDisable ''1'')) = [perm])"
proof -
  obtain ans site' where run: "edge_serve env_sample edge_env_sample (request_to ''acme'') (EqDisable ''1'') site_sample = (ans, site')"
    by fastforce
  have "map ed_status (devices (tables (pg (si_plane (snd
      (edge_serve env_sample edge_env_sample (request_to ''acme'') (EqDisable ''1'') site_sample)))))) = [''DISABLED'']"
    by code_simp
  moreover have "map ed_status (devices (tables (pg (si_plane site_sample)))) = [''ACTIVE'']" by code_simp
  ultimately have "tables (pg (si_plane site')) \<noteq> tables (pg (si_plane site_sample))" using run by auto
  from edge_api_contained [OF run this] run show ?thesis by blast
qed

end
