(* ===== verification/CatalogApi.thy ===== *)
theory CatalogApi
  imports Routing Permissions
begin

text \<open>
  The endpoints of roles and permissions: the handlers of \<open>internal/api/handler/roles\<close> and
  \<open>internal/api/handler/permissions\<close> behind the middlewares of \<open>Routing\<close>, and histories of whole
  requests, in which the role a request runs with is the one the database gives its caller. A body that
  does not decode is None; the format of a time, the collation, fresh ids and random bytes are parameters.
\<close>

section \<open>Answers\<close>

record role_response =
  rr_ID :: string
  rr_Name :: string
  rr_Description :: string
  rr_Permissions :: "string list"
  rr_IsSystemRole :: bool
  rr_IsGlobal :: bool
  rr_TenantID :: "uuid option"
  rr_CreatedAt :: time
  rr_UpdatedAt :: time

definition FromDomain :: "role \<Rightarrow> role_response" where
  "FromDomain r =
     \<lparr>rr_ID = ro_ID r, rr_Name = ro_Name r, rr_Description = ro_Description r, rr_Permissions = ro_Permissions r,
      rr_IsSystemRole = ro_IsSystemRole r, rr_IsGlobal = ro_IsGlobal r, rr_TenantID = ro_TenantID r,
      rr_CreatedAt = ro_CreatedAt r, rr_UpdatedAt = ro_UpdatedAt r\<rparr>"

record permission_response =
  pp_ID :: string
  pp_Name :: string
  pp_Section :: string
  pp_Description :: string
  pp_IsSystemPermission :: bool
  pp_CreatedAt :: "string option"
  pp_UpdatedAt :: "string option"

definition toPermissionResponse :: "(time \<Rightarrow> string) \<Rightarrow> permission \<Rightarrow> permission_response" where
  "toPermissionResponse format p =
     (let r = \<lparr>pp_ID = pm_ID p, pp_Name = pm_Name p, pp_Section = pm_Section p, pp_Description = pm_Description p,
               pp_IsSystemPermission = pm_IsSystemPermission p, pp_CreatedAt = None, pp_UpdatedAt = None\<rparr>
      in if \<not> pm_IsSystemPermission p
         then r\<lparr>pp_CreatedAt := Some (format (pm_CreatedAt p)), pp_UpdatedAt := Some (format (pm_UpdatedAt p))\<rparr>
         else r)"

text \<open>A failure: status, code or text, and the users that a role with assignments has.\<close>

type_synonym catalog_fail = "nat \<times> string \<times> nat option"

datatype catalog_data =
    DataRoles "role_response list" | DataRole role_response | DataPermissions "permission_response list"
  | DataPermission permission_response | DataDone

type_synonym catalog_handler = "(iam_db world, catalog_fail, catalog_data) oper"

definition handlePermissionError :: "iam_err \<Rightarrow> catalog_fail" where
  "handlePermissionError e =
     (case e of
        ValidationError field \<Rightarrow> (400, field, None)
      | ErrPermissionIsSystem \<Rightarrow> (403, ''Cannot modify system permissions'', None)
      | ErrPermissionNotFound \<Rightarrow> (404, ''Permission not found'', None)
      | _ \<Rightarrow> (500, ''internal server error'', None))"

definition role_fail :: "iam_err \<Rightarrow> catalog_fail" where
  "role_fail e = (let (code, text) = role_HandleError e in (code, text, None))"

section \<open>Handlers\<close>

record catalog_env =
  ce_now :: time
  ce_newID :: string
  ce_random :: "string option"
  ce_format :: "time \<Rightarrow> string"

definition getTenantID :: "string \<Rightarrow> portal_ctx \<Rightarrow> (uuid \<Rightarrow> catalog_handler) \<Rightarrow> catalog_handler" where
  "getTenantID text ctx f = (case px_tenant ctx of None \<Rightarrow> op_fail (400, text, None) | Some t \<Rightarrow> f t)"

definition ListRoles_handler :: "(string \<Rightarrow> 'k::linorder) \<Rightarrow> portal_ctx \<Rightarrow> catalog_handler" where
  "ListRoles_handler collation ctx = getTenantID ''INVALID_TENANT'' ctx (\<lambda>t.
     op_try (ListRoles collation t (CanSeePlatformInternals (px_role ctx)))
       (\<lambda>e. op_fail (role_fail e)) (\<lambda>rs. op_ret (DataRoles (map FromDomain rs))))"

definition GetRole_handler :: "portal_ctx \<Rightarrow> string \<Rightarrow> catalog_handler" where
  "GetRole_handler ctx i = getTenantID ''INVALID_TENANT'' ctx (\<lambda>t.
     op_try (GetRole i t (CanSeePlatformInternals (px_role ctx)))
       (\<lambda>e. op_fail (role_fail e)) (\<lambda>r. op_ret (DataRole (FromDomain r))))"

record role_request =
  rq_Name :: string
  rq_Description :: string
  rq_Permissions :: "string list"

definition CreateRole_handler :: "catalog_env \<Rightarrow> portal_ctx \<Rightarrow> role_request option \<Rightarrow> catalog_handler" where
  "CreateRole_handler ce ctx body = getTenantID ''INVALID_TENANT'' ctx (\<lambda>t.
     case body of
       None \<Rightarrow> op_fail (400, ''VALIDATION_ERROR'', None)
     | Some req \<Rightarrow>
         if rq_Name req = [] then op_fail (400, ''VALIDATION_ERROR'', None)
         else op_try (CreateRole pg_catalog (ce_now ce) (ce_random ce) (px_role ctx) t
                       (rq_Name req) (rq_Description req) (rq_Permissions req))
                (\<lambda>e. op_fail (role_fail e)) (\<lambda>r. op_ret (DataRole (FromDomain r))))"

definition UpdateRole_endpoint :: "catalog_env \<Rightarrow> portal_ctx \<Rightarrow> string \<Rightarrow> role_request option \<Rightarrow> catalog_handler" where
  "UpdateRole_endpoint ce ctx i body = getTenantID ''INVALID_TENANT'' ctx (\<lambda>t.
     case body of
       None \<Rightarrow> op_fail (400, ''VALIDATION_ERROR'', None)
     | Some req \<Rightarrow>
         if rq_Name req = [] then op_fail (400, ''VALIDATION_ERROR'', None)
         else op_try (UpdateRole_handler pg_catalog (ce_now ce) (px_role ctx) i t
                       (rq_Name req) (rq_Description req) (rq_Permissions req))
                (\<lambda>(code, text). op_fail (code, text, None)) (\<lambda>r. op_ret (DataRole (FromDomain r))))"

definition DeleteRole_endpoint :: "catalog_env \<Rightarrow> portal_ctx \<Rightarrow> string \<Rightarrow> catalog_handler" where
  "DeleteRole_endpoint ce ctx i = getTenantID ''INVALID_TENANT'' ctx (\<lambda>t.
     op_try (DeleteRole_handler (ce_now ce) (px_role ctx) i t) op_fail (\<lambda>_. op_ret DataDone))"

definition ListPermissions_handler :: "catalog_env \<Rightarrow> (string \<Rightarrow> 'k::linorder) \<Rightarrow> portal_ctx \<Rightarrow> catalog_handler" where
  "ListPermissions_handler ce collation ctx = getTenantID ''tenant ID required'' ctx (\<lambda>t.
     op_try (ListPermissions collation t)
       (\<lambda>e. op_fail (handlePermissionError e))
       (\<lambda>ps. op_ret (DataPermissions (map (toPermissionResponse (ce_format ce)) ps))))"

definition GetPermission_handler :: "catalog_env \<Rightarrow> portal_ctx \<Rightarrow> string \<Rightarrow> catalog_handler" where
  "GetPermission_handler ce ctx i = getTenantID ''tenant ID required'' ctx (\<lambda>t.
     op_try (GetPermission i t)
       (\<lambda>e. op_fail (handlePermissionError e)) (\<lambda>p. op_ret (DataPermission (toPermissionResponse (ce_format ce) p))))"

record permission_request =
  pq_Name :: string
  pq_Section :: string
  pq_Description :: string

definition CreatePermission_handler :: "catalog_env \<Rightarrow> portal_ctx \<Rightarrow> permission_request option \<Rightarrow> catalog_handler" where
  "CreatePermission_handler ce ctx body = getTenantID ''tenant ID required'' ctx (\<lambda>t.
     case body of
       None \<Rightarrow> op_fail (400, ''body'', None)
     | Some req \<Rightarrow>
         op_try (CreatePermission (ce_now ce) (ce_newID ce) t (pq_Name req) (pq_Section req) (pq_Description req))
           (\<lambda>e. op_fail (handlePermissionError e))
           (\<lambda>p. op_ret (DataPermission (toPermissionResponse (ce_format ce) p))))"

definition UpdatePermission_handler ::
  "catalog_env \<Rightarrow> portal_ctx \<Rightarrow> string \<Rightarrow> permission_request option \<Rightarrow> catalog_handler" where
  "UpdatePermission_handler ce ctx i body = getTenantID ''tenant ID required'' ctx (\<lambda>t.
     case body of
       None \<Rightarrow> op_fail (400, ''body'', None)
     | Some req \<Rightarrow>
         op_try (UpdatePermission (ce_now ce) i t (pq_Name req) (pq_Section req) (pq_Description req))
           (\<lambda>e. op_fail (handlePermissionError e))
           (\<lambda>p. op_ret (DataPermission (toPermissionResponse (ce_format ce) p))))"

definition DeletePermission_handler :: "catalog_env \<Rightarrow> portal_ctx \<Rightarrow> string \<Rightarrow> catalog_handler" where
  "DeletePermission_handler ce ctx i = getTenantID ''tenant ID required'' ctx (\<lambda>t.
     op_try (DeletePermission (ce_now ce) i t)
       (\<lambda>e. op_fail (if e = ErrPermissionIsSystem then (403, ''Cannot delete system permissions'', None)
                     else handlePermissionError e))
       (\<lambda>_. op_ret DataDone))"

section \<open>Whole requests\<close>

datatype catalog_request =
    CqListRoles | CqGetRole string | CqCreateRole "role_request option" | CqUpdateRole string "role_request option"
  | CqDeleteRole string | CqListPermissions | CqGetPermission string | CqCreatePermission "permission_request option"
  | CqUpdatePermission string "permission_request option" | CqDeletePermission string

text \<open>The place of its route among those of roles and permissions, in the order they are registered, and its handler.\<close>

fun catalog_index :: "catalog_request \<Rightarrow> nat" where
  "catalog_index CqListRoles = 0"
| "catalog_index (CqGetRole _) = 1"
| "catalog_index (CqCreateRole _) = 2"
| "catalog_index (CqUpdateRole _ _) = 3"
| "catalog_index (CqDeleteRole _) = 4"
| "catalog_index CqListPermissions = 5"
| "catalog_index (CqGetPermission _) = 6"
| "catalog_index (CqCreatePermission _) = 7"
| "catalog_index (CqUpdatePermission _ _) = 8"
| "catalog_index (CqDeletePermission _) = 9"

definition catalog_routes :: "route list" where
  "catalog_routes = RegisterRoleRoutes v1 writeGroup @ permission_routes"

definition catalog_route :: "catalog_request \<Rightarrow> route" where
  "catalog_route q = catalog_routes ! catalog_index q"

fun catalog_handle :: "catalog_env \<Rightarrow> (string \<Rightarrow> 'k::linorder) \<Rightarrow> catalog_request \<Rightarrow> portal_ctx \<Rightarrow> catalog_handler" where
  "catalog_handle ce col CqListRoles ctx = ListRoles_handler col ctx"
| "catalog_handle ce col (CqGetRole i) ctx = GetRole_handler ctx i"
| "catalog_handle ce col (CqCreateRole b) ctx = CreateRole_handler ce ctx b"
| "catalog_handle ce col (CqUpdateRole i b) ctx = UpdateRole_endpoint ce ctx i b"
| "catalog_handle ce col (CqDeleteRole i) ctx = DeleteRole_endpoint ce ctx i"
| "catalog_handle ce col CqListPermissions ctx = ListPermissions_handler ce col ctx"
| "catalog_handle ce col (CqGetPermission i) ctx = GetPermission_handler ce ctx i"
| "catalog_handle ce col (CqCreatePermission b) ctx = CreatePermission_handler ce ctx b"
| "catalog_handle ce col (CqUpdatePermission i b) ctx = UpdatePermission_handler ce ctx i b"
| "catalog_handle ce col (CqDeletePermission i) ctx = DeletePermission_handler ce ctx i"

definition catalog_serve ::
  "(string \<Rightarrow> 'k::linorder) \<Rightarrow> portal_env \<Rightarrow> catalog_env \<Rightarrow> portal_request \<Rightarrow> catalog_request \<Rightarrow> portal \<Rightarrow>
     (catalog_fail + catalog_data) \<times> portal" where
  "catalog_serve col env ce rq q s =
     (case admit env rq (catalog_route q) s of
        (Abort code msg, s') \<Rightarrow> (Inl (code, msg, None), s')
      | (Pass ctx, s') \<Rightarrow> (case catalog_handle ce col q ctx (po_db s') of (r, w) \<Rightarrow> (r, s'\<lparr>po_db := w\<rparr>)))"

type_synonym portal_event = "portal_env \<times> catalog_env \<times> portal_request \<times> catalog_request"

fun portal_run :: "(string \<Rightarrow> 'k::linorder) \<Rightarrow> portal_event list \<Rightarrow> portal \<Rightarrow> portal" where
  "portal_run col [] s = s"
| "portal_run col ((env, ce, rq, q) # es) s = portal_run col es (snd (catalog_serve col env ce rq q s))"

section \<open>Lemmas\<close>

lemma catalog_gates:
  "map gates catalog_routes = [[], [], [''perm_users_manage''], [''perm_users_manage''], [''perm_users_manage''],
     [], [], [''perm_users_manage''], [''perm_users_manage''], [''perm_users_manage'']]"
  by code_simp

lemma catalog_exempt: "list_all (\<lambda>rt. \<not> isExemptFromTenant (rt_path rt)) catalog_routes"
  by code_simp

lemma length_catalog_routes: "length catalog_routes = 10"
  by code_simp

lemma catalog_index_less: "catalog_index q < 10"
  by (cases q) simp_all

lemma catalog_route_mem: "catalog_route q \<in> set catalog_routes"
  using catalog_index_less [of q] by (simp add: catalog_route_def length_catalog_routes)

lemma catalog_route_v1 [intro]: "catalog_route q \<in> set v1_routes"
  using catalog_route_mem [of q] by (auto simp: catalog_routes_def v1_routes_def)

lemma catalog_route_tenant: "\<not> isExemptFromTenant (rt_path (catalog_route q))"
  using catalog_route_mem [of q] catalog_exempt by (simp add: list_all_iff)

lemma gates_catalog_route: "gates (catalog_route q) = map gates catalog_routes ! catalog_index q"
  using catalog_index_less [of q] by (simp add: catalog_route_def length_catalog_routes)

text \<open>A handler does what the request of the histories in \<open>Permissions\<close> does, or nothing.\<close>

lemma op_try_world: "op_try m (\<lambda>e. op_fail (f e)) (\<lambda>x. op_ret (g x)) w = (r, w') \<Longrightarrow> \<exists>x. m w = (x, w')"
  by (auto simp: op_try_cases)

lemma try_effect:
  assumes "op_try m (\<lambda>e. op_fail (f e)) (\<lambda>x. op_ret (g x)) w = (r, w')"
    and "snd (m w) = catalog_exec now ctx t q w"
  shows "catalog_effect ctx t (tables w) (tables w')"
  using op_try_world [OF assms(1)] assms(2) catalog_exec_effect [of ctx t w now q] by auto

lemma try_reads:
  assumes "op_try m (\<lambda>e. op_fail (f e)) (\<lambda>x. op_ret (g x)) w = (r, w')" and "read_only m"
  shows "tables w' = tables w"
  using op_try_world [OF assms(1)] read_onlyD [OF assms(2)] by auto

lemma read_only_lists: "read_only (ListRoles col t g)" "read_only (GetRole i t g)" "read_only (ListPermissions col t)"
    "read_only (GetPermission i t)" "read_only (CountActiveAssignments i)"
  by (simp_all add: ListRoles_def role_List_def GetRole_def ListPermissions_def perm_List_def GetPermission_def
      CountActiveAssignments_def)

lemma UpdateRole_endpoint_effect:
  assumes "UpdateRole_endpoint ce ctx i body w = (r, w')" and "px_tenant ctx = Some t"
  shows "catalog_effect (px_role ctx) t (tables w) (tables w')"
proof (cases "\<exists>req. body = Some req \<and> rq_Name req \<noteq> []")
  case False
  with assms have "w' = w" by (auto simp: UpdateRole_endpoint_def getTenantID_def split: option.splits)
  then show ?thesis by (simp add: catalog_effect.none)
next
  case True
  then obtain req where req: "body = Some req" "rq_Name req \<noteq> []" by blast
  let ?m = "UpdateRole pg_catalog (ce_now ce) (px_role ctx) i t (CanSeePlatformInternals (px_role ctx))
    (rq_Name req) (rq_Description req) (rq_Permissions req)"
  from assms req obtain x where "?m w = (x, w')"
    by (auto simp: UpdateRole_endpoint_def getTenantID_def UpdateRole_handler_def op_try_cases split: prod.splits)
  with catalog_exec_effect [of "px_role ctx" t w "ce_now ce" "ReqUpdateRole i (rq_Name req) (rq_Description req) (rq_Permissions req)"]
  show ?thesis by simp
qed

lemma DeleteRole_endpoint_effect:
  assumes "DeleteRole_endpoint ce ctx i w = (r, w')" and "px_tenant ctx = Some t"
  shows "catalog_effect (px_role ctx) t (tables w) (tables w')"
proof -
  obtain x w1 where m: "DeleteRole (ce_now ce) i t (CanSeePlatformInternals (px_role ctx)) w = (x, w1)" by fastforce
  have "tables w' = tables w1"
    using assms m
    by (auto simp: DeleteRole_endpoint_def getTenantID_def DeleteRole_handler_def op_try_cases
        dest!: read_onlyD [OF read_only_lists(5)] split: if_splits)
  with m catalog_exec_effect [of "px_role ctx" t w "ce_now ce" "ReqDeleteRole i"] show ?thesis by simp
qed

lemma handler_effect:
  assumes "catalog_handle ce col q ctx w = (r, w')" and t: "px_tenant ctx = Some t"
  shows "catalog_effect (px_role ctx) t (tables w) (tables w')"
proof (cases q)
  case (CqCreateRole b)
  show ?thesis
  proof (cases "\<exists>req. b = Some req \<and> rq_Name req \<noteq> []")
    case True
    with assms CqCreateRole show ?thesis
      by (auto simp: CreateRole_handler_def getTenantID_def
          intro: try_effect [of _ _ _ _ _ _ "ce_now ce" _ _ "ReqCreateRole (ce_random ce) (rq_Name (the b)) (rq_Description (the b)) (rq_Permissions (the b))"])
  qed (use assms CqCreateRole in \<open>auto simp: CreateRole_handler_def getTenantID_def catalog_effect.none split: option.splits\<close>)
next
  case (CqCreatePermission b)
  with assms show ?thesis
    by (cases b) (auto simp: CreatePermission_handler_def getTenantID_def catalog_effect.none
        intro: try_effect [of _ _ _ _ _ _ "ce_now ce" _ _ "ReqCreatePermission (ce_newID ce) (pq_Name (the b)) (pq_Section (the b)) (pq_Description (the b))"])
next
  case (CqUpdatePermission i b)
  with assms show ?thesis
    by (cases b) (auto simp: UpdatePermission_handler_def getTenantID_def catalog_effect.none
        intro: try_effect [of _ _ _ _ _ _ "ce_now ce" _ _ "ReqUpdatePermission i (pq_Name (the b)) (pq_Section (the b)) (pq_Description (the b))"])
next
  case (CqDeletePermission i)
  with assms show ?thesis
    by (auto simp: DeletePermission_handler_def getTenantID_def intro: try_effect [of _ _ _ _ _ _ "ce_now ce" _ _ "ReqDeletePermission i"])
next
  case (CqUpdateRole i b)
  with assms show ?thesis by (auto intro: UpdateRole_endpoint_effect)
next
  case (CqDeleteRole i)
  with assms show ?thesis by (auto intro: DeleteRole_endpoint_effect)
qed (use assms in \<open>auto simp: ListRoles_handler_def GetRole_handler_def ListPermissions_handler_def GetPermission_handler_def
  getTenantID_def catalog_effect.none dest!: try_reads [OF _ read_only_lists(1)] try_reads [OF _ read_only_lists(2)]
  try_reads [OF _ read_only_lists(3)] try_reads [OF _ read_only_lists(4)]\<close>)

lemma handler_reads:
  assumes "catalog_handle ce col q ctx w = (r, w')" and "gates (catalog_route q) = []"
  shows "tables w' = tables w"
  using assms gates_catalog_route [of q] catalog_gates
  by (cases q) (auto simp: ListRoles_handler_def GetRole_handler_def ListPermissions_handler_def GetPermission_handler_def
      getTenantID_def dest!: try_reads [OF _ read_only_lists(1)] try_reads [OF _ read_only_lists(2)]
      try_reads [OF _ read_only_lists(3)] try_reads [OF _ read_only_lists(4)] split: option.splits)

lemma handler_no_tenant:
  assumes "catalog_handle ce col q ctx w = (r, w')" and "px_tenant ctx = None"
  shows "w' = w"
  using assms by (cases q) (auto simp: ListRoles_handler_def GetRole_handler_def CreateRole_handler_def UpdateRole_endpoint_def
      DeleteRole_endpoint_def ListPermissions_handler_def GetPermission_handler_def CreatePermission_handler_def
      UpdatePermission_handler_def DeletePermission_handler_def getTenantID_def)


section \<open>What the middlewares leave\<close>

definition steady :: "iam_db \<Rightarrow> iam_db \<Rightarrow> bool" where
  "steady d d' \<longleftrightarrow> roles d' = roles d \<and> permissions d' = permissions d \<and> (account_wf d \<longrightarrow> account_wf d')"

lemma steady_refl [simp]: "steady d d"
  by (simp add: steady_def)

lemma steady_trans: "steady d d1 \<Longrightarrow> steady d1 d2 \<Longrightarrow> steady d d2"
  by (simp add: steady_def)

lemma Upsert_catalog:
  "UpsertBySupabaseID now newID sub email w = (r, w') \<Longrightarrow>
     roles (tables w') = roles (tables w) \<and> permissions (tables w') = permissions (tables w)"
  by (erule Upsert_cases) auto

lemma Activate_catalog:
  assumes "ActivatePendingInvitations now fresh email uid w = (r, w')"
  shows "roles (tables w') = roles (tables w) \<and> permissions (tables w') = permissions (tables w)"
  using assms
proof (cases rule: Activate_cases)
  case (1 d)
  from activation_frame [OF 1(1)] 1(2) show ?thesis by auto
qed

lemma JWTAuth_steady:
  assumes "JWTAuth verify now newID fresh header w = (g, w')"
  shows "steady (tables w) (tables w')"
proof -
  have "roles (tables w') = roles (tables w) \<and> permissions (tables w') = permissions (tables w)"
    using assms by (cases rule: JWTAuth_cases) (auto dest!: Upsert_catalog Activate_catalog)
  with JWTAuth_wf [of w verify now newID fresh header] assms show ?thesis by (simp add: steady_def)
qed

lemma finish_context_tables: "finish_context t r w = (g, w') \<Longrightarrow> tables w' = tables w"
  by (auto simp: finish_context_def loadRolePermissions_def split: prod.splits sum.splits if_splits dest!: query_dbD)

lemma TenantFromHeader_tables: "TenantFromHeader h u w = (g, w') \<Longrightarrow> tables w' = tables w"
  by (auto simp: TenantFromHeader_def split: prod.splits sum.splits option.splits operator_err.splits
      dest!: query_dbD resolvePlatformOperator_tables finish_context_tables)

lemma ResolveTenant_tables: "ResolveTenantAndCheckMembership slug u w = (g, w') \<Longrightarrow> tables w' = tables w"
  by (auto simp: ResolveTenantAndCheckMembership_def
      split: prod.splits sum.splits option.splits operator_err.splits pg_err.splits if_splits
      dest!: query_dbD resolvePlatformOperator_tables finish_context_tables)

lemma ask_db_steady:
  assumes "ask_db m f s = (g, s')" and "\<And>x w. m (po_db s) = (x, w) \<Longrightarrow> steady (tables (po_db s)) (tables w)"
  shows "steady (tables (po_db s)) (tables (po_db s'))"
  using assms by (auto simp: ask_db_def split: prod.splits gate.splits)

lemma middleware_steady:
  assumes "run_middleware env rq rt m ctx s = (g, s')"
  shows "steady (tables (po_db s)) (tables (po_db s'))"
proof (cases m)
  case MwJWTAuth
  with assms show ?thesis by (auto elim!: ask_db_steady intro: JWTAuth_steady)
next
  case MwTenantFromHeader
  with assms show ?thesis
    by (auto elim!: ask_db_steady dest!: TenantFromHeader_tables simp del: split_paired_All split: if_splits)
next
  case MwResolveTenant
  with assms show ?thesis by (auto elim!: ask_db_steady dest!: ResolveTenant_tables)
qed (use assms in \<open>auto split: if_splits gate.splits prod.splits option.splits\<close>)

lemma chain_steady:
  "run_chain env rq rt ms ctx s = (g, s') \<Longrightarrow> steady (tables (po_db s)) (tables (po_db s'))"
proof (induction ms arbitrary: ctx s)
  case (Cons m ms)
  obtain x s1 where m: "run_middleware env rq rt m ctx s = (x, s1)" by fastforce
  from Cons(2) m Cons(1) [of _ s1] show ?case
    by (cases x) (auto intro: middleware_steady [OF m] steady_trans [OF middleware_steady [OF m]])
qed simp

lemma admit_steady: "admit env rq rt s = (g, s') \<Longrightarrow> steady (tables (po_db s)) (tables (po_db s'))"
  by (simp add: admit_def chain_steady)

section \<open>Tables of accounts and catalogs\<close>

definition portal_wf :: "iam_db \<Rightarrow> bool" where
  "portal_wf d \<longleftrightarrow> catalog_wf d \<and> account_wf d"

lemma steady_portal_wf: "steady d d' \<Longrightarrow> portal_wf d \<Longrightarrow> portal_wf d'"
  by (simp add: portal_wf_def catalog_wf_def steady_def role_limit_def custom_perms_known_def perm_known_def account_wf_def)

lemma steady_carries: "steady d d' \<Longrightarrow> custom_carries d' t p = custom_carries d t p"
  by (simp add: steady_def custom_carries_def)

lemma steady_system: "steady d d' \<Longrightarrow> perm_system d' p = perm_system d p"
  by (simp add: steady_def perm_system_def)

lemma role_ids_update: "(\<And>r. ro_ID (f r) = ro_ID r) \<Longrightarrow> ro_ID ` set (update_where h f rs) = ro_ID ` set rs"
  by (metis list.set_map map_update_where_inv)

lemma catalog_effect_accounts:
  assumes "catalog_effect ctx t d d'"
  shows "users d' = users d \<and> tenants d' = tenants d \<and> invitations d' = invitations d \<and> ro_ID ` set (roles d) \<subseteq> ro_ID ` set (roles d')"
  using assms by (induction rule: catalog_effect.induct) (auto simp: erase_permission_def role_ids_update role_revision_def)

lemma catalog_effect_portal_wf: "catalog_effect ctx t d d' \<Longrightarrow> portal_wf d \<Longrightarrow> portal_wf d'"
  using catalog_effect_wf [of ctx t d d'] catalog_effect_accounts [of ctx t d d']
  by (auto simp: portal_wf_def account_wf_def invitations_wf_def users_wf_def catalog_wf_def)

text \<open>The caller of a request: who the database says he is, and what it says he may do.\<close>

definition acts_as :: "portal_env \<Rightarrow> portal_request \<Rightarrow> catalog_request \<Rightarrow> portal \<Rightarrow> uuid \<Rightarrow> role_context \<Rightarrow> bool" where
  "acts_as env rq q s t rc \<longleftrightarrow>
     (\<exists>ctx s1 token sub email (usr :: domain_user). admit env rq (catalog_route q) s = (Pass ctx, s1) \<and>
        pr_authorization rq = ''Bearer '' @ token \<and> pe_verify env token = Inr (Some (sub, email)) \<and> dm_SupabaseUserID usr = sub \<and>
        px_tenant ctx = Some t \<and> px_role ctx = Some rc \<and>
        (member_role (tables (po_db s1)) (dm_ID usr) t (rc_Name rc) \<or> operator_role (tables (po_db s1)) (dm_ID usr) (rc_Name rc)) \<and>
        context_of_role (tables (po_db s1)) rc \<and> set (gates (catalog_route q)) \<subseteq> set (rc_Permissions rc))"

lemma admit_acts_as:
  assumes "admit env rq (catalog_route q) s = (Pass ctx, s1)"
  obtains t rc where "px_tenant ctx = Some t" and "px_role ctx = Some rc" and "acts_as env rq q s t rc"
proof (rule admit_v1 [OF catalog_route_v1 assms])
  fix usr w1 w2
  assume jwt: "JWTAuth (pe_verify env) (pe_now env) (pe_newID env) (pe_fresh env) (pr_authorization rq) (po_db s) = (Pass usr, w1)"
    and w2: "po_db s1 = w2"
    and "isExemptFromTenant (rt_path (catalog_route q)) \<and> w2 = w1 \<or>
      (\<exists>h t rc. TenantFromHeader h (Some (dm_ID usr)) w1 = (Pass (t, rc), w2) \<and> px_tenant ctx = Some t \<and> px_role ctx = Some rc)"
    and gate: "\<And>p. p \<in> set (gates (catalog_route q)) \<Longrightarrow> Can (px_role ctx) p = Inr ()"
  then obtain h t rc where ten: "TenantFromHeader h (Some (dm_ID usr)) w1 = (Pass (t, rc), w2)"
    and px: "px_tenant ctx = Some t" "px_role ctx = Some rc"
    using catalog_route_tenant by blast
  from ten have role: "member_role (tables w2) (dm_ID usr) t (rc_Name rc) \<or> operator_role (tables w2) (dm_ID usr) (rc_Name rc)"
    "context_of_role (tables w2) rc" by (elim TenantFromHeader_Pass, auto)+
  have "set (gates (catalog_route q)) \<subseteq> set (rc_Permissions rc)"
    using gate px by (auto dest: Can_held)
  moreover from JWTAuth_sound [OF jwt] obtain token sub email where "pr_authorization rq = ''Bearer '' @ token"
    "pe_verify env token = Inr (Some (sub, email))" "dm_SupabaseUserID usr = sub" by blast
  ultimately have "acts_as env rq q s t rc" unfolding acts_as_def using assms px role w2 by blast
  with px show thesis by (rule that)
qed

text \<open>One request: nothing, or an effect on the catalog in the name of the role of its caller.\<close>

lemma serve_cases:
  assumes "catalog_serve col env ce rq q s = (ans, s')" and "portal_wf (tables (po_db s))"
  obtains (quiet) "steady (tables (po_db s)) (tables (po_db s'))"
    | (effect) d t rc where "steady (tables (po_db s)) d" and "portal_wf d" and "acts_as env rq q s t rc"
        and "catalog_effect (Some rc) t d (tables (po_db s'))" and "gates (catalog_route q) = [''perm_users_manage'']"
proof -
  obtain g s1 where adm: "admit env rq (catalog_route q) s = (g, s1)" by fastforce
  note st = admit_steady [OF adm]
  show thesis
  proof (cases g)
    case (Abort code msg)
    with assms(1) adm st show thesis by (intro quiet) (simp add: catalog_serve_def)
  next
    case (Pass ctx)
    with adm obtain t rc where px: "px_tenant ctx = Some t" "px_role ctx = Some rc" and act: "acts_as env rq q s t rc"
      using admit_acts_as by metis
    obtain r w where h: "catalog_handle ce col q ctx (po_db s1) = (r, w)" by fastforce
    with assms(1) adm Pass have s': "po_db s' = w" by (auto simp: catalog_serve_def)
    show thesis
    proof (cases "gates (catalog_route q) = []")
      case True
      with handler_reads [OF h] s' st show thesis by (intro quiet) simp
    next
      case False
      then have "gates (catalog_route q) = [''perm_users_manage'']"
        using gates_catalog_route [of q] by (cases q) (auto simp: catalog_gates)
      with effect [OF st steady_portal_wf [OF st assms(2)] act] handler_effect [OF h px(1)] px(2) s' show thesis by simp
    qed
  qed
qed

lemma serve_portal_wf:
  assumes "portal_wf (tables (po_db s))"
  shows "portal_wf (tables (po_db (snd (catalog_serve col env ce rq q s))))"
proof -
  obtain ans s' where r: "catalog_serve col env ce rq q s = (ans, s')" by fastforce
  from r assms show ?thesis
    by (cases rule: serve_cases) (auto simp: r intro: steady_portal_wf [OF _ assms] catalog_effect_portal_wf)
qed

lemma portal_run_wf: "portal_wf (tables (po_db s)) \<Longrightarrow> portal_wf (tables (po_db (portal_run col es s)))"
  by (induction col es s rule: portal_run.induct) (simp_all add: serve_portal_wf)

lemma holds_in_context: "holds_permission (Some rc) p \<longleftrightarrow> rc_Name rc = ''super_admin'' \<or> p \<in> set (rc_Permissions rc)"
  by (auto simp: holds_permission_def CanSeePlatformInternals_def RoleFromContext_def RoleContextFromContext_def)

lemma serve_system:
  assumes "catalog_serve col env ce rq q s = (ans, s')" and "portal_wf (tables (po_db s))"
  shows "perm_system (tables (po_db s')) p = perm_system (tables (po_db s)) p"
  using assms by (cases rule: serve_cases) (auto simp: steady_system catalog_effect_system)

lemma serve_carries:
  assumes "catalog_serve col env ce rq q s = (ans, s')" and "portal_wf (tables (po_db s))"
    and "perm_system (tables (po_db s)) p" and "\<not> custom_carries (tables (po_db s)) t p" and "custom_carries (tables (po_db s')) t p"
  shows "\<exists>rc. acts_as env rq q s t rc \<and> ''perm_users_manage'' \<in> set (gates (catalog_route q)) \<and>
    (rc_Name rc = ''super_admin'' \<or> p \<in> set (rc_Permissions rc))"
  using assms(1,2)
proof (cases rule: serve_cases)
  case quiet
  with assms(4,5) show ?thesis by (simp add: steady_carries)
next
  case (effect d t' rc)
  have "t = t' \<and> holds_permission (Some rc) p"
    using catalog_effect_carries [OF effect(4)] effect(1,2) assms(3-5)
    by (simp add: portal_wf_def steady_carries steady_system)
  with effect(3,5) show ?thesis by (auto simp: holds_in_context)
qed

section \<open>Properties\<close>

text \<open>C19. No privilege escalation, over whole requests: whatever requests to the endpoints of roles and permissions come
  in, of any callers, and whatever statements fail, if the custom roles of a tenant carry a permission of
  the system that none of them carried before, then one of the requests came with a verified token of a
  user whom the database gave, at that time, a role in the tenant (as a member, or as an operator of the
  platform) with perm_users_manage and that permission, or the role of the super admin.\<close>

theorem api_no_escalation:
  assumes "portal_wf (tables (po_db s))" and "perm_system (tables (po_db s)) p"
    and "\<not> custom_carries (tables (po_db s)) t p" and "custom_carries (tables (po_db (portal_run col es s))) t p"
  shows "\<exists>before env ce rq q after rc. es = before @ (env, ce, rq, q) # after \<and> acts_as env rq q (portal_run col before s) t rc \<and>
    ''perm_users_manage'' \<in> set (rc_Permissions rc) \<and> (rc_Name rc = ''super_admin'' \<or> p \<in> set (rc_Permissions rc))"
  using assms
proof (induction es arbitrary: s)
  case (Cons e es)
  obtain env ce rq q where e: "e = (env, ce, rq, q)" by (cases e)
  obtain ans s1 where r: "catalog_serve col env ce rq q s = (ans, s1)" by fastforce
  have wf: "portal_wf (tables (po_db s1))" using serve_portal_wf [OF Cons(2), of col env ce rq q] r by simp
  show ?case
  proof (cases "custom_carries (tables (po_db s1)) t p")
    case True
    from serve_carries [OF r Cons(2-4) True] obtain rc where rc: "acts_as env rq q s t rc"
      "''perm_users_manage'' \<in> set (gates (catalog_route q))" "rc_Name rc = ''super_admin'' \<or> p \<in> set (rc_Permissions rc)" by blast
    then have "''perm_users_manage'' \<in> set (rc_Permissions rc)" by (auto simp: acts_as_def)
    with rc(1,3) e show ?thesis by (intro exI [of _ "[]"]) auto
  next
    case False
    have "perm_system (tables (po_db s1)) p" using serve_system [OF r Cons(2)] Cons(3) by simp
    from Cons(1) [OF wf this False] Cons(5) e r obtain before env' ce' rq' q' after rc where
      "es = before @ (env', ce', rq', q') # after" "acts_as env' rq' q' (portal_run col before s1) t rc"
      "''perm_users_manage'' \<in> set (rc_Permissions rc)" "rc_Name rc = ''super_admin'' \<or> p \<in> set (rc_Permissions rc)" by auto
    with e r show ?thesis by (intro exI [of _ "e # before"]) auto
  qed
qed simp


section \<open>Instances\<close>

text \<open>The admin of the client gives a new role of his tenant the permission he holds himself.\<close>

definition ready_admin :: portal where
  "ready_admin = \<lparr>po_db = live (two_tenants\<lparr>
     users := [user_sample 10 ''a'', (user_sample 20 ''b'')\<lparr>us_supabase_user_id := Some ''s2''\<rparr>],
     permissions := [perm_row ''perm_users_manage'']\<rparr>), po_buckets = (\<lambda>_. None)\<rparr>"

definition catalog_env_sample :: catalog_env where
  "catalog_env_sample = \<lparr>ce_now = 5, ce_newID = ''p'', ce_random = Some ''abc'', ce_format = (\<lambda>_. ''t'')\<rparr>"

definition clerk :: catalog_request where
  "clerk = CqCreateRole (Some \<lparr>rq_Name = ''Clerk'', rq_Description = [], rq_Permissions = [''perm_users_manage'']\<rparr>)"

lemma ready_admin_wf: "portal_wf (tables (po_db ready_admin))"
  by (simp add: portal_wf_def catalog_wf_def account_wf_def users_wf_def invitations_wf_def iam_wf_defs ready_admin_def
      two_tenants_def samples perm_row_def role_names_unique_def role_limit_def custom_of_def custom_perms_known_def
      tenant_can_use_role_def role_is_global_def is_platform_def)

definition one_clerk :: "portal_event list" where
  "one_clerk = [(env_sample, catalog_env_sample, request_to [], clerk)]"

theorem api_no_escalation_instance:
  "\<exists>s. portal_wf (tables (po_db s)) \<and> custom_carries (tables (po_db (portal_run id one_clerk s))) 2 ''perm_users_manage'' \<and>
     (\<exists>before env ce rq q after rc. one_clerk = before @ (env, ce, rq, q) # after \<and>
        acts_as env rq q (portal_run id before s) 2 rc)"
proof (intro exI [of _ ready_admin] conjI ready_admin_wf)
  show carries: "custom_carries (tables (po_db (portal_run id one_clerk ready_admin))) 2 ''perm_users_manage''"
    by code_simp
  have "perm_system (tables (po_db ready_admin)) ''perm_users_manage''" "\<not> custom_carries (tables (po_db ready_admin)) 2 ''perm_users_manage''"
    by code_simp+
  from api_no_escalation [OF ready_admin_wf this carries]
  show "\<exists>before env ce rq q after rc. one_clerk = before @ (env, ce, rq, q) # after \<and>
        acts_as env rq q (portal_run id before ready_admin) 2 rc" by blast
qed


end
