(* ===== verification/Spec2Isabelle.thy ===== *)
theory Spec2Isabelle
  imports Consumers InvitationFlow Dashboards LogStream Layouts Alarms EdgeApi CatalogApi
begin

text \<open>
  The Embolsadora Cloud API: a multi-tenant HTTP service in Go that takes telemetry batches from
  edge devices into MongoDB, and administers tenants, users, roles, memberships, devices and API keys
  in Postgres, with Redis as a cache. The development models its core under \<open>internal/\<close>.

  \<^bold>\<open>Common ground.\<close> Theory \<open>Prelude\<close> holds the shape of every operation, \<open>oper\<close>: a function from
  the state to an error or a result and the new state; sequencing (\<open>op_bind\<close>), handling of an error
  (\<open>op_try\<close>), and a \<open>world\<close>: the tables, a count of the statements executed and the set of
  statements that the database does not answer. A statement (\<open>stmt\<close>, \<open>query\<close>) is atomic; one
  that is not answered leaves the tables as they were and is the error the code makes of it;
  \<open>txn\<close> rolls back on an error. Theorems that do not speak of \<open>live\<close> worlds hold for every
  pattern of such failures. Theory \<open>GoStd\<close> models the parts of Go's standard library in use.
  The clock, fresh UUIDs, random bytes and SHA-256 are arguments.

  \<^bold>\<open>Ingestion.\<close> \<open>Ingest\<close> is \<open>internal/domain/ingest\<close> and \<open>internal/app/ingest\<close>:
  \<open>ValidateEvent\<close> over JSON values and \<open>IngestBatch\<close> with its two loops.
  \<open>MeasurementStore\<close> is \<open>internal/repo/mongo/measurements\<close>, the interface between the two as
  the locale \<open>measurement_store\<close> with both stores as its interpretations, and the properties of the
  whole path: one verdict per event, accounting, identity, delivery, terminal codes.

  \<^bold>\<open>Devices and keys.\<close> \<open>EdgeDevices\<close> is \<open>internal/domain/edge_devices\<close>,
  \<open>internal/repo/pg/edge_devices\<close> and \<open>internal/app/edge_devices\<close>; its histories
  (\<open>edge_step\<close>) interleave operations of any tenants. \<open>ApiKeys\<close> is the key format, the key
  table and the authenticator with its Redis cache; \<open>key_step\<close> adds authentications in flight, lost
  Redis replies and the clock.

  \<^bold>\<open>Identity and access.\<close> \<open>IamDb\<close> holds the tables with their constraints and the platform trigger
  of \<open>migrations/\<close>; \<open>Rbac\<close> the role context and the resolution of the tenant; \<open>Roles\<close>
  and \<open>Permissions\<close> the role and permission catalogs, joined by the locale \<open>role_catalog\<close>;
  \<open>UserRoles\<close> the memberships, \<open>Users\<close> the users of a tenant, \<open>Tenants\<close> the tenants
  with the cascade of their deletion. \<open>catalog_run\<close>, \<open>utr_run\<close>, \<open>user_run\<close> and
  \<open>tenant_run\<close> are histories of requests; their invariants are proved for one request and lifted by
  induction.

  \<^bold>\<open>Accounts and invitations.\<close> \<open>Accounts\<close> is the account of a person who logs in
  (\<open>internal/repo/pg/users/users_repo.go\<close>), the profile of GET /me, the forced password change and
  Supabase's mail service with its two attempts; \<open>Invitations\<close> the invitations, their rate limit, their
  activation and the middleware \<open>JWTAuth\<close>. \<open>Logins\<close> holds what a login may change in the tables, whatever
  statement fails; \<open>InvitationFlow\<close> the creation of an invitation, the way from the invitation into
  the tenant, and the histories of all these operations (\<open>account_run\<close>).

  \<^bold>\<open>The event endpoint.\<close> \<open>RateLimit\<close> is the token bucket that Redis keeps for a key
  (\<open>internal/consumers/ratelimit.go\<close>); \<open>Consumers\<close> composes the middlewares of
  \<open>internal/consumers\<close>, the authenticator, the limiter and the batch service into the endpoint
  that devices post to, and shows what an answer promises about the store.

  \<^bold>\<open>Dashboards.\<close> \<open>Metrics\<close> is the query engine: \<open>internal/domain/metrics\<close> with its
  guardrails and \<open>internal/repo/mongo/metrics\<close> with its pipelines, which are values here; what MongoDB
  makes of them is a parameter. \<open>Dashboards\<close> is the service that spreads a query over goroutines
  and its handlers, over the locale \<open>metrics_repository\<close>, which MongoDB's repository and the one
  that stands in for it both satisfy; tenants are kept apart whatever the collection holds. \<open>Layouts\<close>
  is the layouts a user keeps, in histories of requests and in transactions that overlap
  (\<open>layout_step\<close>).

  \<^bold>\<open>Logs and alarms.\<close> \<open>Logs\<close> is the log of a tenant with its cursors, including their
  base64, and a client that follows them (\<open>log_pages\<close>, with a round for each entry and one more, which is
  enough since every page but the last has an entry); \<open>LogStream\<close> its subscribers, with the arrays behind
  Go's slices as a store and every interleaving of publishers (\<open>hub_step\<close>). \<open>Alarms\<close> is the alarm
  rules and the life of a notification.

  \<^bold>\<open>Routes and endpoints.\<close> \<open>Routing\<close> is the table of the routes of the users
  (\<open>internal/routes/url_mappings.go\<close>, \<open>internal/api/router.go\<close> and the \<open>routes.go\<close> of the
  handlers), each with the chain of middlewares in front of it; \<open>admit\<close> runs a request through a chain.
  It also holds the permissions that \<open>migrations/\<close> give to the roles of the system, against which the
  gates of the routes are checked. \<open>AppOrigin\<close> is the allow-list of the origins for links in mails
  (\<open>internal/platform/apporigin\<close>). \<open>EdgeApi\<close> puts the handlers of devices and API keys behind their
  routes, over the services of \<open>EdgeDevices\<close> and \<open>ApiKeys\<close>, with the HTTP client that calls a
  device; \<open>edge_serve\<close> is a whole request. \<open>CatalogApi\<close> does the same for the handlers of roles and
  permissions, over \<open>Roles\<close> and \<open>Permissions\<close>, in histories of whole requests (\<open>portal_run\<close>) in
  which the database decides the role of each caller.

  \<^bold>\<open>Not modelled.\<close> Log lines and metrics; how Gin finds the route of a request; configuration,
  telemetry and health checks; the proxy of the login and the HTTP client of Supabase but for its
  attempts; most DTOs, which copy fields between Go and JSON; how MongoDB
  runs an aggregation, the full-text search of Postgres, the verification of a token's signature, which are
  parameters.
\<close>

end
